(* ===== verification/Prelude.thy ===== *)
theory Prelude
  imports Main "HOL-Library.Word" "HOL-Library.Multiset" "HOL-Library.Monad_Syntax"
begin

text \<open>
  What every component of the development shares: machine integers of the sizes the C++ uses, the
  standard containers (\<open>std::map\<close>, \<open>std::set\<close>) as sorted lists behind an interface locale each,
  \<open>std::sort\<close> and \<open>std::stable_sort\<close> with a comparator behind a strict-weak-order locale,
  enumerations behind an ordinal locale, and the collections of simplification facts.
\<close>

section \<open>Machine integers and fact collections\<close>

type_synonym u8 = "8 word"
type_synonym u16 = "16 word"
type_synonym u32 = "32 word"
type_synonym u64 = "64 word"

named_theorems container_simps \<open>lookups and updates of ordered maps and sets\<close>
named_theorems codec_simps \<open>decoding what was just encoded\<close>

abbreviation u64_max :: u64 where
  "u64_max \<equiv> - 1"

lemma u64_max_unat: "unat (u64_max) = 2 ^ 64 - 1"
  by (simp add: unsigned_minus_1_eq_mask mask_eq_exp_minus_1)

text \<open>An early return: the first check that reports something decides.\<close>

lemma first_report_None [simp]:
  "(case x of None \<Rightarrow> y | Some r \<Rightarrow> Some r) = None \<longleftrightarrow> x = None \<and> y = None"
  by (cases x) auto

lemma find_snoc:
  "List.find P (xs @ [x]) =
     (case List.find P xs of Some y \<Rightarrow> Some y | None \<Rightarrow> if P x then Some x else None)"
  by (induction xs) auto

lemma option_eqI: "(\<And>x. a = Some x \<longleftrightarrow> b = Some x) \<Longrightarrow> a = b"
  by (cases a; cases b) auto

lemma find_by_key:
  assumes "distinct (map key xs)"
  shows "List.find (\<lambda>x. key x = k) xs = Some x \<longleftrightarrow> x \<in> set xs \<and> key x = k"
proof
  assume "List.find (\<lambda>x. key x = k) xs = Some x"
  then show "x \<in> set xs \<and> key x = k" by (auto simp: find_Some_iff)
next
  assume "x \<in> set xs \<and> key x = k"
  with assms show "List.find (\<lambda>x. key x = k) xs = Some x"
    by (induction xs) auto
qed

lemma find_by_key_perm:
  assumes "distinct (map key xs)" and "mset xs = mset ys"
  shows "List.find (\<lambda>x. key x = k) (rev xs) = List.find (\<lambda>x. key x = k) (rev ys)"
proof -
  have "mset (map key xs) = mset (map key ys)" using assms(2) by simp
  then have "distinct (map key (rev xs))" "distinct (map key (rev ys))"
    using assms(1) by (metis distinct_rev mset_eq_imp_distinct_iff rev_map)+
  moreover have "set (rev xs) = set (rev ys)" using assms(2) by (metis set_mset_mset set_rev)
  ultimately have "List.find (\<lambda>x. key x = k) (rev xs) = Some x \<longleftrightarrow>
      List.find (\<lambda>x. key x = k) (rev ys) = Some x" for x
    by (simp only: find_by_key)
  then show ?thesis by (rule option_eqI)
qed

section \<open>Ordered maps\<close>

text \<open>
  \<open>std::map\<close> as an association list in strictly increasing key order. \<open>map_assign\<close> is
  \<open>m[k] = v\<close>, \<open>map_find\<close> is \<open>find\<close> (\<open>None\<close> for \<open>end()\<close>), \<open>map_erase\<close> is \<open>erase(k)\<close>.
\<close>

definition map_find :: "('k \<times> 'v) list \<Rightarrow> 'k \<Rightarrow> 'v option" where
  "map_find m k = map_of m k"

fun map_assign :: "'k::linorder \<Rightarrow> 'v \<Rightarrow> ('k \<times> 'v) list \<Rightarrow> ('k \<times> 'v) list" where
  "map_assign k v [] = [(k, v)]"
| "map_assign k v (p # m) =
     (if fst p < k then p # map_assign k v m
      else if fst p = k then (k, v) # m
      else (k, v) # p # m)"

definition map_erase :: "'k \<Rightarrow> ('k \<times> 'v) list \<Rightarrow> ('k \<times> 'v) list" where
  "map_erase k m = filter (\<lambda>p. fst p \<noteq> k) m"

definition map_ok :: "('k::linorder \<times> 'v) list \<Rightarrow> bool" where
  "map_ok m \<longleftrightarrow> sorted_wrt (<) (map fst m)"

lemma map_find_Nil [simp]: "map_find [] k = None"
  by (simp add: map_find_def)

lemma map_find_assign: "map_find (map_assign k v m) x = (if x = k then Some v else map_find m x)"
  by (induction m) (auto simp: map_find_def)

lemma keys_map_assign: "fst ` set (map_assign k v m) = insert k (fst ` set m)"
  by (induction m) auto

lemma map_find_erase: "map_find (map_erase k m) x = (if x = k then None else map_find m x)"
  by (induction m) (auto simp: map_find_def map_erase_def)

lemma map_ok_assign: "map_ok m \<Longrightarrow> map_ok (map_assign k v m)"
proof (induction m)
  case Nil
  then show ?case by (simp add: map_ok_def)
next
  case (Cons p m)
  have keys: "fst q = k \<or> fst q \<in> fst ` set m" if "q \<in> set (map_assign k v m)" for q
  proof -
    have "fst q \<in> fst ` set (map_assign k v m)" using that by (rule imageI)
    then show ?thesis by (simp add: keys_map_assign)
  qed
  from Cons keys show ?case
    by (fastforce simp: map_ok_def dest: order_less_trans)
qed

lemma map_ok_Nil [simp]: "map_ok []"
  by (simp add: map_ok_def)

lemma map_ok_erase: "map_ok m \<Longrightarrow> map_ok (map_erase k m)"
  by (induction m) (auto simp: map_ok_def map_erase_def)

lemma map_find_in_set: "map_ok m \<Longrightarrow> map_find m k = Some v \<longleftrightarrow> (k, v) \<in> set m"
proof -
  assume "map_ok m"
  then have "distinct (map fst m)"
    by (simp add: map_ok_def strict_sorted_iff)
  then show ?thesis by (simp add: map_find_def)
qed

lemma map_ext:
  assumes "map_ok m" and "map_ok m'" and "\<And>k. map_find m k = map_find m' k"
  shows "m = m'"
proof -
  have "sorted (map fst m)" "distinct (map fst m)" "sorted (map fst m')" "distinct (map fst m')"
    using assms by (simp_all add: map_ok_def strict_sorted_iff)
  moreover have "map_of m = map_of m'" using assms(3) by (auto simp: map_find_def)
  ultimately show ?thesis
    by (metis Un_absorb distinct_map map_of_inject_set map_sorted_distinct_set_unique)
qed

locale ordered_map =
  fixes mempty :: "'m"
    and massign :: "'k \<Rightarrow> 'v \<Rightarrow> 'm \<Rightarrow> 'm"
    and merase :: "'k \<Rightarrow> 'm \<Rightarrow> 'm"
    and mfind :: "'m \<Rightarrow> 'k \<Rightarrow> 'v option"
    and mok :: "'m \<Rightarrow> bool"
  assumes find_empty: "mfind mempty k = None"
    and find_assign: "mfind (massign k v m) x = (if x = k then Some v else mfind m x)"
    and find_erase: "mfind (merase k m) x = (if x = k then None else mfind m x)"
    and ok_empty: "mok mempty"
    and ok_assign: "mok m \<Longrightarrow> mok (massign k v m)"
    and ok_erase: "mok m \<Longrightarrow> mok (merase k m)"
begin

text \<open>A map filled by \<open>for (x : xs) m[key x] = x\<close> holds the last element with each key.\<close>

lemma find_fold:
  "mfind (fold (\<lambda>x. massign (key x) (val x)) xs m) k =
     (case List.find (\<lambda>x. key x = k) (rev xs) of Some x \<Rightarrow> Some (val x) | None \<Rightarrow> mfind m k)"
  by (induction xs arbitrary: m) (auto simp: find_assign find_snoc split: option.splits)

lemma find_build:
  "mfind (fold (\<lambda>x. massign (key x) (val x)) xs mempty) k =
     map_option val (List.find (\<lambda>x. key x = k) (rev xs))"
  by (simp add: find_fold find_empty split: option.split)

lemma ok_fold: "mok m \<Longrightarrow> mok (fold (\<lambda>x. massign (key x) (val x)) xs m)"
  by (induction xs arbitrary: m) (auto simp: ok_assign)

text \<open>Updates at different keys do not interfere.\<close>

lemma find_assign_other: "x \<noteq> k \<Longrightarrow> mfind (massign k v m) x = mfind m x"
  by (simp add: find_assign)

end

interpretation std_map: ordered_map "[]" map_assign map_erase map_find map_ok
  by unfold_locales
    (simp_all add: map_find_assign map_find_erase map_ok_assign map_ok_erase)

declare std_map.find_assign [container_simps] std_map.find_erase [container_simps]

section \<open>Ordered sets\<close>

text \<open>\<open>std::set\<close> as a strictly increasing list, so that iteration is the list itself.\<close>

fun set_insert :: "'a::linorder \<Rightarrow> 'a list \<Rightarrow> 'a list" where
  "set_insert x [] = [x]"
| "set_insert x (y # ys) =
     (if y < x then y # set_insert x ys else if y = x then y # ys else x # y # ys)"

definition set_ok :: "'a::linorder list \<Rightarrow> bool" where
  "set_ok xs \<longleftrightarrow> sorted_wrt (<) xs"

lemma elems_set_insert [simp]: "set (set_insert x xs) = insert x (set xs)"
  by (induction xs) auto

lemma set_ok_insert: "set_ok xs \<Longrightarrow> set_ok (set_insert x xs)"
proof (induction xs)
  case Nil
  then show ?case by (simp add: set_ok_def)
next
  case (Cons y ys)
  then show ?case by (auto simp: set_ok_def dest: order_less_trans)
qed

locale ordered_set =
  fixes sempty :: "'s"
    and sinsert :: "'a::linorder \<Rightarrow> 's \<Rightarrow> 's"
    and elems :: "'s \<Rightarrow> 'a list"
    and sok :: "'s \<Rightarrow> bool"
  assumes elems_empty: "elems sempty = []"
    and elems_insert: "set (elems (sinsert x s)) = insert x (set (elems s))"
    and sok_empty: "sok sempty"
    and sok_insert: "sok s \<Longrightarrow> sok (sinsert x s)"
    and sok_sorted: "sok s \<Longrightarrow> sorted_wrt (<) (elems s)"
begin

lemma elems_fold: "set (elems (fold sinsert xs s)) = set xs \<union> set (elems s)"
  by (induction xs arbitrary: s) (auto simp: elems_insert)

lemma sok_fold: "sok s \<Longrightarrow> sok (fold sinsert xs s)"
  by (induction xs arbitrary: s) (auto simp: sok_insert)

lemma distinct_elems: "sok s \<Longrightarrow> distinct (elems s)"
  by (auto dest: sok_sorted simp: strict_sorted_iff)

text \<open>Iteration order depends on the elements only, never on the order of insertion.\<close>

lemma elems_unique:
  "sok s \<Longrightarrow> sok t \<Longrightarrow> set (elems s) = set (elems t) \<Longrightarrow> elems s = elems t"
  by (meson sok_sorted strict_sorted_equal)

lemma fold_order_irrelevant:
  assumes "set xs = set ys" and "sok s"
  shows "elems (fold sinsert xs s) = elems (fold sinsert ys s)"
  by (rule elems_unique) (simp_all add: assms sok_fold elems_fold)

end

interpretation std_set: ordered_set "[]" set_insert "\<lambda>s. s" set_ok
  by unfold_locales (simp_all add: set_ok_insert, simp_all add: set_ok_def)

section \<open>Sorting with a comparator\<close>

text \<open>
  \<open>std::stable_sort\<close> with a comparator \<open>lt\<close>. An element is placed before every element that is
  not less than it, so equivalent elements keep their order. \<open>std::sort\<close> may order equivalent
  elements arbitrarily; it is modelled by the same function, and \<open>sort_unique\<close> below shows
  that where no two different elements are equivalent there is one sorted arrangement only.
\<close>

fun sort_place :: "('a \<Rightarrow> 'a \<Rightarrow> bool) \<Rightarrow> 'a \<Rightarrow> 'a list \<Rightarrow> 'a list" where
  "sort_place lt x [] = [x]"
| "sort_place lt x (y # ys) = (if lt y x then y # sort_place lt x ys else x # y # ys)"

fun stable_sort :: "('a \<Rightarrow> 'a \<Rightarrow> bool) \<Rightarrow> 'a list \<Rightarrow> 'a list" where
  "stable_sort lt [] = []"
| "stable_sort lt (x # xs) = sort_place lt x (stable_sort lt xs)"

lemma mset_sort_place [simp]: "mset (sort_place lt x xs) = add_mset x (mset xs)"
  by (induction xs) auto

lemma mset_stable_sort [simp]: "mset (stable_sort lt xs) = mset xs"
  by (induction xs) auto

lemma set_stable_sort [simp]: "set (stable_sort lt xs) = set xs"
  by (metis mset_stable_sort set_mset_mset)

lemma length_stable_sort [simp]: "length (stable_sort lt xs) = length xs"
  by (metis mset_stable_sort size_mset)

lemma stable_sort_eq_Nil [simp]: "stable_sort lt xs = [] \<longleftrightarrow> xs = []"
  by (metis length_0_conv length_stable_sort)

text \<open>
  The contract the C++ library demands of a comparator, on the elements that satisfy \<open>good\<close>
  (floating-point keys satisfy it only when they are not NaN).
\<close>

locale strict_weak_order =
  fixes lt :: "'a \<Rightarrow> 'a \<Rightarrow> bool"
    and good :: "'a \<Rightarrow> bool"
  assumes irrefl: "good a \<Longrightarrow> \<not> lt a a"
    and trans: "\<lbrakk>good a; good b; good c; lt a b; lt b c\<rbrakk> \<Longrightarrow> lt a c"
    and weak: "\<lbrakk>good a; good b; good c; lt a c\<rbrakk> \<Longrightarrow> lt a b \<or> lt b c"
begin

definition leq :: "'a \<Rightarrow> 'a \<Rightarrow> bool" where
  "leq a b \<longleftrightarrow> \<not> lt b a"

lemma asym: "\<lbrakk>good a; good b; lt a b\<rbrakk> \<Longrightarrow> \<not> lt b a"
  using irrefl trans by blast

lemma leq_trans: "\<lbrakk>good a; good b; good c; leq a b; leq b c\<rbrakk> \<Longrightarrow> leq a c"
  unfolding leq_def using weak by blast

lemma place_sorted:
  "\<lbrakk>good x; \<forall>y\<in>set ys. good y; sorted_wrt leq ys\<rbrakk> \<Longrightarrow> sorted_wrt leq (sort_place lt x ys)"
proof (induction ys)
  case Nil
  then show ?case by simp
next
  case (Cons y ys)
  have mem: "set (sort_place lt x ys) = insert x (set ys)"
    by (metis mset_sort_place set_mset_add_mset_insert set_mset_mset)
  show ?case
  proof (cases "lt y x")
    case True
    with Cons have "leq y x" by (auto simp: leq_def dest: asym)
    with Cons True show ?thesis by (auto simp: mem)
  next
    case False
    then have "leq x y" by (simp add: leq_def)
    with Cons.prems have "leq x z" if "z \<in> set ys" for z
      using that leq_trans [of x y z] by auto
    with \<open>leq x y\<close> False Cons.prems show ?thesis by auto
  qed
qed

lemma sorted_stable_sort: "\<forall>x\<in>set xs. good x \<Longrightarrow> sorted_wrt leq (stable_sort lt xs)"
  by (induction xs) (auto intro: place_sorted)

text \<open>The first element of the result is not beaten by any element of the input.\<close>

lemma head_minimal:
  assumes "\<forall>x\<in>set xs. good x" and "stable_sort lt xs = y # ys" and "x \<in> set xs"
  shows "\<not> lt x y"
proof (cases "x = y")
  case True
  with assms show ?thesis by (auto dest: irrefl)
next
  case False
  have "set xs = set (y # ys)" using assms(2) by (metis set_stable_sort)
  with False assms(3) have "x \<in> set ys" by auto
  with sorted_stable_sort [OF assms(1)] assms(2) show ?thesis by (simp add: leq_def)
qed

text \<open>
  Stability: when the input is ordered by \<open>R\<close> (its positions, say), the result is ordered by \<open>lt\<close>
  with ties resolved by \<open>R\<close>.
\<close>

lemma place_stable:
  assumes "good x" and "\<forall>y\<in>set ys. good y" and "\<forall>y\<in>set ys. R x y" and "sorted_wrt leq ys"
    and "sorted_wrt (\<lambda>a b. lt a b \<or> \<not> lt b a \<and> R a b) ys"
  shows "sorted_wrt (\<lambda>a b. lt a b \<or> \<not> lt b a \<and> R a b) (sort_place lt x ys)"
  using assms
proof (induction ys)
  case Nil
  then show ?case by simp
next
  case (Cons y ys)
  have mem: "set (sort_place lt x ys) = insert x (set ys)"
    by (metis mset_sort_place set_mset_add_mset_insert set_mset_mset)
  show ?case
  proof (cases "lt y x")
    case True
    with Cons show ?thesis by (auto simp: mem)
  next
    case False
    then have "leq x z" if "z \<in> set (y # ys)" for z
      using that Cons.prems leq_trans [of x y z] by (auto simp: leq_def)
    then have "\<not> lt z x" if "z \<in> set (y # ys)" for z using that by (auto simp: leq_def)
    with False Cons.prems show ?thesis by auto
  qed
qed

lemma stable_sort_stable:
  assumes "\<forall>x\<in>set xs. good x" and "sorted_wrt R xs"
  shows "sorted_wrt (\<lambda>a b. lt a b \<or> \<not> lt b a \<and> R a b) (stable_sort lt xs)"
  using assms
proof (induction xs)
  case (Cons x xs)
  then show ?case by (auto intro!: place_stable sorted_stable_sort)
qed simp

text \<open>
  With no two different equivalent elements, every sorted arrangement of the same elements is the
  one computed here: the outcome of an unstable sort is determined too.
\<close>

lemma sort_unique:
  assumes good: "\<forall>x\<in>set xs. good x"
    and anti: "\<forall>x\<in>set xs. \<forall>y\<in>set xs. leq x y \<longrightarrow> leq y x \<longrightarrow> x = y"
    and perm: "mset ys = mset xs" and sorted: "sorted_wrt leq ys"
  shows "ys = stable_sort lt xs"
proof -
  have "ys = zs" if "mset ys = mset zs" "sorted_wrt leq ys" "sorted_wrt leq zs"
    "\<forall>x\<in>set ys. good x" "\<forall>x\<in>set ys. \<forall>y\<in>set ys. leq x y \<longrightarrow> leq y x \<longrightarrow> x = y" for ys zs
    using that
  proof (induction ys arbitrary: zs)
    case Nil
    then show ?case by simp
  next
    case (Cons y ys)
    then obtain z zs' where zs: "zs = z # zs'" by (cases zs) auto
    have same: "set (y # ys) = set zs" using Cons.prems(1) by (metis set_mset_mset)
    have gy: "good y" using Cons.prems(4) by simp
    have "leq y z" using Cons.prems(2) same zs irrefl [OF gy] by (auto simp: leq_def)
    moreover have "leq z y" using Cons.prems(3) same zs irrefl [OF gy] by (auto simp: leq_def)
    ultimately have "y = z" using Cons.prems(5) same zs by auto
    with Cons zs show ?case by auto
  qed
  moreover have "set ys = set xs" using perm by (metis set_mset_mset)
  ultimately show ?thesis
    using assms sorted_stable_sort [OF good] by simp
qed

end

section \<open>Enumerations\<close>

text \<open>
  \<open>static_cast<std::uint8_t>(e)\<close> and back: the ordinal of an enumerator is its position in the list
  of all enumerators, and a byte within range casts to the enumerator at that position.
\<close>

fun enum_index :: "'a list \<Rightarrow> 'a \<Rightarrow> nat" where
  "enum_index [] x = 0"
| "enum_index (y # ys) x = (if x = y then 0 else Suc (enum_index ys x))"

definition enum_at :: "'a list \<Rightarrow> nat \<Rightarrow> 'a option" where
  "enum_at xs n = (if n < length xs then Some (xs ! n) else None)"

lemma enum_index_nth: "x \<in> set xs \<Longrightarrow> enum_index xs x < length xs \<and> xs ! enum_index xs x = x"
  by (induction xs) auto

lemma enum_index_of_nth: "distinct xs \<Longrightarrow> n < length xs \<Longrightarrow> enum_index xs (xs ! n) = n"
proof (induction xs arbitrary: n)
  case Nil
  then show ?case by simp
next
  case (Cons x xs)
  then show ?case by (cases n) auto
qed

locale enumeration =
  fixes enumerators :: "'a list"
  assumes complete: "x \<in> set enumerators"
    and distinct_enumerators: "distinct enumerators"
    and byte_sized: "length enumerators \<le> 256"
begin

lemma index_bound: "enum_index enumerators x < length enumerators"
  using enum_index_nth [OF complete] by blast

lemma at_index: "enum_at enumerators (enum_index enumerators x) = Some x"
  using enum_index_nth [OF complete] by (simp add: enum_at_def)

lemma index_at: "enum_at enumerators n = Some x \<Longrightarrow> enum_index enumerators x = n"
  by (auto simp: enum_at_def enum_index_of_nth distinct_enumerators split: if_splits)

lemma index_inject: "enum_index enumerators x = enum_index enumerators y \<longleftrightarrow> x = y"
  by (metis at_index option.inject)

lemma index_byte: "unat (of_nat (enum_index enumerators x) :: u8) = enum_index enumerators x"
proof -
  have "enum_index enumerators x < 256"
    using index_bound [of x] byte_sized by linarith
  then show ?thesis by (simp add: unat_of_nat)
qed

lemma at_byte: "enum_at enumerators (unat (of_nat (enum_index enumerators x) :: u8)) = Some x"
  by (simp add: index_byte at_index)

end

text \<open>An enumeration with printed names: what \<open>toString\<close> and \<open>...FromString\<close> promise each other.\<close>

locale named_enumeration =
  fixes print :: "'a \<Rightarrow> string"
    and parse :: "string \<Rightarrow> 'a option"
  assumes parse_print: "parse (print x) = Some x"
    and print_parse: "parse s = Some x \<Longrightarrow> s = print x"
begin

lemma print_inject: "print x = print y \<longleftrightarrow> x = y"
  by (metis option.inject parse_print)

lemma parse_iff: "parse s = Some x \<longleftrightarrow> s = print x"
  using parse_print print_parse by blast

lemma parse_None_iff: "parse s = None \<longleftrightarrow> s \<notin> range print"
  by (metis not_None_eq parse_iff rangeE rangeI)

end

section \<open>Decimal numerals\<close>

text \<open>\<open>std::to_string\<close> of an unsigned integer.\<close>

definition digit_char :: "nat \<Rightarrow> char" where
  "digit_char d = char_of (48 + d)"

fun nat_str :: "nat \<Rightarrow> string" where
  "nat_str n = (if n < 10 then [digit_char n] else nat_str (n div 10) @ [digit_char (n mod 10)])"

declare nat_str.simps [simp del]

definition u64_str :: "u64 \<Rightarrow> string" where
  "u64_str v = nat_str (unat v)"

lemma nat_str_nonempty: "nat_str n \<noteq> []"
  by (subst nat_str.simps) simp

lemma of_char_digit: "d < 10 \<Longrightarrow> (of_char (digit_char d) :: nat) = 48 + d"
  by (simp add: digit_char_def)

end
