(* ===== verification/Core_Types.thy ===== *)
theory Core_Types
  imports Prelude
begin

text \<open>
  The headers under \<open>include/communication_planner/core\<close>: the enumerations with their printed names
  (\<open>enums.hpp\<close>, \<open>enums_impl.hpp\<close>, \<open>provenance.hpp\<close>), the 64-bit identities and generations
  (\<open>identifiers.hpp\<close>, \<open>generation.hpp\<close>) and the checked arithmetic of \<open>units.hpp\<close>. Enumerators keep
  the names of the source and are written with their type in front, as C++ writes
  \<open>EndpointKind::UNKNOWN\<close>.
\<close>

section \<open>Enumerations\<close>

subsection \<open>EndpointKind\<close>

datatype EndpointKind =
  GPU_DEVICE | CPU_MEMORY | PINNED_HOST_MEMORY | NUMA_MEMORY | NIC | STORAGE | PROCESS
    | SERVICE | CACHE | CHECKPOINT | MODEL_RESIDENCY | STATE_LOCATION | UNKNOWN

definition all_EndpointKind :: "EndpointKind list" where
  "all_EndpointKind =
    [EndpointKind.GPU_DEVICE, EndpointKind.CPU_MEMORY, EndpointKind.PINNED_HOST_MEMORY,
     EndpointKind.NUMA_MEMORY, EndpointKind.NIC, EndpointKind.STORAGE, EndpointKind.PROCESS,
     EndpointKind.SERVICE, EndpointKind.CACHE, EndpointKind.CHECKPOINT,
     EndpointKind.MODEL_RESIDENCY, EndpointKind.STATE_LOCATION, EndpointKind.UNKNOWN]"

primrec toString_EndpointKind :: "EndpointKind \<Rightarrow> string" where
  "toString_EndpointKind EndpointKind.GPU_DEVICE = ''GPU_DEVICE''"
| "toString_EndpointKind EndpointKind.CPU_MEMORY = ''CPU_MEMORY''"
| "toString_EndpointKind EndpointKind.PINNED_HOST_MEMORY = ''PINNED_HOST_MEMORY''"
| "toString_EndpointKind EndpointKind.NUMA_MEMORY = ''NUMA_MEMORY''"
| "toString_EndpointKind EndpointKind.NIC = ''NIC''"
| "toString_EndpointKind EndpointKind.STORAGE = ''STORAGE''"
| "toString_EndpointKind EndpointKind.PROCESS = ''PROCESS''"
| "toString_EndpointKind EndpointKind.SERVICE = ''SERVICE''"
| "toString_EndpointKind EndpointKind.CACHE = ''CACHE''"
| "toString_EndpointKind EndpointKind.CHECKPOINT = ''CHECKPOINT''"
| "toString_EndpointKind EndpointKind.MODEL_RESIDENCY = ''MODEL_RESIDENCY''"
| "toString_EndpointKind EndpointKind.STATE_LOCATION = ''STATE_LOCATION''"
| "toString_EndpointKind EndpointKind.UNKNOWN = ''UNKNOWN''"

definition endpointKindFromString :: "string \<Rightarrow> EndpointKind option" where
  "endpointKindFromString s =
     (if s = ''GPU_DEVICE'' then Some EndpointKind.GPU_DEVICE
      else if s = ''CPU_MEMORY'' then Some EndpointKind.CPU_MEMORY
      else if s = ''PINNED_HOST_MEMORY'' then Some EndpointKind.PINNED_HOST_MEMORY
      else if s = ''NUMA_MEMORY'' then Some EndpointKind.NUMA_MEMORY
      else if s = ''NIC'' then Some EndpointKind.NIC
      else if s = ''STORAGE'' then Some EndpointKind.STORAGE
      else if s = ''PROCESS'' then Some EndpointKind.PROCESS
      else if s = ''SERVICE'' then Some EndpointKind.SERVICE
      else if s = ''CACHE'' then Some EndpointKind.CACHE
      else if s = ''CHECKPOINT'' then Some EndpointKind.CHECKPOINT
      else if s = ''MODEL_RESIDENCY'' then Some EndpointKind.MODEL_RESIDENCY
      else if s = ''STATE_LOCATION'' then Some EndpointKind.STATE_LOCATION
      else if s = ''UNKNOWN'' then Some EndpointKind.UNKNOWN
      else None)"

interpretation EndpointKind_enum: enumeration all_EndpointKind
proof unfold_locales
  show "x \<in> set all_EndpointKind" for x
    by (cases x) (simp_all add: all_EndpointKind_def)
qed (simp_all add: all_EndpointKind_def)

interpretation EndpointKind_names: named_enumeration toString_EndpointKind endpointKindFromString
proof unfold_locales
  show "endpointKindFromString (toString_EndpointKind x) = Some x" for x
    by (cases x) (simp_all add: endpointKindFromString_def)
  show "s = toString_EndpointKind x" if "endpointKindFromString s = Some x" for s x
    using that by (auto simp add: endpointKindFromString_def split: if_splits)
qed

subsection \<open>LinkKind\<close>

datatype LinkKind =
  HOST_MEMORY_PATH | NUMA_PATH | PCIE_PATH | GPU_HOST_PATH | GPU_PEER_PATH | NVLINK_CLASS_PATH
    | NIC_PATH | LOOPBACK_TCP | NETWORK_PATH | STORAGE_PATH | SHARED_MEMORY_PATH
    | SOFTWARE_RELAY | COMPOSITE | UNKNOWN

definition all_LinkKind :: "LinkKind list" where
  "all_LinkKind =
    [LinkKind.HOST_MEMORY_PATH, LinkKind.NUMA_PATH, LinkKind.PCIE_PATH, LinkKind.GPU_HOST_PATH,
     LinkKind.GPU_PEER_PATH, LinkKind.NVLINK_CLASS_PATH, LinkKind.NIC_PATH,
     LinkKind.LOOPBACK_TCP, LinkKind.NETWORK_PATH, LinkKind.STORAGE_PATH,
     LinkKind.SHARED_MEMORY_PATH, LinkKind.SOFTWARE_RELAY, LinkKind.COMPOSITE,
     LinkKind.UNKNOWN]"

primrec toString_LinkKind :: "LinkKind \<Rightarrow> string" where
  "toString_LinkKind LinkKind.HOST_MEMORY_PATH = ''HOST_MEMORY_PATH''"
| "toString_LinkKind LinkKind.NUMA_PATH = ''NUMA_PATH''"
| "toString_LinkKind LinkKind.PCIE_PATH = ''PCIE_PATH''"
| "toString_LinkKind LinkKind.GPU_HOST_PATH = ''GPU_HOST_PATH''"
| "toString_LinkKind LinkKind.GPU_PEER_PATH = ''GPU_PEER_PATH''"
| "toString_LinkKind LinkKind.NVLINK_CLASS_PATH = ''NVLINK_CLASS_PATH''"
| "toString_LinkKind LinkKind.NIC_PATH = ''NIC_PATH''"
| "toString_LinkKind LinkKind.LOOPBACK_TCP = ''LOOPBACK_TCP''"
| "toString_LinkKind LinkKind.NETWORK_PATH = ''NETWORK_PATH''"
| "toString_LinkKind LinkKind.STORAGE_PATH = ''STORAGE_PATH''"
| "toString_LinkKind LinkKind.SHARED_MEMORY_PATH = ''SHARED_MEMORY_PATH''"
| "toString_LinkKind LinkKind.SOFTWARE_RELAY = ''SOFTWARE_RELAY''"
| "toString_LinkKind LinkKind.COMPOSITE = ''COMPOSITE''"
| "toString_LinkKind LinkKind.UNKNOWN = ''UNKNOWN''"

definition linkKindFromString :: "string \<Rightarrow> LinkKind option" where
  "linkKindFromString s =
     (if s = ''HOST_MEMORY_PATH'' then Some LinkKind.HOST_MEMORY_PATH
      else if s = ''NUMA_PATH'' then Some LinkKind.NUMA_PATH
      else if s = ''PCIE_PATH'' then Some LinkKind.PCIE_PATH
      else if s = ''GPU_HOST_PATH'' then Some LinkKind.GPU_HOST_PATH
      else if s = ''GPU_PEER_PATH'' then Some LinkKind.GPU_PEER_PATH
      else if s = ''NVLINK_CLASS_PATH'' then Some LinkKind.NVLINK_CLASS_PATH
      else if s = ''NIC_PATH'' then Some LinkKind.NIC_PATH
      else if s = ''LOOPBACK_TCP'' then Some LinkKind.LOOPBACK_TCP
      else if s = ''NETWORK_PATH'' then Some LinkKind.NETWORK_PATH
      else if s = ''STORAGE_PATH'' then Some LinkKind.STORAGE_PATH
      else if s = ''SHARED_MEMORY_PATH'' then Some LinkKind.SHARED_MEMORY_PATH
      else if s = ''SOFTWARE_RELAY'' then Some LinkKind.SOFTWARE_RELAY
      else if s = ''COMPOSITE'' then Some LinkKind.COMPOSITE
      else if s = ''UNKNOWN'' then Some LinkKind.UNKNOWN
      else None)"

interpretation LinkKind_enum: enumeration all_LinkKind
proof unfold_locales
  show "x \<in> set all_LinkKind" for x
    by (cases x) (simp_all add: all_LinkKind_def)
qed (simp_all add: all_LinkKind_def)

interpretation LinkKind_names: named_enumeration toString_LinkKind linkKindFromString
proof unfold_locales
  show "linkKindFromString (toString_LinkKind x) = Some x" for x
    by (cases x) (simp_all add: linkKindFromString_def)
  show "s = toString_LinkKind x" if "linkKindFromString s = Some x" for s x
    using that by (auto simp add: linkKindFromString_def split: if_splits)
qed

subsection \<open>Transport\<close>

datatype Transport =
  LOOPBACK_TCP | TCP | UNIX_SOCKET | SHARED_MEMORY | PCIE | NVLINK | GPU_PEER | HOST_MEMORY
    | NETWORK | STORAGE | CUDA | RDMA | UNKNOWN

definition all_Transport :: "Transport list" where
  "all_Transport =
    [Transport.LOOPBACK_TCP, Transport.TCP, Transport.UNIX_SOCKET, Transport.SHARED_MEMORY,
     Transport.PCIE, Transport.NVLINK, Transport.GPU_PEER, Transport.HOST_MEMORY,
     Transport.NETWORK, Transport.STORAGE, Transport.CUDA, Transport.RDMA, Transport.UNKNOWN]"

primrec toString_Transport :: "Transport \<Rightarrow> string" where
  "toString_Transport Transport.LOOPBACK_TCP = ''LOOPBACK_TCP''"
| "toString_Transport Transport.TCP = ''TCP''"
| "toString_Transport Transport.UNIX_SOCKET = ''UNIX_SOCKET''"
| "toString_Transport Transport.SHARED_MEMORY = ''SHARED_MEMORY''"
| "toString_Transport Transport.PCIE = ''PCIE''"
| "toString_Transport Transport.NVLINK = ''NVLINK''"
| "toString_Transport Transport.GPU_PEER = ''GPU_PEER''"
| "toString_Transport Transport.HOST_MEMORY = ''HOST_MEMORY''"
| "toString_Transport Transport.NETWORK = ''NETWORK''"
| "toString_Transport Transport.STORAGE = ''STORAGE''"
| "toString_Transport Transport.CUDA = ''CUDA''"
| "toString_Transport Transport.RDMA = ''RDMA''"
| "toString_Transport Transport.UNKNOWN = ''UNKNOWN''"

definition transportFromString :: "string \<Rightarrow> Transport option" where
  "transportFromString s =
     (if s = ''LOOPBACK_TCP'' then Some Transport.LOOPBACK_TCP
      else if s = ''TCP'' then Some Transport.TCP
      else if s = ''UNIX_SOCKET'' then Some Transport.UNIX_SOCKET
      else if s = ''SHARED_MEMORY'' then Some Transport.SHARED_MEMORY
      else if s = ''PCIE'' then Some Transport.PCIE
      else if s = ''NVLINK'' then Some Transport.NVLINK
      else if s = ''GPU_PEER'' then Some Transport.GPU_PEER
      else if s = ''HOST_MEMORY'' then Some Transport.HOST_MEMORY
      else if s = ''NETWORK'' then Some Transport.NETWORK
      else if s = ''STORAGE'' then Some Transport.STORAGE
      else if s = ''CUDA'' then Some Transport.CUDA
      else if s = ''RDMA'' then Some Transport.RDMA
      else if s = ''UNKNOWN'' then Some Transport.UNKNOWN
      else None)"

interpretation Transport_enum: enumeration all_Transport
proof unfold_locales
  show "x \<in> set all_Transport" for x
    by (cases x) (simp_all add: all_Transport_def)
qed (simp_all add: all_Transport_def)

interpretation Transport_names: named_enumeration toString_Transport transportFromString
proof unfold_locales
  show "transportFromString (toString_Transport x) = Some x" for x
    by (cases x) (simp_all add: transportFromString_def)
  show "s = toString_Transport x" if "transportFromString s = Some x" for s x
    using that by (auto simp add: transportFromString_def split: if_splits)
qed

subsection \<open>RequestShape\<close>

datatype RequestShape =
  POINT_TO_POINT | STAGED | MULTICAST | COLLECTIVE | UNKNOWN

definition all_RequestShape :: "RequestShape list" where
  "all_RequestShape =
    [RequestShape.POINT_TO_POINT, RequestShape.STAGED, RequestShape.MULTICAST,
     RequestShape.COLLECTIVE, RequestShape.UNKNOWN]"

primrec toString_RequestShape :: "RequestShape \<Rightarrow> string" where
  "toString_RequestShape RequestShape.POINT_TO_POINT = ''POINT_TO_POINT''"
| "toString_RequestShape RequestShape.STAGED = ''STAGED''"
| "toString_RequestShape RequestShape.MULTICAST = ''MULTICAST''"
| "toString_RequestShape RequestShape.COLLECTIVE = ''COLLECTIVE''"
| "toString_RequestShape RequestShape.UNKNOWN = ''UNKNOWN''"

definition requestShapeFromString :: "string \<Rightarrow> RequestShape option" where
  "requestShapeFromString s =
     (if s = ''POINT_TO_POINT'' then Some RequestShape.POINT_TO_POINT
      else if s = ''STAGED'' then Some RequestShape.STAGED
      else if s = ''MULTICAST'' then Some RequestShape.MULTICAST
      else if s = ''COLLECTIVE'' then Some RequestShape.COLLECTIVE
      else if s = ''UNKNOWN'' then Some RequestShape.UNKNOWN
      else None)"

interpretation RequestShape_enum: enumeration all_RequestShape
proof unfold_locales
  show "x \<in> set all_RequestShape" for x
    by (cases x) (simp_all add: all_RequestShape_def)
qed (simp_all add: all_RequestShape_def)

interpretation RequestShape_names: named_enumeration toString_RequestShape requestShapeFromString
proof unfold_locales
  show "requestShapeFromString (toString_RequestShape x) = Some x" for x
    by (cases x) (simp_all add: requestShapeFromString_def)
  show "s = toString_RequestShape x" if "requestShapeFromString s = Some x" for s x
    using that by (auto simp add: requestShapeFromString_def split: if_splits)
qed

subsection \<open>Direction\<close>

datatype Direction =
  FORWARD | REVERSE | BIDIRECTIONAL

definition all_Direction :: "Direction list" where
  "all_Direction =
    [Direction.FORWARD, Direction.REVERSE, Direction.BIDIRECTIONAL]"

interpretation Direction_enum: enumeration all_Direction
proof unfold_locales
  show "x \<in> set all_Direction" for x
    by (cases x) (simp_all add: all_Direction_def)
qed (simp_all add: all_Direction_def)

subsection \<open>CollectiveShape\<close>

datatype CollectiveShape =
  ALL_REDUCE | ALL_GATHER | REDUCE_SCATTER | BROADCAST | GATHER | SCATTER | ALL_TO_ALL
    | HIERARCHICAL | UNKNOWN

definition all_CollectiveShape :: "CollectiveShape list" where
  "all_CollectiveShape =
    [CollectiveShape.ALL_REDUCE, CollectiveShape.ALL_GATHER, CollectiveShape.REDUCE_SCATTER,
     CollectiveShape.BROADCAST, CollectiveShape.GATHER, CollectiveShape.SCATTER,
     CollectiveShape.ALL_TO_ALL, CollectiveShape.HIERARCHICAL, CollectiveShape.UNKNOWN]"

primrec toString_CollectiveShape :: "CollectiveShape \<Rightarrow> string" where
  "toString_CollectiveShape CollectiveShape.ALL_REDUCE = ''ALL_REDUCE''"
| "toString_CollectiveShape CollectiveShape.ALL_GATHER = ''ALL_GATHER''"
| "toString_CollectiveShape CollectiveShape.REDUCE_SCATTER = ''REDUCE_SCATTER''"
| "toString_CollectiveShape CollectiveShape.BROADCAST = ''BROADCAST''"
| "toString_CollectiveShape CollectiveShape.GATHER = ''GATHER''"
| "toString_CollectiveShape CollectiveShape.SCATTER = ''SCATTER''"
| "toString_CollectiveShape CollectiveShape.ALL_TO_ALL = ''ALL_TO_ALL''"
| "toString_CollectiveShape CollectiveShape.HIERARCHICAL = ''HIERARCHICAL''"
| "toString_CollectiveShape CollectiveShape.UNKNOWN = ''UNKNOWN''"

definition collectiveShapeFromString :: "string \<Rightarrow> CollectiveShape option" where
  "collectiveShapeFromString s =
     (if s = ''ALL_REDUCE'' then Some CollectiveShape.ALL_REDUCE
      else if s = ''ALL_GATHER'' then Some CollectiveShape.ALL_GATHER
      else if s = ''REDUCE_SCATTER'' then Some CollectiveShape.REDUCE_SCATTER
      else if s = ''BROADCAST'' then Some CollectiveShape.BROADCAST
      else if s = ''GATHER'' then Some CollectiveShape.GATHER
      else if s = ''SCATTER'' then Some CollectiveShape.SCATTER
      else if s = ''ALL_TO_ALL'' then Some CollectiveShape.ALL_TO_ALL
      else if s = ''HIERARCHICAL'' then Some CollectiveShape.HIERARCHICAL
      else if s = ''UNKNOWN'' then Some CollectiveShape.UNKNOWN
      else None)"

interpretation CollectiveShape_enum: enumeration all_CollectiveShape
proof unfold_locales
  show "x \<in> set all_CollectiveShape" for x
    by (cases x) (simp_all add: all_CollectiveShape_def)
qed (simp_all add: all_CollectiveShape_def)

interpretation CollectiveShape_names: named_enumeration toString_CollectiveShape collectiveShapeFromString
proof unfold_locales
  show "collectiveShapeFromString (toString_CollectiveShape x) = Some x" for x
    by (cases x) (simp_all add: collectiveShapeFromString_def)
  show "s = toString_CollectiveShape x" if "collectiveShapeFromString s = Some x" for s x
    using that by (auto simp add: collectiveShapeFromString_def split: if_splits)
qed

subsection \<open>PlanState\<close>

datatype PlanState =
  REQUESTED | DISCOVERING | CONSTRUCTING | FILTERING | RANKING | PLAN_READY
    | AWAITING_RESOURCE_COMMIT | COMMITTED | AWAITING_EXECUTION | ACTIVE
    | REVALIDATION_REQUIRED | COMPLETED | CANCELLED | FAILED | SUPERSEDED | RETIRED

definition all_PlanState :: "PlanState list" where
  "all_PlanState =
    [PlanState.REQUESTED, PlanState.DISCOVERING, PlanState.CONSTRUCTING, PlanState.FILTERING,
     PlanState.RANKING, PlanState.PLAN_READY, PlanState.AWAITING_RESOURCE_COMMIT,
     PlanState.COMMITTED, PlanState.AWAITING_EXECUTION, PlanState.ACTIVE,
     PlanState.REVALIDATION_REQUIRED, PlanState.COMPLETED, PlanState.CANCELLED,
     PlanState.FAILED, PlanState.SUPERSEDED, PlanState.RETIRED]"

primrec toString_PlanState :: "PlanState \<Rightarrow> string" where
  "toString_PlanState PlanState.REQUESTED = ''REQUESTED''"
| "toString_PlanState PlanState.DISCOVERING = ''DISCOVERING''"
| "toString_PlanState PlanState.CONSTRUCTING = ''CONSTRUCTING''"
| "toString_PlanState PlanState.FILTERING = ''FILTERING''"
| "toString_PlanState PlanState.RANKING = ''RANKING''"
| "toString_PlanState PlanState.PLAN_READY = ''PLAN_READY''"
| "toString_PlanState PlanState.AWAITING_RESOURCE_COMMIT = ''AWAITING_RESOURCE_COMMIT''"
| "toString_PlanState PlanState.COMMITTED = ''COMMITTED''"
| "toString_PlanState PlanState.AWAITING_EXECUTION = ''AWAITING_EXECUTION''"
| "toString_PlanState PlanState.ACTIVE = ''ACTIVE''"
| "toString_PlanState PlanState.REVALIDATION_REQUIRED = ''REVALIDATION_REQUIRED''"
| "toString_PlanState PlanState.COMPLETED = ''COMPLETED''"
| "toString_PlanState PlanState.CANCELLED = ''CANCELLED''"
| "toString_PlanState PlanState.FAILED = ''FAILED''"
| "toString_PlanState PlanState.SUPERSEDED = ''SUPERSEDED''"
| "toString_PlanState PlanState.RETIRED = ''RETIRED''"

definition planStateFromString :: "string \<Rightarrow> PlanState option" where
  "planStateFromString s =
     (if s = ''REQUESTED'' then Some PlanState.REQUESTED
      else if s = ''DISCOVERING'' then Some PlanState.DISCOVERING
      else if s = ''CONSTRUCTING'' then Some PlanState.CONSTRUCTING
      else if s = ''FILTERING'' then Some PlanState.FILTERING
      else if s = ''RANKING'' then Some PlanState.RANKING
      else if s = ''PLAN_READY'' then Some PlanState.PLAN_READY
      else if s = ''AWAITING_RESOURCE_COMMIT'' then Some PlanState.AWAITING_RESOURCE_COMMIT
      else if s = ''COMMITTED'' then Some PlanState.COMMITTED
      else if s = ''AWAITING_EXECUTION'' then Some PlanState.AWAITING_EXECUTION
      else if s = ''ACTIVE'' then Some PlanState.ACTIVE
      else if s = ''REVALIDATION_REQUIRED'' then Some PlanState.REVALIDATION_REQUIRED
      else if s = ''COMPLETED'' then Some PlanState.COMPLETED
      else if s = ''CANCELLED'' then Some PlanState.CANCELLED
      else if s = ''FAILED'' then Some PlanState.FAILED
      else if s = ''SUPERSEDED'' then Some PlanState.SUPERSEDED
      else if s = ''RETIRED'' then Some PlanState.RETIRED
      else None)"

interpretation PlanState_enum: enumeration all_PlanState
proof unfold_locales
  show "x \<in> set all_PlanState" for x
    by (cases x) (simp_all add: all_PlanState_def)
qed (simp_all add: all_PlanState_def)

interpretation PlanState_names: named_enumeration toString_PlanState planStateFromString
proof unfold_locales
  show "planStateFromString (toString_PlanState x) = Some x" for x
    by (cases x) (simp_all add: planStateFromString_def)
  show "s = toString_PlanState x" if "planStateFromString s = Some x" for s x
    using that by (auto simp add: planStateFromString_def split: if_splits)
qed

subsection \<open>Feasibility\<close>

datatype Feasibility =
  FEASIBLE | REJECT_ENDPOINT | REJECT_STALE_ENDPOINT | REJECT_CAPABILITY | REJECT_TRANSPORT
    | REJECT_TOPOLOGY | REJECT_DIRECTION | REJECT_CAPACITY | REJECT_RESERVATION
    | REJECT_CONGESTION_HARD_LIMIT | REJECT_HEALTH | REJECT_STAGE_LIMIT | REJECT_FAILURE_DOMAIN
    | REJECT_POLICY | REVALIDATION_REQUIRED | INSUFFICIENT_EVIDENCE | UNKNOWN

definition all_Feasibility :: "Feasibility list" where
  "all_Feasibility =
    [Feasibility.FEASIBLE, Feasibility.REJECT_ENDPOINT, Feasibility.REJECT_STALE_ENDPOINT,
     Feasibility.REJECT_CAPABILITY, Feasibility.REJECT_TRANSPORT, Feasibility.REJECT_TOPOLOGY,
     Feasibility.REJECT_DIRECTION, Feasibility.REJECT_CAPACITY, Feasibility.REJECT_RESERVATION,
     Feasibility.REJECT_CONGESTION_HARD_LIMIT, Feasibility.REJECT_HEALTH,
     Feasibility.REJECT_STAGE_LIMIT, Feasibility.REJECT_FAILURE_DOMAIN,
     Feasibility.REJECT_POLICY, Feasibility.REVALIDATION_REQUIRED,
     Feasibility.INSUFFICIENT_EVIDENCE, Feasibility.UNKNOWN]"

primrec toString_Feasibility :: "Feasibility \<Rightarrow> string" where
  "toString_Feasibility Feasibility.FEASIBLE = ''FEASIBLE''"
| "toString_Feasibility Feasibility.REJECT_ENDPOINT = ''REJECT_ENDPOINT''"
| "toString_Feasibility Feasibility.REJECT_STALE_ENDPOINT = ''REJECT_STALE_ENDPOINT''"
| "toString_Feasibility Feasibility.REJECT_CAPABILITY = ''REJECT_CAPABILITY''"
| "toString_Feasibility Feasibility.REJECT_TRANSPORT = ''REJECT_TRANSPORT''"
| "toString_Feasibility Feasibility.REJECT_TOPOLOGY = ''REJECT_TOPOLOGY''"
| "toString_Feasibility Feasibility.REJECT_DIRECTION = ''REJECT_DIRECTION''"
| "toString_Feasibility Feasibility.REJECT_CAPACITY = ''REJECT_CAPACITY''"
| "toString_Feasibility Feasibility.REJECT_RESERVATION = ''REJECT_RESERVATION''"
| "toString_Feasibility Feasibility.REJECT_CONGESTION_HARD_LIMIT = ''REJECT_CONGESTION_HARD_LIMIT''"
| "toString_Feasibility Feasibility.REJECT_HEALTH = ''REJECT_HEALTH''"
| "toString_Feasibility Feasibility.REJECT_STAGE_LIMIT = ''REJECT_STAGE_LIMIT''"
| "toString_Feasibility Feasibility.REJECT_FAILURE_DOMAIN = ''REJECT_FAILURE_DOMAIN''"
| "toString_Feasibility Feasibility.REJECT_POLICY = ''REJECT_POLICY''"
| "toString_Feasibility Feasibility.REVALIDATION_REQUIRED = ''REVALIDATION_REQUIRED''"
| "toString_Feasibility Feasibility.INSUFFICIENT_EVIDENCE = ''INSUFFICIENT_EVIDENCE''"
| "toString_Feasibility Feasibility.UNKNOWN = ''UNKNOWN''"

definition feasibilityFromString :: "string \<Rightarrow> Feasibility option" where
  "feasibilityFromString s =
     (if s = ''FEASIBLE'' then Some Feasibility.FEASIBLE
      else if s = ''REJECT_ENDPOINT'' then Some Feasibility.REJECT_ENDPOINT
      else if s = ''REJECT_STALE_ENDPOINT'' then Some Feasibility.REJECT_STALE_ENDPOINT
      else if s = ''REJECT_CAPABILITY'' then Some Feasibility.REJECT_CAPABILITY
      else if s = ''REJECT_TRANSPORT'' then Some Feasibility.REJECT_TRANSPORT
      else if s = ''REJECT_TOPOLOGY'' then Some Feasibility.REJECT_TOPOLOGY
      else if s = ''REJECT_DIRECTION'' then Some Feasibility.REJECT_DIRECTION
      else if s = ''REJECT_CAPACITY'' then Some Feasibility.REJECT_CAPACITY
      else if s = ''REJECT_RESERVATION'' then Some Feasibility.REJECT_RESERVATION
      else if s = ''REJECT_CONGESTION_HARD_LIMIT'' then Some Feasibility.REJECT_CONGESTION_HARD_LIMIT
      else if s = ''REJECT_HEALTH'' then Some Feasibility.REJECT_HEALTH
      else if s = ''REJECT_STAGE_LIMIT'' then Some Feasibility.REJECT_STAGE_LIMIT
      else if s = ''REJECT_FAILURE_DOMAIN'' then Some Feasibility.REJECT_FAILURE_DOMAIN
      else if s = ''REJECT_POLICY'' then Some Feasibility.REJECT_POLICY
      else if s = ''REVALIDATION_REQUIRED'' then Some Feasibility.REVALIDATION_REQUIRED
      else if s = ''INSUFFICIENT_EVIDENCE'' then Some Feasibility.INSUFFICIENT_EVIDENCE
      else if s = ''UNKNOWN'' then Some Feasibility.UNKNOWN
      else None)"

interpretation Feasibility_enum: enumeration all_Feasibility
proof unfold_locales
  show "x \<in> set all_Feasibility" for x
    by (cases x) (simp_all add: all_Feasibility_def)
qed (simp_all add: all_Feasibility_def)

interpretation Feasibility_names: named_enumeration toString_Feasibility feasibilityFromString
proof unfold_locales
  show "feasibilityFromString (toString_Feasibility x) = Some x" for x
    by (cases x) (simp_all add: feasibilityFromString_def)
  show "s = toString_Feasibility x" if "feasibilityFromString s = Some x" for s x
    using that by (auto simp add: feasibilityFromString_def split: if_splits)
qed

subsection \<open>CostFactor\<close>

datatype CostFactor =
  TOTAL_EXPECTED_COMPLETION_COST | PATH_LATENCY | EFFECTIVE_BANDWIDTH | RESIDUAL_BANDWIDTH
    | CONGESTION_PENALTY | QUEUEING_ESTIMATE | HOP_COUNT | STAGE_COUNT | STAGING_OVERHEAD
    | HOST_STAGING_COST | NUMA_DISTANCE | PCIE_LOCALITY | NIC_LOCALITY | STORAGE_LOCALITY
    | ENDPOINT_HEALTH | RESERVATION_FIT | CAPACITY_HEADROOM | FAILURE_DOMAIN_RISK | RELIABILITY
    | MOVEMENT_COST | POLICY_PREFERENCE | UNKNOWN

definition all_CostFactor :: "CostFactor list" where
  "all_CostFactor =
    [CostFactor.TOTAL_EXPECTED_COMPLETION_COST, CostFactor.PATH_LATENCY,
     CostFactor.EFFECTIVE_BANDWIDTH, CostFactor.RESIDUAL_BANDWIDTH,
     CostFactor.CONGESTION_PENALTY, CostFactor.QUEUEING_ESTIMATE, CostFactor.HOP_COUNT,
     CostFactor.STAGE_COUNT, CostFactor.STAGING_OVERHEAD, CostFactor.HOST_STAGING_COST,
     CostFactor.NUMA_DISTANCE, CostFactor.PCIE_LOCALITY, CostFactor.NIC_LOCALITY,
     CostFactor.STORAGE_LOCALITY, CostFactor.ENDPOINT_HEALTH, CostFactor.RESERVATION_FIT,
     CostFactor.CAPACITY_HEADROOM, CostFactor.FAILURE_DOMAIN_RISK, CostFactor.RELIABILITY,
     CostFactor.MOVEMENT_COST, CostFactor.POLICY_PREFERENCE, CostFactor.UNKNOWN]"

primrec toString_CostFactor :: "CostFactor \<Rightarrow> string" where
  "toString_CostFactor CostFactor.TOTAL_EXPECTED_COMPLETION_COST = ''TOTAL_EXPECTED_COMPLETION_COST''"
| "toString_CostFactor CostFactor.PATH_LATENCY = ''PATH_LATENCY''"
| "toString_CostFactor CostFactor.EFFECTIVE_BANDWIDTH = ''EFFECTIVE_BANDWIDTH''"
| "toString_CostFactor CostFactor.RESIDUAL_BANDWIDTH = ''RESIDUAL_BANDWIDTH''"
| "toString_CostFactor CostFactor.CONGESTION_PENALTY = ''CONGESTION_PENALTY''"
| "toString_CostFactor CostFactor.QUEUEING_ESTIMATE = ''QUEUEING_ESTIMATE''"
| "toString_CostFactor CostFactor.HOP_COUNT = ''HOP_COUNT''"
| "toString_CostFactor CostFactor.STAGE_COUNT = ''STAGE_COUNT''"
| "toString_CostFactor CostFactor.STAGING_OVERHEAD = ''STAGING_OVERHEAD''"
| "toString_CostFactor CostFactor.HOST_STAGING_COST = ''HOST_STAGING_COST''"
| "toString_CostFactor CostFactor.NUMA_DISTANCE = ''NUMA_DISTANCE''"
| "toString_CostFactor CostFactor.PCIE_LOCALITY = ''PCIE_LOCALITY''"
| "toString_CostFactor CostFactor.NIC_LOCALITY = ''NIC_LOCALITY''"
| "toString_CostFactor CostFactor.STORAGE_LOCALITY = ''STORAGE_LOCALITY''"
| "toString_CostFactor CostFactor.ENDPOINT_HEALTH = ''ENDPOINT_HEALTH''"
| "toString_CostFactor CostFactor.RESERVATION_FIT = ''RESERVATION_FIT''"
| "toString_CostFactor CostFactor.CAPACITY_HEADROOM = ''CAPACITY_HEADROOM''"
| "toString_CostFactor CostFactor.FAILURE_DOMAIN_RISK = ''FAILURE_DOMAIN_RISK''"
| "toString_CostFactor CostFactor.RELIABILITY = ''RELIABILITY''"
| "toString_CostFactor CostFactor.MOVEMENT_COST = ''MOVEMENT_COST''"
| "toString_CostFactor CostFactor.POLICY_PREFERENCE = ''POLICY_PREFERENCE''"
| "toString_CostFactor CostFactor.UNKNOWN = ''UNKNOWN''"

definition costFactorFromString :: "string \<Rightarrow> CostFactor option" where
  "costFactorFromString s =
     (if s = ''TOTAL_EXPECTED_COMPLETION_COST'' then Some CostFactor.TOTAL_EXPECTED_COMPLETION_COST
      else if s = ''PATH_LATENCY'' then Some CostFactor.PATH_LATENCY
      else if s = ''EFFECTIVE_BANDWIDTH'' then Some CostFactor.EFFECTIVE_BANDWIDTH
      else if s = ''RESIDUAL_BANDWIDTH'' then Some CostFactor.RESIDUAL_BANDWIDTH
      else if s = ''CONGESTION_PENALTY'' then Some CostFactor.CONGESTION_PENALTY
      else if s = ''QUEUEING_ESTIMATE'' then Some CostFactor.QUEUEING_ESTIMATE
      else if s = ''HOP_COUNT'' then Some CostFactor.HOP_COUNT
      else if s = ''STAGE_COUNT'' then Some CostFactor.STAGE_COUNT
      else if s = ''STAGING_OVERHEAD'' then Some CostFactor.STAGING_OVERHEAD
      else if s = ''HOST_STAGING_COST'' then Some CostFactor.HOST_STAGING_COST
      else if s = ''NUMA_DISTANCE'' then Some CostFactor.NUMA_DISTANCE
      else if s = ''PCIE_LOCALITY'' then Some CostFactor.PCIE_LOCALITY
      else if s = ''NIC_LOCALITY'' then Some CostFactor.NIC_LOCALITY
      else if s = ''STORAGE_LOCALITY'' then Some CostFactor.STORAGE_LOCALITY
      else if s = ''ENDPOINT_HEALTH'' then Some CostFactor.ENDPOINT_HEALTH
      else if s = ''RESERVATION_FIT'' then Some CostFactor.RESERVATION_FIT
      else if s = ''CAPACITY_HEADROOM'' then Some CostFactor.CAPACITY_HEADROOM
      else if s = ''FAILURE_DOMAIN_RISK'' then Some CostFactor.FAILURE_DOMAIN_RISK
      else if s = ''RELIABILITY'' then Some CostFactor.RELIABILITY
      else if s = ''MOVEMENT_COST'' then Some CostFactor.MOVEMENT_COST
      else if s = ''POLICY_PREFERENCE'' then Some CostFactor.POLICY_PREFERENCE
      else if s = ''UNKNOWN'' then Some CostFactor.UNKNOWN
      else None)"

interpretation CostFactor_enum: enumeration all_CostFactor
proof unfold_locales
  show "x \<in> set all_CostFactor" for x
    by (cases x) (simp_all add: all_CostFactor_def)
qed (simp_all add: all_CostFactor_def)

interpretation CostFactor_names: named_enumeration toString_CostFactor costFactorFromString
proof unfold_locales
  show "costFactorFromString (toString_CostFactor x) = Some x" for x
    by (cases x) (simp_all add: costFactorFromString_def)
  show "s = toString_CostFactor x" if "costFactorFromString s = Some x" for s x
    using that by (auto simp add: costFactorFromString_def split: if_splits)
qed

subsection \<open>Provenance\<close>

datatype Provenance =
  MEASURED | REPORTED | DERIVED | ESTIMATED | FORECAST | SYNTHETIC | UNKNOWN

definition all_Provenance :: "Provenance list" where
  "all_Provenance =
    [Provenance.MEASURED, Provenance.REPORTED, Provenance.DERIVED, Provenance.ESTIMATED,
     Provenance.FORECAST, Provenance.SYNTHETIC, Provenance.UNKNOWN]"

primrec toString_Provenance :: "Provenance \<Rightarrow> string" where
  "toString_Provenance Provenance.MEASURED = ''MEASURED''"
| "toString_Provenance Provenance.REPORTED = ''REPORTED''"
| "toString_Provenance Provenance.DERIVED = ''DERIVED''"
| "toString_Provenance Provenance.ESTIMATED = ''ESTIMATED''"
| "toString_Provenance Provenance.FORECAST = ''FORECAST''"
| "toString_Provenance Provenance.SYNTHETIC = ''SYNTHETIC''"
| "toString_Provenance Provenance.UNKNOWN = ''UNKNOWN''"

definition provenanceFromString :: "string \<Rightarrow> Provenance option" where
  "provenanceFromString s =
     (if s = ''MEASURED'' then Some Provenance.MEASURED
      else if s = ''REPORTED'' then Some Provenance.REPORTED
      else if s = ''DERIVED'' then Some Provenance.DERIVED
      else if s = ''ESTIMATED'' then Some Provenance.ESTIMATED
      else if s = ''FORECAST'' then Some Provenance.FORECAST
      else if s = ''SYNTHETIC'' then Some Provenance.SYNTHETIC
      else if s = ''UNKNOWN'' then Some Provenance.UNKNOWN
      else None)"

interpretation Provenance_enum: enumeration all_Provenance
proof unfold_locales
  show "x \<in> set all_Provenance" for x
    by (cases x) (simp_all add: all_Provenance_def)
qed (simp_all add: all_Provenance_def)

interpretation Provenance_names: named_enumeration toString_Provenance provenanceFromString
proof unfold_locales
  show "provenanceFromString (toString_Provenance x) = Some x" for x
    by (cases x) (simp_all add: provenanceFromString_def)
  show "s = toString_Provenance x" if "provenanceFromString s = Some x" for s x
    using that by (auto simp add: provenanceFromString_def split: if_splits)
qed

subsection \<open>Enumerations as keys of ordered containers\<close>

text \<open>\<open>std::set<Transport>\<close> and \<open>std::map<CostFactor, double>\<close> are ordered by ordinal.\<close>

instantiation Transport :: linorder
begin

definition less_eq_Transport :: "Transport \<Rightarrow> Transport \<Rightarrow> bool" where
  "less_eq_Transport a b \<longleftrightarrow> enum_index all_Transport a \<le> enum_index all_Transport b"

definition less_Transport :: "Transport \<Rightarrow> Transport \<Rightarrow> bool" where
  "less_Transport a b \<longleftrightarrow> enum_index all_Transport a < enum_index all_Transport b"

instance
  by standard (auto simp: less_eq_Transport_def less_Transport_def Transport_enum.index_inject)

end

instantiation CostFactor :: linorder
begin

definition less_eq_CostFactor :: "CostFactor \<Rightarrow> CostFactor \<Rightarrow> bool" where
  "less_eq_CostFactor a b \<longleftrightarrow> enum_index all_CostFactor a \<le> enum_index all_CostFactor b"

definition less_CostFactor :: "CostFactor \<Rightarrow> CostFactor \<Rightarrow> bool" where
  "less_CostFactor a b \<longleftrightarrow> enum_index all_CostFactor a < enum_index all_CostFactor b"

instance
  by standard (auto simp: less_eq_CostFactor_def less_CostFactor_def CostFactor_enum.index_inject)

end

section \<open>Identities and generations\<close>

text \<open>
  \<open>Id<Tag>\<close> and \<open>Generation<Tag>\<close> wrap a \<open>std::uint64_t\<close>; the tag is a compile-time distinction, kept
  here as a type synonym per identity.
\<close>

type_synonym CommunicationRequestId = u64
type_synonym CommunicationPlanId = u64
type_synonym PathId = u64
type_synonym StageId = u64
type_synonym EndpointId = u64
type_synonym ResourceId = u64
type_synonym DeviceId = u64
type_synonym NodeId = u64
type_synonym CpuDomainId = u64
type_synonym MemoryDomainId = u64
type_synonym NicId = u64
type_synonym LinkId = u64
type_synonym WorkerId = u64
type_synonym SourceId = u64
type_synonym Generation = u64

definition isNull :: "u64 \<Rightarrow> bool" where
  "isNull v \<longleftrightarrow> v = 0"

definition gen_next :: "Generation \<Rightarrow> Generation" where
  "gen_next g = g + 1"

text \<open>\<open>Id::fromString\<close> and \<open>Generation::fromString\<close>: the loop over the characters, then the entry.\<close>

fun parse_digits :: "u64 \<Rightarrow> string \<Rightarrow> u64 option" where
  "parse_digits v [] = Some v"
| "parse_digits v (c # cs) =
     (if (of_char c :: nat) < 48 \<or> 57 < (of_char c :: nat) then None
      else let d = (of_nat (of_char c - 48) :: u64)
           in if (u64_max - d) div 10 < v then None
              else parse_digits (v * 10 + d) cs)"

definition id_fromString :: "string \<Rightarrow> u64 option" where
  "id_fromString s = (if s = [] then None else parse_digits 0 s)"

text \<open>\<open>Id::next\<close>: \<open>fetch_add\<close> on a process-wide counter that starts at 1.\<close>

definition id_next :: "u64 \<Rightarrow> u64 \<times> u64" where
  "id_next counter = (counter, counter + 1)"

section \<open>Checked arithmetic\<close>

definition checkedAdd :: "u64 \<Rightarrow> u64 \<Rightarrow> u64 option" where
  "checkedAdd a b = (if u64_max - b < a then None else Some (a + b))"

definition checkedMul :: "u64 \<Rightarrow> u64 \<Rightarrow> u64 option" where
  "checkedMul a b = (if a \<noteq> 0 \<and> u64_max div a < b then None else Some (a * b))"

definition checkedDivCeil :: "u64 \<Rightarrow> u64 \<Rightarrow> u64 option" where
  "checkedDivCeil a b =
     (if b = 0 then None
      else let q = a div b
           in if a mod b \<noteq> 0 then (if q = u64_max then None else Some (q + 1)) else Some q)"

section \<open>Properties of the core operations\<close>

lemma unat_u64_less: "unat (v :: u64) < 2 ^ 64"
  using unsigned_less [of v] by simp

lemma unat_max_minus: "unat (u64_max - d) = 2 ^ 64 - 1 - unat d"
proof -
  have "d \<le> u64_max" by simp
  then show ?thesis by (subst unat_sub) (simp_all add: u64_max_unat)
qed

lemma checkedAdd_spec:
  "checkedAdd a b = (if unat a + unat b < 2 ^ 64 then Some (a + b) else None)"
proof -
  have "unat (u64_max - b) < unat a \<longleftrightarrow> \<not> unat a + unat b < 2 ^ 64"
    using unat_u64_less [of b] by (simp add: unat_max_minus) linarith
  then show ?thesis by (simp add: checkedAdd_def word_less_nat_alt)
qed

lemma checkedAdd_exact: "checkedAdd a b = Some c \<Longrightarrow> unat c = unat a + unat b"
  by (auto simp: checkedAdd_spec unat_word_ariths split: if_splits)

lemma checkedMul_spec:
  "checkedMul a b = (if unat a * unat b < 2 ^ 64 then Some (a * b) else None)"
proof (cases "a = 0")
  case True
  then show ?thesis by (simp add: checkedMul_def)
next
  case False
  then have pos: "0 < unat a" by (simp add: unat_gt_0)
  have "unat (u64_max div a) < unat b \<longleftrightarrow> (2 ^ 64 - 1) div unat a < unat b"
    by (simp add: unat_div u64_max_unat)
  also have "\<dots> \<longleftrightarrow> \<not> unat a * unat b < 2 ^ 64"
    using pos by (simp add: div_less_iff_less_mult mult.commute) linarith
  finally show ?thesis using False by (simp add: checkedMul_def word_less_nat_alt)
qed

lemma checkedMul_exact: "checkedMul a b = Some c \<Longrightarrow> unat c = unat a * unat b"
  by (auto simp: checkedMul_spec unat_word_ariths split: if_splits)

lemma checkedDivCeil_spec:
  "checkedDivCeil a b =
     (if b = 0 then None else Some (of_nat ((unat a + unat b - 1) div unat b)))"
proof (cases "b = 0")
  case True
  then show ?thesis by (simp add: checkedDivCeil_def)
next
  case False
  then have pos: "0 < unat b" by (simp add: unat_gt_0)
  have q: "unat (a div b) = unat a div unat b" by (simp add: unat_div)
  have r: "a mod b = 0 \<longleftrightarrow> unat a mod unat b = 0"
    by (metis unat_eq_zero unat_mod)
  have quot: "a div b = of_nat (unat a div unat b)" by (simp flip: q)
  have ceil: "(unat a + unat b - 1) div unat b =
      (if unat a mod unat b = 0 then unat a div unat b else unat a div unat b + 1)"
  proof (cases "unat a mod unat b = 0")
    case True
    then obtain k where k: "unat a = unat b * k" by (metis mod_0_imp_dvd dvdE)
    with pos have "unat a + unat b - 1 = (unat b - 1) + unat b * k" by simp
    then have "(unat a + unat b - 1) div unat b = k + (unat b - 1) div unat b"
      using pos by (simp only: div_mult_self2)
    with pos k True show ?thesis by simp
  next
    case False
    let ?m = "unat a mod unat b" and ?k = "unat a div unat b"
    have "unat a + unat b - 1 = (?k + 1) * unat b + (?m - 1)"
    proof -
      have "unat a = ?k * unat b + ?m" by simp
      then have "unat a + unat b - 1 = ?k * unat b + ?m + unat b - 1" by (simp only:)
      with False show ?thesis by (simp only: add_mult_distrib)
    qed
    moreover have "?m - 1 < unat b" using pos by (meson less_imp_diff_less mod_less_divisor)
    ultimately have "(unat a + unat b - 1) div unat b = ?k + 1 + 0"
      using pos by (simp only: div_mult_self3 div_less)
    with False show ?thesis by simp
  qed
  have "a div b \<noteq> u64_max" if "a mod b \<noteq> 0"
  proof
    assume "a div b = u64_max"
    then have "unat a div unat b = 2 ^ 64 - 1" using q u64_max_unat by metis
    moreover have "unat a \<le> 2 ^ 64 - 1" using unat_u64_less [of a] by simp
    ultimately have "unat a \<le> unat a div unat b" by simp
    moreover have "unat b \<noteq> 1" using that r by auto
    ultimately have "unat a = 0" using pos
      by (metis div_less_dividend leD less_one nat_neq_iff not_gr_zero)
    with that show False by (simp add: r)
  qed
  with False show ?thesis
    unfolding checkedDivCeil_def Let_def ceil r quot by simp
qed

text \<open>The value a string of decimal digits denotes.\<close>

fun digits_value :: "nat \<Rightarrow> string \<Rightarrow> nat" where
  "digits_value v [] = v"
| "digits_value v (c # cs) = digits_value (v * 10 + (of_char c - 48)) cs"

definition all_digits :: "string \<Rightarrow> bool" where
  "all_digits s \<longleftrightarrow> (\<forall>c\<in>set s. 48 \<le> (of_char c :: nat) \<and> (of_char c :: nat) \<le> 57)"

lemma digits_value_ge: "v \<le> digits_value v s"
proof (induction s arbitrary: v)
  case (Cons c s)
  have "v \<le> v * 10 + (of_char c - 48)" by simp
  also have "\<dots> \<le> digits_value \<dots> s" by (rule Cons.IH)
  finally show ?case by simp
qed simp

lemma parse_digits_guard:
  assumes "d < 10"
  shows "(u64_max - of_nat d) div 10 < v \<longleftrightarrow> \<not> unat v * 10 + d < 2 ^ 64"
proof -
  have "unat (of_nat d :: u64) = d" using assms by (simp add: unat_of_nat)
  then have "unat ((u64_max - of_nat d) div 10) = (2 ^ 64 - 1 - d) div 10"
    by (simp add: unat_div unat_max_minus)
  then show ?thesis using assms by (simp add: word_less_nat_alt) linarith
qed

lemma parse_digits_spec:
  "parse_digits v s =
     (if all_digits s \<and> digits_value (unat v) s < 2 ^ 64
      then Some (of_nat (digits_value (unat v) s)) else None)"
proof (induction s arbitrary: v)
  case Nil
  then show ?case by (simp add: all_digits_def unat_u64_less [simplified])
next
  case (Cons c s)
  let ?n = "of_char c :: nat"
  show ?case
  proof (cases "48 \<le> ?n \<and> ?n \<le> 57")
    case False
    then show ?thesis by (auto simp: all_digits_def)
  next
    case True
    define d where "d = ?n - 48"
    have d: "d < 10" using True unfolding d_def by linarith
    have unfold: "parse_digits v (c # s) =
        (if unat v * 10 + d < 2 ^ 64 then parse_digits (v * 10 + of_nat d) s else None)"
      using True parse_digits_guard [OF d, of v]
      by (simp only: parse_digits.simps Let_def d_def not_less [symmetric] simp_thms if_not_P not_le) simp
    have digs: "all_digits (c # s) \<longleftrightarrow> all_digits s" using True by (simp add: all_digits_def)
    show ?thesis
    proof (cases "unat v * 10 + d < 2 ^ 64")
      case ok: True
      then have "unat (v * 10 + of_nat d) = unat v * 10 + d"
        using d by (simp add: unat_word_ariths unat_of_nat)
      with ok show ?thesis by (simp add: unfold Cons.IH digs flip: d_def del: parse_digits.simps)
    next
      case big: False
      then have "\<not> digits_value (unat v * 10 + d) s < 2 ^ 64"
        using digits_value_ge [of "unat v * 10 + d" s] by linarith
      with big show ?thesis by (simp add: unfold flip: d_def del: parse_digits.simps)
    qed
  qed
qed

lemma digits_value_snoc: "digits_value v (s @ [c]) = digits_value v s * 10 + (of_char c - 48)"
  by (induction s arbitrary: v) simp_all

lemma nat_str_digits: "all_digits (nat_str n) \<and> digits_value 0 (nat_str n) = n"
proof (induction n rule: nat_str.induct)
  case (1 n)
  show ?case
  proof (cases "n < 10")
    case True
    then show ?thesis
      by (subst (1 2) nat_str.simps) (simp add: all_digits_def of_char_digit)
  next
    case False
    with 1 show ?thesis
      by (subst (1 2) nat_str.simps)
        (simp add: all_digits_def of_char_digit digits_value_snoc ball_Un)
  qed
qed

lemma id_fromString_str: "id_fromString (u64_str v) = Some v"
  using nat_str_digits [of "unat v"] unat_u64_less [of v]
  by (simp add: id_fromString_def u64_str_def nat_str_nonempty parse_digits_spec)

section \<open>Theorems\<close>

text \<open>identities and generations survive printing and parsing, and the parser accepts exactly the
  non-empty digit strings whose value fits 64 bits, with that value.\<close>

lemma identity_text_exact:
  "id_fromString (u64_str v) = Some v \<and>
   (id_fromString s = Some w \<longleftrightarrow> s \<noteq> [] \<and> all_digits s \<and> digits_value 0 s = unat w)"
proof -
  have fits: "(if n < 2 ^ 64 then Some (of_nat n) else None) = Some w \<longleftrightarrow> n = unat w" for n
  proof -
    have "unat (of_nat n :: u64) = n" if "n < 2 ^ 64" using that by (simp add: unat_of_nat)
    then show ?thesis using unat_u64_less [of w] by (cases "n < 2 ^ 64") auto
  qed
  have "id_fromString s = Some w \<longleftrightarrow> s \<noteq> [] \<and> all_digits s \<and>
      (if digits_value 0 s < 2 ^ 64 then Some (of_nat (digits_value 0 s)) else None) = Some w"
    unfolding id_fromString_def parse_digits_spec unsigned_0 by auto
  then show ?thesis unfolding fits by (simp only: id_fromString_str simp_thms)
qed

text \<open>the checked operations return the exact sum, product and rounded-up quotient, and refuse
  exactly when the exact result does not fit 64 bits (or the divisor is zero).\<close>

lemma checked_arithmetic_exact:
  "checkedAdd a b = (if unat a + unat b < 2 ^ 64 then Some (of_nat (unat a + unat b)) else None) \<and>
   checkedMul a b = (if unat a * unat b < 2 ^ 64 then Some (of_nat (unat a * unat b)) else None) \<and>
   checkedDivCeil a b = (if b = 0 then None else Some (of_nat ((unat a + unat b - 1) div unat b)))"
  by (simp add: checkedAdd_spec checkedMul_spec checkedDivCeil_spec)

text \<open>Every enumeration with a parser is printed and parsed inversely: a parser accepts a string
  exactly when it is the printed name of the value it returns.\<close>

lemma enumeration_names_exact:
  "(endpointKindFromString s = Some a \<longleftrightarrow> s = toString_EndpointKind a) \<and>
   (linkKindFromString s = Some b \<longleftrightarrow> s = toString_LinkKind b) \<and>
   (transportFromString s = Some c \<longleftrightarrow> s = toString_Transport c) \<and>
   (requestShapeFromString s = Some d \<longleftrightarrow> s = toString_RequestShape d) \<and>
   (collectiveShapeFromString s = Some e \<longleftrightarrow> s = toString_CollectiveShape e) \<and>
   (planStateFromString s = Some f \<longleftrightarrow> s = toString_PlanState f) \<and>
   (feasibilityFromString s = Some g \<longleftrightarrow> s = toString_Feasibility g) \<and>
   (costFactorFromString s = Some h \<longleftrightarrow> s = toString_CostFactor h) \<and>
   (provenanceFromString s = Some i \<longleftrightarrow> s = toString_Provenance i)"
  by (simp only: EndpointKind_names.parse_iff LinkKind_names.parse_iff Transport_names.parse_iff
      RequestShape_names.parse_iff CollectiveShape_names.parse_iff PlanState_names.parse_iff
      Feasibility_names.parse_iff CostFactor_names.parse_iff Provenance_names.parse_iff simp_thms)

end
