(* ===== verification/Doubles.thy ===== *)
theory Doubles
  imports Prelude
begin

text \<open>
  The C++ type \<open>double\<close> as IEEE-754 binary64, the arithmetic of the cost model and of the persisted
  formats. A value is its 64-bit pattern, so that \<open>std::memcpy\<close> of a double is the identity on
  patterns; addition, multiplication, division and the conversions from integers round to nearest,
  ties to even, on exact integer arithmetic. NaN results are one quiet NaN: the code never looks at
  a NaN beyond \<open>std::isnan\<close>.
\<close>

section \<open>Representation and comparison\<close>

datatype double = Double (bits: u64)

definition sign_bit :: "double \<Rightarrow> bool" where
  "sign_bit d \<longleftrightarrow> 2 ^ 63 \<le> unat (bits d)"

definition magnitude :: "double \<Rightarrow> nat" where
  "magnitude d = unat (bits d) mod 2 ^ 63"

definition inf_mag :: nat where
  "inf_mag = 2047 * 2 ^ 52"

definition isnan :: "double \<Rightarrow> bool" where
  "isnan d \<longleftrightarrow> inf_mag < magnitude d"

definition isinf :: "double \<Rightarrow> bool" where
  "isinf d \<longleftrightarrow> magnitude d = inf_mag"

definition isfinite :: "double \<Rightarrow> bool" where
  "isfinite d \<longleftrightarrow> magnitude d < inf_mag"

definition make_double :: "bool \<Rightarrow> nat \<Rightarrow> double" where
  "make_double s m = Double (of_nat (m + (if s then 2 ^ 63 else 0)))"

text \<open>
  The bit patterns of non-negative doubles are ordered as their values, so a comparison of values is
  a comparison of signed magnitudes; both zeros have the key 0. Every comparison with NaN is false.
\<close>

definition dkey :: "double \<Rightarrow> int" where
  "dkey d = (if sign_bit d then - int (magnitude d) else int (magnitude d))"

definition dlt :: "double \<Rightarrow> double \<Rightarrow> bool" where
  "dlt a b \<longleftrightarrow> \<not> isnan a \<and> \<not> isnan b \<and> dkey a < dkey b"

definition dle :: "double \<Rightarrow> double \<Rightarrow> bool" where
  "dle a b \<longleftrightarrow> \<not> isnan a \<and> \<not> isnan b \<and> dkey a \<le> dkey b"

definition deq :: "double \<Rightarrow> double \<Rightarrow> bool" where
  "deq a b \<longleftrightarrow> \<not> isnan a \<and> \<not> isnan b \<and> dkey a = dkey b"

definition pos_inf :: double where
  "pos_inf = make_double False inf_mag"

definition quiet_nan :: double where
  "quiet_nan = make_double False (inf_mag + 2 ^ 51)"

definition dzero :: double where
  "dzero = make_double False 0"

section \<open>Rounding\<close>

fun bitlen :: "nat \<Rightarrow> nat" where
  "bitlen n = (if n = 0 then 0 else Suc (bitlen (n div 2)))"

declare bitlen.simps [simp del]

definition half_even :: "nat \<Rightarrow> nat \<Rightarrow> nat" where
  "half_even n d =
     (let q = n div d; r = n mod d
      in if 2 * r < d then q else if d < 2 * r then Suc q else if even q then q else Suc q)"

text \<open>
  The magnitude bits of \<open>n / d * 2 ^ e\<close> rounded to nearest even. With \<open>m\<close> the rounded significand
  and \<open>2 ^ t\<close> its unit, \<open>(t + 1074) * 2 ^ 52 + m\<close> is the pattern of \<open>m * 2 ^ t\<close>, subnormal or
  normal, and also when rounding carries into the next binade; patterns from \<open>inf_mag\<close> on overflow.
\<close>

definition round_mag :: "nat \<Rightarrow> nat \<Rightarrow> int \<Rightarrow> nat" where
  "round_mag n d e =
     (if n = 0 then 0
      else let t0 = max (- 1074) (e + int (bitlen n) - int (bitlen d) - 53);
               x = e - t0;
               N = (if 0 \<le> x then n * 2 ^ nat x else n);
               D = (if 0 \<le> x then d else d * 2 ^ nat (- x));
               wide = 2 ^ 53 \<le> N div D;
               t = (if wide then t0 + 1 else t0);
               D' = (if wide then 2 * D else D)
           in min inf_mag (nat (t + 1074) * 2 ^ 52 + half_even N D'))"

definition significand :: "double \<Rightarrow> nat" where
  "significand d =
     (let e = magnitude d div 2 ^ 52; f = magnitude d mod 2 ^ 52
      in if e = 0 then f else 2 ^ 52 + f)"

definition exponent :: "double \<Rightarrow> int" where
  "exponent d = int (max 1 (magnitude d div 2 ^ 52)) - 1075"

section \<open>Arithmetic\<close>

definition dadd :: "double \<Rightarrow> double \<Rightarrow> double" where
  "dadd a b =
     (if isnan a \<or> isnan b then quiet_nan
      else if isinf a then (if isinf b \<and> sign_bit a \<noteq> sign_bit b then quiet_nan else a)
      else if isinf b then b
      else let e = min (exponent a) (exponent b);
               va = int (significand a * 2 ^ nat (exponent a - e)) * (if sign_bit a then - 1 else 1);
               vb = int (significand b * 2 ^ nat (exponent b - e)) * (if sign_bit b then - 1 else 1);
               x = va + vb
           in if x = 0 then make_double (sign_bit a \<and> sign_bit b) 0
              else make_double (x < 0) (round_mag (nat \<bar>x\<bar>) 1 e))"

definition dmul :: "double \<Rightarrow> double \<Rightarrow> double" where
  "dmul a b =
     (let s = (sign_bit a \<noteq> sign_bit b)
      in if isnan a \<or> isnan b then quiet_nan
         else if isinf a \<or> isinf b
         then (if magnitude a = 0 \<or> magnitude b = 0 then quiet_nan else make_double s inf_mag)
         else make_double s
                (round_mag (significand a * significand b) 1 (exponent a + exponent b)))"

definition ddiv :: "double \<Rightarrow> double \<Rightarrow> double" where
  "ddiv a b =
     (let s = (sign_bit a \<noteq> sign_bit b)
      in if isnan a \<or> isnan b then quiet_nan
         else if isinf a then (if isinf b then quiet_nan else make_double s inf_mag)
         else if isinf b then make_double s 0
         else if magnitude b = 0
         then (if magnitude a = 0 then quiet_nan else make_double s inf_mag)
         else make_double s (round_mag (significand a) (significand b) (exponent a - exponent b)))"

text \<open>\<open>static_cast<double>\<close> of unsigned and signed integers, and decimal literals.\<close>

definition double_of_u64 :: "u64 \<Rightarrow> double" where
  "double_of_u64 v = make_double False (round_mag (unat v) 1 0)"

definition double_of_nat :: "nat \<Rightarrow> double" where
  "double_of_nat n = make_double False (round_mag n 1 0)"

definition double_lit :: "nat \<Rightarrow> nat \<Rightarrow> double" where
  "double_lit n d = make_double False (round_mag n d 0)"

definition dmin :: "double \<Rightarrow> double \<Rightarrow> double" where
  "dmin a b = (if dlt b a then b else a)"

section \<open>Representation lemmas\<close>

lemma inf_mag_bound: "inf_mag + 2 ^ 51 < 2 ^ 63"
  by (simp add: inf_mag_def)

lemma magnitude_bound: "magnitude d < 2 ^ 63"
  by (simp add: magnitude_def)

lemma bits_make_False: "m < 2 ^ 63 \<Longrightarrow> unat (bits (make_double False m)) = m"
  by (simp add: make_double_def unat_of_nat)

lemma bits_make_True: "m < 2 ^ 63 \<Longrightarrow> unat (bits (make_double True m)) = m + 2 ^ 63"
proof -
  assume "m < 2 ^ 63"
  then have "(m + 2 ^ 63) mod 2 ^ 64 = m + 2 ^ 63" by simp
  then show ?thesis by (simp add: make_double_def unat_of_nat del: of_nat_add)
qed

lemma magnitude_make_lt: "m < 2 ^ 63 \<Longrightarrow> magnitude (make_double s m) = m"
  by (cases s) (simp_all add: magnitude_def bits_make_False bits_make_True)

lemma magnitude_make [simp]: "m \<le> inf_mag \<Longrightarrow> magnitude (make_double s m) = m"
  using inf_mag_bound by (intro magnitude_make_lt) linarith

lemma sign_make [simp]: "m \<le> inf_mag \<Longrightarrow> sign_bit (make_double s m) = s"
  using inf_mag_bound by (cases s) (simp_all add: sign_bit_def bits_make_False bits_make_True)

lemma inf_mag_pos [simp]: "0 < inf_mag" and inf_mag_neq_0 [simp]: "inf_mag \<noteq> 0"
  by (simp_all add: inf_mag_def)

lemma round_mag_0 [simp]: "round_mag 0 d e = 0"
  by (simp add: round_mag_def)

lemma round_mag_le [simp]: "round_mag n d e \<le> inf_mag"
proof (cases "n = 0")
  case False
  then show ?thesis by (simp only: round_mag_def Let_def if_False min.cobounded1)
qed simp

text \<open>Evaluating \<open>round_mag\<close> on numerals one local at a time, as the simplifier needs it.\<close>

lemma bitlen_numeral:
  "bitlen 0 = 0" "bitlen (Suc 0) = 1" "bitlen 1 = 1"
  "bitlen (numeral (num.Bit0 k)) = Suc (bitlen (numeral k))"
  "bitlen (numeral (num.Bit1 k)) = Suc (bitlen (numeral k))"
  by (subst bitlen.simps; simp add: bitlen.simps)+

lemma round_mag_eval:
  assumes "n \<noteq> 0" and "u = max (- 1074) (e + int (bitlen n) - int (bitlen d) - 53)"
    and "x = e - u" and "N = (if 0 \<le> x then n * 2 ^ nat x else n)"
    and "D = (if 0 \<le> x then d else d * 2 ^ nat (- x))" and "wide = (2 ^ 53 \<le> N div D)"
    and "t = (if wide then u + 1 else u)" and "D' = (if wide then 2 * D else D)"
    and "h = half_even N D'"
  shows "round_mag n d e = min inf_mag (nat (t + 1074) * 2 ^ 52 + h)"
  unfolding assms(2-) round_mag_def Let_def using assms(1) by (simp only: if_False)

lemma make_double_eqI: "magnitude d = m \<Longrightarrow> sign_bit d = s \<Longrightarrow> make_double s m = d"
proof -
  assume "magnitude d = m" and "sign_bit d = s"
  moreover have "unat (bits d) < 2 ^ 64"
    using unsigned_less [of "bits d"] by simp
  ultimately have "m + (if s then 2 ^ 63 else 0) = unat (bits d)"
    by (auto simp: magnitude_def sign_bit_def mod_if)
  then have "make_double s m = Double (of_nat (unat (bits d)))"
    by (simp only: make_double_def)
  then show ?thesis by simp
qed

subsection \<open>The order of patterns is the order of values\<close>

text \<open>The value of a finite double in units of the smallest subnormal, \<open>2 ^ - 1074\<close>.\<close>

definition scaled_value :: "double \<Rightarrow> nat" where
  "scaled_value d = significand d * 2 ^ nat (exponent d + 1074)"

lemma scaled_value_eq:
  "scaled_value d =
     (let e = magnitude d div 2 ^ 52; f = magnitude d mod 2 ^ 52
      in if e = 0 then f else (2 ^ 52 + f) * 2 ^ (e - 1))"
  by (auto simp: scaled_value_def significand_def exponent_def Let_def max_def nat_diff_distrib)

lemma scaled_value_strict_mono:
  assumes "magnitude a < magnitude b"
  shows "scaled_value a < scaled_value b"
proof -
  define ea fa where "ea = magnitude a div 2 ^ 52" and "fa = magnitude a mod 2 ^ 52"
  define eb fb where "eb = magnitude b div 2 ^ 52" and "fb = magnitude b mod 2 ^ 52"
  note defs = ea_def fa_def eb_def fb_def
  have f: "fa < 2 ^ 52" "fb < 2 ^ 52" by (simp_all add: defs)
  have ab: "ea < eb \<or> ea = eb \<and> fa < fb"
  proof -
    have "ea * 2 ^ 52 + fa < eb * 2 ^ 52 + fb" using assms by (simp add: defs)
    then show ?thesis using f by (cases ea eb rule: linorder_cases) simp_all
  qed
  have sa: "scaled_value a = (if ea = 0 then fa else (2 ^ 52 + fa) * 2 ^ (ea - 1))"
    and sb: "scaled_value b = (if eb = 0 then fb else (2 ^ 52 + fb) * 2 ^ (eb - 1))"
    by (simp_all only: scaled_value_eq Let_def defs)
  have va: "scaled_value a < 2 ^ 52 * 2 ^ ea"
    using f by (cases ea) (simp_all add: sa)
  show ?thesis
  proof (cases "ea < eb")
    case True
    then have "(2::nat) ^ ea \<le> 2 ^ (eb - 1)" by (intro power_increasing) auto
    then have "2 ^ 52 * 2 ^ ea \<le> (2 ^ 52 + fb) * 2 ^ (eb - 1)"
      by (intro mult_le_mono) simp_all
    with va True show ?thesis by (simp add: sb)
  next
    case False
    with ab show ?thesis by (auto simp: sa sb)
  qed
qed

text \<open>Comparing finite doubles with \<open>dlt\<close> compares their exact values.\<close>

lemma dlt_values:
  assumes "isfinite a" and "isfinite b" and "\<not> sign_bit a" and "\<not> sign_bit b"
  shows "dlt a b \<longleftrightarrow> scaled_value a < scaled_value b"
proof -
  have "scaled_value a = scaled_value b" if "magnitude a = magnitude b"
    using that by (simp add: scaled_value_eq)
  then have "magnitude a < magnitude b \<longleftrightarrow> scaled_value a < scaled_value b"
    using scaled_value_strict_mono by (metis less_irrefl less_trans linorder_neqE_nat)
  with assms show ?thesis by (simp add: dlt_def isnan_def isfinite_def dkey_def)
qed

interpretation double_order: strict_weak_order dlt "\<lambda>d. \<not> isnan d"
  by unfold_locales (auto simp: dlt_def)

section \<open>Non-negative doubles are closed under the arithmetic of the cost model\<close>

definition dnonneg :: "double \<Rightarrow> bool" where
  "dnonneg d \<longleftrightarrow> \<not> isnan d \<and> (sign_bit d \<longrightarrow> magnitude d = 0)"

lemma dnonneg_iff: "dnonneg d \<longleftrightarrow> dle dzero d"
  by (auto simp: dnonneg_def dle_def dzero_def dkey_def isnan_def)

lemma isnan_make [simp]: "m \<le> inf_mag \<Longrightarrow> \<not> isnan (make_double s m)"
  by (simp add: isnan_def)

lemma isnan_zero [simp]: "\<not> isnan dzero"
  by (simp add: dzero_def)

lemma isnan_pos_inf [simp]: "\<not> isnan pos_inf" and isinf_pos_inf [simp]: "isinf pos_inf"
  by (simp_all add: pos_inf_def isinf_def)

lemma dnonneg_zero [simp]: "dnonneg dzero"
  by (simp add: dnonneg_def dzero_def)

lemma isfinite_zero [simp]: "isfinite dzero"
  by (simp add: isfinite_def dzero_def)

lemma dnonneg_pos_inf [simp]: "dnonneg pos_inf"
  by (simp add: dnonneg_def pos_inf_def)

lemma dnonneg_make_False: "m \<le> inf_mag \<Longrightarrow> dnonneg (make_double False m)"
  by (simp add: dnonneg_def)

lemma significand_0: "magnitude d = 0 \<Longrightarrow> significand d = 0"
  by (simp add: significand_def)

lemma dnonneg_dadd:
  assumes "dnonneg a" and "dnonneg b"
  shows "dnonneg (dadd a b)"
proof (cases "isinf a \<or> isinf b")
  case True
  with assms show ?thesis by (auto simp: dnonneg_def dadd_def isinf_def)
next
  case False
  define e where "e = min (exponent a) (exponent b)"
  define va where "va = int (significand a * 2 ^ nat (exponent a - e)) * (if sign_bit a then - 1 else 1)"
  define vb where "vb = int (significand b * 2 ^ nat (exponent b - e)) * (if sign_bit b then - 1 else 1)"
  have "0 \<le> va" "0 \<le> vb"
    using assms by (auto simp: va_def vb_def dnonneg_def significand_0)
  moreover have "dadd a b = (if va + vb = 0 then make_double (sign_bit a \<and> sign_bit b) 0
      else make_double (va + vb < 0) (round_mag (nat \<bar>va + vb\<bar>) 1 e))"
    using assms False by (simp add: dadd_def dnonneg_def Let_def va_def vb_def e_def)
  ultimately show ?thesis by (simp add: dnonneg_def)
qed

lemma dnonneg_dmul:
  assumes "dnonneg a" and "dnonneg b" and "isfinite a" and "isfinite b"
  shows "dnonneg (dmul a b)"
proof -
  have "significand d = 0" if "sign_bit d" and "dnonneg d" for d
    using that by (simp add: significand_0 dnonneg_def)
  from this [of a] this [of b] assms show ?thesis
    by (cases "sign_bit a"; cases "sign_bit b")
      (simp_all add: dnonneg_def dmul_def isinf_def isfinite_def Let_def)
qed

end
