(* ===== verification/Data_Model.thy ===== *)
theory Data_Model
  imports Core_Types Doubles
begin

text \<open>
  The structures under \<open>include/communication_planner/model\<close>, \<open>path\<close> and \<open>planner\<close> as records with
  the fields of the source in their order; a prefix per structure keeps field names apart. A
  \<open>default_\<close> value is the structure after default construction. \<open>std::set\<close> members are strictly
  increasing lists and \<open>std::map\<close> members are association lists in key order (Prelude). The
  functions that the headers define inline follow their structures.
\<close>

section \<open>Evidence\<close>

record TopologyLocation =
  loc_node :: NodeId
  loc_cpuDomain :: CpuDomainId
  loc_memoryDomain :: MemoryDomainId
  loc_nic :: NicId
  loc_device :: DeviceId
  loc_pcieRoot :: string
  loc_numaDistance :: int
  loc_provenance :: Provenance

definition default_TopologyLocation :: TopologyLocation where
  "default_TopologyLocation =
     \<lparr>loc_node = 0, loc_cpuDomain = 0, loc_memoryDomain = 0, loc_nic = 0, loc_device = 0,
      loc_pcieRoot = [], loc_numaDistance = 0, loc_provenance = Provenance.UNKNOWN\<rparr>"

record Capability =
  cap_generation :: Generation
  cap_transports :: "Transport list"
  cap_features :: "string list"
  cap_provenance :: Provenance
  cap_computeArch :: "u8 list"

definition default_Capability :: Capability where
  "default_Capability =
     \<lparr>cap_generation = 0, cap_transports = [], cap_features = [],
      cap_provenance = Provenance.UNKNOWN, cap_computeArch = replicate 8 0\<rparr>"

definition supports :: "Capability \<Rightarrow> Transport \<Rightarrow> bool" where
  "supports c t \<longleftrightarrow> t \<in> set (cap_transports c)"

record Health =
  he_generation :: Generation
  he_healthy :: bool
  he_message :: string

definition default_Health :: Health where
  "default_Health = \<lparr>he_generation = 0, he_healthy = False, he_message = []\<rparr>"

record Capacity =
  cy_generation :: Generation
  cy_usable :: u64
  cy_headroom :: u64
  cy_provenance :: Provenance

definition default_Capacity :: Capacity where
  "default_Capacity =
     \<lparr>cy_generation = 0, cy_usable = 0, cy_headroom = 0, cy_provenance = Provenance.UNKNOWN\<rparr>"

record Congestion =
  cg_generation :: Generation
  cg_load :: double
  cg_penalty :: double
  cg_hardLimitExceeded :: bool
  cg_provenance :: Provenance

definition default_Congestion :: Congestion where
  "default_Congestion =
     \<lparr>cg_generation = 0, cg_load = dzero, cg_penalty = dzero, cg_hardLimitExceeded = False,
      cg_provenance = Provenance.UNKNOWN\<rparr>"

definition hasValidLoad :: "Congestion \<Rightarrow> bool" where
  "hasValidLoad c \<longleftrightarrow>
     dle dzero (cg_load c) \<and> dle (cg_load c) (double_lit 1 1) \<and> \<not> isnan (cg_load c)"

record Reservation =
  rs_resource :: ResourceId
  rs_reserved :: u64
  rs_provenance :: Provenance

section \<open>Endpoints and links\<close>

record Endpoint =
  ep_id :: EndpointId
  ep_generation :: Generation
  ep_kind :: EndpointKind
  ep_node :: NodeId
  ep_device :: DeviceId
  ep_location :: TopologyLocation
  ep_address :: string
  ep_protocol :: string
  ep_version :: string
  ep_name :: string
  ep_capability :: Capability
  ep_health :: Health
  ep_reachable :: bool
  ep_ready :: bool
  ep_worker :: WorkerId
  ep_workerBoot :: Generation
  ep_source :: SourceId
  ep_sourceBoot :: Generation
  ep_failureDomain :: string
  ep_provenance :: Provenance

definition default_Endpoint :: Endpoint where
  "default_Endpoint =
     \<lparr>ep_id = 0, ep_generation = 0, ep_kind = EndpointKind.UNKNOWN, ep_node = 0, ep_device = 0,
      ep_location = default_TopologyLocation, ep_address = [], ep_protocol = [], ep_version = [],
      ep_name = [], ep_capability = default_Capability, ep_health = default_Health,
      ep_reachable = False, ep_ready = False, ep_worker = 0, ep_workerBoot = 0, ep_source = 0,
      ep_sourceBoot = 0, ep_failureDomain = [], ep_provenance = Provenance.UNKNOWN\<rparr>"

text \<open>\<open>Endpoint::setArch\<close>: at most seven bytes, then a terminating zero; later bytes stay.\<close>

definition setArch :: "u8 list \<Rightarrow> Endpoint \<Rightarrow> Endpoint" where
  "setArch a e =
     (let n = min (length a) 7; arch = cap_computeArch (ep_capability e)
      in e\<lparr>ep_capability := (ep_capability e)
            \<lparr>cap_computeArch := take n a @ [0] @ drop (Suc n) arch\<rparr>\<rparr>)"

record Link =
  ln_id :: LinkId
  ln_generation :: Generation
  ln_source :: EndpointId
  ln_destination :: EndpointId
  ln_kind :: LinkKind
  ln_transport :: Transport
  ln_directed :: bool
  ln_capacity :: u64
  ln_effectiveBandwidth :: u64
  ln_latency :: u64
  ln_health :: Health
  ln_congestion :: Congestion
  ln_capacityEvidence :: Capacity
  ln_topologyGeneration :: Generation
  ln_capabilityGeneration :: Generation
  ln_failureDomain :: string
  ln_workerBoot :: Generation
  ln_provenance :: Provenance

definition default_Link :: Link where
  "default_Link =
     \<lparr>ln_id = 0, ln_generation = 0, ln_source = 0, ln_destination = 0, ln_kind = LinkKind.UNKNOWN,
      ln_transport = Transport.UNKNOWN, ln_directed = True, ln_capacity = 0,
      ln_effectiveBandwidth = 0, ln_latency = 0, ln_health = default_Health,
      ln_congestion = default_Congestion, ln_capacityEvidence = default_Capacity,
      ln_topologyGeneration = 0, ln_capabilityGeneration = 0, ln_failureDomain = [],
      ln_workerBoot = 0, ln_provenance = Provenance.UNKNOWN\<rparr>"

section \<open>Candidate paths, stages, costs, paths and plans\<close>

record Hop =
  hop_link :: LinkId
  hop_from :: EndpointId
  hop_to :: EndpointId

record CandidatePath =
  cp_source :: EndpointId
  cp_destination :: EndpointId
  cp_hops :: "Hop list"

record Stage =
  st_id :: StageId
  st_generation :: Generation
  st_source :: EndpointId
  st_destination :: EndpointId
  st_link :: LinkId
  st_transport :: Transport
  st_payload :: u64
  st_expectedBandwidth :: u64
  st_expectedLatency :: u64
  st_stagingResource :: ResourceId
  st_requiresAuthority :: bool
  st_provenance :: Provenance
  st_description :: string

definition default_Stage :: Stage where
  "default_Stage =
     \<lparr>st_id = 0, st_generation = 0, st_source = 0, st_destination = 0, st_link = 0,
      st_transport = Transport.UNKNOWN, st_payload = 0, st_expectedBandwidth = 0,
      st_expectedLatency = 0, st_stagingResource = 0, st_requiresAuthority = False,
      st_provenance = Provenance.UNKNOWN, st_description = []\<rparr>"

record CostComponent =
  cc_factor :: CostFactor
  cc_weight :: double
  cc_value :: double
  cc_provenance :: Provenance

definition cc_isValid :: "CostComponent \<Rightarrow> bool" where
  "cc_isValid c \<longleftrightarrow>
     dle dzero (cc_weight c) \<and> \<not> isnan (cc_weight c) \<and> \<not> isinf (cc_weight c) \<and>
     dle dzero (cc_value c) \<and> \<not> isnan (cc_value c) \<and> \<not> isinf (cc_value c)"

record CostSummary =
  cs_components :: "CostComponent list"
  cs_total :: double

definition default_CostSummary :: CostSummary where
  "default_CostSummary = \<lparr>cs_components = [], cs_total = dzero\<rparr>"

definition totalValid :: "CostSummary \<Rightarrow> bool" where
  "totalValid s \<longleftrightarrow> \<not> isnan (cs_total s) \<and> \<not> isinf (cs_total s)"

text \<open>The loop of \<open>CostSummary::of\<close>: it stops with infinity at the first invalid component or sum.\<close>

fun cost_total :: "double \<Rightarrow> CostComponent list \<Rightarrow> double" where
  "cost_total t [] = t"
| "cost_total t (c # cs) =
     (if \<not> cc_isValid c then pos_inf
      else let t' = dadd t (dmul (cc_weight c) (cc_value c))
           in if isinf t' \<or> isnan t' then pos_inf else cost_total t' cs)"

definition CostSummary_of :: "CostComponent list \<Rightarrow> CostSummary" where
  "CostSummary_of comps = \<lparr>cs_components = comps, cs_total = cost_total dzero comps\<rparr>"

fun uncertainty_loop :: "double \<Rightarrow> CostComponent list \<Rightarrow> double" where
  "uncertainty_loop u [] = u"
| "uncertainty_loop u (c # cs) =
     uncertainty_loop (if cc_provenance c = Provenance.UNKNOWN then dadd u (double_lit 1 1) else u) cs"

definition uncertaintyCount :: "CostSummary \<Rightarrow> double" where
  "uncertaintyCount s = uncertainty_loop dzero (cs_components s)"

record Path =
  pa_id :: PathId
  pa_generation :: Generation
  pa_source :: EndpointId
  pa_destination :: EndpointId
  pa_stages :: "Stage list"
  pa_totalPayload :: u64
  pa_cost :: CostSummary
  pa_provenance :: Provenance
  pa_failureDomain :: string
  pa_reason :: string

record CommunicationPlan =
  pl_id :: CommunicationPlanId
  pl_generation :: Generation
  pl_requestId :: CommunicationRequestId
  pl_requestGeneration :: Generation
  pl_shape :: RequestShape
  pl_primaryPath :: PathId
  pl_fallbackPaths :: "PathId list"
  pl_candidatePaths :: "Path list"
  pl_orderedStages :: "Stage list"
  pl_feasibility :: Feasibility
  pl_topologyGeneration :: Generation
  pl_capacityGeneration :: Generation
  pl_reservationGeneration :: Generation
  pl_congestionGeneration :: Generation
  pl_capabilityGeneration :: Generation
  pl_healthGeneration :: Generation
  pl_placementGeneration :: Generation
  pl_authorityGeneration :: Generation
  pl_endpointGenerations :: "(EndpointId \<times> Generation) list"
  pl_linkGenerations :: "(LinkId \<times> Generation) list"
  pl_requiredStagingResources :: "ResourceId list"
  pl_requiredResourceClaims :: "ResourceId list"
  pl_cost :: CostSummary
  pl_explanations :: "string list"
  pl_provenance :: string
  pl_revalidationGeneration :: Generation
  pl_revalidateBeforeExecute :: bool
  pl_handoffRequirement :: string
  pl_createdProvenance :: string
  pl_multicastDestinations :: "EndpointId list"
  pl_collectiveShape :: CollectiveShape
  pl_collectiveParticipants :: "EndpointId list"
  pl_description :: string

definition default_CommunicationPlan :: CommunicationPlan where
  "default_CommunicationPlan =
     \<lparr>pl_id = 0, pl_generation = 0, pl_requestId = 0, pl_requestGeneration = 0,
      pl_shape = RequestShape.POINT_TO_POINT, pl_primaryPath = 0, pl_fallbackPaths = [],
      pl_candidatePaths = [], pl_orderedStages = [], pl_feasibility = Feasibility.UNKNOWN,
      pl_topologyGeneration = 0, pl_capacityGeneration = 0, pl_reservationGeneration = 0,
      pl_congestionGeneration = 0, pl_capabilityGeneration = 0, pl_healthGeneration = 0,
      pl_placementGeneration = 0, pl_authorityGeneration = 0, pl_endpointGenerations = [],
      pl_linkGenerations = [], pl_requiredStagingResources = [], pl_requiredResourceClaims = [],
      pl_cost = default_CostSummary, pl_explanations = [], pl_provenance = [],
      pl_revalidationGeneration = 0, pl_revalidateBeforeExecute = True,
      pl_handoffRequirement = [], pl_createdProvenance = [], pl_multicastDestinations = [],
      pl_collectiveShape = CollectiveShape.UNKNOWN, pl_collectiveParticipants = [],
      pl_description = []\<rparr>"

section \<open>Requests\<close>

record CommunicationRequest =
  rq_id :: CommunicationRequestId
  rq_generation :: Generation
  rq_shape :: RequestShape
  rq_source :: EndpointId
  rq_destinations :: "EndpointId list"
  rq_payloadSize :: u64
  rq_direction :: Direction
  rq_latencySensitive :: bool
  rq_throughputTarget :: u64
  rq_requireOrdering :: bool
  rq_requireReliability :: bool
  rq_allowRetry :: bool
  rq_allowStaging :: bool
  rq_allowHostStaging :: bool
  rq_allowStorageStaging :: bool
  rq_allowRelay :: bool
  rq_allowMulticast :: bool
  rq_allowed :: "Transport list"
  rq_forbidden :: "Transport list"
  rq_requiredFailureDomain :: string
  rq_preferredLocality :: string
  rq_maxHops :: u32
  rq_maxStages :: u32
  rq_maxMovementCost :: "u64 option"
  rq_reservationBinding :: "ResourceId option"
  rq_externalPriority :: u32
  rq_policyGeneration :: Generation
  rq_collectiveShape :: CollectiveShape
  rq_participants :: "EndpointId list"
  rq_collectiveCount :: u32
  rq_provenance :: string

definition default_CommunicationRequest :: CommunicationRequest where
  "default_CommunicationRequest =
     \<lparr>rq_id = 0, rq_generation = 0, rq_shape = RequestShape.POINT_TO_POINT, rq_source = 0,
      rq_destinations = [], rq_payloadSize = 0, rq_direction = Direction.FORWARD,
      rq_latencySensitive = False, rq_throughputTarget = 0, rq_requireOrdering = False,
      rq_requireReliability = False, rq_allowRetry = False, rq_allowStaging = True,
      rq_allowHostStaging = True, rq_allowStorageStaging = False, rq_allowRelay = True,
      rq_allowMulticast = False, rq_allowed = [], rq_forbidden = [],
      rq_requiredFailureDomain = [], rq_preferredLocality = [], rq_maxHops = 16,
      rq_maxStages = 16, rq_maxMovementCost = None, rq_reservationBinding = None,
      rq_externalPriority = 0, rq_policyGeneration = 0,
      rq_collectiveShape = CollectiveShape.UNKNOWN, rq_participants = [], rq_collectiveCount = 0,
      rq_provenance = []\<rparr>"

definition effectiveShape :: "CommunicationRequest \<Rightarrow> RequestShape" where
  "effectiveShape r =
     (if rq_shape r = RequestShape.MULTICAST \<or> rq_allowMulticast r then RequestShape.MULTICAST
      else rq_shape r)"

text \<open>
  \<open>validate\<close>: \<open>None\<close> is a valid request, \<open>Some why\<close> the reason of the first check that fails. The
  checks of the collective block and of the shape block are helper functions, in the order of the
  source.
\<close>

definition validate_collective :: "CommunicationRequest \<Rightarrow> string option" where
  "validate_collective r =
     (if rq_shape r = RequestShape.COLLECTIVE then
        if rq_collectiveCount r = 0 then Some ''collective zero participant count''
        else if 2 ^ 20 < rq_collectiveCount r then Some ''collective participant count overflow''
        else if rq_collectiveShape r = CollectiveShape.UNKNOWN then Some ''collective shape unknown''
        else if rq_participants r = [] then Some ''collective empty participants''
        else None
      else None)"

definition validate_shape :: "CommunicationRequest \<Rightarrow> string option" where
  "validate_shape r =
     (if rq_shape r = RequestShape.MULTICAST \<or> rq_allowMulticast r then
        if length (rq_destinations r) < 2 then Some ''multicast needs >=2 destinations''
        else if 2 ^ 16 < length (rq_destinations r) then Some ''multicast fan-out overflow''
        else None
      else if rq_shape r = RequestShape.POINT_TO_POINT \<or> rq_shape r = RequestShape.STAGED then
        if isNull (rq_source r) then Some ''point-to-point missing source''
        else if length (rq_destinations r) \<noteq> 1
        then Some ''point-to-point needs exactly one destination''
        else if rq_destinations r = [] then Some ''point-to-point missing destination''
        else None
      else None)"

definition validate_transports :: "CommunicationRequest \<Rightarrow> string option" where
  "validate_transports r =
     (if \<exists>t \<in> set (rq_allowed r). t \<in> set (rq_forbidden r)
      then Some ''transport in both allowed and forbidden''
      else if Transport.UNKNOWN \<in> set (rq_forbidden r) then Some ''cannot forbid UNKNOWN transport''
      else None)"

definition validate :: "CommunicationRequest \<Rightarrow> string option" where
  "validate r =
     (if isNull (rq_id r) then Some ''null request id''
      else if isNull (rq_generation r) then Some ''null request generation''
      else if rq_payloadSize r = 0 then Some ''zero payload size''
      else if rq_maxHops r = 0 \<or> 255 < rq_maxHops r then Some ''invalid maxHops''
      else if rq_maxStages r = 0 \<or> 255 < rq_maxStages r then Some ''invalid maxStages''
      else case validate_collective r of Some why \<Rightarrow> Some why
      | None \<Rightarrow> (case validate_shape r of Some why \<Rightarrow> Some why | None \<Rightarrow> validate_transports r))"

text \<open>
  How a planner call can fail to return: \<open>ComError\<close> of \<open>core/error.hpp\<close>, the \<open>std::out_of_range\<close> of
  \<open>vector::at\<close> and \<open>map::at\<close>, and \<open>Undefined\<close> where the C++ has no defined behaviour
  (\<open>vector::front\<close> of an empty vector), so that its absence is something to prove.
\<close>

datatype cp_exception = ComError string | OutOfRange | Undefined

definition requireValid :: "CommunicationRequest \<Rightarrow> cp_exception + unit" where
  "requireValid r =
     (case validate r of
        Some why \<Rightarrow> Inl (ComError (''malformed communication request: '' @ why))
      | None \<Rightarrow> Inr ())"

section \<open>Bounds and snapshots\<close>

record Bounds =
  bd_maxEndpoints :: u64
  bd_maxLinks :: u64
  bd_maxCandidates :: u64
  bd_maxPathDepth :: u32
  bd_maxRelayCount :: u32
  bd_maxMulticastFanout :: u32
  bd_maxCollectiveParticipants :: u32
  bd_maxFallbacks :: u64
  bd_maxHistory :: u64
  bd_maxStagingPerPlan :: u64
  bd_maxExplanationSize :: u64
  bd_maxPayloadBytes :: u64

definition default_Bounds :: Bounds where
  "default_Bounds =
     \<lparr>bd_maxEndpoints = 100000, bd_maxLinks = 100000, bd_maxCandidates = 4096,
      bd_maxPathDepth = 16, bd_maxRelayCount = 16, bd_maxMulticastFanout = 1024,
      bd_maxCollectiveParticipants = 65536, bd_maxFallbacks = 16, bd_maxHistory = 4096,
      bd_maxStagingPerPlan = 64, bd_maxExplanationSize = 64, bd_maxPayloadBytes = 2 ^ 34\<rparr>"

record EvidenceSnapshot =
  sn_topologyGeneration :: Generation
  sn_capacityGeneration :: Generation
  sn_reservationGeneration :: Generation
  sn_congestionGeneration :: Generation
  sn_capabilityGeneration :: Generation
  sn_healthGeneration :: Generation
  sn_placementGeneration :: Generation
  sn_policyGeneration :: Generation
  sn_endpoints :: "Endpoint list"
  sn_links :: "Link list"
  sn_reservations :: "Reservation list"
  sn_resourceCapacities :: "(ResourceId \<times> Capacity) list"
  sn_workerBoots :: "(WorkerId \<times> Generation) list"
  sn_sourceBoots :: "(SourceId \<times> Generation) list"
  sn_epoch :: Generation
  sn_authorityGeneration :: Generation

definition default_EvidenceSnapshot :: EvidenceSnapshot where
  "default_EvidenceSnapshot =
     \<lparr>sn_topologyGeneration = 0, sn_capacityGeneration = 0, sn_reservationGeneration = 0,
      sn_congestionGeneration = 0, sn_capabilityGeneration = 0, sn_healthGeneration = 0,
      sn_placementGeneration = 0, sn_policyGeneration = 0, sn_endpoints = [], sn_links = [],
      sn_reservations = [], sn_resourceCapacities = [], sn_workerBoots = [],
      sn_sourceBoots = [], sn_epoch = 0, sn_authorityGeneration = 0\<rparr>"

definition endpointMap :: "EvidenceSnapshot \<Rightarrow> (EndpointId \<times> Endpoint) list" where
  "endpointMap s = fold (\<lambda>e. map_assign (ep_id e) e) (sn_endpoints s) []"

definition linkMap :: "EvidenceSnapshot \<Rightarrow> (LinkId \<times> Link) list" where
  "linkMap s = fold (\<lambda>l. map_assign (ln_id l) l) (sn_links s) []"

section \<open>Lookup by identity and cost totals\<close>

lemma find_endpointMap:
  "map_find (endpointMap s) k = List.find (\<lambda>e. ep_id e = k) (rev (sn_endpoints s))"
  unfolding endpointMap_def by (simp add: std_map.find_build option.map_ident)

lemma find_linkMap:
  "map_find (linkMap s) k = List.find (\<lambda>l. ln_id l = k) (rev (sn_links s))"
  unfolding linkMap_def by (simp add: std_map.find_build option.map_ident)

lemma endpointMap_SomeD: "map_find (endpointMap s) k = Some e \<Longrightarrow> ep_id e = k \<and> e \<in> set (sn_endpoints s)"
  by (auto simp: find_endpointMap find_Some_iff) (metis nth_mem set_rev length_rev)

lemma linkMap_SomeD: "map_find (linkMap s) k = Some l \<Longrightarrow> ln_id l = k \<and> l \<in> set (sn_links s)"
  by (auto simp: find_linkMap find_Some_iff) (metis nth_mem set_rev length_rev)

lemma linkMap_None_iff: "map_find (linkMap s) k = None \<longleftrightarrow> k \<notin> ln_id ` set (sn_links s)"
  by (auto simp: find_linkMap find_None_iff)

lemma endpointMap_None_iff: "map_find (endpointMap s) k = None \<longleftrightarrow> k \<notin> ep_id ` set (sn_endpoints s)"
  by (auto simp: find_endpointMap find_None_iff)

lemma map_ok_endpointMap: "map_ok (endpointMap s)"
  unfolding endpointMap_def by (rule std_map.ok_fold) simp

lemma map_ok_linkMap: "map_ok (linkMap s)"
  unfolding linkMap_def by (rule std_map.ok_fold) simp

lemma endpointMap_perm:
  assumes "distinct (map ep_id (sn_endpoints s))" and "mset (sn_endpoints s) = mset (sn_endpoints s')"
  shows "endpointMap s = endpointMap s'"
  using find_by_key_perm [OF assms]
  by (intro map_ext) (simp_all add: map_ok_endpointMap find_endpointMap)

lemma linkMap_perm:
  assumes "distinct (map ln_id (sn_links s))" and "mset (sn_links s) = mset (sn_links s')"
  shows "linkMap s = linkMap s'"
  using find_by_key_perm [OF assms]
  by (intro map_ext) (simp_all add: map_ok_linkMap find_linkMap)

lemma cost_total_cases:
  assumes "dnonneg t" and "isfinite t"
  shows "cost_total t cs = pos_inf \<or> (dnonneg (cost_total t cs) \<and> isfinite (cost_total t cs))"
  using assms
proof (induction cs arbitrary: t)
  case Nil
  then show ?case by simp
next
  case (Cons c cs)
  let ?t = "dadd t (dmul (cc_weight c) (cc_value c))"
  show ?case
  proof (cases "cc_isValid c \<and> \<not> isinf ?t \<and> \<not> isnan ?t")
    case True
    have "dnonneg (dmul (cc_weight c) (cc_value c))"
      using True by (intro dnonneg_dmul)
        (auto simp: cc_isValid_def dnonneg_iff isfinite_def isinf_def isnan_def)
    with Cons.prems have "dnonneg ?t" by (intro dnonneg_dadd)
    moreover have "isfinite ?t" using True by (auto simp: isfinite_def isinf_def isnan_def)
    ultimately show ?thesis using True Cons.IH by (simp add: Let_def)
  next
    case False
    then show ?thesis by (auto simp: Let_def)
  qed
qed

lemma CostSummary_of_total:
  "cs_total (CostSummary_of cs) = pos_inf \<or>
   dnonneg (cs_total (CostSummary_of cs)) \<and> isfinite (cs_total (CostSummary_of cs))"
  unfolding CostSummary_of_def using cost_total_cases [of dzero cs] by simp

end
