(* ===== verification/Feasibility_Filter.thy ===== *)
theory Feasibility_Filter
  imports Data_Model
begin

text \<open>
  \<open>src/feasibility.cpp\<close>: the hard filter that every candidate path passes before it is costed or
  ranked. A check returns \<open>None\<close> to go on and \<open>Some r\<close> for the early \<open>return r\<close> of the source.
\<close>

section \<open>The filter\<close>

record FeasibilityResult =
  fr_outcome :: Feasibility
  fr_detail :: string

definition feasible :: "FeasibilityResult \<Rightarrow> bool" where
  "feasible r \<longleftrightarrow> fr_outcome r = Feasibility.FEASIBLE"

definition fr_ok :: FeasibilityResult where
  "fr_ok = \<lparr>fr_outcome = Feasibility.FEASIBLE, fr_detail = []\<rparr>"

definition fr_reject :: "Feasibility \<Rightarrow> string \<Rightarrow> FeasibilityResult" where
  "fr_reject f d = \<lparr>fr_outcome = f, fr_detail = d\<rparr>"

definition endpointFresh :: "Endpoint \<Rightarrow> EvidenceSnapshot \<Rightarrow> bool" where
  "endpointFresh e s \<longleftrightarrow>
     (if \<not> isNull (ep_workerBoot e)
      then \<not> isNull (ep_worker e) \<and> map_find (sn_workerBoots s) (ep_worker e) = Some (ep_workerBoot e)
      else True) \<and>
     (if \<not> isNull (ep_sourceBoot e)
      then \<not> isNull (ep_source e) \<and> map_find (sn_sourceBoots s) (ep_source e) = Some (ep_sourceBoot e)
      else True)"

definition transportAllowed :: "CommunicationRequest \<Rightarrow> Transport \<Rightarrow> FeasibilityResult" where
  "transportAllowed r t =
     (if t \<in> set (rq_forbidden r)
      then fr_reject Feasibility.REJECT_TRANSPORT ''transport is forbidden by request''
      else if rq_allowed r \<noteq> [] \<and> t \<notin> set (rq_allowed r)
      then fr_reject Feasibility.REJECT_TRANSPORT ''transport is not in allowed set''
      else fr_ok)"

definition linkResource :: "LinkId \<Rightarrow> ResourceId" where
  "linkResource l = l"

definition stagingRelay :: "EndpointKind \<Rightarrow> bool" where
  "stagingRelay kind \<longleftrightarrow>
     kind = EndpointKind.CPU_MEMORY \<or> kind = EndpointKind.PINNED_HOST_MEMORY \<or>
     kind = EndpointKind.NUMA_MEMORY \<or> kind = EndpointKind.STORAGE \<or>
     kind = EndpointKind.PROCESS \<or> kind = EndpointKind.SERVICE \<or>
     kind = EndpointKind.CACHE \<or> kind = EndpointKind.CHECKPOINT \<or>
     kind = EndpointKind.MODEL_RESIDENCY \<or> kind = EndpointKind.STATE_LOCATION"

text \<open>The loop over interior relays, \<open>i + 1 < n\<close>: it is given all hops but the last.\<close>

fun relay_loop ::
  "CommunicationRequest \<Rightarrow> (EndpointId \<times> Endpoint) list \<Rightarrow> Hop list \<Rightarrow> FeasibilityResult option" where
  "relay_loop r emap [] = None"
| "relay_loop r emap (h # hs) =
     (case map_find emap (hop_to h) of
        None \<Rightarrow> Some (fr_reject Feasibility.REJECT_ENDPOINT ''missing relay endpoint'')
      | Some e \<Rightarrow>
          if stagingRelay (ep_kind e) then
            if ep_kind e = EndpointKind.STORAGE then
              if \<not> rq_allowStorageStaging r
              then Some (fr_reject Feasibility.REJECT_ENDPOINT ''storage staging not permitted by request'')
              else relay_loop r emap hs
            else
              if \<not> rq_allowHostStaging r
              then Some (fr_reject Feasibility.REJECT_ENDPOINT ''host staging not permitted by request'')
              else relay_loop r emap hs
          else relay_loop r emap hs)"

definition staging_check ::
  "CommunicationRequest \<Rightarrow> (EndpointId \<times> Endpoint) list \<Rightarrow> Hop list \<Rightarrow> FeasibilityResult option" where
  "staging_check r emap hops =
     (if 1 < length hops then
        if \<not> rq_allowStaging r \<and> \<not> rq_allowHostStaging r
        then Some (fr_reject Feasibility.REJECT_ENDPOINT
                     ''multi-hop path requires staging but request forbids it'')
        else if \<not> rq_allowRelay r
        then Some (fr_reject Feasibility.REJECT_ENDPOINT ''relay not allowed'')
        else relay_loop r emap (butlast hops)
      else None)"

text \<open>Reservations on the link's bandwidth resource, summed in 64 bits.\<close>

definition reserved_on :: "Reservation list \<Rightarrow> LinkId \<Rightarrow> u64" where
  "reserved_on rs l =
     foldl (\<lambda>acc r. if rs_resource r = linkResource l then acc + rs_reserved r else acc) 0 rs"

definition link_check ::
  "CommunicationRequest \<Rightarrow> EvidenceSnapshot \<Rightarrow> Hop \<Rightarrow> Link \<Rightarrow> FeasibilityResult option" where
  "link_check r s hop link =
     (if hop_from hop \<noteq> ln_source link \<or> hop_to hop \<noteq> ln_destination link
      then Some (fr_reject Feasibility.REJECT_DIRECTION ''hop direction mismatch'')
      else if \<not> ln_directed link
      then Some (fr_reject Feasibility.REJECT_DIRECTION ''link not directed'')
      else if \<not> feasible (transportAllowed r (ln_transport link))
      then Some (transportAllowed r (ln_transport link))
      else if ln_capacity link = 0
      then Some (fr_reject Feasibility.REJECT_CAPACITY ''link has zero capacity'')
      else if ln_transport link = Transport.UNKNOWN
      then Some (fr_reject Feasibility.REJECT_TRANSPORT ''link transport UNKNOWN'')
      else if \<not> he_healthy (ln_health link)
      then Some (fr_reject Feasibility.REJECT_HEALTH ''link not healthy'')
      else if cg_hardLimitExceeded (ln_congestion link)
      then Some (fr_reject Feasibility.REJECT_CONGESTION_HARD_LIMIT ''link congestion hard limit exceeded'')
      else if rq_requiredFailureDomain r \<noteq> [] \<and> ln_failureDomain link \<noteq> rq_requiredFailureDomain r
      then Some (fr_reject Feasibility.REJECT_FAILURE_DOMAIN
                   ''link failure domain does not match required'')
      else if ln_capacity link \<le> reserved_on (sn_reservations s) (ln_id link)
      then Some (fr_reject Feasibility.REJECT_RESERVATION
                   ''reservation consumes available link capacity'')
      else None)"

definition endpoint_check ::
  "EvidenceSnapshot \<Rightarrow> Transport \<Rightarrow> Endpoint \<Rightarrow> FeasibilityResult option" where
  "endpoint_check s t e =
     (if \<not> endpointFresh e s
      then Some (fr_reject Feasibility.REJECT_STALE_ENDPOINT
                   ''endpoint published by stale worker/source incarnation'')
      else if \<not> ep_reachable e \<or> \<not> ep_ready e
      then Some (fr_reject Feasibility.REJECT_ENDPOINT ''endpoint not reachable/ready'')
      else if ep_kind e = EndpointKind.UNKNOWN
      then Some (fr_reject Feasibility.REJECT_ENDPOINT
                   ''UNKNOWN endpoint kind cannot satisfy hard readiness'')
      else if \<not> supports (ep_capability e) t
      then Some (fr_reject Feasibility.REJECT_CAPABILITY ''endpoint does not support link transport'')
      else None)"

definition hop_check ::
  "CommunicationRequest \<Rightarrow> EvidenceSnapshot \<Rightarrow> (EndpointId \<times> Endpoint) list \<Rightarrow>
   (LinkId \<times> Link) list \<Rightarrow> Hop \<Rightarrow> FeasibilityResult option" where
  "hop_check r s emap lmap hop =
     (case map_find lmap (hop_link hop) of
        None \<Rightarrow> Some (fr_reject Feasibility.REJECT_TOPOLOGY ''link not present'')
      | Some link \<Rightarrow>
          (case link_check r s hop link of
             Some res \<Rightarrow> Some res
           | None \<Rightarrow>
               (case (map_find emap (hop_from hop), map_find emap (hop_to hop)) of
                  (Some se, Some de) \<Rightarrow>
                    (case endpoint_check s (ln_transport link) se of
                       Some res \<Rightarrow> Some res
                     | None \<Rightarrow> endpoint_check s (ln_transport link) de)
                | _ \<Rightarrow> Some (fr_reject Feasibility.REJECT_ENDPOINT ''endpoint not present''))))"

fun hops_loop ::
  "CommunicationRequest \<Rightarrow> EvidenceSnapshot \<Rightarrow> (EndpointId \<times> Endpoint) list \<Rightarrow>
   (LinkId \<times> Link) list \<Rightarrow> Hop list \<Rightarrow> FeasibilityResult option" where
  "hops_loop r s emap lmap [] = None"
| "hops_loop r s emap lmap (h # hs) =
     (case hop_check r s emap lmap h of Some res \<Rightarrow> Some res | None \<Rightarrow> hops_loop r s emap lmap hs)"

definition evaluateCandidateFeasibility ::
  "CommunicationRequest \<Rightarrow> EvidenceSnapshot \<Rightarrow> CandidatePath \<Rightarrow> Bounds \<Rightarrow> FeasibilityResult" where
  "evaluateCandidateFeasibility r s cand bounds =
     (let emap = endpointMap s; lmap = linkMap s; hops = cp_hops cand
      in if hops = [] then fr_reject Feasibility.INSUFFICIENT_EVIDENCE ''empty candidate path''
         else if unat (bd_maxPathDepth bounds) < length hops
         then fr_reject Feasibility.REJECT_STAGE_LIMIT ''depth exceeds bound''
         else if unat (rq_maxStages r) < length hops
         then fr_reject Feasibility.REJECT_STAGE_LIMIT ''exceeds request stage limit''
         else if unat (rq_maxHops r) < length hops
         then fr_reject Feasibility.REJECT_STAGE_LIMIT ''exceeds request hop limit''
         else case staging_check r emap hops of Some res \<Rightarrow> res
         | None \<Rightarrow>
             (case hops_loop r s emap lmap hops of Some res \<Rightarrow> res
              | None \<Rightarrow>
                  if \<not> isNull (rq_policyGeneration r) \<and> sn_policyGeneration s < rq_policyGeneration r
                  then fr_reject Feasibility.REJECT_POLICY ''policy generation is not current''
                  else fr_ok))"

section \<open>What the filter lets through\<close>

text \<open>The hard constraints, stated once as predicates.\<close>

definition endpoint_usable :: "EvidenceSnapshot \<Rightarrow> Transport \<Rightarrow> EndpointId \<Rightarrow> bool" where
  "endpoint_usable s t k \<longleftrightarrow>
     (\<exists>e. map_find (endpointMap s) k = Some e \<and> endpointFresh e s \<and> ep_reachable e \<and> ep_ready e \<and>
          ep_kind e \<noteq> EndpointKind.UNKNOWN \<and> supports (ep_capability e) t)"

definition link_usable :: "CommunicationRequest \<Rightarrow> EvidenceSnapshot \<Rightarrow> Link \<Rightarrow> bool" where
  "link_usable r s l \<longleftrightarrow>
     ln_directed l \<and> ln_transport l \<notin> set (rq_forbidden r) \<and>
     (rq_allowed r = [] \<or> ln_transport l \<in> set (rq_allowed r)) \<and>
     ln_transport l \<noteq> Transport.UNKNOWN \<and> he_healthy (ln_health l) \<and>
     \<not> cg_hardLimitExceeded (ln_congestion l) \<and>
     (rq_requiredFailureDomain r = [] \<or> ln_failureDomain l = rq_requiredFailureDomain r) \<and>
     reserved_on (sn_reservations s) (ln_id l) < ln_capacity l"

definition hop_usable :: "CommunicationRequest \<Rightarrow> EvidenceSnapshot \<Rightarrow> Hop \<Rightarrow> bool" where
  "hop_usable r s h \<longleftrightarrow>
     (\<exists>l. map_find (linkMap s) (hop_link h) = Some l \<and> hop_from h = ln_source l \<and>
          hop_to h = ln_destination l \<and> link_usable r s l \<and>
          endpoint_usable s (ln_transport l) (hop_from h) \<and>
          endpoint_usable s (ln_transport l) (hop_to h))"

definition relay_permitted :: "CommunicationRequest \<Rightarrow> EvidenceSnapshot \<Rightarrow> EndpointId \<Rightarrow> bool" where
  "relay_permitted r s k \<longleftrightarrow>
     (\<exists>e. map_find (endpointMap s) k = Some e \<and>
          (ep_kind e = EndpointKind.STORAGE \<longrightarrow> rq_allowStorageStaging r) \<and>
          (stagingRelay (ep_kind e) \<and> ep_kind e \<noteq> EndpointKind.STORAGE \<longrightarrow> rq_allowHostStaging r))"

definition path_feasible ::
  "CommunicationRequest \<Rightarrow> EvidenceSnapshot \<Rightarrow> Bounds \<Rightarrow> Hop list \<Rightarrow> bool" where
  "path_feasible r s b hops \<longleftrightarrow>
     hops \<noteq> [] \<and> length hops \<le> unat (bd_maxPathDepth b) \<and> length hops \<le> unat (rq_maxStages r) \<and>
     length hops \<le> unat (rq_maxHops r) \<and>
     (1 < length hops \<longrightarrow> (rq_allowStaging r \<or> rq_allowHostStaging r) \<and> rq_allowRelay r \<and>
        (\<forall>h\<in>set (butlast hops). relay_permitted r s (hop_to h))) \<and>
     (\<forall>h\<in>set hops. hop_usable r s h) \<and>
     (isNull (rq_policyGeneration r) \<or> rq_policyGeneration r \<le> sn_policyGeneration s)"

lemma feasible_simps [simp]:
  "feasible fr_ok" "f \<noteq> Feasibility.FEASIBLE \<Longrightarrow> \<not> feasible (fr_reject f d)"
  by (simp_all add: feasible_def fr_ok_def fr_reject_def)

lemma transportAllowed_iff:
  "feasible (transportAllowed r t) \<longleftrightarrow>
     t \<notin> set (rq_forbidden r) \<and> (rq_allowed r = [] \<or> t \<in> set (rq_allowed r))"
  by (simp add: transportAllowed_def)

lemma relay_loop_None:
  "relay_loop r (endpointMap s) hs = None \<longleftrightarrow> (\<forall>h\<in>set hs. relay_permitted r s (hop_to h))"
  by (induction hs)
    (auto simp: relay_permitted_def stagingRelay_def split: option.splits)

lemma relay_loop_Some: "relay_loop r emap hs = Some res \<Longrightarrow> \<not> feasible res"
  by (induction hs) (auto split: option.splits if_splits)

lemma link_check_None:
  "link_check r s h l = None \<longleftrightarrow>
     hop_from h = ln_source l \<and> hop_to h = ln_destination l \<and> link_usable r s l"
proof -
  have "reserved < cap \<longleftrightarrow> cap \<noteq> 0 \<and> \<not> cap \<le> reserved" for reserved cap :: u64
    by (metis not_le word_le_0_iff word_zero_le)
  then show ?thesis
    by (auto simp: link_check_def link_usable_def transportAllowed_iff)
qed

lemma link_check_Some: "link_check r s h l = Some res \<Longrightarrow> \<not> feasible res"
  by (auto simp: link_check_def split: if_splits)

lemma endpoint_check_Some: "endpoint_check s t e = Some res \<Longrightarrow> \<not> feasible res"
  by (auto simp: endpoint_check_def split: if_splits)

lemma endpoint_check_None:
  "endpoint_check s t e = None \<longleftrightarrow>
     endpointFresh e s \<and> ep_reachable e \<and> ep_ready e \<and> ep_kind e \<noteq> EndpointKind.UNKNOWN \<and>
     supports (ep_capability e) t"
  by (auto simp: endpoint_check_def)

lemma hop_check_None:
  "hop_check r s (endpointMap s) (linkMap s) h = None \<longleftrightarrow> hop_usable r s h"
  by (cases "map_find (linkMap s) (hop_link h)"; cases "map_find (endpointMap s) (hop_from h)";
      cases "map_find (endpointMap s) (hop_to h)")
    (auto simp: hop_check_def hop_usable_def endpoint_usable_def link_check_None endpoint_check_None)

lemma hop_check_Some: "hop_check r s emap lmap h = Some res \<Longrightarrow> \<not> feasible res"
  by (auto simp: hop_check_def dest: link_check_Some endpoint_check_Some split: option.splits)

lemma hops_loop_None:
  "hops_loop r s (endpointMap s) (linkMap s) hs = None \<longleftrightarrow> (\<forall>h\<in>set hs. hop_usable r s h)"
  by (induction hs) (simp_all add: hop_check_None)

lemma hops_loop_Some: "hops_loop r s emap lmap hs = Some res \<Longrightarrow> \<not> feasible res"
  by (induction hs) (auto dest: hop_check_Some split: option.splits)

lemma staging_check_None:
  "staging_check r (endpointMap s) hops = None \<longleftrightarrow>
     (1 < length hops \<longrightarrow> (rq_allowStaging r \<or> rq_allowHostStaging r) \<and> rq_allowRelay r \<and>
        (\<forall>h\<in>set (butlast hops). relay_permitted r s (hop_to h)))"
  by (auto simp: staging_check_def relay_loop_None)

lemma staging_check_Some: "staging_check r emap hops = Some res \<Longrightarrow> \<not> feasible res"
  by (auto simp: staging_check_def dest: relay_loop_Some split: if_splits)

text \<open>The filter accepts exactly the paths that satisfy every hard constraint.\<close>

lemma feasibility_iff:
  "feasible (evaluateCandidateFeasibility r s cand b) \<longleftrightarrow> path_feasible r s b (cp_hops cand)"
proof -
  let ?hops = "cp_hops cand"
  let ?staging = "staging_check r (endpointMap s) ?hops"
  let ?loop = "hops_loop r s (endpointMap s) (linkMap s) ?hops"
  have "path_feasible r s b ?hops \<longleftrightarrow>
      ?hops \<noteq> [] \<and> length ?hops \<le> unat (bd_maxPathDepth b) \<and>
      length ?hops \<le> unat (rq_maxStages r) \<and> length ?hops \<le> unat (rq_maxHops r) \<and>
      ?staging = None \<and> ?loop = None \<and>
      (isNull (rq_policyGeneration r) \<or> rq_policyGeneration r \<le> sn_policyGeneration s)"
    by (simp only: path_feasible_def staging_check_None hops_loop_None)
  then show ?thesis
    using staging_check_Some [of r "endpointMap s" ?hops]
      hops_loop_Some [of r s "endpointMap s" "linkMap s" ?hops]
    by (cases ?staging; cases ?loop)
      (auto simp: evaluateCandidateFeasibility_def Let_def not_less)
qed

end
