(* ===== verification/Cost_Model.thy ===== *)
theory Cost_Model
  imports Data_Model
begin

text \<open>
  \<open>include/communication_planner/ranking/weights.hpp\<close> and \<open>src/cost.cpp\<close>: the weights of the named
  cost factors and the cost of a candidate path, in IEEE double arithmetic, operation by operation.
\<close>

section \<open>Weights\<close>

type_synonym RankingWeights = "(CostFactor \<times> double) list"

definition weights_set :: "CostFactor \<Rightarrow> double \<Rightarrow> RankingWeights \<Rightarrow> RankingWeights" where
  "weights_set f w ws = map_assign f w ws"

definition default_weight :: "CostFactor \<Rightarrow> double" where
  "default_weight f =
     (case f of CostFactor.HOP_COUNT \<Rightarrow> double_lit 1 2 | CostFactor.UNKNOWN \<Rightarrow> dzero
      | _ \<Rightarrow> double_lit 1 1)"

definition weightOf :: "RankingWeights \<Rightarrow> CostFactor \<Rightarrow> double" where
  "weightOf ws f = (case map_find ws f of Some w \<Rightarrow> w | None \<Rightarrow> default_weight f)"

definition allWeightsFinite :: "RankingWeights \<Rightarrow> bool" where
  "allWeightsFinite ws \<longleftrightarrow>
     (\<forall>(k, w) \<in> set ws. \<not> (dlt w dzero \<or> \<not> deq w w \<or> dlt (double_lit (10 ^ 308) 1) w))"

section \<open>Clamping\<close>

definition kMaxCost :: double where
  "kMaxCost = double_lit (10 ^ 18) 1"

definition clampCost :: "double \<Rightarrow> double" where
  "clampCost v =
     (if isnan v then kMaxCost
      else if dlt v dzero then dzero
      else if isinf v \<or> dlt kMaxCost v then kMaxCost
      else v)"

definition toTransferNs :: "u64 \<Rightarrow> u64 \<Rightarrow> double" where
  "toTransferNs payload bw =
     (if payload = 0 then dzero
      else if bw = 0 then kMaxCost
      else clampCost (ddiv (dmul (double_of_u64 payload) (double_lit (10 ^ 9) 1)) (double_of_u64 bw)))"

section \<open>The cost of a candidate\<close>

text \<open>The local accumulators of \<open>evaluateCandidateCost\<close> that the loop over the hops updates.\<close>

record CostAcc =
  ac_latNs :: double
  ac_transferNs :: double
  ac_queueNs :: double
  ac_congPenNs :: double
  ac_numaLowNs :: double
  ac_pcieNs :: double
  ac_nicNs :: double
  ac_storageNs :: double
  ac_healthRiskNs :: double
  ac_headroomNs :: double
  ac_worstProv :: Provenance

definition init_acc :: CostAcc where
  "init_acc =
     \<lparr>ac_latNs = dzero, ac_transferNs = dzero, ac_queueNs = dzero, ac_congPenNs = dzero,
      ac_numaLowNs = dzero, ac_pcieNs = dzero, ac_nicNs = dzero, ac_storageNs = dzero,
      ac_healthRiskNs = dzero, ac_headroomNs = dzero, ac_worstProv = Provenance.MEASURED\<rparr>"

definition hostStagingKind :: "EndpointKind \<Rightarrow> bool" where
  "hostStagingKind kind \<longleftrightarrow>
     kind = EndpointKind.CPU_MEMORY \<or> kind = EndpointKind.PINNED_HOST_MEMORY \<or>
     kind = EndpointKind.NUMA_MEMORY \<or> kind = EndpointKind.CACHE \<or>
     kind = EndpointKind.CHECKPOINT \<or> kind = EndpointKind.MODEL_RESIDENCY \<or>
     kind = EndpointKind.STATE_LOCATION \<or> kind = EndpointKind.PROCESS \<or>
     kind = EndpointKind.SERVICE"

definition scaled_payload :: "u64 \<Rightarrow> nat \<Rightarrow> double" where
  "scaled_payload payload micro = clampCost (dmul (double_of_u64 payload) (double_lit micro (10 ^ 6)))"

text \<open>The additions of one hop whose link is present, in the order of the source.\<close>

definition cost_link_terms :: "u64 \<Rightarrow> Link \<Rightarrow> CostAcc \<Rightarrow> CostAcc" where
  "cost_link_terms payload link acc =
     (let bw = (if ln_effectiveBandwidth link = 0 then ln_capacity link
                else ln_effectiveBandwidth link);
          t = toTransferNs payload bw;
          penalty = clampCost (cg_penalty (ln_congestion link));
          headroom = cy_headroom (ln_capacityEvidence link);
          acc1 = acc\<lparr>ac_transferNs := dadd (ac_transferNs acc) (clampCost t),
                     ac_latNs := dadd (ac_latNs acc) (clampCost (double_of_u64 (ln_latency link))),
                     ac_queueNs := dadd (ac_queueNs acc) penalty,
                     ac_congPenNs := dadd (ac_congPenNs acc) penalty\<rparr>
      in if 0 < headroom
         then let ratio = ddiv (double_of_u64 bw) (double_of_u64 (headroom + 1))
              in acc1\<lparr>ac_headroomNs :=
                    dadd (ac_headroomNs acc) (clampCost (dmul t (dmin ratio (double_lit 100 1))))\<rparr>
         else if cy_provenance (ln_capacityEvidence link) \<noteq> Provenance.UNKNOWN
         then acc1\<lparr>ac_headroomNs :=
                    dadd (ac_headroomNs acc) (clampCost (dmul t (double_lit 2 1)))\<rparr>
         else acc1)"

definition cost_locality_terms :: "u64 \<Rightarrow> Endpoint \<Rightarrow> Endpoint \<Rightarrow> CostAcc \<Rightarrow> CostAcc" where
  "cost_locality_terms payload se de acc =
     (let nd = nat \<bar>loc_numaDistance (ep_location de) - loc_numaDistance (ep_location se)\<bar>;
          acc1 = acc\<lparr>ac_numaLowNs :=
                   dadd (ac_numaLowNs acc) (clampCost (dmul (double_of_nat nd) (double_lit 200 1)))\<rparr>;
          acc2 = (if loc_pcieRoot (ep_location se) \<noteq> loc_pcieRoot (ep_location de)
                  then acc1\<lparr>ac_pcieNs := dadd (ac_pcieNs acc1) (scaled_payload payload 1)\<rparr>
                  else acc1);
          acc3 = (if loc_nic (ep_location se) \<noteq> loc_nic (ep_location de)
                  then acc2\<lparr>ac_nicNs := dadd (ac_nicNs acc2) (scaled_payload payload 2)\<rparr>
                  else acc2)
      in if ep_kind se = EndpointKind.STORAGE \<or> ep_kind de = EndpointKind.STORAGE
         then acc3\<lparr>ac_storageNs := dadd (ac_storageNs acc3) (scaled_payload payload 1)\<rparr>
         else acc3)"

definition cost_evidence_terms :: "Link \<Rightarrow> CostAcc \<Rightarrow> CostAcc" where
  "cost_evidence_terms link acc =
     (let p = ln_provenance link;
          acc1 = (if p = Provenance.UNKNOWN \<or> p = Provenance.ESTIMATED \<or> p = Provenance.FORECAST \<or>
                     p = Provenance.SYNTHETIC
                  then acc\<lparr>ac_healthRiskNs :=
                     dadd (ac_healthRiskNs acc) (clampCost (dmul (ac_transferNs acc) (double_lit 1 10)))\<rparr>
                  else acc);
          acc2 = (if p = Provenance.SYNTHETIC then acc1\<lparr>ac_worstProv := Provenance.SYNTHETIC\<rparr> else acc1)
      in if p = Provenance.UNKNOWN then acc2\<lparr>ac_worstProv := Provenance.UNKNOWN\<rparr> else acc2)"

definition cost_hop ::
  "u64 \<Rightarrow> (LinkId \<times> Link) list \<Rightarrow> (EndpointId \<times> Endpoint) list \<Rightarrow> Hop \<Rightarrow> CostAcc \<Rightarrow> CostAcc" where
  "cost_hop payload lmap emap hop acc =
     (case map_find lmap (hop_link hop) of
        None \<Rightarrow> acc
      | Some link \<Rightarrow>
          let acc1 = cost_link_terms payload link acc;
              acc2 = (case (map_find emap (hop_from hop), map_find emap (hop_to hop)) of
                        (Some se, Some de) \<Rightarrow> cost_locality_terms payload se de acc1
                      | _ \<Rightarrow> acc1)
          in cost_evidence_terms link acc2)"

definition hasKind ::
  "(EndpointKind \<Rightarrow> bool) \<Rightarrow> (EndpointId \<times> Endpoint) list \<Rightarrow> Hop list \<Rightarrow> bool" where
  "hasKind P emap hops \<longleftrightarrow>
     (\<exists>h \<in> set (butlast hops).
        case map_find emap (hop_to h) of None \<Rightarrow> False | Some e \<Rightarrow> P (ep_kind e))"

definition cost_comp :: "RankingWeights \<Rightarrow> CostFactor \<Rightarrow> double \<Rightarrow> Provenance \<Rightarrow> CostComponent" where
  "cost_comp ws f v prov =
     \<lparr>cc_factor = f, cc_weight = weightOf ws f, cc_value = clampCost v, cc_provenance = prov\<rparr>"

definition evaluateCandidateCost ::
  "CommunicationRequest \<Rightarrow> EvidenceSnapshot \<Rightarrow> CandidatePath \<Rightarrow> RankingWeights \<Rightarrow> CostSummary" where
  "evaluateCandidateCost r s cand ws =
     (let lmap = linkMap s; emap = endpointMap s; payload = rq_payloadSize r; hops = cp_hops cand;
          hasStaging = 1 < length hops;
          hasStorageStaging = hasKind (\<lambda>k. k = EndpointKind.STORAGE) emap hops;
          hasHostStaging = hasKind hostStagingKind emap hops;
          acc = fold (cost_hop payload lmap emap) hops init_acc;
          stageNs = (if hasStaging then dadd dzero (scaled_payload payload 4) else dzero);
          hostStageNs = (if hasHostStaging then dadd dzero (scaled_payload payload 3) else dzero);
          storageNs = (if hasStorageStaging then dadd (ac_storageNs acc) (scaled_payload payload 6)
                       else ac_storageNs acc);
          reliabilityNs = clampCost (dmul (double_of_nat (length hops)) (double_lit 1 1000));
          movementNs = clampCost (dadd (dadd (ac_transferNs acc) stageNs) hostStageNs);
          wp = ac_worstProv acc; comp = cost_comp ws; derived = Provenance.DERIVED
      in CostSummary_of
           [comp CostFactor.PATH_LATENCY (ac_latNs acc) wp,
            comp CostFactor.EFFECTIVE_BANDWIDTH (ac_transferNs acc) wp,
            comp CostFactor.RESIDUAL_BANDWIDTH (ac_headroomNs acc) wp,
            comp CostFactor.CONGESTION_PENALTY (ac_congPenNs acc) wp,
            comp CostFactor.QUEUEING_ESTIMATE (ac_queueNs acc) wp,
            comp CostFactor.HOP_COUNT (double_of_nat (length hops)) derived,
            comp CostFactor.STAGE_COUNT (double_of_nat (length hops)) derived,
            comp CostFactor.STAGING_OVERHEAD stageNs (if hasStaging then wp else derived),
            comp CostFactor.HOST_STAGING_COST hostStageNs (if hasHostStaging then wp else derived),
            comp CostFactor.NUMA_DISTANCE (ac_numaLowNs acc) derived,
            comp CostFactor.PCIE_LOCALITY (ac_pcieNs acc) derived,
            comp CostFactor.NIC_LOCALITY (ac_nicNs acc) derived,
            comp CostFactor.STORAGE_LOCALITY storageNs derived,
            comp CostFactor.ENDPOINT_HEALTH (ac_healthRiskNs acc) wp,
            comp CostFactor.RESERVATION_FIT dzero derived,
            comp CostFactor.CAPACITY_HEADROOM (ac_headroomNs acc) wp,
            comp CostFactor.FAILURE_DOMAIN_RISK dzero derived,
            comp CostFactor.RELIABILITY reliabilityNs derived,
            comp CostFactor.MOVEMENT_COST movementNs wp])"

section \<open>Costs are well formed\<close>

lemma kMaxCost_bounds: "dnonneg kMaxCost" "isfinite kMaxCost"
proof -
  have "round_mag 1000000000000000000 1 0 =
      min inf_mag (nat (7 + 1074) * 2 ^ 52 + 7812500000000000)"
    by (rule round_mag_eval [where u = 6 and x = "- 6" and N = 1000000000000000000 and D = 64
          and wide = True and t = 7 and D' = 128 and h = 7812500000000000])
      (simp_all add: bitlen_numeral half_even_def)
  then have "round_mag 1000000000000000000 1 0 < inf_mag" by (simp add: inf_mag_def)
  then have "magnitude (double_lit (10 ^ 18) 1) < inf_mag"
    by (simp add: double_lit_def)
  then show "dnonneg kMaxCost" "isfinite kMaxCost"
    by (simp_all add: kMaxCost_def isfinite_def dnonneg_def double_lit_def)
qed

lemma clampCost_range:
  "dnonneg (clampCost v) \<and> isfinite (clampCost v) \<and> dle (clampCost v) kMaxCost"
proof -
  have fin: "isfinite d" if "\<not> isnan d" "\<not> isinf d" for d
    using that by (simp add: isfinite_def isnan_def isinf_def)
  have zero: "dle dzero kMaxCost" using kMaxCost_bounds by (simp add: dnonneg_iff)
  have kmax: "\<not> isnan kMaxCost" using kMaxCost_bounds by (simp add: dnonneg_def)
  have refl: "dle d d" if "\<not> isnan d" for d using that by (simp add: dle_def)
  have nonneg: "dnonneg d" if "\<not> isnan d" "\<not> dlt d dzero" for d
    using that by (auto simp: dnonneg_iff dlt_def dle_def)
  have below: "dle d kMaxCost" if "\<not> isnan d" "\<not> dlt kMaxCost d" for d
    using that kMaxCost_bounds by (auto simp: dlt_def dle_def dnonneg_def)
  show ?thesis
    using kMaxCost_bounds zero refl [OF kmax] fin [of v] nonneg [of v] below [of v]
    by (simp add: clampCost_def)
qed

lemma cost_comp_valid_iff:
  "cc_isValid (cost_comp ws f v prov) \<longleftrightarrow> dnonneg (weightOf ws f) \<and> isfinite (weightOf ws f)"
  using clampCost_range [of v]
  by (auto simp: cc_isValid_def cost_comp_def dnonneg_iff isfinite_def isinf_def isnan_def)

lemma cost_comp_value:
  "dnonneg (cc_value (cost_comp ws f v prov)) \<and> isfinite (cc_value (cost_comp ws f v prov))"
  using clampCost_range [of v] by (simp add: cost_comp_def)

text \<open>Every component value of a candidate's cost is finite and non-negative.\<close>

lemma cost_components_clamped:
  assumes "c \<in> set (cs_components (evaluateCandidateCost r s cand ws))"
  shows "dnonneg (cc_value c) \<and> isfinite (cc_value c)"
proof -
  have "\<exists>f v prov. c = cost_comp ws f v prov"
    using assms unfolding evaluateCandidateCost_def Let_def CostSummary_of_def by auto
  then show ?thesis using cost_comp_value by blast
qed

lemma cost_total_shape:
  "cs_total (evaluateCandidateCost r s cand ws) = pos_inf \<or>
   dnonneg (cs_total (evaluateCandidateCost r s cand ws)) \<and>
   isfinite (cs_total (evaluateCandidateCost r s cand ws))"
  unfolding evaluateCandidateCost_def Let_def by (rule CostSummary_of_total)

section \<open>Theorems\<close>

text \<open>Every component of a candidate's cost is finite, non-negative and at most \<open>kMaxCost\<close>, whatever
  the evidence holds (NaN, negative or infinite penalties included), and the total is either a
  finite non-negative number or the single value infinity; it is never NaN and never negative.\<close>

lemma candidate_cost_well_formed:
  "list_all (\<lambda>c. dnonneg (cc_value c) \<and> isfinite (cc_value c) \<and> dle (cc_value c) kMaxCost)
     (cs_components (evaluateCandidateCost r s cand ws)) \<and>
   (cs_total (evaluateCandidateCost r s cand ws) = pos_inf \<or>
    dnonneg (cs_total (evaluateCandidateCost r s cand ws)) \<and>
    isfinite (cs_total (evaluateCandidateCost r s cand ws)))"
proof -
  have "dnonneg (cc_value c) \<and> isfinite (cc_value c) \<and> dle (cc_value c) kMaxCost"
    if "c \<in> set (cs_components (evaluateCandidateCost r s cand ws))" for c
  proof -
    have "\<exists>f v prov. c = cost_comp ws f v prov"
      using that unfolding evaluateCandidateCost_def Let_def CostSummary_of_def by auto
    then show ?thesis using clampCost_range by (auto simp: cost_comp_def)
  qed
  then show ?thesis using cost_total_shape by (simp add: list_all_iff)
qed

end
