(* ===== verification/Ranking.thy ===== *)
theory Ranking
  imports Feasibility_Filter Cost_Model "HOL-Library.Product_Lexorder" "HOL-Library.List_Lexorder"
begin

text \<open>
  \<open>src/ranking.cpp\<close>: the deterministic order of the feasible candidates. The comparator \<open>keyLess\<close>
  is shown to be the lexicographic order of a tuple of integers and link ids on keys without NaN,
  and the result of \<open>rankFeasible\<close> to be the feasible positions in increasing order of that tuple,
  ties broken by position.
\<close>

section \<open>Provenance and components\<close>

primrec provenanceRank :: "Provenance \<Rightarrow> int" where
  "provenanceRank Provenance.MEASURED = 0"
| "provenanceRank Provenance.REPORTED = 1"
| "provenanceRank Provenance.DERIVED = 2"
| "provenanceRank Provenance.ESTIMATED = 3"
| "provenanceRank Provenance.FORECAST = 4"
| "provenanceRank Provenance.SYNTHETIC = 5"
| "provenanceRank Provenance.UNKNOWN = 6"

definition worstProvenance :: "CostSummary \<Rightarrow> Provenance" where
  "worstProvenance c =
     fold (\<lambda>cc worst. if provenanceRank worst < provenanceRank (cc_provenance cc)
                        then cc_provenance cc else worst)
       (cs_components c) Provenance.MEASURED"

definition componentValue :: "CostSummary \<Rightarrow> CostFactor \<Rightarrow> double \<Rightarrow> double" where
  "componentValue c f dflt =
     (case List.find (\<lambda>cc. cc_factor cc = f) (cs_components c) of
        Some cc \<Rightarrow> cc_value cc | None \<Rightarrow> dflt)"

section \<open>Keys and their order\<close>

record Key =
  k_total :: double
  k_uncertainty :: double
  k_prov :: int
  k_hops :: double
  k_congestion :: double
  k_residual :: double
  k_idseq :: "u64 list"

fun lexicographical_compare :: "u64 list \<Rightarrow> u64 list \<Rightarrow> bool" where
  "lexicographical_compare xs [] = False"
| "lexicographical_compare [] (y # ys) = True"
| "lexicographical_compare (x # xs) (y # ys) =
     (if x < y then True else if y < x then False else lexicographical_compare xs ys)"

definition keyLess :: "Key \<Rightarrow> Key \<Rightarrow> bool" where
  "keyLess a b =
     (if \<not> deq (k_total a) (k_total b) then dlt (k_total a) (k_total b)
      else if \<not> deq (k_uncertainty a) (k_uncertainty b) then dlt (k_uncertainty a) (k_uncertainty b)
      else if k_prov a \<noteq> k_prov b then k_prov a < k_prov b
      else if \<not> deq (k_hops a) (k_hops b) then dlt (k_hops a) (k_hops b)
      else if \<not> deq (k_congestion a) (k_congestion b) then dlt (k_congestion a) (k_congestion b)
      else if \<not> deq (k_residual a) (k_residual b) then dlt (k_residual b) (k_residual a)
      else if length (k_idseq a) \<noteq> length (k_idseq b) then length (k_idseq a) < length (k_idseq b)
      else lexicographical_compare (k_idseq a) (k_idseq b))"

record Rankable =
  rk_path :: CandidatePath
  rk_feasibility :: FeasibilityResult
  rk_cost :: CostSummary

definition rankKey :: "Rankable \<Rightarrow> Key" where
  "rankKey r =
     \<lparr>k_total = (if totalValid (rk_cost r) then cs_total (rk_cost r) else kMaxCost),
      k_uncertainty = uncertaintyCount (rk_cost r),
      k_prov = provenanceRank (worstProvenance (rk_cost r)),
      k_hops = componentValue (rk_cost r) CostFactor.HOP_COUNT
                 (double_of_nat (length (cp_hops (rk_path r)))),
      k_congestion = componentValue (rk_cost r) CostFactor.CONGESTION_PENALTY dzero,
      k_residual = componentValue (rk_cost r) CostFactor.RESIDUAL_BANDWIDTH dzero,
      k_idseq = map hop_link (cp_hops (rk_path r))\<rparr>"

definition rank_items :: "Rankable list \<Rightarrow> (nat \<times> Key) list" where
  "rank_items input =
     map (\<lambda>(i, r). (i, rankKey r)) (filter (\<lambda>(i, r). feasible (rk_feasibility r)) (enumerate 0 input))"

definition rankFeasible :: "Rankable list \<Rightarrow> nat list" where
  "rankFeasible input =
     map fst (stable_sort (\<lambda>a b. keyLess (snd a) (snd b)) (rank_items input))"

section \<open>The comparator is a strict weak order\<close>

definition key_good :: "Key \<Rightarrow> bool" where
  "key_good k \<longleftrightarrow>
     \<not> isnan (k_total k) \<and> \<not> isnan (k_uncertainty k) \<and> \<not> isnan (k_hops k) \<and>
     \<not> isnan (k_congestion k) \<and> \<not> isnan (k_residual k)"

definition rank_tuple ::
  "Key \<Rightarrow> int \<times> int \<times> int \<times> int \<times> int \<times> int \<times> nat \<times> u64 list" where
  "rank_tuple k =
     (dkey (k_total k), dkey (k_uncertainty k), k_prov k, dkey (k_hops k), dkey (k_congestion k),
      - dkey (k_residual k), length (k_idseq k), k_idseq k)"

lemma lexicographical_compare_less: "lexicographical_compare xs ys \<longleftrightarrow> xs < ys"
  by (induction xs ys rule: lexicographical_compare.induct) auto

lemma lex_step:
  fixes x y :: "'a::linorder" and u v :: "'b::linorder"
  assumes "P \<longleftrightarrow> u < v"
  shows "(if x \<noteq> y then x < y else P) \<longleftrightarrow> (x, u) < (y, v)"
  using assms by auto

lemma keyLess_tuple:
  assumes "key_good a" and "key_good b"
  shows "keyLess a b \<longleftrightarrow> rank_tuple a < rank_tuple b"
proof -
  have eq: "deq x y \<longleftrightarrow> dkey x = dkey y" and lt: "dlt x y \<longleftrightarrow> dkey x < dkey y"
    if "\<not> isnan x" "\<not> isnan y" for x y
    using that by (simp_all add: deq_def dlt_def)
  have neg: "dkey x < dkey y \<longleftrightarrow> - dkey y < - dkey x" "dkey x = dkey y \<longleftrightarrow> - dkey x = - dkey y" for x y
    by auto
  show ?thesis
    unfolding rank_tuple_def keyLess_def using assms
    by (simp only: key_good_def eq lt simp_thms)
      (intro lex_step, subst neg(1), subst neg(2), intro lex_step,
       rule lexicographical_compare_less)
qed

interpretation key_order: strict_weak_order keyLess key_good
  by unfold_locales (auto simp: keyLess_tuple)

interpretation item_order:
  strict_weak_order "\<lambda>a b. keyLess (snd a) (snd b)" "\<lambda>a. key_good (snd a)"
  by unfold_locales (auto simp: keyLess_tuple)

section \<open>Keys of costed candidates are free of NaN\<close>

definition rankable_good :: "Rankable \<Rightarrow> bool" where
  "rankable_good r \<longleftrightarrow> (\<forall>c \<in> set (cs_components (rk_cost r)). \<not> isnan (cc_value c))"

lemma uncertainty_loop_nonneg: "dnonneg u \<Longrightarrow> dnonneg (uncertainty_loop u cs)"
  by (induction cs arbitrary: u) (simp_all add: dnonneg_dadd double_lit_def dnonneg_make_False)

lemma componentValue_not_nan:
  assumes "\<forall>c \<in> set (cs_components s). \<not> isnan (cc_value c)" and "\<not> isnan d"
  shows "\<not> isnan (componentValue s f d)"
  using assms by (auto simp: componentValue_def find_Some_iff split: option.split)

lemma rankKey_good: "rankable_good r \<Longrightarrow> key_good (rankKey r)"
proof -
  assume r: "rankable_good r"
  have nonneg: "\<not> isnan d" if "dnonneg d" for d using that by (simp add: dnonneg_def)
  have "\<not> isnan (uncertaintyCount (rk_cost r))"
    by (simp add: uncertaintyCount_def nonneg uncertainty_loop_nonneg)
  moreover have "\<not> isnan kMaxCost" using kMaxCost_bounds(1) by (rule nonneg)
  moreover have "\<not> isnan (componentValue (rk_cost r) f d)" if "\<not> isnan d" for f d
    using r that by (intro componentValue_not_nan) (auto simp: rankable_good_def)
  ultimately show ?thesis
    by (simp add: key_good_def rankKey_def totalValid_def double_of_nat_def)
qed

lemma costed_good:
  "rankable_good \<lparr>rk_path = p, rk_feasibility = f, rk_cost = evaluateCandidateCost r s cand ws\<rparr>"
  using cost_components_clamped [of _ r s cand ws] by (auto simp: rankable_good_def dnonneg_def)

section \<open>The order of the result\<close>

lemma rank_items_indices:
  "(i, k) \<in> set (rank_items input) \<longleftrightarrow>
     i < length input \<and> feasible (rk_feasibility (input ! i)) \<and> k = rankKey (input ! i)"
  by (auto simp: rank_items_def in_set_enumerate_eq image_iff)

lemma rank_items_sorted: "sorted_wrt (\<lambda>a b. fst a < fst b) (rank_items input)"
proof -
  have "sorted_wrt (<) (map fst (enumerate 0 input))" by (simp add: enumerate_eq_zip)
  then have "sorted_wrt (\<lambda>a b. fst a < fst b) (enumerate 0 input)"
    by (simp only: sorted_wrt_map)
  then show ?thesis
    by (auto simp: rank_items_def sorted_wrt_map case_prod_unfold intro: sorted_wrt_filter)
qed

lemma rankFeasible_set:
  "set (rankFeasible input) = {i. i < length input \<and> feasible (rk_feasibility (input ! i))}"
proof -
  have "set (rankFeasible input) = fst ` set (rank_items input)" by (simp add: rankFeasible_def)
  also have "\<dots> = {i. \<exists>k. (i, k) \<in> set (rank_items input)}" by force
  finally show ?thesis by (simp add: rank_items_indices)
qed

lemma rankFeasible_distinct: "distinct (rankFeasible input)"
proof -
  have "distinct (map fst (rank_items input))"
    using rank_items_sorted [of input] by (simp add: strict_sorted_iff flip: sorted_wrt_map)
  moreover have "mset (rankFeasible input) = mset (map fst (rank_items input))"
    by (simp add: rankFeasible_def)
  ultimately show ?thesis using mset_eq_imp_distinct_iff by blast
qed

lemma rankFeasible_sorted:
  assumes "\<forall>r \<in> set input. rankable_good r"
  shows "sorted_wrt (\<lambda>i j. (rank_tuple (rankKey (input ! i)), i) < (rank_tuple (rankKey (input ! j)), j))
           (rankFeasible input)"
proof -
  have item: "snd a = rankKey (input ! fst a) \<and> key_good (snd a)"
    if "a \<in> set (rank_items input)" for a
    using that assms rank_items_indices [of "fst a" "snd a" input] by (simp add: rankKey_good)
  let ?R = "\<lambda>a b. keyLess (snd a) (snd b) \<or> \<not> keyLess (snd b) (snd a) \<and> fst a < fst b"
  let ?T = "\<lambda>i. (rank_tuple (rankKey (input ! i)), i)"
  let ?sorted = "stable_sort (\<lambda>a b. keyLess (snd a) (snd b)) (rank_items input)"
  have R: "sorted_wrt ?R ?sorted"
    using item by (intro item_order.stable_sort_stable rank_items_sorted) blast
  have "?T (fst a) < ?T (fst b)"
    if ab: "a \<in> set ?sorted" "b \<in> set ?sorted" "?R a b" for a b
  proof -
    have a: "snd a = rankKey (input ! fst a)" "key_good (snd a)"
      and b: "snd b = rankKey (input ! fst b)" "key_good (snd b)"
      using ab(1,2) item [of a] item [of b] unfolding set_stable_sort by blast+
    have "rank_tuple (snd a) < rank_tuple (snd b) \<or>
        \<not> rank_tuple (snd b) < rank_tuple (snd a) \<and> fst a < fst b"
      using ab(3) keyLess_tuple [OF a(2) b(2)] keyLess_tuple [OF b(2) a(2)] by blast
    then show ?thesis by (auto simp: a b)
  qed
  then have "sorted_wrt (\<lambda>a b. ?T (fst a) < ?T (fst b)) ?sorted"
    by (rule sorted_wrt_mono_rel [OF _ R])
  then show ?thesis by (simp only: rankFeasible_def sorted_wrt_map)
qed

text \<open>The order is determined: any arrangement of the feasible positions so ordered is this one.\<close>

lemma rankFeasible_unique:
  assumes "set is = set (rankFeasible input)" and "\<forall>r \<in> set input. rankable_good r"
    and "sorted_wrt (\<lambda>i j. (rank_tuple (rankKey (input ! i)), i) < (rank_tuple (rankKey (input ! j)), j)) is"
  shows "is = rankFeasible input"
proof -
  let ?f = "\<lambda>i. (rank_tuple (rankKey (input ! i)), i)"
  have "sorted_wrt (<) (map ?f is)" "sorted_wrt (<) (map ?f (rankFeasible input))"
    using assms(3) rankFeasible_sorted [OF assms(2)] by (simp_all only: sorted_wrt_map)
  moreover have "set (map ?f is) = set (map ?f (rankFeasible input))" using assms(1) by simp
  ultimately have "map ?f is = map ?f (rankFeasible input)"
    using strict_sorted_equal [of "map ?f (rankFeasible input)" "map ?f is"] by blast
  then have "map snd (map ?f is) = map snd (map ?f (rankFeasible input))" by simp
  then show ?thesis by (simp add: comp_def)
qed

end
