(* ===== verification/Path_Enumeration.thy ===== *)
theory Path_Enumeration
  imports Data_Model "HOL-Library.Product_Lexorder" "HOL-Library.List_Lexorder"
begin

text \<open>
  \<open>enumerateCandidatePaths\<close> of \<open>src/planner.cpp\<close>: the bounded depth-first search for candidate paths.
  The closure's \<open>visited\<close> and \<open>hops\<close> are restored before every return (\<open>insert\<close>/\<open>erase\<close>,
  \<open>push_back\<close>/\<open>pop_back\<close> around the recursive call, the erased endpoint being one that was not in
  \<open>visited\<close>), so they are arguments here; \<open>out\<close> is threaded through. The search is shown to return
  the first \<open>maxCandidates\<close> of the simple routes within the depth and relay bounds.
\<close>

section \<open>Adjacency\<close>

record Adj =
  adj_to :: EndpointId
  adj_link :: LinkId

definition adjLess :: "Adj \<Rightarrow> Adj \<Rightarrow> bool" where
  "adjLess a b = (if adj_to a \<noteq> adj_to b then adj_to a < adj_to b else adj_link a < adj_link b)"

definition adj_push :: "Link \<Rightarrow> (EndpointId \<times> Adj list) list \<Rightarrow> (EndpointId \<times> Adj list) list" where
  "adj_push l m =
     (let old = (case map_find m (ln_source l) of Some v \<Rightarrow> v | None \<Rightarrow> [])
      in map_assign (ln_source l) (old @ [\<lparr>adj_to = ln_destination l, adj_link = ln_id l\<rparr>]) m)"

definition adjacency :: "EvidenceSnapshot \<Rightarrow> (EndpointId \<times> Adj list) list" where
  "adjacency s = map (\<lambda>(k, v). (k, stable_sort adjLess v)) (fold adj_push (sn_links s) [])"

section \<open>The search\<close>

text \<open>What the closure captures and does not change.\<close>

record DfsCtx =
  cx_adj :: "(EndpointId \<times> Adj list) list"
  cx_src :: EndpointId
  cx_dst :: EndpointId
  cx_maxCandidates :: nat
  cx_maxPathDepth :: nat
  cx_maxRelayCount :: nat

definition dfs_hit :: "DfsCtx \<Rightarrow> Hop list \<Rightarrow> CandidatePath list" where
  "dfs_hit cx hops =
     (if length hops - 1 \<le> cx_maxRelayCount cx
      then [\<lparr>cp_source = cx_src cx, cp_destination = cx_dst cx, cp_hops = hops\<rparr>] else [])"

function dfs :: "DfsCtx \<Rightarrow> Hop list \<Rightarrow> EndpointId list \<Rightarrow> CandidatePath list \<Rightarrow> EndpointId \<Rightarrow>
    CandidatePath list"
  and dfs_loop :: "DfsCtx \<Rightarrow> Hop list \<Rightarrow> EndpointId list \<Rightarrow> CandidatePath list \<Rightarrow> EndpointId \<Rightarrow> Adj list \<Rightarrow>
    CandidatePath list" where
  "dfs cx hops visited out cur =
     (if cx_maxCandidates cx \<le> length out then out
      else if cx_maxPathDepth cx \<le> length hops then out
      else case map_find (cx_adj cx) cur of
        None \<Rightarrow> out
      | Some v \<Rightarrow> dfs_loop cx hops visited out cur v)"
| "dfs_loop cx hops visited out cur [] = out"
| "dfs_loop cx hops visited out cur (a # as) =
     (if cx_maxCandidates cx \<le> length out then out
      else if adj_to a \<in> set visited then dfs_loop cx hops visited out cur as
      else let hops' = hops @ [\<lparr>hop_link = adj_link a, hop_from = cur, hop_to = adj_to a\<rparr>];
               out' = (if adj_to a = cx_dst cx then out @ dfs_hit cx hops'
                       else dfs cx hops' (set_insert (adj_to a) visited) out (adj_to a))
           in dfs_loop cx hops visited out' cur as)"
  by pat_completeness auto

termination
  by (relation "inv_image (less_than <*lex*> less_than <*lex*> less_than)
      (\<lambda>x. case x of
         Inl (cx, hops, visited, out, cur) \<Rightarrow>
           if cx_maxPathDepth cx \<le> length hops then (0, 0, 0)
           else (cx_maxPathDepth cx - length hops, 1, 0)
       | Inr (cx, hops, visited, out, cur, as) \<Rightarrow>
           (cx_maxPathDepth cx - length hops, 0, Suc (length as)))")
    (auto simp: less_Suc_eq_le)

declare dfs.simps [simp del]

text \<open>The loop of the final comparator, entered with as many hops on both sides.\<close>

fun hopsLess :: "Hop list \<Rightarrow> Hop list \<Rightarrow> bool" where
  "hopsLess [] bs = False"
| "hopsLess (a # as) [] = False"
| "hopsLess (a # as) (b # bs) =
     (if hop_link a \<noteq> hop_link b then hop_link a < hop_link b else hopsLess as bs)"

definition pathLess :: "CandidatePath \<Rightarrow> CandidatePath \<Rightarrow> bool" where
  "pathLess a b =
     (if length (cp_hops a) \<noteq> length (cp_hops b) then length (cp_hops a) < length (cp_hops b)
      else hopsLess (cp_hops a) (cp_hops b))"

definition dfs_ctx :: "EvidenceSnapshot \<Rightarrow> EndpointId \<Rightarrow> EndpointId \<Rightarrow> Bounds \<Rightarrow> DfsCtx" where
  "dfs_ctx s src dst b =
     \<lparr>cx_adj = adjacency s, cx_src = src, cx_dst = dst,
      cx_maxCandidates = unat (bd_maxCandidates b), cx_maxPathDepth = unat (bd_maxPathDepth b),
      cx_maxRelayCount = unat (bd_maxRelayCount b)\<rparr>"

definition enumerateCandidatePaths ::
  "EvidenceSnapshot \<Rightarrow> EndpointId \<Rightarrow> EndpointId \<Rightarrow> Bounds \<Rightarrow> CandidatePath list" where
  "enumerateCandidatePaths s src dst b =
     stable_sort pathLess (dfs (dfs_ctx s src dst b) [] (set_insert src []) [] src)"

section \<open>Adjacency lists\<close>

interpretation adj_order: strict_weak_order adjLess "\<lambda>_. True"
  by unfold_locales (auto simp: adjLess_def split: if_splits)

lemma hopsLess_lex:
  "length as = length bs \<Longrightarrow> hopsLess as bs \<longleftrightarrow> map hop_link as < map hop_link bs"
  by (induction as bs rule: hopsLess.induct) auto

lemma pathLess_lex:
  "pathLess a b \<longleftrightarrow>
     (length (cp_hops a), map hop_link (cp_hops a)) < (length (cp_hops b), map hop_link (cp_hops b))"
  by (auto simp: pathLess_def hopsLess_lex)

interpretation path_order: strict_weak_order pathLess "\<lambda>_. True"
  by unfold_locales (auto simp: pathLess_lex)

lemma find_map_values: "map_find (map (\<lambda>(k, v). (k, f v)) m) k = map_option f (map_find m k)"
  by (induction m) (auto simp: map_find_def)

definition out_edges :: "Link list \<Rightarrow> EndpointId \<Rightarrow> Adj list" where
  "out_edges links k =
     map (\<lambda>l. \<lparr>adj_to = ln_destination l, adj_link = ln_id l\<rparr>) (filter (\<lambda>l. ln_source l = k) links)"

lemma find_adj_push:
  "map_find (fold adj_push links m) k =
     (if out_edges links k = [] then map_find m k
      else Some ((case map_find m k of Some v \<Rightarrow> v | None \<Rightarrow> []) @ out_edges links k))"
  by (induction links arbitrary: m)
    (auto simp: out_edges_def adj_push_def Let_def map_find_assign split: option.splits)

lemma find_adjacency:
  "map_find (adjacency s) k =
     (if out_edges (sn_links s) k = [] then None
      else Some (stable_sort adjLess (out_edges (sn_links s) k)))"
  by (simp add: adjacency_def find_map_values find_adj_push)

lemma adjacency_member:
  assumes "map_find (adjacency s) k = Some v"
  shows "a \<in> set v \<longleftrightarrow>
    (\<exists>l\<in>set (sn_links s). ln_source l = k \<and> ln_destination l = adj_to a \<and> ln_id l = adj_link a)"
proof -
  have "(a = \<lparr>adj_to = x, adj_link = y\<rparr>) = (x = adj_to a \<and> y = adj_link a)" for x y
    by (cases a) auto
  then have "a \<in> set (out_edges (sn_links s) k) \<longleftrightarrow>
      (\<exists>l\<in>set (sn_links s). ln_source l = k \<and> ln_destination l = adj_to a \<and> ln_id l = adj_link a)"
    by (auto simp: out_edges_def image_iff)
  with assms show ?thesis by (auto simp: find_adjacency split: if_splits)
qed

lemma adjacency_None:
  "map_find (adjacency s) k = None \<longleftrightarrow> (\<forall>l\<in>set (sn_links s). ln_source l \<noteq> k)"
  by (auto simp: find_adjacency out_edges_def filter_empty_conv)

section \<open>The search is the bounded prefix of a reference enumeration\<close>

text \<open>The routes from \<open>cur\<close> to \<open>dst\<close> with at most \<open>d\<close> hops, as lists of hops, in depth-first order.\<close>

definition adj_hop :: "EndpointId \<Rightarrow> Adj \<Rightarrow> Hop" where
  "adj_hop cur a = \<lparr>hop_link = adj_link a, hop_from = cur, hop_to = adj_to a\<rparr>"

fun routes ::
  "(EndpointId \<times> Adj list) list \<Rightarrow> EndpointId \<Rightarrow> nat \<Rightarrow> EndpointId list \<Rightarrow> EndpointId \<Rightarrow> Hop list list" where
  "routes adj dst 0 visited cur = []"
| "routes adj dst (Suc d) visited cur =
     concat (map (\<lambda>a. if adj_to a \<in> set visited then []
                       else map (Cons (adj_hop cur a))
                              (if adj_to a = dst then [[]]
                               else routes adj dst d (set_insert (adj_to a) visited) (adj_to a)))
                (case map_find adj cur of None \<Rightarrow> [] | Some v \<Rightarrow> v))"

definition route_hits :: "DfsCtx \<Rightarrow> Hop list \<Rightarrow> Hop list list \<Rightarrow> CandidatePath list" where
  "route_hits cx hops rs = concat (map (\<lambda>ts. dfs_hit cx (hops @ ts)) rs)"

definition branch :: "DfsCtx \<Rightarrow> Hop list \<Rightarrow> EndpointId list \<Rightarrow> EndpointId \<Rightarrow> Adj \<Rightarrow> Hop list list" where
  "branch cx hops visited cur a =
     (if adj_to a \<in> set visited then []
      else map (Cons (adj_hop cur a))
             (if adj_to a = cx_dst cx then [[]]
              else routes (cx_adj cx) (cx_dst cx) (cx_maxPathDepth cx - Suc (length hops))
                     (set_insert (adj_to a) visited) (adj_to a)))"

lemma routes_branch:
  assumes "length hops < cx_maxPathDepth cx"
  shows "routes (cx_adj cx) (cx_dst cx) (cx_maxPathDepth cx - length hops) visited cur =
    concat (map (branch cx hops visited cur)
      (case map_find (cx_adj cx) cur of None \<Rightarrow> [] | Some v \<Rightarrow> v))"
proof -
  obtain d where d: "cx_maxPathDepth cx - length hops = Suc d"
    using assms by (metis Suc_diff_Suc)
  then have "cx_maxPathDepth cx - Suc (length hops) = d" by simp
  then show ?thesis by (simp only: d routes.simps branch_def [abs_def])
qed

lemma route_hits_Nil [simp]: "route_hits cx hops [] = []"
  by (simp add: route_hits_def)

lemma route_hits_append [simp]: "route_hits cx hops (xs @ ys) = route_hits cx hops xs @ route_hits cx hops ys"
  by (simp add: route_hits_def)

lemma route_hits_Cons: "route_hits cx hops (map (Cons h) rs) = route_hits cx (hops @ [h]) rs"
  by (simp add: route_hits_def comp_def)

lemma take_append_take: "take n (take n xs @ ys) = take n (xs @ ys)"
  by (auto simp: min_def)

lemma dfs_prefix:
  "length out \<le> cx_maxCandidates cx \<Longrightarrow>
     dfs cx hops visited out cur =
       take (cx_maxCandidates cx)
         (out @ route_hits cx hops
            (routes (cx_adj cx) (cx_dst cx) (cx_maxPathDepth cx - length hops) visited cur))"
  "length out \<le> cx_maxCandidates cx \<Longrightarrow> length hops < cx_maxPathDepth cx \<Longrightarrow>
     dfs_loop cx hops visited out cur as =
       take (cx_maxCandidates cx)
         (out @ route_hits cx hops (concat (map (branch cx hops visited cur) as)))"
proof (induction cx hops visited out cur and cx hops visited out cur as rule: dfs_dfs_loop.induct)
  case (1 cx hops visited out cur)
  show ?case
  proof (cases "cx_maxCandidates cx \<le> length out \<or> cx_maxPathDepth cx \<le> length hops")
    case True
    with 1(2) show ?thesis by (auto simp: dfs.simps)
  next
    case False
    then have lt: "length hops < cx_maxPathDepth cx" by simp
    from False 1 show ?thesis
      by (subst dfs.simps) (auto simp: routes_branch [OF lt] split: option.splits)
  qed
next
  case (3 cx hops visited out cur a as)
  let ?M = "cx_maxCandidates cx"
  let ?hops = "hops @ [adj_hop cur a]"
  let ?out = "if adj_to a = cx_dst cx then out @ dfs_hit cx ?hops
              else dfs cx ?hops (set_insert (adj_to a) visited) out (adj_to a)"
  show ?case
  proof (cases "?M \<le> length out \<or> adj_to a \<in> set visited")
    case True
    with 3 show ?thesis by (auto simp: branch_def)
  next
    case False
    have out: "?out = take ?M (out @ route_hits cx hops (branch cx hops visited cur a))"
    proof (cases "adj_to a = cx_dst cx")
      case True
      with False show ?thesis
        by (auto simp: branch_def route_hits_Cons, auto simp: route_hits_def dfs_hit_def)
    next
      case dst: False
      with False 3(2) [OF _ _ refl] 3(4) show ?thesis
        by (auto simp: branch_def route_hits_Cons adj_hop_def)
    qed
    then have len: "length ?out \<le> ?M" by (simp only: length_take min.cobounded2)
    have "dfs_loop cx hops visited out cur (a # as) = dfs_loop cx hops visited ?out cur as"
      using False by (simp add: adj_hop_def Let_def)
    also have "\<dots> = take ?M (?out @ route_hits cx hops (concat (map (branch cx hops visited cur) as)))"
      using False len 3(3) [OF _ _ refl refl] 3(5) by (auto simp: adj_hop_def)
    finally show ?thesis by (simp only: out take_append_take) simp
  qed
qed auto

section \<open>Routes are the simple paths of the topology\<close>

fun hop_chain :: "EvidenceSnapshot \<Rightarrow> EndpointId \<Rightarrow> Hop list \<Rightarrow> bool" where
  "hop_chain s cur [] \<longleftrightarrow> True"
| "hop_chain s cur (h # hs) \<longleftrightarrow>
     hop_from h = cur \<and>
     (\<exists>l\<in>set (sn_links s). ln_id l = hop_link h \<and> ln_source l = cur \<and> ln_destination l = hop_to h) \<and>
     hop_chain s (hop_to h) hs"

definition simple_route :: "EvidenceSnapshot \<Rightarrow> EndpointId \<Rightarrow> EndpointId \<Rightarrow> Hop list \<Rightarrow> bool" where
  "simple_route s src dst hops \<longleftrightarrow>
     hops \<noteq> [] \<and> hop_chain s src hops \<and> distinct (src # map hop_to hops) \<and> hop_to (last hops) = dst"

definition route_from ::
  "EvidenceSnapshot \<Rightarrow> EndpointId \<Rightarrow> EndpointId list \<Rightarrow> EndpointId \<Rightarrow> Hop list \<Rightarrow> bool" where
  "route_from s dst visited cur hs \<longleftrightarrow>
     hs \<noteq> [] \<and> hop_chain s cur hs \<and> distinct (map hop_to hs) \<and>
     hop_to ` set hs \<inter> set visited = {} \<and> hop_to (last hs) = dst"

lemma route_from_Cons:
  "route_from s dst visited cur (h # hs) \<longleftrightarrow>
     hop_from h = cur \<and>
     (\<exists>l\<in>set (sn_links s). ln_id l = hop_link h \<and> ln_source l = cur \<and> ln_destination l = hop_to h) \<and>
     hop_to h \<notin> set visited \<and>
     (if hop_to h = dst then hs = []
      else route_from s dst (set_insert (hop_to h) visited) (hop_to h) hs)"
proof (cases "hop_to h = dst \<and> hs \<noteq> []")
  case True
  then have "hop_to (last hs) \<in> hop_to ` set hs" by simp
  with True have "\<not> (hop_to (last (h # hs)) = dst \<and> distinct (map hop_to (h # hs)))"
    by (simp del: last_in_set) metis
  with True show ?thesis by (auto simp: route_from_def)
next
  case False
  then show ?thesis by (cases "hs = []") (auto simp: route_from_def)
qed

lemma adj_hop_iff:
  "h = adj_hop cur a \<longleftrightarrow> a = \<lparr>adj_to = hop_to h, adj_link = hop_link h\<rparr> \<and> hop_from h = cur"
  by (cases a; cases h) (auto simp: adj_hop_def)

lemma routes_member:
  "hs \<in> set (routes (adjacency s) dst d visited cur) \<longleftrightarrow>
     route_from s dst visited cur hs \<and> length hs \<le> d"
proof (induction d arbitrary: visited cur hs)
  case 0
  then show ?case by (auto simp: route_from_def)
next
  case (Suc d)
  let ?next = "\<lambda>v t. if t = dst then [[]] else routes (adjacency s) dst d (set_insert t v) t"
  have edge: "(\<exists>a. a \<in> set (case map_find (adjacency s) cur of None \<Rightarrow> [] | Some v \<Rightarrow> v) \<and> h = adj_hop cur a) \<longleftrightarrow>
      hop_from h = cur \<and>
      (\<exists>l\<in>set (sn_links s). ln_id l = hop_link h \<and> ln_source l = cur \<and> ln_destination l = hop_to h)" for h
    by (cases "map_find (adjacency s) cur")
      (auto simp: adj_hop_iff adjacency_None adjacency_member)
  show ?case
  proof (cases hs)
    case Nil
    then show ?thesis by (auto simp: route_from_def)
  next
    case (Cons h ts)
    have "hs \<in> set (routes (adjacency s) dst (Suc d) visited cur) \<longleftrightarrow>
        (\<exists>a. a \<in> set (case map_find (adjacency s) cur of None \<Rightarrow> [] | Some v \<Rightarrow> v) \<and> h = adj_hop cur a) \<and>
        hop_to h \<notin> set visited \<and> ts \<in> set (?next visited (hop_to h))"
      by (auto simp: Cons adj_hop_def)
    also have "\<dots> \<longleftrightarrow> route_from s dst visited cur hs \<and> length hs \<le> Suc d"
      unfolding edge by (auto simp: Cons route_from_Cons Suc.IH)
    finally show ?thesis .
  qed
qed

section \<open>What the enumeration returns\<close>

definition all_candidates :: "EvidenceSnapshot \<Rightarrow> EndpointId \<Rightarrow> EndpointId \<Rightarrow> Bounds \<Rightarrow> CandidatePath list" where
  "all_candidates s src dst b =
     route_hits (dfs_ctx s src dst b) []
       (routes (adjacency s) dst (unat (bd_maxPathDepth b)) (set_insert src []) src)"

lemma enumerate_take:
  "enumerateCandidatePaths s src dst b =
     stable_sort pathLess (take (unat (bd_maxCandidates b)) (all_candidates s src dst b))"
  by (simp add: enumerateCandidatePaths_def dfs_prefix dfs_ctx_def all_candidates_def)

lemma all_candidates_member:
  "c \<in> set (all_candidates s src dst b) \<longleftrightarrow>
     cp_source c = src \<and> cp_destination c = dst \<and> simple_route s src dst (cp_hops c) \<and>
     length (cp_hops c) \<le> unat (bd_maxPathDepth b) \<and>
     length (cp_hops c) - 1 \<le> unat (bd_maxRelayCount b)"
proof -
  have "route_from s dst (set_insert src []) src hs \<longleftrightarrow> simple_route s src dst hs" for hs
    by (auto simp: route_from_def simple_route_def)
  moreover have "c = \<lparr>cp_source = src, cp_destination = dst, cp_hops = hs\<rparr> \<longleftrightarrow>
      cp_source c = src \<and> cp_destination c = dst \<and> hs = cp_hops c" for hs
    by (cases c) auto
  ultimately show ?thesis
    by (auto simp: all_candidates_def route_hits_def dfs_hit_def dfs_ctx_def routes_member)
qed

lemma enumerate_sound:
  "c \<in> set (enumerateCandidatePaths s src dst b) \<Longrightarrow>
     cp_source c = src \<and> cp_destination c = dst \<and> simple_route s src dst (cp_hops c) \<and>
     length (cp_hops c) \<le> unat (bd_maxPathDepth b) \<and>
     length (cp_hops c) - 1 \<le> unat (bd_maxRelayCount b)"
  using all_candidates_member [of c s src dst b] by (auto simp: enumerate_take dest: in_set_takeD)

lemma enumerate_length:
  "length (enumerateCandidatePaths s src dst b) =
     min (length (all_candidates s src dst b)) (unat (bd_maxCandidates b))"
  by (simp add: enumerate_take)

lemma enumerate_complete:
  assumes "length (enumerateCandidatePaths s src dst b) < unat (bd_maxCandidates b)"
  shows "set (enumerateCandidatePaths s src dst b) = set (all_candidates s src dst b)"
  using assms unfolding enumerate_length by (simp add: enumerate_take)

text \<open>The adjacency, and with it the result, does not depend on the order of the published links.\<close>

lemma adj_sort_perm:
  assumes "mset xs = mset ys"
  shows "stable_sort adjLess xs = stable_sort adjLess ys"
proof (rule adj_order.sort_unique)
  show "\<forall>x\<in>set ys. \<forall>y\<in>set ys. adj_order.leq x y \<longrightarrow> adj_order.leq y x \<longrightarrow> x = y"
    by (auto simp: adj_order.leq_def adjLess_def split: if_splits)
  show "sorted_wrt adj_order.leq (stable_sort adjLess xs)"
    by (rule adj_order.sorted_stable_sort) simp
qed (simp_all add: assms)

lemma adjacency_perm:
  assumes "mset (sn_links s) = mset (sn_links s')"
  shows "map_find (adjacency s) = map_find (adjacency s')"
proof
  fix k
  have "mset (out_edges (sn_links s) k) = mset (out_edges (sn_links s') k)"
    using assms by (simp add: out_edges_def)
  then have "out_edges (sn_links s) k = [] \<longleftrightarrow> out_edges (sn_links s') k = []"
    and "stable_sort adjLess (out_edges (sn_links s) k) = stable_sort adjLess (out_edges (sn_links s') k)"
    by (metis mset_zero_iff, rule adj_sort_perm)
  then show "map_find (adjacency s) k = map_find (adjacency s') k"
    by (simp only: find_adjacency)
qed

lemma routes_cong:
  assumes "map_find adj = map_find adj'"
  shows "routes adj dst d = routes adj' dst d"
proof (induction d)
  case (Suc d)
  have "routes adj dst (Suc d) visited cur = routes adj' dst (Suc d) visited cur" for visited cur
    unfolding routes.simps by (subst Suc, subst assms, rule refl)
  then show ?case by blast
qed (simp add: fun_eq_iff)

lemma enumerate_perm:
  assumes "mset (sn_links s) = mset (sn_links s')"
  shows "enumerateCandidatePaths s src dst b = enumerateCandidatePaths s' src dst b"
proof -
  have "dfs_hit (dfs_ctx s src dst b) = dfs_hit (dfs_ctx s' src dst b)"
    by (simp add: fun_eq_iff dfs_hit_def dfs_ctx_def)
  then show ?thesis
    unfolding enumerate_take all_candidates_def route_hits_def
    by (simp only: routes_cong [OF adjacency_perm [OF assms]])
qed

end
