(* ===== verification/Plan_Building.thy ===== *)
theory Plan_Building
  imports Ranking Path_Enumeration
begin

text \<open>
  The helpers of \<open>src/planner_internal.hpp\<close> that the three planners share, from \<open>src/planner.cpp\<close> and
  \<open>src/multicast.cpp\<close>: identity counters, stages and paths of a chosen candidate, evaluation and
  ranking of all candidates of a destination, and the binding of generations.
\<close>

section \<open>Counters\<close>

text \<open>
  The process-wide counters: \<open>CommunicationPlanId::next\<close>, \<open>StageId::next\<close> and \<open>nextPlanGeneration\<close> are
  \<open>fetch_add(1)\<close> on a static 64-bit atomic that starts at 1.
\<close>

record Counters =
  ct_planId :: u64
  ct_stageId :: u64
  ct_planGeneration :: u64

definition initial_Counters :: Counters where
  "initial_Counters = \<lparr>ct_planId = 1, ct_stageId = 1, ct_planGeneration = 1\<rparr>"

definition next_plan_identity :: "Counters \<Rightarrow> (CommunicationPlanId \<times> Generation) \<times> Counters" where
  "next_plan_identity ct =
     (let (i, pi) = id_next (ct_planId ct); (g, pg) = id_next (ct_planGeneration ct)
      in ((i, g), ct\<lparr>ct_planId := pi, ct_planGeneration := pg\<rparr>))"

section \<open>Stages and paths\<close>

definition currentAuthority :: Generation where
  "currentAuthority = 1"

definition stagingResourceFor :: "EndpointId \<Rightarrow> ResourceId" where
  "stagingResourceFor relay = relay * 2 + 1"

definition directCandidate :: "EndpointId \<Rightarrow> EndpointId \<Rightarrow> LinkId \<Rightarrow> CandidatePath" where
  "directCandidate src dst link =
     \<lparr>cp_source = src, cp_destination = dst,
      cp_hops = [\<lparr>hop_link = link, hop_from = src, hop_to = dst\<rparr>]\<rparr>"

definition build_stage :: "CommunicationRequest \<Rightarrow> Link \<Rightarrow> Hop \<Rightarrow> bool \<Rightarrow> StageId \<Rightarrow> Stage" where
  "build_stage r link h interior sid =
     default_Stage
       \<lparr>st_id := sid, st_generation := 1, st_source := hop_from h, st_destination := hop_to h,
        st_link := hop_link h, st_transport := ln_transport link, st_payload := rq_payloadSize r,
        st_expectedBandwidth :=
          (if ln_effectiveBandwidth link \<noteq> 0 then ln_effectiveBandwidth link else ln_capacity link),
        st_expectedLatency := ln_latency link, st_requiresAuthority := True,
        st_provenance := ln_provenance link,
        st_stagingResource := (if interior then stagingResourceFor (hop_to h) else 0),
        st_description := toString_Transport (ln_transport link) @ '' '' @ u64_str (hop_from h) @
          ''->'' @ u64_str (hop_to h)\<rparr>"

text \<open>
  The loop of \<open>buildStages\<close>: \<open>lmap.at\<close> throws for an unknown link, before the stage takes its
  identity; \<open>interior\<close> is \<open>i + 1 < cand.hops.size()\<close>.
\<close>

fun buildStages_loop ::
  "CommunicationRequest \<Rightarrow> (LinkId \<times> Link) list \<Rightarrow> Hop list \<Rightarrow> u64 \<Rightarrow> (cp_exception + Stage list) \<times> u64" where
  "buildStages_loop r lmap [] sid = (Inr [], sid)"
| "buildStages_loop r lmap (h # hs) sid =
     (case map_find lmap (hop_link h) of
        None \<Rightarrow> (Inl OutOfRange, sid)
      | Some link \<Rightarrow>
          let (i, sid') = id_next sid; st = build_stage r link h (hs \<noteq> []) i
          in (case buildStages_loop r lmap hs sid' of
                (Inl e, sid'') \<Rightarrow> (Inl e, sid'')
              | (Inr sts, sid'') \<Rightarrow> (Inr (st # sts), sid'')))"

definition buildStages ::
  "CandidatePath \<Rightarrow> EvidenceSnapshot \<Rightarrow> CommunicationRequest \<Rightarrow> u64 \<Rightarrow> (cp_exception + Stage list) \<times> u64" where
  "buildStages cand s r sid = buildStages_loop r (linkMap s) (cp_hops cand) sid"

definition makePath ::
  "PathId \<Rightarrow> CandidatePath \<Rightarrow> EvidenceSnapshot \<Rightarrow> CommunicationRequest \<Rightarrow> CostSummary \<Rightarrow> u64 \<Rightarrow>
   (cp_exception + Path) \<times> u64" where
  "makePath i cand s r cost sid =
     (case buildStages cand s r sid of
        (Inl e, sid') \<Rightarrow> (Inl e, sid')
      | (Inr sts, sid') \<Rightarrow>
          (Inr \<lparr>pa_id = i, pa_generation = 1, pa_source = cp_source cand,
                pa_destination = cp_destination cand, pa_stages = sts,
                pa_totalPayload = rq_payloadSize r, pa_cost = cost,
                pa_provenance = worstProvenance cost, pa_failureDomain = [], pa_reason = []\<rparr>, sid'))"

definition provName :: "Provenance \<Rightarrow> string" where
  "provName p = toString_Provenance p"

section \<open>Evaluation of the candidates of one destination\<close>

record CandidateReport =
  cr_path :: CandidatePath
  cr_feasibility :: FeasibilityResult
  cr_cost :: CostSummary
  cr_detail :: string
  cr_provenance :: Provenance

record PlanOutcome =
  po_success :: bool
  po_plan :: "CommunicationPlan option"
  po_candidates :: "CandidateReport list"
  po_rankedIndices :: "nat list"
  po_explanations :: "string list"

definition candidate_report ::
  "CommunicationRequest \<Rightarrow> EvidenceSnapshot \<Rightarrow> RankingWeights \<Rightarrow> Bounds \<Rightarrow> CandidatePath \<Rightarrow> CandidateReport" where
  "candidate_report r s ws b c =
     (let f = evaluateCandidateFeasibility r s c b
      in if feasible f
         then let cost = evaluateCandidateCost r s c ws
              in \<lparr>cr_path = c, cr_feasibility = f, cr_cost = cost, cr_detail = fr_detail f,
                  cr_provenance = worstProvenance cost\<rparr>
         else \<lparr>cr_path = c, cr_feasibility = f, cr_cost = default_CostSummary,
               cr_detail = fr_detail f, cr_provenance = Provenance.UNKNOWN\<rparr>)"

definition report_rankable :: "CandidateReport \<Rightarrow> Rankable" where
  "report_rankable rep =
     \<lparr>rk_path = cr_path rep, rk_feasibility = cr_feasibility rep, rk_cost = cr_cost rep\<rparr>"

text \<open>
  The loop over the candidates: a report for each, and for the feasible ones their position
  (\<open>feasibleOrig\<close>, \<open>foe\<close>) and their entry for \<open>rankFeasible\<close>.
\<close>

definition feasible_positions :: "CandidateReport list \<Rightarrow> nat list" where
  "feasible_positions reports = filter (\<lambda>i. feasible (cr_feasibility (reports ! i))) [0..<length reports]"

definition rankables_of :: "CandidateReport list \<Rightarrow> Rankable list" where
  "rankables_of reports = map (\<lambda>i. report_rankable (reports ! i)) (feasible_positions reports)"

text \<open>\<open>orderOrig\<close>: the positions of the feasible candidates, best first.\<close>

definition ranked_positions :: "CandidateReport list \<Rightarrow> nat list" where
  "ranked_positions reports =
     map (\<lambda>idx. feasible_positions reports ! idx) (rankFeasible (rankables_of reports))"

section \<open>Binding generations\<close>

definition bind_link ::
  "(LinkId \<times> Link) list \<Rightarrow> LinkId \<Rightarrow> (LinkId \<times> Generation) list \<Rightarrow> (LinkId \<times> Generation) list" where
  "bind_link lmap k ls =
     (case map_find lmap k of Some l \<Rightarrow> set_insert (ln_id l, ln_generation l) ls | None \<Rightarrow> ls)"

definition bind_endpoint ::
  "(EndpointId \<times> Endpoint) list \<Rightarrow> EndpointId \<Rightarrow> (EndpointId \<times> Generation) list \<Rightarrow> (EndpointId \<times> Generation) list" where
  "bind_endpoint emap k es =
     (case map_find emap k of Some e \<Rightarrow> set_insert (ep_id e, ep_generation e) es | None \<Rightarrow> es)"

definition bind_claim :: "ResourceId \<Rightarrow> ResourceId list \<Rightarrow> ResourceId list" where
  "bind_claim c claims = (if \<not> isNull c then set_insert c claims else claims)"

text \<open>Both ends of a hop or a stage, in the order of the source.\<close>

definition bind_ends ::
  "(EndpointId \<times> Endpoint) list \<Rightarrow> EndpointId \<Rightarrow> EndpointId \<Rightarrow>
   (EndpointId \<times> Generation) list \<Rightarrow> (EndpointId \<times> Generation) list" where
  "bind_ends emap src dst es = bind_endpoint emap dst (bind_endpoint emap src es)"

text \<open>\<open>bindGenerations\<close> of \<open>multicast.cpp\<close>: the sets over the stages of all paths.\<close>

definition bindGenerations ::
  "Path list \<Rightarrow> EvidenceSnapshot \<Rightarrow> ResourceId list \<Rightarrow>
   (EndpointId \<times> Generation) list \<times> (LinkId \<times> Generation) list \<times> ResourceId list" where
  "bindGenerations paths s claims =
     (let stages = concat (map pa_stages paths)
      in (fold (\<lambda>st. bind_ends (endpointMap s) (st_source st) (st_destination st)) stages [],
          fold (\<lambda>st. bind_link (linkMap s) (st_link st)) stages [],
          fold (\<lambda>st. bind_claim (st_stagingResource st)) stages claims))"

definition bind_snapshot :: "EvidenceSnapshot \<Rightarrow> CommunicationPlan \<Rightarrow> CommunicationPlan" where
  "bind_snapshot s p =
     p\<lparr>pl_topologyGeneration := sn_topologyGeneration s,
       pl_capacityGeneration := sn_capacityGeneration s,
       pl_reservationGeneration := sn_reservationGeneration s,
       pl_congestionGeneration := sn_congestionGeneration s,
       pl_capabilityGeneration := sn_capabilityGeneration s,
       pl_healthGeneration := sn_healthGeneration s,
       pl_placementGeneration := sn_placementGeneration s,
       pl_authorityGeneration := sn_authorityGeneration s\<rparr>"

definition cost_provenance_name :: "CostSummary \<Rightarrow> string" where
  "cost_provenance_name c = (if totalValid c then provName (worstProvenance c) else ''UNKNOWN'')"

section \<open>Stages follow hops\<close>

definition stage_of_hop :: "EvidenceSnapshot \<Rightarrow> Hop \<Rightarrow> Stage \<Rightarrow> bool" where
  "stage_of_hop s h st \<longleftrightarrow>
     st_link st = hop_link h \<and> st_source st = hop_from h \<and> st_destination st = hop_to h \<and>
     (\<exists>l. map_find (linkMap s) (hop_link h) = Some l \<and> st_transport st = ln_transport l \<and>
          st_expectedLatency st = ln_latency l)"

lemma build_stage_of_hop:
  "map_find (linkMap s) (hop_link h) = Some l \<Longrightarrow> stage_of_hop s h (build_stage r l h interior sid)"
  by (simp add: stage_of_hop_def build_stage_def)

lemma buildStages_loop_ok:
  assumes "\<forall>h\<in>set hops. \<exists>l. map_find (linkMap s) (hop_link h) = Some l"
  shows "\<exists>sts. buildStages_loop r (linkMap s) hops sid = (Inr sts, sid + of_nat (length hops)) \<and>
    list_all2 (stage_of_hop s) hops sts \<and>
    map st_stagingResource sts =
      map (\<lambda>h. stagingResourceFor (hop_to h)) (butlast hops) @ (if hops = [] then [] else [0]) \<and>
    map st_id sts = map (\<lambda>i. sid + of_nat i) [0..<length hops] \<and>
    list_all (\<lambda>st. st_payload st = rq_payloadSize r) sts"
  using assms
proof (induction hops arbitrary: sid)
  case (Cons h hs)
  then obtain l where l: "map_find (linkMap s) (hop_link h) = Some l" by auto
  from Cons obtain sts where sts:
    "buildStages_loop r (linkMap s) hs (sid + 1) = (Inr sts, sid + 1 + of_nat (length hs))"
    "list_all2 (stage_of_hop s) hs sts"
    "map st_stagingResource sts =
      map (\<lambda>h. stagingResourceFor (hop_to h)) (butlast hs) @ (if hs = [] then [] else [0])"
    "map st_id sts = map (\<lambda>i. sid + 1 + of_nat i) [0..<length hs]"
    "list_all (\<lambda>st. st_payload st = rq_payloadSize r) sts"
    by auto
  let ?st = "build_stage r l h (hs \<noteq> []) sid"
  have "map st_id (?st # sts) = map (\<lambda>i. sid + of_nat i) [0..<length (h # hs)]"
    by (simp add: sts(4) build_stage_def upt_conv_Cons map_Suc_upt [symmetric] comp_def add.assoc
        del: upt_Suc)
  moreover have "map st_stagingResource (?st # sts) =
      map (\<lambda>h. stagingResourceFor (hop_to h)) (butlast (h # hs)) @ [0]"
    using sts(2) by (auto simp: sts(3) build_stage_def)
  moreover have "st_payload ?st = rq_payloadSize r" by (simp add: build_stage_def)
  ultimately show ?case
    using l sts(1,2,5) build_stage_of_hop [OF l]
    by (intro exI [of _ "?st # sts"]) (simp add: id_next_def)
qed simp

lemma makePath_ok:
  assumes "\<forall>h\<in>set (cp_hops cand). \<exists>l. map_find (linkMap s) (hop_link h) = Some l"
  shows "\<exists>p. makePath i cand s r cost sid = (Inr p, sid + of_nat (length (cp_hops cand))) \<and>
    list_all2 (stage_of_hop s) (cp_hops cand) (pa_stages p) \<and>
    map st_stagingResource (pa_stages p) =
      map (\<lambda>h. stagingResourceFor (hop_to h)) (butlast (cp_hops cand)) @
      (if cp_hops cand = [] then [] else [0]) \<and>
    list_all (\<lambda>st. st_payload st = rq_payloadSize r) (pa_stages p) \<and>
    pa_id p = i \<and> pa_source p = cp_source cand \<and> pa_destination p = cp_destination cand \<and> pa_cost p = cost \<and>
    pa_totalPayload p = rq_payloadSize r"
  using buildStages_loop_ok [OF assms, of r sid]
  by (auto simp: makePath_def buildStages_def)

lemma makePath_cases:
  assumes "makePath i cand s r cost sid = (Inr p, sid')"
  shows "list_all2 (stage_of_hop s) (cp_hops cand) (pa_stages p) \<and>
    map st_stagingResource (pa_stages p) =
      map (\<lambda>h. stagingResourceFor (hop_to h)) (butlast (cp_hops cand)) @
      (if cp_hops cand = [] then [] else [0]) \<and>
    list_all (\<lambda>st. st_payload st = rq_payloadSize r) (pa_stages p) \<and>
    pa_id p = i \<and> pa_source p = cp_source cand \<and> pa_destination p = cp_destination cand \<and> pa_cost p = cost \<and>
    pa_totalPayload p = rq_payloadSize r"
proof -
  have "\<forall>h\<in>set hops. \<exists>l. map_find lmap (hop_link h) = Some l"
    if "buildStages_loop r lmap hops sid = (Inr sts, sid')" for hops lmap sid sts
    using that by (induction hops arbitrary: sid sts)
      (auto simp: Let_def id_next_def split: option.splits prod.splits sum.splits)
  with assms have "\<forall>h\<in>set (cp_hops cand). \<exists>l. map_find (linkMap s) (hop_link h) = Some l"
    by (auto simp: makePath_def buildStages_def split: prod.splits sum.splits)
  from makePath_ok [OF this, of i r cost sid] assms show ?thesis by auto
qed

section \<open>Ranked positions\<close>

definition candidate_tuple ::
  "CommunicationRequest \<Rightarrow> EvidenceSnapshot \<Rightarrow> RankingWeights \<Rightarrow> Bounds \<Rightarrow> CandidatePath \<Rightarrow>
   int \<times> int \<times> int \<times> int \<times> int \<times> int \<times> nat \<times> u64 list" where
  "candidate_tuple r s ws b c = rank_tuple (rankKey (report_rankable (candidate_report r s ws b c)))"

lemma report_feasible:
  "feasible (cr_feasibility (candidate_report r s ws b c)) \<longleftrightarrow> path_feasible r s b (cp_hops c)"
  "cr_path (candidate_report r s ws b c) = c"
  by (simp_all add: candidate_report_def Let_def feasibility_iff)

lemma report_good: "rankable_good (report_rankable (candidate_report r s ws b c))"
  using costed_good by (auto simp: report_rankable_def candidate_report_def Let_def
      rankable_good_def default_CostSummary_def)

lemma feasible_positions_map:
  "feasible_positions (map (candidate_report r s ws b) cands) =
     filter (\<lambda>i. path_feasible r s b (cp_hops (cands ! i))) [0..<length cands]"
  unfolding feasible_positions_def by (auto simp: report_feasible intro: filter_cong)

lemma ranked_positions_set:
  "set (ranked_positions (map (candidate_report r s ws b) cands)) =
     {i. i < length cands \<and> path_feasible r s b (cp_hops (cands ! i))}"
proof -
  let ?reports = "map (candidate_report r s ws b) cands"
  let ?pos = "feasible_positions ?reports"
  have "feasible (rk_feasibility (rankables_of ?reports ! j))" if "j < length ?pos" for j
  proof -
    have "?pos ! j \<in> set ?pos" using that by simp
    then have "feasible (cr_feasibility (?reports ! (?pos ! j)))"
      unfolding feasible_positions_def by (simp only: set_filter mem_Collect_eq)
    with that show ?thesis by (simp add: rankables_of_def report_rankable_def)
  qed
  then have "set (rankFeasible (rankables_of ?reports)) = {..<length ?pos}"
    by (auto simp: rankFeasible_set rankables_of_def)
  then have "set (ranked_positions ?reports) = set ?pos"
    using nth_image [of "length ?pos" ?pos] by (simp add: ranked_positions_def lessThan_atLeast0)
  then show ?thesis by (auto simp: feasible_positions_map)
qed

lemma ranked_positions_sorted:
  "sorted_wrt (\<lambda>i j. (candidate_tuple r s ws b (cands ! i), i) < (candidate_tuple r s ws b (cands ! j), j))
     (ranked_positions (map (candidate_report r s ws b) cands))"
proof -
  let ?reports = "map (candidate_report r s ws b) cands"
  let ?pos = "feasible_positions ?reports"
  let ?in = "rankables_of ?reports"
  let ?T = "\<lambda>i. (candidate_tuple r s ws b (cands ! i), i)"
  let ?R = "\<lambda>i j. (rank_tuple (rankKey (?in ! i)), i) < (rank_tuple (rankKey (?in ! j)), j)"
  have "\<forall>x\<in>set ?in. rankable_good x"
    using report_good by (auto simp: rankables_of_def feasible_positions_map)
  then have R: "sorted_wrt ?R (rankFeasible ?in)" by (rule rankFeasible_sorted)
  have incr: "sorted_wrt (<) ?pos" by (simp add: feasible_positions_def sorted_wrt_filter)
  have tuple: "rank_tuple (rankKey (?in ! i)) = candidate_tuple r s ws b (cands ! (?pos ! i))"
    if "i < length ?pos" for i
  proof -
    have "?pos ! i \<in> set ?pos" using that by simp
    then have "?pos ! i < length cands" by (simp add: feasible_positions_map)
    with that show ?thesis by (simp add: rankables_of_def candidate_tuple_def)
  qed
  have bound: "i < length ?pos" if "i \<in> set (rankFeasible ?in)" for i
    using that by (simp add: rankFeasible_set rankables_of_def)
  have "?T (?pos ! i) < ?T (?pos ! j)"
    if ij: "i \<in> set (rankFeasible ?in)" "j \<in> set (rankFeasible ?in)" "?R i j" for i j
  proof -
    have "?pos ! i < ?pos ! j" if "i < j"
      using that bound [OF ij(2)] incr by (simp add: sorted_wrt_nth_less)
    with ij(3) show ?thesis
      by (auto simp: tuple [OF bound [OF ij(1)]] tuple [OF bound [OF ij(2)]])
  qed
  then have "sorted_wrt (\<lambda>i j. ?T (?pos ! i) < ?T (?pos ! j)) (rankFeasible ?in)"
    by (rule sorted_wrt_mono_rel [OF _ R])
  then show ?thesis by (simp only: ranked_positions_def sorted_wrt_map)
qed

lemma ranked_positions_distinct:
  "distinct (ranked_positions (map (candidate_report r s ws b) cands))"
proof -
  let ?xs = "ranked_positions (map (candidate_report r s ws b) cands)"
  have "?xs ! i \<noteq> ?xs ! j" if "i < j" "j < length ?xs" for i j
    using sorted_wrt_nth_less [OF ranked_positions_sorted that] by auto
  then show ?thesis by (metis distinct_conv_nth linorder_neqE_nat)
qed

section \<open>Bound generations\<close>

text \<open>The current generations of the links and endpoints with the given identities.\<close>

definition bound_links :: "EvidenceSnapshot \<Rightarrow> LinkId set \<Rightarrow> (LinkId \<times> Generation) set" where
  "bound_links s ks = {(k, ln_generation l) |k l. k \<in> ks \<and> map_find (linkMap s) k = Some l}"

definition bound_endpoints :: "EvidenceSnapshot \<Rightarrow> EndpointId set \<Rightarrow> (EndpointId \<times> Generation) set" where
  "bound_endpoints s ks = {(k, ep_generation e) |k e. k \<in> ks \<and> map_find (endpointMap s) k = Some e}"

lemma set_bind_link: "set (bind_link (linkMap s) k ls) = set ls \<union> bound_links s {k}"
  by (auto simp: bind_link_def bound_links_def dest: linkMap_SomeD split: option.split)

lemma set_bind_endpoint:
  "set (bind_endpoint (endpointMap s) k es) = set es \<union> bound_endpoints s {k}"
  by (auto simp: bind_endpoint_def bound_endpoints_def dest: endpointMap_SomeD split: option.split)

lemma bound_links_insert: "bound_links s (insert k ks) = bound_links s {k} \<union> bound_links s ks"
  by (auto simp: bound_links_def)

lemma bound_endpoints_insert:
  "bound_endpoints s (insert k ks) = bound_endpoints s {k} \<union> bound_endpoints s ks"
  by (auto simp: bound_endpoints_def)

lemma set_fold_bind_link:
  "set (fold (\<lambda>x. bind_link (linkMap s) (f x)) xs ls) = set ls \<union> bound_links s (f ` set xs)"
proof (induction xs arbitrary: ls)
  case Nil
  then show ?case by (simp add: bound_links_def)
next
  case (Cons x xs)
  then show ?case using bound_links_insert [of s "f x" "f ` set xs"] by (auto simp: set_bind_link)
qed

lemma set_fold_bind_ends:
  "set (fold (\<lambda>x. bind_ends (endpointMap s) (f x) (g x)) xs es) =
     set es \<union> bound_endpoints s (f ` set xs \<union> g ` set xs)"
proof (induction xs arbitrary: es)
  case Nil
  then show ?case by (simp add: bound_endpoints_def)
next
  case (Cons x xs)
  have "bound_endpoints s (f ` set (x # xs) \<union> g ` set (x # xs)) =
      bound_endpoints s {f x} \<union> bound_endpoints s {g x} \<union> bound_endpoints s (f ` set xs \<union> g ` set xs)"
    by (auto simp: bound_endpoints_def)
  moreover have "set (bind_ends (endpointMap s) (f x) (g x) es) =
      set es \<union> bound_endpoints s {f x} \<union> bound_endpoints s {g x}"
    by (simp only: bind_ends_def set_bind_endpoint)
  ultimately show ?case unfolding fold_simps comp_apply Cons by (simp only: Un_assoc)
qed

lemma set_fold_bind_claim:
  "set (fold (\<lambda>x. bind_claim (f x)) xs cs) = set cs \<union> {f x |x. x \<in> set xs \<and> \<not> isNull (f x)}"
  by (induction xs arbitrary: cs) (auto simp: bind_claim_def)

text \<open>One binding per identity: the map from bound identities to generations is a function.\<close>

lemma bound_links_functional: "(k, g) \<in> bound_links s ks \<Longrightarrow> (k, g') \<in> bound_links s ks' \<Longrightarrow> g = g'"
  by (auto simp: bound_links_def)

lemma bound_endpoints_functional:
  "(k, g) \<in> bound_endpoints s ks \<Longrightarrow> (k, g') \<in> bound_endpoints s ks' \<Longrightarrow> g = g'"
  by (auto simp: bound_endpoints_def)

section \<open>The best path to a destination\<close>

lemma enumerated_links_known:
  assumes "c \<in> set (enumerateCandidatePaths s src dst b)"
  shows "\<forall>h\<in>set (cp_hops c). \<exists>l. map_find (linkMap s) (hop_link h) = Some l"
proof -
  have "hop_chain s cur hs \<Longrightarrow> \<forall>h\<in>set hs. hop_link h \<in> ln_id ` set (sn_links s)" for cur hs
    by (induction hs arbitrary: cur) (simp_all, metis imageI)
  moreover have "hop_chain s src (cp_hops c)"
    using enumerate_sound [OF assms] by (simp add: simple_route_def)
  ultimately show ?thesis using linkMap_None_iff [of s] by (metis option.exhaust)
qed

definition destination_feasible ::
  "CommunicationRequest \<Rightarrow> EvidenceSnapshot \<Rightarrow> Bounds \<Rightarrow> EndpointId \<Rightarrow> EndpointId \<Rightarrow> bool" where
  "destination_feasible r s b src dst \<longleftrightarrow>
     (\<exists>c\<in>set (enumerateCandidatePaths s src dst b). path_feasible r s b (cp_hops c))"

text \<open>
  A candidate that the planner may choose: enumerated, feasible, and not beaten by any other
  feasible enumerated candidate.
\<close>

definition best_candidate ::
  "CommunicationRequest \<Rightarrow> EvidenceSnapshot \<Rightarrow> RankingWeights \<Rightarrow> Bounds \<Rightarrow> EndpointId \<Rightarrow> EndpointId \<Rightarrow>
   CandidatePath \<Rightarrow> bool" where
  "best_candidate r s ws b src dst c \<longleftrightarrow>
     c \<in> set (enumerateCandidatePaths s src dst b) \<and> path_feasible r s b (cp_hops c) \<and>
     (\<forall>c'\<in>set (enumerateCandidatePaths s src dst b). path_feasible r s b (cp_hops c') \<longrightarrow>
        candidate_tuple r s ws b c \<le> candidate_tuple r s ws b c')"

text \<open>A path that carries a candidate: its stages are the candidate's hops over the snapshot's links,
  each with the whole payload of the request.\<close>

definition path_of_candidate ::
  "CommunicationRequest \<Rightarrow> EvidenceSnapshot \<Rightarrow> RankingWeights \<Rightarrow> CandidatePath \<Rightarrow> Path \<Rightarrow> bool" where
  "path_of_candidate r s ws c p \<longleftrightarrow>
     list_all2 (stage_of_hop s) (cp_hops c) (pa_stages p) \<and>
     map st_stagingResource (pa_stages p) =
       map (\<lambda>h. stagingResourceFor (hop_to h)) (butlast (cp_hops c)) @ (if cp_hops c = [] then [] else [0]) \<and>
     list_all (\<lambda>st. st_payload st = rq_payloadSize r) (pa_stages p) \<and>
     pa_source p = cp_source c \<and> pa_destination p = cp_destination c \<and> pa_totalPayload p = rq_payloadSize r \<and>
     pa_cost p = evaluateCandidateCost r s c ws"

definition best_path ::
  "CommunicationRequest \<Rightarrow> EvidenceSnapshot \<Rightarrow> RankingWeights \<Rightarrow> Bounds \<Rightarrow> EndpointId \<Rightarrow> EndpointId \<Rightarrow>
   Path \<Rightarrow> bool" where
  "best_path r s ws b src dst p \<longleftrightarrow>
     (\<exists>c. best_candidate r s ws b src dst c \<and> path_of_candidate r s ws c p)"

lemma ranked_Nil_iff:
  "ranked_positions (map (candidate_report r s ws b) (enumerateCandidatePaths s src dst b)) = [] \<longleftrightarrow>
     \<not> destination_feasible r s b src dst"
proof -
  let ?cands = "enumerateCandidatePaths s src dst b"
  have "ranked_positions (map (candidate_report r s ws b) ?cands) = [] \<longleftrightarrow>
      {i. i < length ?cands \<and> path_feasible r s b (cp_hops (?cands ! i))} = {}"
    by (simp only: ranked_positions_set flip: set_empty)
  also have "\<dots> \<longleftrightarrow> \<not> (\<exists>c\<in>set ?cands. path_feasible r s b (cp_hops c))"
    by (auto simp: all_set_conv_all_nth)
  finally show ?thesis by (simp only: destination_feasible_def)
qed

lemma ranked_member:
  assumes "i \<in> set (ranked_positions (map (candidate_report r s ws b) cands))"
  shows "i < length cands" and "path_feasible r s b (cp_hops (cands ! i))"
    and "cr_cost (map (candidate_report r s ws b) cands ! i) = evaluateCandidateCost r s (cands ! i) ws"
proof -
  show i: "i < length cands" "path_feasible r s b (cp_hops (cands ! i))"
    using assms by (simp_all add: ranked_positions_set)
  then show "cr_cost (map (candidate_report r s ws b) cands ! i) =
      evaluateCandidateCost r s (cands ! i) ws"
    by (simp add: candidate_report_def Let_def feasibility_iff)
qed

lemma ranked_head_best:
  assumes ranked: "ranked_positions (map (candidate_report r s ws b) cands) = best # rest"
    and cands: "cands = enumerateCandidatePaths s src dst b"
  shows "best_candidate r s ws b src dst (cands ! best)"
proof -
  let ?ranked = "ranked_positions (map (candidate_report r s ws b) cands)"
  have best: "best < length cands" "path_feasible r s b (cp_hops (cands ! best))"
    using ranked_member [of best r s ws b cands] by (simp_all add: ranked)
  have "candidate_tuple r s ws b (cands ! best) \<le> candidate_tuple r s ws b c'"
    if c': "c' \<in> set cands" "path_feasible r s b (cp_hops c')" for c'
  proof -
    obtain i where i: "i < length cands" "cands ! i = c'" using c'(1) by (metis in_set_conv_nth)
    with c'(2) have "i \<in> set ?ranked" by (simp add: ranked_positions_set)
    moreover have "sorted_wrt (\<lambda>i j. (candidate_tuple r s ws b (cands ! i), i) <
        (candidate_tuple r s ws b (cands ! j), j)) ?ranked"
      by (rule ranked_positions_sorted)
    ultimately show ?thesis using i by (auto simp: ranked order_less_imp_le)
  qed
  with best show ?thesis by (auto simp: best_candidate_def cands)
qed

lemma makePath_candidate:
  assumes "c \<in> set (enumerateCandidatePaths s src dst b)"
  shows "\<exists>p. makePath i c s r (evaluateCandidateCost r s c ws) sid =
      (Inr p, sid + of_nat (length (cp_hops c))) \<and> path_of_candidate r s ws c p \<and> pa_id p = i"
  using makePath_ok [OF enumerated_links_known [OF assms], of i r "evaluateCandidateCost r s c ws" sid]
  by (auto simp: path_of_candidate_def)

lemma makePath_best:
  assumes "ranked_positions (map (candidate_report r s ws b) (enumerateCandidatePaths s src dst b)) = best # rest"
  shows "\<exists>p sid'. makePath i (enumerateCandidatePaths s src dst b ! best) s r
      (cr_cost (map (candidate_report r s ws b) (enumerateCandidatePaths s src dst b) ! best)) sid = (Inr p, sid') \<and>
    best_path r s ws b src dst p \<and> pa_id p = i"
proof -
  let ?cands = "enumerateCandidatePaths s src dst b"
  have best: "best_candidate r s ws b src dst (?cands ! best)"
    using assms by (rule ranked_head_best) simp
  have cost: "cr_cost (map (candidate_report r s ws b) ?cands ! best) =
      evaluateCandidateCost r s (?cands ! best) ws"
    using ranked_member [of best r s ws b ?cands] by (simp add: assms)
  from best have "?cands ! best \<in> set ?cands" by (simp add: best_candidate_def)
  from makePath_candidate [OF this, of i r ws sid] best show ?thesis
    by (auto simp: cost best_path_def)
qed

section \<open>Plans bound to a snapshot\<close>

definition plan_stages :: "CommunicationPlan \<Rightarrow> Stage list" where
  "plan_stages p = concat (map pa_stages (pl_candidatePaths p))"

text \<open>
  A plan is bound to a snapshot when it carries the snapshot's generations and exactly the current
  generations of the links and endpoints that its paths, primary and fallback, use.
\<close>

definition plan_bound :: "EvidenceSnapshot \<Rightarrow> CommunicationPlan \<Rightarrow> bool" where
  "plan_bound s p \<longleftrightarrow>
     pl_topologyGeneration p = sn_topologyGeneration s \<and>
     pl_capacityGeneration p = sn_capacityGeneration s \<and>
     pl_reservationGeneration p = sn_reservationGeneration s \<and>
     pl_congestionGeneration p = sn_congestionGeneration s \<and>
     pl_capabilityGeneration p = sn_capabilityGeneration s \<and>
     pl_healthGeneration p = sn_healthGeneration s \<and>
     pl_placementGeneration p = sn_placementGeneration s \<and>
     pl_authorityGeneration p = sn_authorityGeneration s \<and>
     set (pl_linkGenerations p) = bound_links s (st_link ` set (plan_stages p)) \<and>
     set (pl_endpointGenerations p) =
       bound_endpoints s (st_source ` set (plan_stages p) \<union> st_destination ` set (plan_stages p))"

lemma bindGenerations_sets:
  assumes "bindGenerations paths s cs = (egs, lgs, claims)"
  defines "sts \<equiv> set (concat (map pa_stages paths))"
  shows "set egs = bound_endpoints s (st_source ` sts \<union> st_destination ` sts)"
    and "set lgs = bound_links s (st_link ` sts)"
    and "set claims = set cs \<union> {st_stagingResource st |st. st \<in> sts \<and> \<not> isNull (st_stagingResource st)}"
proof -
  let ?sts = "concat (map pa_stages paths)"
  have "egs = fold (\<lambda>st. bind_ends (endpointMap s) (st_source st) (st_destination st)) ?sts []"
    "lgs = fold (\<lambda>st. bind_link (linkMap s) (st_link st)) ?sts []"
    "claims = fold (\<lambda>st. bind_claim (st_stagingResource st)) ?sts cs"
    using assms(1) by (simp_all add: bindGenerations_def Let_def)
  then show "set egs = bound_endpoints s (st_source ` sts \<union> st_destination ` sts)"
    "set lgs = bound_links s (st_link ` sts)"
    "set claims = set cs \<union> {st_stagingResource st |st. st \<in> sts \<and> \<not> isNull (st_stagingResource st)}"
    by (simp_all only: sts_def set_fold_bind_ends set_fold_bind_link set_fold_bind_claim
        list.set(1) sup_bot_left)
qed

lemma plan_bound_snapshot:
  assumes "pl_candidatePaths p = paths" and "bindGenerations paths s [] = (egs, lgs, claims)"
    and "pl_endpointGenerations p = egs" and "pl_linkGenerations p = lgs"
  shows "plan_bound s (bind_snapshot s p)"
  using bindGenerations_sets(1,2) [OF assms(2)] assms(1,3,4)
  by (simp only: plan_bound_def plan_stages_def) (simp add: bind_snapshot_def)

definition plan_claims :: "CommunicationPlan \<Rightarrow> ResourceId set" where
  "plan_claims p = {st_stagingResource st |st. st \<in> set (plan_stages p) \<and> \<not> isNull (st_stagingResource st)}"

end
