(* ===== verification/Multicast.thy ===== *)
theory Multicast
  imports Plan_Building
begin

text \<open>
  \<open>src/multicast.cpp\<close>: one source, many destinations. The best feasible path of every destination is
  retained; a destination without one makes the plan infeasible, and the loop goes on.
\<close>

section \<open>The planner\<close>

text \<open>The locals the loop over the destinations changes, \<open>plan\<close>'s fields included.\<close>

record MulticastAcc =
  mc_reports :: "CandidateReport list"
  mc_ranked :: "nat list"
  mc_anyFail :: bool
  mc_comps :: "CostComponent list"
  mc_paths :: "Path list"
  mc_primary :: PathId
  mc_explanations :: "string list"

definition init_MulticastAcc :: MulticastAcc where
  "init_MulticastAcc =
     \<lparr>mc_reports = [], mc_ranked = [], mc_anyFail = False, mc_comps = [], mc_paths = [],
      mc_primary = 0, mc_explanations = []\<rparr>"

definition multicast_failed :: "EndpointId \<Rightarrow> CandidateReport list \<Rightarrow> MulticastAcc \<Rightarrow> MulticastAcc" where
  "multicast_failed dest reports acc =
     acc\<lparr>mc_reports := mc_reports acc @ reports, mc_anyFail := True,
         mc_explanations := mc_explanations acc @
           [''Destination '' @ u64_str dest @ '' has no feasible path; multicast cannot be satisfied.'']\<rparr>"

definition multicast_retained ::
  "CandidateReport list \<Rightarrow> nat \<Rightarrow> Path \<Rightarrow> MulticastAcc \<Rightarrow> MulticastAcc" where
  "multicast_retained reports best pt acc =
     acc\<lparr>mc_reports := mc_reports acc @ reports,
         mc_ranked := mc_ranked acc @ [length (mc_reports acc) + best],
         mc_paths := mc_paths acc @ [pt],
         mc_comps := mc_comps acc @ cs_components (cr_cost (reports ! best)),
         mc_primary := (if isNull (mc_primary acc) then pa_id pt else mc_primary acc)\<rparr>"

fun multicast_loop ::
  "CommunicationRequest \<Rightarrow> EvidenceSnapshot \<Rightarrow> RankingWeights \<Rightarrow> Bounds \<Rightarrow> EndpointId list \<Rightarrow>
   MulticastAcc \<Rightarrow> u64 \<Rightarrow> (cp_exception + MulticastAcc) \<times> u64" where
  "multicast_loop r s ws b [] acc sid = (Inr acc, sid)"
| "multicast_loop r s ws b (dest # dests) acc sid =
     (let cands = enumerateCandidatePaths s (rq_source r) dest b;
          reports = map (candidate_report r s ws b) cands
      in case ranked_positions reports of
           [] \<Rightarrow> multicast_loop r s ws b dests (multicast_failed dest reports acc) sid
         | best # _ \<Rightarrow>
             (case makePath (of_nat (length (mc_paths acc) + 1)) (cands ! best) s r
                     (cr_cost (reports ! best)) sid of
                (Inl e, sid') \<Rightarrow> (Inl e, sid')
              | (Inr pt, sid') \<Rightarrow>
                  multicast_loop r s ws b dests (multicast_retained reports best pt acc) sid'))"

definition multicast_plan ::
  "CommunicationRequest \<Rightarrow> EvidenceSnapshot \<Rightarrow> CommunicationPlanId \<times> Generation \<Rightarrow> MulticastAcc \<Rightarrow>
   CommunicationPlan" where
  "multicast_plan r s ident acc =
     (let (egs, lgs, claims) = bindGenerations (mc_paths acc) s [];
          combined = CostSummary_of (mc_comps acc)
      in bind_snapshot s
           (default_CommunicationPlan
             \<lparr>pl_id := fst ident, pl_generation := snd ident, pl_requestId := rq_id r,
              pl_requestGeneration := rq_generation r, pl_shape := RequestShape.MULTICAST,
              pl_multicastDestinations := rq_destinations r,
              pl_feasibility := (if mc_anyFail acc then Feasibility.REJECT_ENDPOINT
                                 else Feasibility.FEASIBLE),
              pl_candidatePaths := mc_paths acc, pl_primaryPath := mc_primary acc,
              pl_explanations := mc_explanations acc,
              pl_orderedStages := (case mc_paths acc of [] \<Rightarrow> [] | p # _ \<Rightarrow> pa_stages p),
              pl_cost := combined, pl_endpointGenerations := egs, pl_linkGenerations := lgs,
              pl_requiredStagingResources := claims, pl_requiredResourceClaims := claims,
              pl_provenance := cost_provenance_name combined, pl_revalidationGeneration := 1,
              pl_revalidateBeforeExecute := True\<rparr>))"

definition buildMulticastPlan ::
  "CommunicationRequest \<Rightarrow> EvidenceSnapshot \<Rightarrow> RankingWeights \<Rightarrow> Bounds \<Rightarrow> Counters \<Rightarrow>
   (cp_exception + PlanOutcome) \<times> Counters" where
  "buildMulticastPlan r s ws b ct =
     (let (ident, ct1) = next_plan_identity ct
      in case multicast_loop r s ws b (rq_destinations r) init_MulticastAcc (ct_stageId ct1) of
           (Inl e, sid) \<Rightarrow> (Inl e, ct1\<lparr>ct_stageId := sid\<rparr>)
         | (Inr acc, sid) \<Rightarrow>
             (Inr \<lparr>po_success = \<not> mc_anyFail acc, po_plan = Some (multicast_plan r s ident acc),
                   po_candidates = mc_reports acc, po_rankedIndices = mc_ranked acc,
                   po_explanations =
                     (if mc_anyFail acc
                      then [''Multicast plan rejected: one or more destinations infeasible.'']
                      else [])\<rparr>,
              ct1\<lparr>ct_stageId := sid\<rparr>))"

definition planMulticast ::
  "CommunicationRequest \<Rightarrow> EvidenceSnapshot \<Rightarrow> RankingWeights \<Rightarrow> Bounds \<Rightarrow> Counters \<Rightarrow>
   (cp_exception + PlanOutcome) \<times> Counters" where
  "planMulticast r s ws b ct = buildMulticastPlan r s ws b ct"

section \<open>One best path per destination\<close>

lemma multicast_loop_spec:
  "\<exists>acc' sid'. multicast_loop r s ws b dests acc sid = (Inr acc', sid') \<and>
     mc_anyFail acc' = (mc_anyFail acc \<or> (\<exists>d\<in>set dests. \<not> destination_feasible r s b (rq_source r) d)) \<and>
     (\<exists>ps. mc_paths acc' = mc_paths acc @ ps \<and>
        list_all2 (best_path r s ws b (rq_source r))
          (filter (destination_feasible r s b (rq_source r)) dests) ps \<and>
        map pa_id ps = map (\<lambda>i. of_nat (Suc i)) [length (mc_paths acc)..<length (mc_paths acc) + length ps])"
proof (induction dests arbitrary: acc sid)
  case Nil
  then show ?case by simp
next
  case (Cons d dests)
  let ?cands = "enumerateCandidatePaths s (rq_source r) d b"
  let ?reports = "map (candidate_report r s ws b) ?cands"
  show ?case
  proof (cases "ranked_positions ?reports")
    case Nil
    then have "\<not> destination_feasible r s b (rq_source r) d"
      using ranked_Nil_iff [of r s ws b "rq_source r" d] by simp
    with Cons [of "multicast_failed d ?reports acc" sid] Nil show ?thesis
      by (simp add: multicast_failed_def Let_def)
  next
    case (Cons best rest)
    have "destination_feasible r s b (rq_source r) d"
      using ranked_Nil_iff [of r s ws b "rq_source r" d] Cons by simp
    moreover obtain p sid' where p:
      "makePath (of_nat (length (mc_paths acc) + 1)) (?cands ! best) s r (cr_cost (?reports ! best)) sid = (Inr p, sid')"
      "best_path r s ws b (rq_source r) d p" "pa_id p = of_nat (length (mc_paths acc) + 1)"
      using makePath_best [OF Cons] by blast
    moreover have "multicast_loop r s ws b (d # dests) acc sid =
        multicast_loop r s ws b dests (multicast_retained ?reports best p acc) sid'"
      using Cons p(1) by (simp add: Let_def)
    ultimately show ?thesis
      using Cons.IH [of "multicast_retained ?reports best p acc" sid']
      by (auto simp: multicast_retained_def upt_conv_Cons simp del: multicast_loop.simps upt_Suc)
  qed
qed

lemma buildMulticastPlan_spec:
  "\<exists>out plan ct'. buildMulticastPlan r s ws b ct = (Inr out, ct') \<and> po_plan out = Some plan \<and>
     (po_success out \<longleftrightarrow> (\<forall>d\<in>set (rq_destinations r). destination_feasible r s b (rq_source r) d)) \<and>
     pl_feasibility plan = (if po_success out then Feasibility.FEASIBLE else Feasibility.REJECT_ENDPOINT) \<and>
     list_all2 (best_path r s ws b (rq_source r))
       (filter (destination_feasible r s b (rq_source r)) (rq_destinations r)) (pl_candidatePaths plan) \<and>
     map pa_id (pl_candidatePaths plan) =
       map (\<lambda>i. of_nat (Suc i)) [0..<length (pl_candidatePaths plan)] \<and>
     plan_bound s plan \<and> set (pl_requiredResourceClaims plan) = plan_claims plan"
proof -
  obtain ident ct1 where ident: "next_plan_identity ct = (ident, ct1)" by fastforce
  obtain acc sid where acc:
    "multicast_loop r s ws b (rq_destinations r) init_MulticastAcc (ct_stageId ct1) = (Inr acc, sid)"
    "mc_anyFail acc = (\<exists>d\<in>set (rq_destinations r). \<not> destination_feasible r s b (rq_source r) d)"
    "list_all2 (best_path r s ws b (rq_source r))
       (filter (destination_feasible r s b (rq_source r)) (rq_destinations r)) (mc_paths acc)"
    "map pa_id (mc_paths acc) = map (\<lambda>i. of_nat (Suc i)) [0..<length (mc_paths acc)]"
    using multicast_loop_spec [of r s ws b "rq_destinations r" init_MulticastAcc "ct_stageId ct1"]
    by (auto simp: init_MulticastAcc_def)
  obtain egs lgs claims where binds: "bindGenerations (mc_paths acc) s [] = (egs, lgs, claims)"
    using prod_cases3 by blast
  let ?plan = "multicast_plan r s ident acc"
  have bound: "plan_bound s ?plan"
    unfolding multicast_plan_def Let_def binds prod.case by (rule plan_bound_snapshot [OF _ binds]) simp_all
  have fields: "pl_candidatePaths ?plan = mc_paths acc" "pl_requiredResourceClaims ?plan = claims"
    "pl_feasibility ?plan =
      (if mc_anyFail acc then Feasibility.REJECT_ENDPOINT else Feasibility.FEASIBLE)"
    by (simp_all add: multicast_plan_def binds bind_snapshot_def Let_def)
  have "set claims = plan_claims ?plan"
    using bindGenerations_sets(3) [OF binds] by (simp add: plan_claims_def plan_stages_def fields)
  with acc bound fields ident show ?thesis
    by (auto simp: buildMulticastPlan_def)
qed

end
