(* ===== verification/Collective.thy ===== *)
theory Collective
  imports Plan_Building
begin

text \<open>
  \<open>src/collective.cpp\<close>: a collective shape over a set of participants, planned as the best feasible
  path from the first participant to every other one.
\<close>

section \<open>The planner\<close>

text \<open>The loop over the participants that must be present, current and ready.\<close>

fun participants_check ::
  "EvidenceSnapshot \<Rightarrow> (EndpointId \<times> Endpoint) list \<Rightarrow> EndpointId list \<Rightarrow> string option" where
  "participants_check s emap [] = None"
| "participants_check s emap (pid # pids) =
     (case map_find emap pid of
        None \<Rightarrow> Some (''Missing collective participant '' @ u64_str pid @ ''.'')
      | Some e \<Rightarrow>
          if \<not> endpointFresh e s \<or> \<not> ep_reachable e \<or> \<not> ep_ready e \<or> ep_kind e = EndpointKind.UNKNOWN
          then Some (''Collective participant '' @ u64_str pid @ '' not current/readable.'')
          else participants_check s emap pids)"

definition collective_precheck ::
  "CommunicationRequest \<Rightarrow> EvidenceSnapshot \<Rightarrow> Bounds \<Rightarrow> string option" where
  "collective_precheck r s b =
     (if unat (rq_collectiveCount r) \<noteq> length (rq_participants r)
      then Some ''Collective participant count does not match participant set.''
      else if bd_maxCollectiveParticipants b < rq_collectiveCount r
      then Some ''Collective participant count exceeds bound.''
      else participants_check s (endpointMap s) (rq_participants r))"

record CollectiveAcc =
  cl_paths :: "Path list"
  cl_ranked :: "nat list"
  cl_comps :: "CostComponent list"

text \<open>
  The loop over the members: \<open>Inr (Some why)\<close> is the early return for a member without a feasible
  path, \<open>Inr None\<close> the end of the loop; the accumulator holds the paths retained so far.
\<close>

fun collective_loop ::
  "CommunicationRequest \<Rightarrow> EvidenceSnapshot \<Rightarrow> RankingWeights \<Rightarrow> Bounds \<Rightarrow> EndpointId \<Rightarrow> EndpointId list \<Rightarrow>
   CollectiveAcc \<Rightarrow> u64 \<Rightarrow> (cp_exception + string option) \<times> CollectiveAcc \<times> u64" where
  "collective_loop r s ws b root [] acc sid = (Inr None, acc, sid)"
| "collective_loop r s ws b root (member # ms) acc sid =
     (if member = root then collective_loop r s ws b root ms acc sid
      else
        let cands = enumerateCandidatePaths s root member b;
            reports = map (candidate_report r s ws b) cands
        in case ranked_positions reports of
             [] \<Rightarrow> (Inr (Some (''No feasible path between collective participants '' @ u64_str root @
                               '' and '' @ u64_str member @ ''.'')), acc, sid)
           | best # _ \<Rightarrow>
               let cost = cr_cost (reports ! best)
               in (case makePath (of_nat (length (cl_paths acc) + 1)) (cands ! best) s r cost sid of
                     (Inl e, sid') \<Rightarrow> (Inl e, acc, sid')
                   | (Inr pt, sid') \<Rightarrow>
                       collective_loop r s ws b root ms
                         \<lparr>cl_paths = cl_paths acc @ [pt],
                          cl_ranked = cl_ranked acc @ [length (cl_paths acc)],
                          cl_comps = cl_comps acc @ cs_components cost\<rparr> sid'))"

definition collective_base ::
  "CommunicationRequest \<Rightarrow> CommunicationPlanId \<times> Generation \<Rightarrow> CommunicationPlan" where
  "collective_base r ident =
     default_CommunicationPlan
       \<lparr>pl_id := fst ident, pl_generation := snd ident, pl_requestId := rq_id r,
        pl_requestGeneration := rq_generation r, pl_shape := RequestShape.COLLECTIVE,
        pl_collectiveShape := rq_collectiveShape r, pl_collectiveParticipants := rq_participants r\<rparr>"

definition collective_rejected ::
  "CommunicationRequest \<Rightarrow> CommunicationPlanId \<times> Generation \<Rightarrow> Path list \<Rightarrow> string \<Rightarrow> PlanOutcome" where
  "collective_rejected r ident paths why =
     \<lparr>po_success = False,
      po_plan = Some ((collective_base r ident)
        \<lparr>pl_feasibility := Feasibility.REJECT_ENDPOINT, pl_candidatePaths := paths,
         pl_explanations := [why]\<rparr>),
      po_candidates = [], po_rankedIndices = [], po_explanations = []\<rparr>"

definition collective_plan ::
  "CommunicationRequest \<Rightarrow> EvidenceSnapshot \<Rightarrow> CommunicationPlanId \<times> Generation \<Rightarrow> CollectiveAcc \<Rightarrow>
   CommunicationPlan" where
  "collective_plan r s ident acc =
     (let (egs, lgs, claims) = bindGenerations (cl_paths acc) s [];
          cost = CostSummary_of (cl_comps acc)
      in bind_snapshot s
           ((collective_base r ident)
             \<lparr>pl_candidatePaths := cl_paths acc,
              pl_orderedStages := (case cl_paths acc of [] \<Rightarrow> [] | p # _ \<Rightarrow> pa_stages p),
              pl_primaryPath := (case cl_paths acc of [] \<Rightarrow> 0 | p # _ \<Rightarrow> pa_id p),
              pl_cost := cost, pl_endpointGenerations := egs, pl_linkGenerations := lgs,
              pl_requiredStagingResources := claims, pl_requiredResourceClaims := claims,
              pl_provenance := cost_provenance_name cost, pl_revalidationGeneration := 1,
              pl_revalidateBeforeExecute := True, pl_feasibility := Feasibility.FEASIBLE,
              pl_explanations :=
                [''Collective shape: '' @ toString_CollectiveShape (rq_collectiveShape r),
                 ''Participants: '' @ nat_str (length (rq_participants r)),
                 ''Feasible root-to-member paths: '' @ nat_str (length (cl_paths acc)),
                 ''Collective scheduling is the responsibility of the Collective Scheduler.'']\<rparr>))"

definition buildCollectivePlan ::
  "CommunicationRequest \<Rightarrow> EvidenceSnapshot \<Rightarrow> RankingWeights \<Rightarrow> Bounds \<Rightarrow> Counters \<Rightarrow>
   (cp_exception + PlanOutcome) \<times> Counters" where
  "buildCollectivePlan r s ws b ct =
     (let (ident, ct1) = next_plan_identity ct
      in case collective_precheck r s b of
           Some why \<Rightarrow> (Inr (collective_rejected r ident [] why), ct1)
         | None \<Rightarrow>
             (case rq_participants r of
                [] \<Rightarrow> (Inl Undefined, ct1)
              | root # _ \<Rightarrow>
                  (case collective_loop r s ws b root (rq_participants r)
                          \<lparr>cl_paths = [], cl_ranked = [], cl_comps = []\<rparr> (ct_stageId ct1) of
                     (Inl e, acc, sid) \<Rightarrow> (Inl e, ct1\<lparr>ct_stageId := sid\<rparr>)
                   | (Inr (Some why), acc, sid) \<Rightarrow>
                       (Inr (collective_rejected r ident (cl_paths acc) why), ct1\<lparr>ct_stageId := sid\<rparr>)
                   | (Inr None, acc, sid) \<Rightarrow>
                       (Inr \<lparr>po_success = True, po_plan = Some (collective_plan r s ident acc),
                             po_candidates = [], po_rankedIndices = cl_ranked acc,
                             po_explanations = []\<rparr>, ct1\<lparr>ct_stageId := sid\<rparr>))))"

definition planCollective ::
  "CommunicationRequest \<Rightarrow> EvidenceSnapshot \<Rightarrow> RankingWeights \<Rightarrow> Bounds \<Rightarrow> Counters \<Rightarrow>
   (cp_exception + PlanOutcome) \<times> Counters" where
  "planCollective r s ws b ct = buildCollectivePlan r s ws b ct"

section \<open>Completeness of the participants and of the paths\<close>

definition participant_ok :: "EvidenceSnapshot \<Rightarrow> EndpointId \<Rightarrow> bool" where
  "participant_ok s pid \<longleftrightarrow>
     (\<exists>e. map_find (endpointMap s) pid = Some e \<and> endpointFresh e s \<and> ep_reachable e \<and> ep_ready e \<and>
          ep_kind e \<noteq> EndpointKind.UNKNOWN)"

lemma participants_check_None:
  "participants_check s (endpointMap s) pids = None \<longleftrightarrow> (\<forall>pid\<in>set pids. participant_ok s pid)"
  by (induction pids) (auto simp: participant_ok_def split: option.splits)

lemma collective_precheck_None:
  "collective_precheck r s b = None \<longleftrightarrow>
     unat (rq_collectiveCount r) = length (rq_participants r) \<and>
     rq_collectiveCount r \<le> bd_maxCollectiveParticipants b \<and>
     (\<forall>pid\<in>set (rq_participants r). participant_ok s pid)"
  by (auto simp: collective_precheck_def participants_check_None not_less)

lemma collective_loop_spec:
  "\<exists>res acc' sid'. collective_loop r s ws b root ms acc sid = (Inr res, acc', sid') \<and>
     (res = None \<longleftrightarrow> (\<forall>m\<in>set ms. m \<noteq> root \<longrightarrow> destination_feasible r s b root m)) \<and>
     (res = None \<longrightarrow>
        (\<exists>ps. cl_paths acc' = cl_paths acc @ ps \<and>
           list_all2 (best_path r s ws b root) (filter (\<lambda>m. m \<noteq> root) ms) ps))"
proof (induction ms arbitrary: acc sid)
  case Nil
  then show ?case by simp
next
  case (Cons m ms)
  let ?cands = "enumerateCandidatePaths s root m b"
  let ?reports = "map (candidate_report r s ws b) ?cands"
  consider (root) "m = root" | (none) "m \<noteq> root" "ranked_positions ?reports = []"
    | (some) best rest where "m \<noteq> root" "ranked_positions ?reports = best # rest"
    by (cases "ranked_positions ?reports") auto
  then show ?case
  proof cases
    case root
    with Cons.IH [of acc sid] show ?thesis by simp
  next
    case none
    then have "\<not> destination_feasible r s b root m"
      using ranked_Nil_iff [of r s ws b root m] by simp
    with none show ?thesis by (auto simp: Let_def)
  next
    case (some best rest)
    then have feas: "destination_feasible r s b root m"
      using ranked_Nil_iff [of r s ws b root m] by simp
    obtain p sid' where p:
      "makePath (of_nat (length (cl_paths acc) + 1)) (?cands ! best) s r (cr_cost (?reports ! best)) sid = (Inr p, sid')"
      "best_path r s ws b root m p"
      using makePath_best [OF some(2)] by blast
    let ?acc = "\<lparr>cl_paths = cl_paths acc @ [p], cl_ranked = cl_ranked acc @ [length (cl_paths acc)],
        cl_comps = cl_comps acc @ cs_components (cr_cost (?reports ! best))\<rparr>"
    have "collective_loop r s ws b root (m # ms) acc sid = collective_loop r s ws b root ms ?acc sid'"
      using some p(1) by (simp add: Let_def)
    with Cons.IH [of ?acc sid'] feas p(2) some(1) show ?thesis
      by (auto simp del: collective_loop.simps)
  qed
qed

lemma buildCollectivePlan_spec:
  assumes "rq_participants r = root # rest"
  shows "\<exists>out plan ct'. buildCollectivePlan r s ws b ct = (Inr out, ct') \<and> po_plan out = Some plan \<and>
     (po_success out \<longleftrightarrow>
        unat (rq_collectiveCount r) = length (rq_participants r) \<and>
        rq_collectiveCount r \<le> bd_maxCollectiveParticipants b \<and>
        (\<forall>pid\<in>set (rq_participants r). participant_ok s pid) \<and>
        (\<forall>m\<in>set (rq_participants r). m \<noteq> root \<longrightarrow> destination_feasible r s b root m)) \<and>
     pl_feasibility plan = (if po_success out then Feasibility.FEASIBLE else Feasibility.REJECT_ENDPOINT) \<and>
     (po_success out \<longrightarrow>
        list_all2 (best_path r s ws b root) (filter (\<lambda>m. m \<noteq> root) (rq_participants r))
          (pl_candidatePaths plan) \<and>
        plan_bound s plan \<and> set (pl_requiredResourceClaims plan) = plan_claims plan)"
proof -
  obtain ident ct1 where ident: "next_plan_identity ct = (ident, ct1)" by fastforce
  show ?thesis
  proof (cases "collective_precheck r s b")
    case (Some why)
    then have "\<not> (collective_precheck r s b = None)" by simp
    with Some ident show ?thesis
      unfolding collective_precheck_None
      by (auto simp: buildCollectivePlan_def collective_rejected_def)
  next
    case None
    then have pre: "unat (rq_collectiveCount r) = length (rq_participants r)"
      "rq_collectiveCount r \<le> bd_maxCollectiveParticipants b"
      "\<forall>pid\<in>set (rq_participants r). participant_ok s pid"
      unfolding collective_precheck_None by simp_all
    let ?acc = "\<lparr>cl_paths = [], cl_ranked = [], cl_comps = []\<rparr>"
    obtain res acc sid where loop:
      "collective_loop r s ws b root (rq_participants r) ?acc (ct_stageId ct1) = (Inr res, acc, sid)"
      "res = None \<longleftrightarrow> (\<forall>m\<in>set (rq_participants r). m \<noteq> root \<longrightarrow> destination_feasible r s b root m)"
      "res = None \<longrightarrow>
         list_all2 (best_path r s ws b root) (filter (\<lambda>m. m \<noteq> root) (rq_participants r)) (cl_paths acc)"
      using collective_loop_spec [of r s ws b root "rq_participants r" ?acc "ct_stageId ct1"] by auto
    show ?thesis
    proof (cases res)
      case (Some why)
      with loop(1,2) None ident assms show ?thesis
        by (auto simp: buildCollectivePlan_def collective_rejected_def)
    next
      case res: None
      obtain egs lgs claims where binds: "bindGenerations (cl_paths acc) s [] = (egs, lgs, claims)"
        using prod_cases3 by blast
      let ?plan = "collective_plan r s ident acc"
      have bound: "plan_bound s ?plan"
        unfolding collective_plan_def Let_def binds prod.case by (rule plan_bound_snapshot [OF _ binds]) simp_all
      have fields: "pl_candidatePaths ?plan = cl_paths acc" "pl_requiredResourceClaims ?plan = claims"
        "pl_feasibility ?plan = Feasibility.FEASIBLE"
        by (simp_all add: collective_plan_def binds bind_snapshot_def Let_def)
      have "set claims = plan_claims ?plan"
        using bindGenerations_sets(3) [OF binds] by (simp add: plan_claims_def plan_stages_def fields)
      moreover have "buildCollectivePlan r s ws b ct =
          (Inr \<lparr>po_success = True, po_plan = Some ?plan, po_candidates = [],
                po_rankedIndices = cl_ranked acc, po_explanations = []\<rparr>, ct1\<lparr>ct_stageId := sid\<rparr>)"
        using loop(1) None ident assms res by (simp add: buildCollectivePlan_def)
      ultimately show ?thesis using loop(2,3) pre res bound fields by simp
    qed
  qed
qed

end
