(* ===== verification/Planner.thy ===== *)
theory Planner
  imports Multicast Collective
begin

text \<open>
  \<open>planCommunication\<close> of \<open>src/planner.cpp\<close>: validation, dispatch on the shape, and the point-to-point
  planner with its fallback paths.
\<close>

section \<open>The point-to-point planner\<close>

text \<open>The loop over \<open>k < total\<close> that builds the primary path and the fallbacks.\<close>

fun make_paths ::
  "EvidenceSnapshot \<Rightarrow> CommunicationRequest \<Rightarrow> nat \<Rightarrow> (CandidatePath \<times> CostSummary) list \<Rightarrow> u64 \<Rightarrow>
   (cp_exception + Path list) \<times> u64" where
  "make_paths s r k [] sid = (Inr [], sid)"
| "make_paths s r k ((c, cost) # xs) sid =
     (case makePath (of_nat (k + 1)) c s r cost sid of
        (Inl e, sid') \<Rightarrow> (Inl e, sid')
      | (Inr p, sid') \<Rightarrow>
          (case make_paths s r (Suc k) xs sid' of
             (Inl e, sid'') \<Rightarrow> (Inl e, sid'')
           | (Inr ps, sid'') \<Rightarrow> (Inr (p # ps), sid'')))"

definition p2p_plan ::
  "CommunicationRequest \<Rightarrow> EvidenceSnapshot \<Rightarrow> CommunicationPlanId \<times> Generation \<Rightarrow> nat \<Rightarrow>
   CandidatePath list \<Rightarrow> Path list \<Rightarrow> CommunicationPlan" where
  "p2p_plan r s ident n_cands orderedCands paths =
     (let hops = concat (map cp_hops orderedCands);
          egs = fold (\<lambda>h. bind_ends (endpointMap s) (hop_from h) (hop_to h)) hops [];
          lgs = fold (\<lambda>h. bind_link (linkMap s) (hop_link h)) hops [];
          claims = (case orderedCands of [] \<Rightarrow> []
                    | c # _ \<Rightarrow> fold (\<lambda>h. set_insert (stagingResourceFor (hop_to h))) (butlast (cp_hops c)) []);
          stages = (case paths of [] \<Rightarrow> [] | p # _ \<Rightarrow> pa_stages p);
          cost = (case paths of [] \<Rightarrow> default_CostSummary | p # _ \<Rightarrow> pa_cost p);
          total = length paths;
          prov = cost_provenance_name cost
      in bind_snapshot s
           (default_CommunicationPlan
             \<lparr>pl_id := fst ident, pl_generation := snd ident, pl_requestId := rq_id r,
              pl_requestGeneration := rq_generation r, pl_shape := RequestShape.POINT_TO_POINT,
              pl_feasibility := Feasibility.FEASIBLE, pl_candidatePaths := paths,
              pl_primaryPath := (case paths of [] \<Rightarrow> 0 | p # _ \<Rightarrow> pa_id p),
              pl_fallbackPaths := map pa_id (tl paths), pl_orderedStages := stages, pl_cost := cost,
              pl_endpointGenerations := egs, pl_linkGenerations := lgs,
              pl_requiredStagingResources := claims, pl_requiredResourceClaims := claims,
              pl_provenance := prov, pl_revalidationGeneration := 1, pl_revalidateBeforeExecute := True,
              pl_handoffRequirement := ''revalidate all bound generations before execution handoff'',
              pl_explanations :=
                [''Selected the feasible path with the lowest expected cost.'',
                 ''Primary path stages: '' @ nat_str (length stages),
                 ''Feasible candidate paths retained: '' @ nat_str total,
                 ''Total candidates rejected by hard filters: '' @ nat_str (n_cands - total),
                 ''Cost provenance: '' @ prov]\<rparr>))"

definition p2p_total :: "Bounds \<Rightarrow> nat list \<Rightarrow> nat" where
  "p2p_total b orderOrig = 1 + min (unat (bd_maxFallbacks b)) (length orderOrig - 1)"

definition planPointToPoint ::
  "CommunicationRequest \<Rightarrow> EvidenceSnapshot \<Rightarrow> RankingWeights \<Rightarrow> Bounds \<Rightarrow> EndpointId \<Rightarrow> Counters \<Rightarrow>
   (cp_exception + PlanOutcome) \<times> Counters" where
  "planPointToPoint r s ws b dst ct =
     (let cands = enumerateCandidatePaths s (rq_source r) dst b;
          reports = map (candidate_report r s ws b) cands;
          rankables = rankables_of reports; feasibleOrig = feasible_positions reports;
          rankOrder = rankFeasible rankables;
          orderOrig = map (\<lambda>idx. feasibleOrig ! idx) rankOrder
      in if orderOrig = []
         then (Inr \<lparr>po_success = False, po_plan = None, po_candidates = reports,
                    po_rankedIndices = orderOrig,
                    po_explanations = [''No feasible path meets all hard constraints.'']\<rparr>, ct)
         else
           let total = p2p_total b orderOrig; (ident, ct1) = next_plan_identity ct;
               orderedCands = map (\<lambda>i. cands ! i) (take total orderOrig);
               costs = map (\<lambda>idx. rk_cost (rankables ! idx)) (take total rankOrder)
           in (case make_paths s r 0 (zip orderedCands costs) (ct_stageId ct1) of
                 (Inl e, sid) \<Rightarrow> (Inl e, ct1\<lparr>ct_stageId := sid\<rparr>)
               | (Inr paths, sid) \<Rightarrow>
                   (Inr \<lparr>po_success = True,
                         po_plan = Some (p2p_plan r s ident (length cands) orderedCands paths),
                         po_candidates = reports, po_rankedIndices = orderOrig,
                         po_explanations = []\<rparr>, ct1\<lparr>ct_stageId := sid\<rparr>)))"

definition planCommunication ::
  "CommunicationRequest \<Rightarrow> EvidenceSnapshot \<Rightarrow> RankingWeights \<Rightarrow> Bounds \<Rightarrow> Counters \<Rightarrow>
   (cp_exception + PlanOutcome) \<times> Counters" where
  "planCommunication r s ws b ct =
     (case requireValid r of
        Inl e \<Rightarrow> (Inl e, ct)
      | Inr _ \<Rightarrow>
          if effectiveShape r = RequestShape.MULTICAST then buildMulticastPlan r s ws b ct
          else if effectiveShape r = RequestShape.COLLECTIVE then buildCollectivePlan r s ws b ct
          else (case rq_destinations r of
                  [] \<Rightarrow> (Inl OutOfRange, ct)
                | dst # _ \<Rightarrow> planPointToPoint r s ws b dst ct))"

section \<open>The point-to-point plan\<close>

lemma rankable_cost_at:
  assumes "idx \<in> set (rankFeasible (rankables_of reports))"
  shows "rk_cost (rankables_of reports ! idx) = cr_cost (reports ! (feasible_positions reports ! idx))"
proof -
  have "idx < length (feasible_positions reports)"
    using assms by (simp add: rankFeasible_set rankables_of_def)
  then show ?thesis by (simp add: rankables_of_def report_rankable_def)
qed

lemma make_paths_ok:
  assumes "\<forall>c\<in>set cands. c \<in> set (enumerateCandidatePaths s src dst b)"
  shows "\<exists>ps sid'. make_paths s r k (zip cands (map (\<lambda>c. evaluateCandidateCost r s c ws) cands)) sid =
      (Inr ps, sid') \<and> list_all2 (path_of_candidate r s ws) cands ps \<and>
      map pa_id ps = map (\<lambda>i. of_nat (Suc i)) [k..<k + length cands]"
  using assms
proof (induction cands arbitrary: k sid)
  case Nil
  then show ?case by simp
next
  case (Cons c cands)
  then obtain p where p: "makePath (of_nat (k + 1)) c s r (evaluateCandidateCost r s c ws) sid =
      (Inr p, sid + of_nat (length (cp_hops c)))" "path_of_candidate r s ws c p" "pa_id p = of_nat (k + 1)"
    using makePath_candidate [of c s src dst b "of_nat (k + 1)" r ws sid] by auto
  from Cons.IH [of "Suc k" "sid + of_nat (length (cp_hops c))"] Cons.prems obtain ps sid' where
    "make_paths s r (Suc k) (zip cands (map (\<lambda>c. evaluateCandidateCost r s c ws) cands))
       (sid + of_nat (length (cp_hops c))) = (Inr ps, sid')"
    "list_all2 (path_of_candidate r s ws) cands ps"
    "map pa_id ps = map (\<lambda>i. of_nat (Suc i)) [Suc k..<Suc k + length cands]"
    by auto
  with p show ?case by (auto simp: upt_conv_Cons simp del: upt_Suc)
qed

lemma list_all2_stage_images:
  assumes "list_all2 (stage_of_hop s) hops sts"
  shows "st_link ` set sts = hop_link ` set hops" "st_source ` set sts = hop_from ` set hops"
    "st_destination ` set sts = hop_to ` set hops"
  using assms by (induction rule: list_all2_induct) (auto simp: stage_of_hop_def)

lemma path_images:
  assumes "list_all2 (path_of_candidate r s ws) cands ps"
  defines "sts \<equiv> set (concat (map pa_stages ps))" and "hops \<equiv> set (concat (map cp_hops cands))"
  shows "st_link ` sts = hop_link ` hops" "st_source ` sts = hop_from ` hops"
    "st_destination ` sts = hop_to ` hops"
  using assms(1) unfolding sts_def hops_def
proof (induction rule: list_all2_induct)
  case (Cons c cs p ps)
  have "list_all2 (stage_of_hop s) (cp_hops c) (pa_stages p)"
    using Cons(1) by (simp add: path_of_candidate_def)
  note images = list_all2_stage_images [OF this]
  case 1
  show ?case by (simp only: concat.simps list.map set_append image_Un images Cons.IH)
  case 2
  show ?case by (simp only: concat.simps list.map set_append image_Un images Cons.IH)
  case 3
  show ?case by (simp only: concat.simps list.map set_append image_Un images Cons.IH)
qed simp_all

lemma p2p_plan_fields:
  "pl_candidatePaths (p2p_plan r s ident n cands ps) = ps"
  "pl_feasibility (p2p_plan r s ident n cands ps) = Feasibility.FEASIBLE"
  "pl_orderedStages (p2p_plan r s ident n cands ps) = (case ps of [] \<Rightarrow> [] | p # _ \<Rightarrow> pa_stages p)"
  "pl_primaryPath (p2p_plan r s ident n cands ps) = (case ps of [] \<Rightarrow> 0 | p # _ \<Rightarrow> pa_id p)"
  "pl_cost (p2p_plan r s ident n cands ps) = (case ps of [] \<Rightarrow> default_CostSummary | p # _ \<Rightarrow> pa_cost p)"
  "pl_fallbackPaths (p2p_plan r s ident n cands ps) = map pa_id (tl ps)"
  "pl_id (p2p_plan r s ident n cands ps) = fst ident"
  "pl_generation (p2p_plan r s ident n cands ps) = snd ident"
  "pl_requestId (p2p_plan r s ident n cands ps) = rq_id r"
  "pl_requiredResourceClaims (p2p_plan r s ident n cands ps) =
     (case cands of [] \<Rightarrow> []
      | c # _ \<Rightarrow> fold (\<lambda>h. set_insert (stagingResourceFor (hop_to h))) (butlast (cp_hops c)) [])"
  "pl_requiredStagingResources (p2p_plan r s ident n cands ps) =
     pl_requiredResourceClaims (p2p_plan r s ident n cands ps)"
  by (simp_all add: p2p_plan_def bind_snapshot_def Let_def default_CommunicationPlan_def)

lemma p2p_plan_bound:
  assumes "list_all2 (path_of_candidate r s ws) cands ps"
  shows "plan_bound s (p2p_plan r s ident n cands ps)"
proof -
  have "pl_linkGenerations (p2p_plan r s ident n cands ps) =
      fold (\<lambda>h. bind_link (linkMap s) (hop_link h)) (concat (map cp_hops cands)) []"
    "pl_endpointGenerations (p2p_plan r s ident n cands ps) =
      fold (\<lambda>h. bind_ends (endpointMap s) (hop_from h) (hop_to h)) (concat (map cp_hops cands)) []"
    by (simp_all add: p2p_plan_def bind_snapshot_def Let_def)
  then have "set (pl_linkGenerations (p2p_plan r s ident n cands ps)) =
      bound_links s (hop_link ` set (concat (map cp_hops cands)))"
    "set (pl_endpointGenerations (p2p_plan r s ident n cands ps)) =
      bound_endpoints s (hop_from ` set (concat (map cp_hops cands)) \<union> hop_to ` set (concat (map cp_hops cands)))"
    by (simp_all only: set_fold_bind_link set_fold_bind_ends list.set(1) sup_bot_left)
  then show ?thesis
    by (simp only: plan_bound_def plan_stages_def p2p_plan_fields path_images [OF assms])
      (simp add: p2p_plan_def bind_snapshot_def Let_def)
qed

text \<open>Success with a plan whose paths carry the best candidates, in rank order.\<close>

definition p2p_result ::
  "CommunicationRequest \<Rightarrow> EvidenceSnapshot \<Rightarrow> RankingWeights \<Rightarrow> Bounds \<Rightarrow> EndpointId \<Rightarrow> PlanOutcome \<Rightarrow>
   CommunicationPlan \<Rightarrow> bool" where
  "p2p_result r s ws b dst out plan \<longleftrightarrow>
     (let cands = enumerateCandidatePaths s (rq_source r) dst b;
          ranked = ranked_positions (map (candidate_report r s ws b) cands);
          chosen = map (\<lambda>i. cands ! i) (take (p2p_total b ranked) ranked)
      in po_success out \<and> po_plan out = Some plan \<and> po_rankedIndices out = ranked \<and>
         po_candidates out = map (candidate_report r s ws b) cands \<and>
         list_all2 (path_of_candidate r s ws) chosen (pl_candidatePaths plan) \<and>
         map pa_id (pl_candidatePaths plan) = map (\<lambda>i. of_nat (Suc i)) [0..<length chosen] \<and>
         pl_feasibility plan = Feasibility.FEASIBLE \<and> pl_primaryPath plan = 1 \<and>
         pl_orderedStages plan = pa_stages (hd (pl_candidatePaths plan)) \<and>
         pl_cost plan = pa_cost (hd (pl_candidatePaths plan)) \<and>
         set (pl_requiredResourceClaims plan) =
           {stagingResourceFor (hop_to h) |h. h \<in> set (butlast (cp_hops (hd chosen)))} \<and>
         pl_requiredStagingResources plan = pl_requiredResourceClaims plan \<and> pl_requestId plan = rq_id r \<and>
         plan_bound s plan)"

lemma set_fold_insert: "set (fold (\<lambda>x. set_insert (f x)) xs ys) = set ys \<union> f ` set xs"
  by (induction xs arbitrary: ys) auto

lemma planPointToPoint_infeasible:
  assumes "\<not> destination_feasible r s b (rq_source r) dst"
  shows "planPointToPoint r s ws b dst ct =
    (Inr \<lparr>po_success = False, po_plan = None,
          po_candidates = map (candidate_report r s ws b) (enumerateCandidatePaths s (rq_source r) dst b),
          po_rankedIndices = [], po_explanations = [''No feasible path meets all hard constraints.'']\<rparr>, ct)"
proof -
  have "ranked_positions (map (candidate_report r s ws b) (enumerateCandidatePaths s (rq_source r) dst b)) = []"
    using assms by (simp only: ranked_Nil_iff simp_thms)
  then show ?thesis by (simp add: planPointToPoint_def ranked_positions_def Let_def)
qed

lemma chosen_costs:
  assumes "cands = enumerateCandidatePaths s src dst b"
    and "reports = map (candidate_report r s ws b) cands"
  shows "map (\<lambda>idx. rk_cost (rankables_of reports ! idx)) (take n (rankFeasible (rankables_of reports))) =
    map (\<lambda>c. evaluateCandidateCost r s c ws) (map (\<lambda>i. cands ! i) (take n (ranked_positions reports)))"
proof -
  have "rk_cost (rankables_of reports ! idx) =
      evaluateCandidateCost r s (cands ! (feasible_positions reports ! idx)) ws"
    if "idx \<in> set (rankFeasible (rankables_of reports))" for idx
  proof -
    have "feasible_positions reports ! idx \<in> set (ranked_positions reports)"
      using that by (simp add: ranked_positions_def)
    from ranked_member(3) [OF this [unfolded assms(2)]] show ?thesis
      using rankable_cost_at [OF that] by (simp only: assms(2))
  qed
  then show ?thesis by (auto simp: ranked_positions_def take_map dest: in_set_takeD)
qed

lemma planPointToPoint_feasible:
  assumes "destination_feasible r s b (rq_source r) dst"
  shows "\<exists>out plan ct'. planPointToPoint r s ws b dst ct = (Inr out, ct') \<and> p2p_result r s ws b dst out plan"
proof -
  define cands where "cands = enumerateCandidatePaths s (rq_source r) dst b"
  define reports where "reports = map (candidate_report r s ws b) cands"
  define ranked where "ranked = ranked_positions reports"
  define chosen where "chosen = map (\<lambda>i. cands ! i) (take (p2p_total b ranked) ranked)"
  have ne: "ranked \<noteq> []"
    using assms ranked_Nil_iff [of r s ws b "rq_source r" dst]
    by (simp add: ranked_def reports_def cands_def)
  then obtain c cs where chosen: "chosen = c # cs"
    by (cases chosen) (auto simp: chosen_def p2p_total_def)
  have "\<forall>c\<in>set chosen. c \<in> set (enumerateCandidatePaths s (rq_source r) dst b)"
    using ranked_member(1) [of _ r s ws b cands]
    by (auto simp: chosen_def ranked_def reports_def cands_def dest!: in_set_takeD)
  from make_paths_ok [OF this, of r 0 ws "ct_stageId (snd (next_plan_identity ct))"]
  obtain ps sid where ps:
    "make_paths s r 0 (zip chosen (map (\<lambda>c. evaluateCandidateCost r s c ws) chosen))
       (ct_stageId (snd (next_plan_identity ct))) = (Inr ps, sid)"
    "list_all2 (path_of_candidate r s ws) chosen ps"
    "map pa_id ps = map (\<lambda>i. of_nat (Suc i)) [0..<length chosen]" by auto
  let ?plan = "p2p_plan r s (fst (next_plan_identity ct)) (length cands) chosen ps"
  let ?out = "\<lparr>po_success = True, po_plan = Some ?plan, po_candidates = reports,
      po_rankedIndices = ranked, po_explanations = []\<rparr>"
  from ps(2) chosen obtain p ps' where p: "ps = p # ps'" by (cases ps) auto
  have "pa_id p = 1" using ps(3) by (simp add: p chosen upt_conv_Cons del: upt_Suc)
  have "map (\<lambda>idx. feasible_positions reports ! idx) (rankFeasible (rankables_of reports)) = ranked"
    by (simp add: ranked_def ranked_positions_def)
  moreover have "map (\<lambda>idx. rk_cost (rankables_of reports ! idx))
      (take (p2p_total b ranked) (rankFeasible (rankables_of reports))) =
      map (\<lambda>c. evaluateCandidateCost r s c ws) chosen"
    unfolding chosen_def ranked_def by (rule chosen_costs [OF cands_def reports_def])
  ultimately have "planPointToPoint r s ws b dst ct = (Inr ?out, (snd (next_plan_identity ct))\<lparr>ct_stageId := sid\<rparr>)"
    unfolding planPointToPoint_def Let_def
    using ne ps(1) by (simp add: case_prod_unfold flip: cands_def reports_def chosen_def)
  moreover have "p2p_result r s ws b dst ?out ?plan"
    unfolding p2p_result_def Let_def
    using ps(2,3) \<open>pa_id p = 1\<close> p2p_plan_bound [OF ps(2), of _ "length cands"]
    by (auto simp: p2p_plan_fields p chosen set_fold_insert simp flip: cands_def reports_def ranked_def chosen_def)
  ultimately show ?thesis by blast
qed

lemma planPointToPoint_identity:
  assumes "planPointToPoint r s ws b dst ct = (Inr out, ct')" and "po_plan out = Some plan"
  shows "(pl_id plan, pl_generation plan) = fst (next_plan_identity ct) \<and>
    (\<exists>sid. ct' = (snd (next_plan_identity ct))\<lparr>ct_stageId := sid\<rparr>)"
  using assms unfolding planPointToPoint_def Let_def
  by (auto simp: p2p_plan_fields split: if_splits prod.splits sum.splits)

text \<open>Over candidates of a single hop the plan has one stage, with the whole payload, and no staging.\<close>

lemma single_hop_plan:
  assumes "p2p_result r s ws b dst out plan" and "destination_feasible r s b (rq_source r) dst"
    and "\<And>c. c \<in> set (enumerateCandidatePaths s (rq_source r) dst b) \<Longrightarrow> length (cp_hops c) = 1"
  shows "\<exists>c st. c \<in> set (enumerateCandidatePaths s (rq_source r) dst b) \<and> pl_orderedStages plan = [st] \<and>
    st \<in> set (plan_stages plan) \<and> stage_of_hop s (List.hd (cp_hops c)) st \<and> st_payload st = rq_payloadSize r \<and>
    pl_requiredStagingResources plan = [] \<and> pl_requiredResourceClaims plan = []"
proof -
  define cands where "cands = enumerateCandidatePaths s (rq_source r) dst b"
  define ranked where "ranked = ranked_positions (map (candidate_report r s ws b) cands)"
  obtain best rest where ranked: "ranked = best # rest"
    using ranked_Nil_iff [of r s ws b "rq_source r" dst] assms(2)
    unfolding ranked_def cands_def by (auto simp: neq_Nil_conv)
  have "best < length cands"
    using ranked_member(1) [of best r s ws b cands] ranked by (simp add: ranked_def)
  then have c: "cands ! best \<in> set cands" "length (cp_hops (cands ! best)) = 1"
    using assms(3) by (simp_all add: cands_def)
  then obtain h where h: "cp_hops (cands ! best) = [h]" by (auto simp: length_Suc_conv)
  have res: "list_all2 (path_of_candidate r s ws) (map (\<lambda>i. cands ! i) (take (p2p_total b ranked) ranked)) (pl_candidatePaths plan)"
    "pl_orderedStages plan = pa_stages (List.hd (pl_candidatePaths plan))"
    "pl_requiredStagingResources plan = pl_requiredResourceClaims plan"
    "set (pl_requiredResourceClaims plan) = {stagingResourceFor (hop_to h) |h.
       h \<in> set (butlast (cp_hops (List.hd (map (\<lambda>i. cands ! i) (take (p2p_total b ranked) ranked)))))}"
    using assms(1) unfolding p2p_result_def Let_def cands_def ranked_def by blast+
  obtain p ps where p: "pl_candidatePaths plan = p # ps" "path_of_candidate r s ws (cands ! best) p"
    using res(1) by (auto simp: ranked p2p_total_def list_all2_Cons1)
  then obtain st where "pa_stages p = [st]" "stage_of_hop s h st" "st_payload st = rq_payloadSize r"
    by (auto simp: path_of_candidate_def h list_all2_Cons1)
  moreover from this(1) have "st \<in> set (plan_stages plan)" by (simp add: plan_stages_def p(1))
  moreover have "pl_requiredResourceClaims plan = []" using res(4) by (simp add: ranked p2p_total_def h)
  ultimately show ?thesis
    using c(1) p(1) res(2,3) h unfolding cands_def by (intro exI [of _ "cands ! best"] exI [of _ st]) (simp add: cands_def)
qed

section \<open>Every outcome of the planner\<close>

lemma validate_None_shapes:
  assumes "validate r = None"
  shows "rq_shape r = RequestShape.COLLECTIVE \<Longrightarrow> rq_participants r \<noteq> []"
    and "rq_shape r = RequestShape.POINT_TO_POINT \<or> rq_shape r = RequestShape.STAGED \<Longrightarrow>
      \<not> rq_allowMulticast r \<Longrightarrow> length (rq_destinations r) = 1"
  using assms
  by (auto simp: validate_def validate_collective_def validate_shape_def split: if_splits option.splits)

lemma planPointToPoint_returns: "\<exists>out. fst (planPointToPoint r s ws b dst ct) = Inr out"
  using planPointToPoint_infeasible [of r s b dst ws ct] planPointToPoint_feasible [of r s b dst ws ct]
  by (cases "destination_feasible r s b (rq_source r) dst") auto

lemma planCommunication_raises_iff:
  "fst (planCommunication r s ws b ct) = Inl e \<longleftrightarrow>
     (\<exists>why. validate r = Some why \<and> e = ComError (''malformed communication request: '' @ why)) \<or>
     (validate r = None \<and> rq_shape r = RequestShape.UNKNOWN \<and> \<not> rq_allowMulticast r \<and>
      rq_destinations r = [] \<and> e = OutOfRange)"
proof (cases "validate r")
  case (Some why)
  then show ?thesis by (auto simp: planCommunication_def requireValid_def)
next
  case None
  consider (multi) "effectiveShape r = RequestShape.MULTICAST"
    | (coll) "effectiveShape r = RequestShape.COLLECTIVE"
    | (p2p) "effectiveShape r \<noteq> RequestShape.MULTICAST" "effectiveShape r \<noteq> RequestShape.COLLECTIVE"
    by blast
  then show ?thesis
  proof cases
    case multi
    then show ?thesis using None buildMulticastPlan_spec [of r s ws b ct]
      by (auto simp: planCommunication_def requireValid_def effectiveShape_def)
  next
    case coll
    then have "rq_shape r = RequestShape.COLLECTIVE" by (simp add: effectiveShape_def split: if_splits)
    moreover from this obtain root rest where "rq_participants r = root # rest"
      using validate_None_shapes(1) [OF None] by (cases "rq_participants r") auto
    ultimately show ?thesis using None coll buildCollectivePlan_spec [of r root rest s ws b ct]
      by (auto simp: planCommunication_def requireValid_def)
  next
    case p2p
    then have shape: "effectiveShape r = rq_shape r" "\<not> rq_allowMulticast r"
      by (auto simp: effectiveShape_def split: if_splits)
    show ?thesis
    proof (cases "rq_destinations r")
      case Nil
      then have "rq_shape r = RequestShape.UNKNOWN"
        using validate_None_shapes(2) [OF None] shape p2p by (cases "rq_shape r") auto
      with None p2p shape Nil show ?thesis by (auto simp: planCommunication_def requireValid_def)
    next
      case (Cons dst dests)
      with None p2p planPointToPoint_returns [of r s ws b dst ct] show ?thesis
        by (auto simp: planCommunication_def requireValid_def)
    qed
  qed
qed

lemma planCommunication_p2p:
  assumes "validate r = None" and "rq_shape r \<noteq> RequestShape.MULTICAST" and "\<not> rq_allowMulticast r"
    and "rq_shape r \<noteq> RequestShape.COLLECTIVE" and "rq_destinations r = dst # rest"
  shows "planCommunication r s ws b ct = planPointToPoint r s ws b dst ct"
  using assms by (simp add: planCommunication_def requireValid_def effectiveShape_def)

section \<open>Independence of the publication order\<close>

text \<open>Evidence that differs at most in the order in which endpoints and links were published.\<close>

definition evidence_agrees :: "EvidenceSnapshot \<Rightarrow> EvidenceSnapshot \<Rightarrow> bool" where
  "evidence_agrees s s' \<longleftrightarrow>
     endpointMap s' = endpointMap s \<and> linkMap s' = linkMap s \<and> mset (sn_links s') = mset (sn_links s) \<and>
     s' = s\<lparr>sn_endpoints := sn_endpoints s', sn_links := sn_links s'\<rparr>"

lemma evidence_agrees_perm:
  assumes "mset es = mset (sn_endpoints s)" and "distinct (map ep_id (sn_endpoints s))"
    and "mset ls = mset (sn_links s)" and "distinct (map ln_id (sn_links s))"
  shows "evidence_agrees s (s\<lparr>sn_endpoints := es, sn_links := ls\<rparr>)"
  using endpointMap_perm [of s "s\<lparr>sn_endpoints := es, sn_links := ls\<rparr>"]
    linkMap_perm [of s "s\<lparr>sn_endpoints := es, sn_links := ls\<rparr>"] assms
  by (simp add: evidence_agrees_def)

lemma agrees_maps:
  assumes "evidence_agrees s s'"
  shows "endpointMap s' = endpointMap s" "linkMap s' = linkMap s"
  using assms by (simp_all add: evidence_agrees_def)

lemma agrees_fields:
  assumes "evidence_agrees s s'"
  shows "sn_topologyGeneration s' = sn_topologyGeneration s"
    "sn_capacityGeneration s' = sn_capacityGeneration s"
    "sn_reservationGeneration s' = sn_reservationGeneration s"
    "sn_congestionGeneration s' = sn_congestionGeneration s"
    "sn_capabilityGeneration s' = sn_capabilityGeneration s"
    "sn_healthGeneration s' = sn_healthGeneration s"
    "sn_placementGeneration s' = sn_placementGeneration s"
    "sn_policyGeneration s' = sn_policyGeneration s"
    "sn_authorityGeneration s' = sn_authorityGeneration s"
    "sn_reservations s' = sn_reservations s" "sn_workerBoots s' = sn_workerBoots s"
    "sn_sourceBoots s' = sn_sourceBoots s"
proof -
  have "s' = s\<lparr>sn_endpoints := sn_endpoints s', sn_links := sn_links s'\<rparr>"
    using assms unfolding evidence_agrees_def by blast
  then obtain es ls where "s' = s\<lparr>sn_endpoints := es, sn_links := ls\<rparr>" by blast
  then show "sn_topologyGeneration s' = sn_topologyGeneration s"
    "sn_capacityGeneration s' = sn_capacityGeneration s"
    "sn_reservationGeneration s' = sn_reservationGeneration s"
    "sn_congestionGeneration s' = sn_congestionGeneration s"
    "sn_capabilityGeneration s' = sn_capabilityGeneration s"
    "sn_healthGeneration s' = sn_healthGeneration s"
    "sn_placementGeneration s' = sn_placementGeneration s"
    "sn_policyGeneration s' = sn_policyGeneration s"
    "sn_authorityGeneration s' = sn_authorityGeneration s"
    "sn_reservations s' = sn_reservations s" "sn_workerBoots s' = sn_workerBoots s"
    "sn_sourceBoots s' = sn_sourceBoots s"
    by simp_all
qed

lemma agrees_fresh: "evidence_agrees s s' \<Longrightarrow> endpointFresh e s' = endpointFresh e s"
  by (simp add: endpointFresh_def agrees_fields)

lemma agrees_hops_loop:
  assumes "evidence_agrees s s'"
  shows "hops_loop r s' emap lmap hs = hops_loop r s emap lmap hs"
proof -
  have endpoint: "endpoint_check s' = endpoint_check s"
    by (simp add: fun_eq_iff endpoint_check_def agrees_fresh [OF assms])
  have link: "link_check r s' = link_check r s"
    by (simp add: fun_eq_iff link_check_def agrees_fields [OF assms])
  have "hop_check r s' = hop_check r s"
    unfolding hop_check_def [abs_def] endpoint link ..
  then show ?thesis by (induction hs) (simp_all split: option.split)
qed

lemma agrees_enumerate:
  "evidence_agrees s s' \<Longrightarrow> enumerateCandidatePaths s' src dst b = enumerateCandidatePaths s src dst b"
  by (intro enumerate_perm) (simp add: evidence_agrees_def)

lemma agrees_report:
  assumes "evidence_agrees s s'"
  shows "candidate_report r s' ws b = candidate_report r s ws b"
proof -
  have "evaluateCandidateFeasibility r s' c b = evaluateCandidateFeasibility r s c b" for c
    unfolding evaluateCandidateFeasibility_def Let_def agrees_maps [OF assms] agrees_fields [OF assms]
      agrees_hops_loop [OF assms] ..
  moreover have "evaluateCandidateCost r s' c ws = evaluateCandidateCost r s c ws" for c
    unfolding evaluateCandidateCost_def agrees_maps [OF assms] ..
  ultimately show ?thesis by (simp add: fun_eq_iff candidate_report_def Let_def)
qed

lemma agrees_makePath:
  "evidence_agrees s s' \<Longrightarrow> makePath i c s' r cost sid = makePath i c s r cost sid"
  by (simp add: makePath_def buildStages_def agrees_maps)

lemma agrees_binding:
  assumes "evidence_agrees s s'"
  shows "bindGenerations ps s' cs = bindGenerations ps s cs" "bind_snapshot s' p = bind_snapshot s p"
  by (simp_all add: bindGenerations_def bind_snapshot_def agrees_maps [OF assms] agrees_fields [OF assms])

lemmas agrees_candidates = agrees_enumerate agrees_report agrees_makePath

lemma agrees_multicast:
  assumes "evidence_agrees s s'"
  shows "buildMulticastPlan r s' ws b ct = buildMulticastPlan r s ws b ct"
proof -
  have loop: "multicast_loop r s' ws b dests acc sid = multicast_loop r s ws b dests acc sid"
    for dests acc sid
    by (induction dests arbitrary: acc sid)
      (simp_all add: agrees_candidates [OF assms] Let_def split: list.splits prod.splits sum.splits)
  have plan: "multicast_plan r s' ident acc = multicast_plan r s ident acc" for ident acc
    unfolding multicast_plan_def agrees_binding [OF assms] ..
  show ?thesis unfolding buildMulticastPlan_def loop plan ..
qed

lemma agrees_collective:
  assumes "evidence_agrees s s'"
  shows "buildCollectivePlan r s' ws b ct = buildCollectivePlan r s ws b ct"
proof -
  have check: "participants_check s' m pids = participants_check s m pids" for m pids
    by (induction pids) (simp_all add: agrees_fresh [OF assms] split: option.split)
  have loop: "collective_loop r s' ws b root ms acc sid = collective_loop r s ws b root ms acc sid"
    for root ms acc sid
    by (induction ms arbitrary: acc sid)
      (simp_all add: agrees_candidates [OF assms] Let_def split: list.splits prod.splits sum.splits)
  have plan: "collective_plan r s' ident acc = collective_plan r s ident acc" for ident acc
    unfolding collective_plan_def agrees_binding [OF assms] ..
  show ?thesis
    unfolding buildCollectivePlan_def collective_precheck_def agrees_maps [OF assms] check loop plan ..
qed

lemma agrees_p2p:
  assumes "evidence_agrees s s'"
  shows "planPointToPoint r s' ws b dst ct = planPointToPoint r s ws b dst ct"
proof -
  have paths: "make_paths s' r k xs sid = make_paths s r k xs sid" for k xs sid
    by (induction xs arbitrary: k sid)
      (auto simp: agrees_makePath [OF assms] split: prod.split sum.split)
  have plan: "p2p_plan r s' ident n cands ps = p2p_plan r s ident n cands ps" for ident n cands ps
    unfolding p2p_plan_def agrees_binding [OF assms] agrees_maps [OF assms] ..
  show ?thesis
    unfolding planPointToPoint_def agrees_enumerate [OF assms] agrees_report [OF assms] paths plan ..
qed

lemma agrees_planner:
  assumes "evidence_agrees s s'"
  shows "planCommunication r s' ws b ct = planCommunication r s ws b ct"
  unfolding planCommunication_def agrees_multicast [OF assms] agrees_collective [OF assms]
    agrees_p2p [OF assms] ..

end
