(* ===== verification/Sample_Evidence.thy ===== *)
theory Sample_Evidence
  imports Planner
begin

text \<open>
  A small concrete topology, two devices joined by two links, and a request over it: the inputs on
  which the theorems about the planner are instantiated.
\<close>

definition sample_endpoint :: "EndpointId \<Rightarrow> Endpoint" where
  "sample_endpoint k =
     default_Endpoint\<lparr>ep_id := k, ep_generation := 1, ep_kind := EndpointKind.GPU_DEVICE,
       ep_capability := default_Capability\<lparr>cap_transports := [Transport.PCIE, Transport.NVLINK]\<rparr>,
       ep_reachable := True, ep_ready := True\<rparr>"

definition sample_link :: "LinkId \<Rightarrow> Transport \<Rightarrow> Link" where
  "sample_link k t =
     default_Link\<lparr>ln_id := k, ln_generation := 1, ln_source := 1, ln_destination := 2,
       ln_transport := t, ln_capacity := 1000, ln_effectiveBandwidth := 500, ln_latency := 10,
       ln_health := default_Health\<lparr>he_healthy := True\<rparr>, ln_provenance := Provenance.MEASURED\<rparr>"

definition sample_snapshot :: EvidenceSnapshot where
  "sample_snapshot =
     default_EvidenceSnapshot
       \<lparr>sn_topologyGeneration := 1,
        sn_endpoints := [sample_endpoint 1, sample_endpoint 2],
        sn_links := [sample_link 10 Transport.PCIE, sample_link 11 Transport.NVLINK]\<rparr>"

definition sample_request :: CommunicationRequest where
  "sample_request =
     default_CommunicationRequest
       \<lparr>rq_id := 1, rq_generation := 1, rq_source := 1, rq_destinations := [2], rq_payloadSize := 4096\<rparr>"

lemmas sample_defs = sample_request_def default_CommunicationRequest_def sample_snapshot_def
  default_EvidenceSnapshot_def sample_endpoint_def default_Endpoint_def default_Capability_def
  sample_link_def default_Link_def default_Health_def default_Congestion_def default_Capacity_def

lemma sample_valid: "validate sample_request = None"
  by (simp add: sample_defs validate_def validate_collective_def validate_shape_def
      validate_transports_def isNull_def)

lemma sample_distinct:
  "distinct (map ep_id (sn_endpoints sample_snapshot))" "distinct (map ln_id (sn_links sample_snapshot))"
  by (simp_all add: sample_defs)

lemma sample_links:
  "map_find (linkMap sample_snapshot) 10 = Some (sample_link 10 Transport.PCIE)"
  "map_find (linkMap sample_snapshot) 11 = Some (sample_link 11 Transport.NVLINK)"
  by (simp_all add: linkMap_def sample_defs map_find_def)

lemma sample_endpoints:
  "map_find (endpointMap sample_snapshot) 1 = Some (sample_endpoint 1)"
  "map_find (endpointMap sample_snapshot) 2 = Some (sample_endpoint 2)"
  by (simp_all add: endpointMap_def sample_defs map_find_def)

definition sample_hop :: Hop where
  "sample_hop = \<lparr>hop_link = 10, hop_from = 1, hop_to = 2\<rparr>"

lemma sample_hop_usable: "hop_usable sample_request sample_snapshot sample_hop"
  unfolding hop_usable_def endpoint_usable_def link_usable_def
  by (simp add: sample_hop_def sample_links sample_endpoints,
      simp add: sample_defs endpointFresh_def isNull_def supports_def reserved_on_def)

lemma sample_path_feasible: "path_feasible sample_request sample_snapshot default_Bounds [sample_hop]"
  using sample_hop_usable
  by (simp add: path_feasible_def default_Bounds_def, simp add: sample_defs isNull_def)

definition sample_candidate :: CandidatePath where
  "sample_candidate = \<lparr>cp_source = 1, cp_destination = 2, cp_hops = [sample_hop]\<rparr>"

lemma sample_route: "simple_route sample_snapshot 1 2 [sample_hop]"
  by (simp add: simple_route_def sample_hop_def sample_defs)

text \<open>Every route from 1 to 2 is a single hop over link 10 or 11, so the enumeration is complete.\<close>

lemma sample_routes: "routes (adjacency sample_snapshot) 2 16 [1] 1 =
    [[sample_hop], [\<lparr>hop_link = 11, hop_from = 1, hop_to = 2\<rparr>]]"
proof -
  have "map_find (adjacency sample_snapshot) 1 =
      Some [\<lparr>adj_to = 2, adj_link = 10\<rparr>, \<lparr>adj_to = 2, adj_link = 11\<rparr>]"
    by (simp add: find_adjacency out_edges_def sample_defs adjLess_def)
  moreover have "(16::nat) = Suc 15" by simp
  ultimately show ?thesis by (simp only: routes.simps) (simp add: adj_hop_def sample_hop_def)
qed

lemma sample_enumerated:
  "enumerateCandidatePaths sample_snapshot 1 2 default_Bounds =
     [sample_candidate, \<lparr>cp_source = 1, cp_destination = 2,
        cp_hops = [\<lparr>hop_link = 11, hop_from = 1, hop_to = 2\<rparr>]\<rparr>]"
  using sample_routes
  by (simp add: enumerate_take all_candidates_def default_Bounds_def route_hits_def dfs_hit_def
      dfs_ctx_def sample_candidate_def pathLess_def sample_hop_def)

lemma sample_destination_feasible:
  "destination_feasible sample_request sample_snapshot default_Bounds (rq_source sample_request) 2"
proof -
  have "rq_source sample_request = 1" by (simp add: sample_defs)
  then show ?thesis
    using sample_path_feasible
    by (simp add: destination_feasible_def sample_enumerated) (simp add: sample_candidate_def)
qed

lemma sample_planned:
  "\<exists>out plan ct'. planCommunication sample_request sample_snapshot [] default_Bounds initial_Counters = (Inr out, ct') \<and>
     p2p_result sample_request sample_snapshot [] default_Bounds 2 out plan"
proof -
  have "planCommunication sample_request sample_snapshot [] default_Bounds initial_Counters =
      planPointToPoint sample_request sample_snapshot [] default_Bounds 2 initial_Counters"
    by (rule planCommunication_p2p [OF sample_valid]) (simp_all add: sample_defs)
  then show ?thesis using planPointToPoint_feasible [OF sample_destination_feasible] by metis
qed

text \<open>The plan over single-hop candidates needs no staging.\<close>

lemma sample_unstaged:
  assumes "planCommunication sample_request sample_snapshot [] default_Bounds initial_Counters = (Inr out, ct')"
    and "p2p_result sample_request sample_snapshot [] default_Bounds 2 out plan"
  shows "pl_requiredStagingResources plan = []"
proof -
  have "\<forall>c\<in>set (enumerateCandidatePaths sample_snapshot (rq_source sample_request) 2 default_Bounds). length (cp_hops c) = 1"
  proof -
    have "rq_source sample_request = 1" by (simp add: sample_defs)
    then show ?thesis by (simp add: sample_enumerated) (simp add: sample_candidate_def)
  qed
  then show ?thesis using single_hop_plan [OF assms(2) sample_destination_feasible] by blast
qed

end
