(* ===== verification/Revalidation.thy ===== *)
theory Revalidation
  imports Planner
begin

text \<open>
  \<open>src/revalidation.cpp\<close>: the check of a plan against a newer snapshot before it is handed to
  execution. A check returns \<open>None\<close> to go on and \<open>Some r\<close> for the early \<open>return r\<close>.
\<close>

section \<open>The checks\<close>

record RevalidationResult =
  rv_ok :: bool
  rv_feasibility :: Feasibility
  rv_detail :: string
  rv_changes :: "string list"

definition rv_fail :: "Feasibility \<Rightarrow> string \<Rightarrow> RevalidationResult" where
  "rv_fail f d = \<lparr>rv_ok = False, rv_feasibility = f, rv_detail = d, rv_changes = [d]\<rparr>"

definition genOk :: "u64 \<Rightarrow> u64 \<Rightarrow> bool" where
  "genOk current bound \<longleftrightarrow> \<not> current < bound"

definition revalidate_stage ::
  "EvidenceSnapshot \<Rightarrow> (EndpointId \<times> Endpoint) list \<Rightarrow> (LinkId \<times> Link) list \<Rightarrow> Stage \<Rightarrow>
   RevalidationResult option" where
  "revalidate_stage s emap lmap st =
     (case map_find lmap (st_link st) of
        None \<Rightarrow> Some (rv_fail Feasibility.REVALIDATION_REQUIRED (''link missing: '' @ u64_str (st_link st)))
      | Some link \<Rightarrow>
          if \<not> he_healthy (ln_health link) then Some (rv_fail Feasibility.FEASIBLE ''link unhealthy'')
          else if cg_hardLimitExceeded (ln_congestion link)
          then Some (rv_fail Feasibility.FEASIBLE ''link congestion hard limit'')
          else
            (case (map_find emap (st_source st), map_find emap (st_destination st)) of
               (Some se, Some de) \<Rightarrow>
                 if \<not> endpointFresh se s \<or> \<not> endpointFresh de s
                 then Some (rv_fail Feasibility.REJECT_STALE_ENDPOINT ''endpoint incarnation stale'')
                 else if \<not> ep_reachable se \<or> \<not> ep_ready se \<or> \<not> ep_reachable de \<or> \<not> ep_ready de
                 then Some (rv_fail Feasibility.FEASIBLE ''endpoint not ready'')
                 else None
             | _ \<Rightarrow> Some (rv_fail Feasibility.FEASIBLE ''endpoint missing'')))"

text \<open>A loop whose body may return: the first element with something to report decides.\<close>

fun first_report :: "('a \<Rightarrow> 'r option) \<Rightarrow> 'a list \<Rightarrow> 'r option" where
  "first_report f [] = None"
| "first_report f (x # xs) = (case f x of Some r \<Rightarrow> Some r | None \<Rightarrow> first_report f xs)"

definition revalidatePath :: "Path \<Rightarrow> EvidenceSnapshot \<Rightarrow> RevalidationResult" where
  "revalidatePath p s =
     (case first_report (revalidate_stage s (endpointMap s) (linkMap s)) (pa_stages p) of
        Some r \<Rightarrow> r
      | None \<Rightarrow> \<lparr>rv_ok = True, rv_feasibility = Feasibility.FEASIBLE, rv_detail = [], rv_changes = []\<rparr>)"

abbreviation rv_required :: "string \<Rightarrow> RevalidationResult" where
  "rv_required d \<equiv> rv_fail Feasibility.REVALIDATION_REQUIRED d"

definition revalidate_generations ::
  "CommunicationPlan \<Rightarrow> EvidenceSnapshot \<Rightarrow> RevalidationResult option" where
  "revalidate_generations p s =
     (if \<not> genOk (sn_topologyGeneration s) (pl_topologyGeneration p)
      then Some (rv_required ''topology generation regressed'')
      else if \<not> isNull (pl_congestionGeneration p) \<and> sn_congestionGeneration s \<noteq> pl_congestionGeneration p
      then Some (rv_required ''congestion generation advanced'')
      else if \<not> isNull (pl_capacityGeneration p) \<and> sn_capacityGeneration s \<noteq> pl_capacityGeneration p
      then Some (rv_required ''capacity generation advanced'')
      else if \<not> isNull (pl_reservationGeneration p) \<and> sn_reservationGeneration s \<noteq> pl_reservationGeneration p
      then Some (rv_required ''reservation generation advanced'')
      else None)"

definition revalidate_endpoint ::
  "EvidenceSnapshot \<Rightarrow> (EndpointId \<times> Endpoint) list \<Rightarrow> EndpointId \<times> Generation \<Rightarrow> RevalidationResult option" where
  "revalidate_endpoint s emap pr =
     (case map_find emap (fst pr) of
        None \<Rightarrow> Some (rv_required (''endpoint '' @ u64_str (fst pr) @ '' missing''))
      | Some e \<Rightarrow>
          if ep_generation e \<noteq> snd pr
          then Some (rv_required (''endpoint '' @ u64_str (fst pr) @ '' generation changed''))
          else if \<not> endpointFresh e s \<or> \<not> ep_reachable e \<or> \<not> ep_ready e
          then Some (rv_fail Feasibility.REJECT_STALE_ENDPOINT
                       (''endpoint '' @ u64_str (fst pr) @ '' no longer fresh/ready''))
          else None)"

definition revalidate_link ::
  "(LinkId \<times> Link) list \<Rightarrow> LinkId \<times> Generation \<Rightarrow> RevalidationResult option" where
  "revalidate_link lmap pr =
     (case map_find lmap (fst pr) of
        None \<Rightarrow> Some (rv_required (''link '' @ u64_str (fst pr) @ '' missing''))
      | Some l \<Rightarrow>
          if ln_generation l \<noteq> snd pr
          then Some (rv_required (''link '' @ u64_str (fst pr) @ '' generation changed''))
          else if \<not> he_healthy (ln_health l) \<or> cg_hardLimitExceeded (ln_congestion l)
          then Some (rv_required (''link '' @ u64_str (fst pr) @ '' unhealthy/congested''))
          else None)"

definition revalidate_candidate :: "EvidenceSnapshot \<Rightarrow> Path \<Rightarrow> RevalidationResult option" where
  "revalidate_candidate s p =
     (let pr = revalidatePath p s in if \<not> rv_ok pr then Some pr else None)"

text \<open>The loop over all capacity entries of one staging resource, with its flag \<open>found\<close>.\<close>

definition revalidate_resource ::
  "(ResourceId \<times> Capacity) list \<Rightarrow> ResourceId \<Rightarrow> RevalidationResult option" where
  "revalidate_resource caps rid =
     (if \<exists>rc \<in> set caps. fst rc = rid \<and> cy_usable (snd rc) < 1
      then Some (rv_required (''staging resource '' @ u64_str rid @ '' unavailable''))
      else if \<exists>rc \<in> set caps. fst rc = rid then None
      else Some (rv_required (''staging resource '' @ u64_str rid @ '' not committed'')))"

definition revalidatePlan :: "CommunicationPlan \<Rightarrow> EvidenceSnapshot \<Rightarrow> RevalidationResult" where
  "revalidatePlan p s =
     (let emap = endpointMap s; lmap = linkMap s;
          allOk = (\<forall>pt \<in> set (pl_candidatePaths p). rv_feasibility (revalidatePath pt s) = Feasibility.FEASIBLE)
      in case revalidate_generations p s of Some r \<Rightarrow> r
      | None \<Rightarrow> (case first_report (revalidate_endpoint s emap) (pl_endpointGenerations p) of Some r \<Rightarrow> r
      | None \<Rightarrow> (case first_report (revalidate_link lmap) (pl_linkGenerations p) of Some r \<Rightarrow> r
      | None \<Rightarrow> (case first_report (revalidate_candidate s) (pl_candidatePaths p) of Some r \<Rightarrow> r
      | None \<Rightarrow> (case first_report (revalidate_resource (sn_resourceCapacities s))
                          (pl_requiredStagingResources p) of Some r \<Rightarrow> r
      | None \<Rightarrow> \<lparr>rv_ok = True,
                 rv_feasibility = (if allOk then Feasibility.FEASIBLE else Feasibility.REVALIDATION_REQUIRED),
                 rv_detail = [], rv_changes = []\<rparr>)))))"

section \<open>What a positive answer means\<close>

definition endpoint_live :: "EvidenceSnapshot \<Rightarrow> EndpointId \<Rightarrow> bool" where
  "endpoint_live s k \<longleftrightarrow>
     (\<exists>e. map_find (endpointMap s) k = Some e \<and> endpointFresh e s \<and> ep_reachable e \<and> ep_ready e)"

definition stage_live :: "EvidenceSnapshot \<Rightarrow> Stage \<Rightarrow> bool" where
  "stage_live s st \<longleftrightarrow>
     (\<exists>l. map_find (linkMap s) (st_link st) = Some l \<and> he_healthy (ln_health l) \<and>
          \<not> cg_hardLimitExceeded (ln_congestion l)) \<and>
     endpoint_live s (st_source st) \<and> endpoint_live s (st_destination st)"

definition endpoint_current :: "EvidenceSnapshot \<Rightarrow> EndpointId \<times> Generation \<Rightarrow> bool" where
  "endpoint_current s pr \<longleftrightarrow>
     (\<exists>e. map_find (endpointMap s) (fst pr) = Some e \<and> ep_generation e = snd pr \<and>
          endpointFresh e s \<and> ep_reachable e \<and> ep_ready e)"

definition link_current :: "EvidenceSnapshot \<Rightarrow> LinkId \<times> Generation \<Rightarrow> bool" where
  "link_current s pr \<longleftrightarrow>
     (\<exists>l. map_find (linkMap s) (fst pr) = Some l \<and> ln_generation l = snd pr \<and>
          he_healthy (ln_health l) \<and> \<not> cg_hardLimitExceeded (ln_congestion l))"

definition resource_committed :: "EvidenceSnapshot \<Rightarrow> ResourceId \<Rightarrow> bool" where
  "resource_committed s rid \<longleftrightarrow>
     (\<exists>c. (rid, c) \<in> set (sn_resourceCapacities s)) \<and>
     (\<forall>c. (rid, c) \<in> set (sn_resourceCapacities s) \<longrightarrow> 0 < cy_usable c)"

definition plan_current :: "CommunicationPlan \<Rightarrow> EvidenceSnapshot \<Rightarrow> bool" where
  "plan_current p s \<longleftrightarrow>
     pl_topologyGeneration p \<le> sn_topologyGeneration s \<and>
     (isNull (pl_congestionGeneration p) \<or> sn_congestionGeneration s = pl_congestionGeneration p) \<and>
     (isNull (pl_capacityGeneration p) \<or> sn_capacityGeneration s = pl_capacityGeneration p) \<and>
     (isNull (pl_reservationGeneration p) \<or> sn_reservationGeneration s = pl_reservationGeneration p) \<and>
     (\<forall>pr\<in>set (pl_endpointGenerations p). endpoint_current s pr) \<and>
     (\<forall>pr\<in>set (pl_linkGenerations p). link_current s pr) \<and>
     (\<forall>st\<in>set (plan_stages p). stage_live s st) \<and>
     (\<forall>rid\<in>set (pl_requiredStagingResources p). resource_committed s rid)"

lemma first_report_loop_None: "first_report f xs = None \<longleftrightarrow> (\<forall>x\<in>set xs. f x = None)"
  by (induction xs) auto

lemma first_report_loop_Some: "first_report f xs = Some r \<Longrightarrow> \<exists>x\<in>set xs. f x = Some r"
  by (induction xs) (auto split: option.splits)

lemma revalidate_stage_None:
  "revalidate_stage s (endpointMap s) (linkMap s) st = None \<longleftrightarrow> stage_live s st"
  by (cases "map_find (linkMap s) (st_link st)"; cases "map_find (endpointMap s) (st_source st)";
      cases "map_find (endpointMap s) (st_destination st)")
    (auto simp: revalidate_stage_def stage_live_def endpoint_live_def)

lemma revalidate_stage_fails: "revalidate_stage s emap lmap st = Some r \<Longrightarrow> \<not> rv_ok r"
  by (auto simp: revalidate_stage_def rv_fail_def split: option.splits if_splits)

lemma revalidatePath_ok: "rv_ok (revalidatePath p s) \<longleftrightarrow> (\<forall>st\<in>set (pa_stages p). stage_live s st)"
proof (cases "first_report (revalidate_stage s (endpointMap s) (linkMap s)) (pa_stages p)")
  case None
  then have "\<forall>st\<in>set (pa_stages p). stage_live s st"
    by (simp add: first_report_loop_None revalidate_stage_None)
  with None show ?thesis by (simp add: revalidatePath_def)
next
  case (Some r)
  then obtain st where st: "st \<in> set (pa_stages p)"
    "revalidate_stage s (endpointMap s) (linkMap s) st = Some r"
    using first_report_loop_Some by metis
  then have "\<not> stage_live s st" by (simp flip: revalidate_stage_None)
  with Some st show ?thesis by (auto simp: revalidatePath_def dest: revalidate_stage_fails)
qed

lemma revalidatePath_ok_feasible:
  "rv_ok (revalidatePath p s) \<Longrightarrow> rv_feasibility (revalidatePath p s) = Feasibility.FEASIBLE"
proof (cases "first_report (revalidate_stage s (endpointMap s) (linkMap s)) (pa_stages p)")
  case (Some r)
  assume "rv_ok (revalidatePath p s)"
  with Some first_report_loop_Some [OF Some] show ?thesis
    by (auto simp: revalidatePath_def dest: revalidate_stage_fails)
qed (simp add: revalidatePath_def)

lemma revalidate_endpoint_None: "revalidate_endpoint s (endpointMap s) pr = None \<longleftrightarrow> endpoint_current s pr"
  by (auto simp: revalidate_endpoint_def endpoint_current_def split: option.splits)

lemma revalidate_link_None: "revalidate_link (linkMap s) pr = None \<longleftrightarrow> link_current s pr"
  by (auto simp: revalidate_link_def link_current_def split: option.splits)

lemma revalidate_resource_None:
  "revalidate_resource (sn_resourceCapacities s) rid = None \<longleftrightarrow> resource_committed s rid"
proof -
  have "c < 1 \<longleftrightarrow> \<not> 0 < c" for c :: u64 by (simp add: word_less_1 word_gt_0)
  then show ?thesis by (auto simp: revalidate_resource_def resource_committed_def)
qed

lemma revalidate_generations_None:
  "revalidate_generations p s = None \<longleftrightarrow>
     pl_topologyGeneration p \<le> sn_topologyGeneration s \<and>
     (isNull (pl_congestionGeneration p) \<or> sn_congestionGeneration s = pl_congestionGeneration p) \<and>
     (isNull (pl_capacityGeneration p) \<or> sn_capacityGeneration s = pl_capacityGeneration p) \<and>
     (isNull (pl_reservationGeneration p) \<or> sn_reservationGeneration s = pl_reservationGeneration p)"
  by (auto simp: revalidate_generations_def genOk_def not_less)

lemma revalidate_reports_fail:
  "revalidate_generations p s = Some r \<Longrightarrow> \<not> rv_ok r"
  "first_report (revalidate_endpoint s emap) eps = Some r \<Longrightarrow> \<not> rv_ok r"
  "first_report (revalidate_link lmap) lns = Some r \<Longrightarrow> \<not> rv_ok r"
  "first_report (revalidate_candidate s) ps = Some r \<Longrightarrow> \<not> rv_ok r"
  "first_report (revalidate_resource caps) rids = Some r \<Longrightarrow> \<not> rv_ok r"
  by (auto dest!: first_report_loop_Some split: option.splits if_splits
      simp: revalidate_generations_def revalidate_endpoint_def revalidate_link_def
        revalidate_candidate_def revalidate_resource_def rv_fail_def Let_def)

lemma revalidate_candidates_None:
  "first_report (revalidate_candidate s) (pl_candidatePaths p) = None \<longleftrightarrow>
     (\<forall>st\<in>set (plan_stages p). stage_live s st)"
  by (auto simp: first_report_loop_None revalidate_candidate_def Let_def revalidatePath_ok plan_stages_def)

text \<open>The answer is positive exactly for current plans, and then says \<open>FEASIBLE\<close>.\<close>

lemma revalidatePlan_iff: "rv_ok (revalidatePlan p s) \<longleftrightarrow> plan_current p s"
proof -
  have "plan_current p s \<longleftrightarrow> revalidate_generations p s = None \<and>
      first_report (revalidate_endpoint s (endpointMap s)) (pl_endpointGenerations p) = None \<and>
      first_report (revalidate_link (linkMap s)) (pl_linkGenerations p) = None \<and>
      first_report (revalidate_candidate s) (pl_candidatePaths p) = None \<and>
      first_report (revalidate_resource (sn_resourceCapacities s)) (pl_requiredStagingResources p) = None"
    unfolding revalidate_candidates_None revalidate_generations_None
    by (simp add: plan_current_def first_report_loop_None revalidate_endpoint_None revalidate_link_None
        revalidate_resource_None)
  then show ?thesis
    by (auto simp: revalidatePlan_def Let_def revalidate_reports_fail split: option.splits)
qed

lemma revalidatePlan_feasible:
  assumes "rv_ok (revalidatePlan p s)"
  shows "rv_feasibility (revalidatePlan p s) = Feasibility.FEASIBLE"
proof -
  have "\<forall>st\<in>set (plan_stages p). stage_live s st"
    using assms by (simp add: revalidatePlan_iff plan_current_def)
  then have "\<forall>pt\<in>set (pl_candidatePaths p). rv_feasibility (revalidatePath pt s) = Feasibility.FEASIBLE"
    by (auto simp: plan_stages_def intro!: revalidatePath_ok_feasible simp: revalidatePath_ok)
  with assms show ?thesis
    by (auto simp: revalidatePlan_def Let_def revalidate_reports_fail split: option.splits)
qed

section \<open>A fresh plan is current\<close>

lemma hop_usable_live:
  assumes "hop_usable r s h" and "stage_of_hop s h st"
  shows "stage_live s st"
  using assms unfolding hop_usable_def stage_of_hop_def stage_live_def endpoint_live_def
    endpoint_usable_def link_usable_def by auto

lemma candidate_stages_live:
  assumes "path_feasible r s b (cp_hops c)" and "path_of_candidate r s ws c p"
  shows "\<forall>st\<in>set (pa_stages p). stage_live s st"
proof
  fix st
  assume "st \<in> set (pa_stages p)"
  moreover have "list_all2 (stage_of_hop s) (cp_hops c) (pa_stages p)"
    using assms(2) by (simp add: path_of_candidate_def)
  ultimately obtain h where "h \<in> set (cp_hops c)" "stage_of_hop s h st"
    by (metis in_set_conv_nth list_all2_conv_all_nth)
  with assms(1) show "stage_live s st" by (auto simp: path_feasible_def intro: hop_usable_live)
qed

lemma best_path_live: "best_path r s ws b src dst p \<Longrightarrow> \<forall>st\<in>set (pa_stages p). stage_live s st"
  using candidate_stages_live unfolding best_path_def best_candidate_def by blast

lemma bound_plan_current:
  assumes "plan_bound s p" and "\<forall>st\<in>set (plan_stages p). stage_live s st"
    and "\<forall>rid\<in>set (pl_requiredStagingResources p). resource_committed s rid"
  shows "plan_current p s"
proof -
  have "endpoint_current s pr"
    if "pr \<in> bound_endpoints s (st_source ` set (plan_stages p) \<union> st_destination ` set (plan_stages p))" for pr
    using that assms(2) by (auto simp: bound_endpoints_def endpoint_current_def stage_live_def endpoint_live_def)
  moreover have "link_current s pr" if "pr \<in> bound_links s (st_link ` set (plan_stages p))" for pr
    using that assms(2) by (auto simp: bound_links_def link_current_def stage_live_def)
  ultimately show ?thesis using assms by (simp add: plan_current_def plan_bound_def)
qed

lemma list_all2_ball:
  "list_all2 P xs ys \<Longrightarrow> (\<And>x y. P x y \<Longrightarrow> Q y) \<Longrightarrow> \<forall>y\<in>set ys. Q y"
  by (induction rule: list_all2_induct) auto

lemma p2p_result_live:
  assumes "p2p_result r s ws b dst out plan"
  shows "plan_bound s plan" "\<forall>st\<in>set (plan_stages plan). stage_live s st"
proof -
  define cands where "cands = enumerateCandidatePaths s (rq_source r) dst b"
  define ranked where "ranked = ranked_positions (map (candidate_report r s ws b) cands)"
  let ?chosen = "map (\<lambda>i. cands ! i) (take (p2p_total b ranked) ranked)"
  have res: "list_all2 (path_of_candidate r s ws) ?chosen (pl_candidatePaths plan)" "plan_bound s plan"
    using assms unfolding p2p_result_def Let_def cands_def ranked_def by blast+
  show "plan_bound s plan" by (rule res)
  have "\<forall>c\<in>set ?chosen. path_feasible r s b (cp_hops c)"
    using ranked_member(2) unfolding ranked_def by (fastforce dest: in_set_takeD)
  then have "\<forall>p\<in>set (pl_candidatePaths plan). \<forall>st\<in>set (pa_stages p). stage_live s st"
    using res(1) candidate_stages_live by (metis in_set_conv_nth list_all2_conv_all_nth)
  then show "\<forall>st\<in>set (plan_stages plan). stage_live s st" by (auto simp: plan_stages_def)
qed

lemma planned_live:
  assumes "planCommunication r s ws b ct = (Inr out, ct')" and "po_success out" and "po_plan out = Some plan"
  shows "plan_bound s plan \<and> (\<forall>st\<in>set (plan_stages plan). stage_live s st)"
proof -
  have valid: "validate r = None"
    using assms(1) by (cases "validate r") (auto simp: planCommunication_def requireValid_def)
  consider (multi) "effectiveShape r = RequestShape.MULTICAST"
    | (coll) "effectiveShape r = RequestShape.COLLECTIVE"
    | (p2p) "effectiveShape r \<noteq> RequestShape.MULTICAST" "effectiveShape r \<noteq> RequestShape.COLLECTIVE"
    by blast
  then show ?thesis
  proof cases
    case multi
    then have "buildMulticastPlan r s ws b ct = (Inr out, ct')"
      using assms(1) valid by (simp add: planCommunication_def requireValid_def)
    with buildMulticastPlan_spec [of r s ws b ct] assms(3) have "plan_bound s plan"
      "list_all2 (best_path r s ws b (rq_source r))
         (filter (destination_feasible r s b (rq_source r)) (rq_destinations r)) (pl_candidatePaths plan)"
      by auto
    then show ?thesis
      using list_all2_ball [OF _ best_path_live] by (fastforce simp: plan_stages_def)
  next
    case coll
    then have "rq_shape r = RequestShape.COLLECTIVE" by (simp add: effectiveShape_def split: if_splits)
    then obtain root rest where root: "rq_participants r = root # rest"
      using validate_None_shapes(1) [OF valid] by (cases "rq_participants r") auto
    have "buildCollectivePlan r s ws b ct = (Inr out, ct')"
      using assms(1) valid coll by (simp add: planCommunication_def requireValid_def)
    with buildCollectivePlan_spec [OF root, of s ws b ct] assms(2,3) have "plan_bound s plan"
      "list_all2 (best_path r s ws b root) (filter (\<lambda>m. m \<noteq> root) (rq_participants r)) (pl_candidatePaths plan)"
      by auto
    then show ?thesis
      using list_all2_ball [OF _ best_path_live] by (fastforce simp: plan_stages_def)
  next
    case p2p
    then obtain dst rest where dst: "rq_destinations r = dst # rest"
      "planPointToPoint r s ws b dst ct = (Inr out, ct')"
      using assms(1) valid by (auto simp: planCommunication_def requireValid_def split: list.splits)
    show ?thesis
    proof (cases "destination_feasible r s b (rq_source r) dst")
      case True
      with planPointToPoint_feasible [OF True, of ws ct] dst assms(3)
      have "p2p_result r s ws b dst out plan" by (auto simp: p2p_result_def Let_def)
      then show ?thesis using p2p_result_live by blast
    next
      case False
      with planPointToPoint_infeasible [OF False, of ws ct] dst assms(2) show ?thesis by auto
    qed
  qed
qed

end
