(* ===== verification/Planning_Theorems.thy ===== *)
theory Planning_Theorems
  imports Sample_Evidence Revalidation
begin

text \<open>
  The theorems about planning as a whole: what the planner returns for each request, which paths it
  considers and how it orders them, and how a plan fares at revalidation.
\<close>

section \<open>The chosen path\<close>

text \<open>C1: a successful point-to-point plan's primary path carries a candidate that was enumerated,
  passes every hard constraint and is not beaten, in the lexicographic order of the ranking, by any
  other feasible candidate; the stages handed to execution are that path's stages.\<close>

theorem primary_path_is_best:
  assumes "validate r = None" and "rq_shape r = RequestShape.POINT_TO_POINT" and "\<not> rq_allowMulticast r"
    and "planCommunication r s ws b ct = (Inr out, ct')" and "po_success out"
  shows "\<exists>plan p ps c. po_plan out = Some plan \<and> pl_candidatePaths plan = p # ps \<and>
    best_candidate r s ws b (rq_source r) (rq_destinations r ! 0) c \<and> path_of_candidate r s ws c p \<and>
    pl_primaryPath plan = pa_id p \<and> pl_orderedStages plan = pa_stages p"
proof -
  obtain dst where dst: "rq_destinations r = [dst]"
    using validate_None_shapes(2) [OF assms(1)] assms(2,3) by (auto simp: length_Suc_conv)
  then have plan: "planPointToPoint r s ws b dst ct = (Inr out, ct')"
    using planCommunication_p2p [of r dst "[]" s ws b ct] assms(1-4) by simp
  have feas: "destination_feasible r s b (rq_source r) dst"
  proof (rule ccontr)
    assume "\<not> destination_feasible r s b (rq_source r) dst"
    from planPointToPoint_infeasible [OF this, of ws ct] plan assms(5) show False by simp
  qed
  define cands where "cands = enumerateCandidatePaths s (rq_source r) dst b"
  define ranked where "ranked = ranked_positions (map (candidate_report r s ws b) cands)"
  obtain best rest where ranked: "ranked = best # rest"
    using ranked_Nil_iff [of r s ws b "rq_source r" dst] feas
    unfolding ranked_def cands_def by (auto simp: neq_Nil_conv)
  obtain plan where "p2p_result r s ws b dst out plan"
    using planPointToPoint_feasible [OF feas, of ws ct] plan by auto
  then have res: "po_plan out = Some plan"
    "list_all2 (path_of_candidate r s ws) (map (\<lambda>i. cands ! i) (take (p2p_total b ranked) ranked)) (pl_candidatePaths plan)"
    "map pa_id (pl_candidatePaths plan) =
       map (\<lambda>i. of_nat (Suc i)) [0..<length (map (\<lambda>i. cands ! i) (take (p2p_total b ranked) ranked))]"
    "pl_primaryPath plan = 1" "pl_orderedStages plan = pa_stages (hd (pl_candidatePaths plan))"
    unfolding p2p_result_def Let_def cands_def ranked_def by blast+
  obtain p ps where p: "pl_candidatePaths plan = p # ps" "path_of_candidate r s ws (cands ! best) p"
    using res(2) by (auto simp: ranked p2p_total_def list_all2_Cons1)
  have "pa_id p = 1" using res(3) by (simp add: p ranked p2p_total_def upt_conv_Cons del: upt_Suc)
  moreover have "best_candidate r s ws b (rq_source r) dst (cands ! best)"
    using ranked unfolding ranked_def by (rule ranked_head_best) (rule cands_def)
  ultimately show ?thesis using p res dst by auto
qed

theorem primary_path_is_best_witness:
  "\<exists>out ct' plan p ps c.
     planCommunication sample_request sample_snapshot [] default_Bounds initial_Counters = (Inr out, ct') \<and>
     po_plan out = Some plan \<and> pl_candidatePaths plan = p # ps \<and>
     best_candidate sample_request sample_snapshot [] default_Bounds 1 2 c \<and>
     path_of_candidate sample_request sample_snapshot [] c p \<and> pl_orderedStages plan = pa_stages p"
proof -
  obtain out plan ct' where out:
    "planCommunication sample_request sample_snapshot [] default_Bounds initial_Counters = (Inr out, ct')"
    "po_success out"
    using sample_planned by (auto simp: p2p_result_def Let_def)
  have "rq_shape sample_request = RequestShape.POINT_TO_POINT" "\<not> rq_allowMulticast sample_request"
    "rq_source sample_request = 1" "rq_destinations sample_request ! 0 = 2"
    by (simp_all add: sample_defs)
  with primary_path_is_best [OF sample_valid _ _ out] out(1) show ?thesis by metis
qed

text \<open>C2: when the candidate bound is not exhausted, a valid point-to-point request is planned
  successfully exactly when the topology has a simple route, within the relay bound, that satisfies
  every hard constraint; otherwise the planner reports failure. It never raises.\<close>

theorem planner_finds_feasible_route:
  assumes "validate r = None" and "rq_shape r = RequestShape.POINT_TO_POINT" and "\<not> rq_allowMulticast r"
    and "rq_destinations r = [dst]"
    and "length (enumerateCandidatePaths s (rq_source r) dst b) < unat (bd_maxCandidates b)"
  shows "\<exists>out ct'. planCommunication r s ws b ct = (Inr out, ct') \<and>
    (po_success out \<longleftrightarrow>
      (\<exists>hops. simple_route s (rq_source r) dst hops \<and> length hops - 1 \<le> unat (bd_maxRelayCount b) \<and>
         path_feasible r s b hops))"
proof -
  have "destination_feasible r s b (rq_source r) dst \<longleftrightarrow>
      (\<exists>c\<in>set (all_candidates s (rq_source r) dst b). path_feasible r s b (cp_hops c))"
    unfolding destination_feasible_def enumerate_complete [OF assms(5)] ..
  also have "\<dots> \<longleftrightarrow> (\<exists>hops. simple_route s (rq_source r) dst hops \<and>
      length hops - 1 \<le> unat (bd_maxRelayCount b) \<and> path_feasible r s b hops)"
    (is "?L \<longleftrightarrow> ?R")
  proof
    assume ?R
    then obtain hops where hops: "simple_route s (rq_source r) dst hops"
      "length hops - 1 \<le> unat (bd_maxRelayCount b)" "path_feasible r s b hops" by blast
    then have "\<lparr>cp_source = rq_source r, cp_destination = dst, cp_hops = hops\<rparr> \<in>
        set (all_candidates s (rq_source r) dst b)"
      by (simp add: all_candidates_member path_feasible_def)
    with hops(3) show ?L by force
  qed (auto simp: all_candidates_member)
  finally have iff: "destination_feasible r s b (rq_source r) dst \<longleftrightarrow> ?R" .
  have "planCommunication r s ws b ct = planPointToPoint r s ws b dst ct"
    using assms(1-4) by (intro planCommunication_p2p) auto
  moreover have "\<exists>out ct'. planPointToPoint r s ws b dst ct = (Inr out, ct') \<and>
      po_success out = destination_feasible r s b (rq_source r) dst"
    using planPointToPoint_infeasible [of r s b dst ws ct] planPointToPoint_feasible [of r s b dst ws ct]
    by (cases "destination_feasible r s b (rq_source r) dst") (auto simp: p2p_result_def Let_def)
  ultimately show ?thesis using iff by auto
qed

theorem planner_finds_feasible_route_witness:
  "\<exists>out ct'. planCommunication sample_request sample_snapshot [] default_Bounds initial_Counters = (Inr out, ct') \<and>
     po_success out"
proof -
  have "rq_source sample_request = 1" by (simp add: sample_defs)
  then have "length (enumerateCandidatePaths sample_snapshot (rq_source sample_request) 2 default_Bounds) <
      unat (bd_maxCandidates default_Bounds)"
    by (simp add: sample_enumerated) (simp add: default_Bounds_def)
  moreover have "rq_shape sample_request = RequestShape.POINT_TO_POINT"
    "\<not> rq_allowMulticast sample_request" "rq_destinations sample_request = [2]"
    by (simp_all add: sample_defs)
  moreover have "simple_route sample_snapshot (rq_source sample_request) 2 [sample_hop]"
    using sample_route \<open>rq_source sample_request = 1\<close> by simp
  ultimately show ?thesis
    using planner_finds_feasible_route [OF sample_valid, of 2 sample_snapshot default_Bounds "[]" initial_Counters]
      sample_path_feasible by force
qed

text \<open>C31: the only ways a call of \<open>planCommunication\<close> does not return an outcome: a request that
  fails validation raises \<open>ComError\<close> with the validation message, and a request of shape
  \<open>UNKNOWN\<close> with no destination raises \<open>std::out_of_range\<close>. No other exception and no undefined
  access is reachable, in any of the three planners.\<close>

theorem planner_exceptions:
  "fst (planCommunication r s ws b ct) = Inl e \<longleftrightarrow>
     (\<exists>why. validate r = Some why \<and> e = ComError (''malformed communication request: '' @ why)) \<or>
     (validate r = None \<and> rq_shape r = RequestShape.UNKNOWN \<and> \<not> rq_allowMulticast r \<and>
      rq_destinations r = [] \<and> e = OutOfRange)"
  by (rule planCommunication_raises_iff)

section \<open>Determinism\<close>

text \<open>C32: the outcome of planning depends on the published endpoints and links as sets only: any
  reordering of the same evidence (with one endpoint per endpoint id and one link per link id) gives
  the same outcome, the same identities and the same counters.\<close>

theorem planning_ignores_publication_order:
  assumes "mset es = mset (sn_endpoints s)" and "distinct (map ep_id (sn_endpoints s))"
    and "mset ls = mset (sn_links s)" and "distinct (map ln_id (sn_links s))"
  shows "planCommunication r (s\<lparr>sn_endpoints := es, sn_links := ls\<rparr>) ws b ct = planCommunication r s ws b ct"
  by (rule agrees_planner) (rule evidence_agrees_perm [OF assms])

theorem planning_ignores_publication_order_witness:
  "planCommunication sample_request
     (sample_snapshot\<lparr>sn_endpoints := [sample_endpoint 2, sample_endpoint 1],
        sn_links := [sample_link 11 Transport.NVLINK, sample_link 10 Transport.PCIE]\<rparr>) [] default_Bounds
     initial_Counters =
   planCommunication sample_request sample_snapshot [] default_Bounds initial_Counters"
  by (rule planning_ignores_publication_order [OF _ sample_distinct(1) _ sample_distinct(2)])
    (simp_all add: sample_snapshot_def)

text \<open>\<open>rankFeasible\<close> returns each feasible position once and no other, in increasing lexicographic
  order of the keys, ties broken by position; these two facts determine the result.\<close>

lemma rankFeasible_exact:
  assumes "\<forall>x \<in> set input. rankable_good x"
  shows "distinct (rankFeasible input) \<and>
    set (rankFeasible input) = {i. i < length input \<and> feasible (rk_feasibility (input ! i))} \<and>
    sorted_wrt (\<lambda>i j. (rank_tuple (rankKey (input ! i)), i) < (rank_tuple (rankKey (input ! j)), j))
      (rankFeasible input)"
  using rankFeasible_distinct rankFeasible_set rankFeasible_sorted [OF assms] by blast

section \<open>Enumeration\<close>

text \<open>C9: the bounded search returns only simple routes of the topology within the depth and relay
  bounds, at most \<open>maxCandidates\<close> of them, and all of them unless that bound is reached.\<close>

theorem enumeration_sound_and_complete:
  "set (enumerateCandidatePaths s src dst b) \<subseteq>
     {c. cp_source c = src \<and> cp_destination c = dst \<and> simple_route s src dst (cp_hops c) \<and>
         length (cp_hops c) \<le> unat (bd_maxPathDepth b) \<and> length (cp_hops c) - 1 \<le> unat (bd_maxRelayCount b)} \<and>
   length (enumerateCandidatePaths s src dst b) \<le> unat (bd_maxCandidates b) \<and>
   (length (enumerateCandidatePaths s src dst b) = unat (bd_maxCandidates b) \<or>
    set (enumerateCandidatePaths s src dst b) =
     {c. cp_source c = src \<and> cp_destination c = dst \<and> simple_route s src dst (cp_hops c) \<and>
         length (cp_hops c) \<le> unat (bd_maxPathDepth b) \<and> length (cp_hops c) - 1 \<le> unat (bd_maxRelayCount b)})"
proof -
  let ?E = "enumerateCandidatePaths s src dst b"
  define S :: "CandidatePath set" where "S = {c. cp_source c = src \<and> cp_destination c = dst \<and> simple_route s src dst (cp_hops c) \<and>
    length (cp_hops c) \<le> unat (bd_maxPathDepth b) \<and> length (cp_hops c) - 1 \<le> unat (bd_maxRelayCount b)}"
  have "set (all_candidates s src dst b) = S" by (auto simp: S_def all_candidates_member)
  then have "length ?E < unat (bd_maxCandidates b) \<Longrightarrow> set ?E = S" by (simp only: enumerate_complete)
  moreover have "set ?E \<subseteq> S" unfolding S_def using enumerate_sound by blast
  moreover have "length ?E \<le> unat (bd_maxCandidates b)" unfolding enumerate_length by simp
  ultimately have "set ?E \<subseteq> S \<and> length ?E \<le> unat (bd_maxCandidates b) \<and>
      (length ?E = unat (bd_maxCandidates b) \<or> set ?E = S)"
    by linarith
  then show ?thesis unfolding S_def .
qed

section \<open>Feasibility\<close>

text \<open>C10: the hard filter accepts exactly the candidates that satisfy all of: a non-empty path within the
  planner's depth and the request's stage and hop limits; staging and relays permitted by the
  request; every hop over a present, directed, healthy link of an allowed transport with
  unreserved capacity, not over its congestion limit, in the required failure domain, between
  fresh, reachable, ready endpoints of known kind that support the transport; a current policy.\<close>

theorem hard_filter_exact:
  "feasible (evaluateCandidateFeasibility r s c b) \<longleftrightarrow> path_feasible r s b (cp_hops c)"
  by (rule feasibility_iff)

section \<open>Revalidation\<close>


text \<open>C8: a plan just made, for any of the three shapes, passes revalidation against the snapshot it was
  made from, provided the staging resources it needs are committed there.\<close>

theorem fresh_plan_revalidates:
  assumes "planCommunication r s ws b ct = (Inr out, ct')" and "po_success out" and "po_plan out = Some plan"
    and "\<forall>rid \<in> set (pl_requiredStagingResources plan). resource_committed s rid"
  shows "rv_ok (revalidatePlan plan s) \<and> rv_feasibility (revalidatePlan plan s) = Feasibility.FEASIBLE"
proof -
  have "plan_current plan s"
    using planned_live [OF assms(1-3)] assms(4) by (blast intro: bound_plan_current)
  then have "rv_ok (revalidatePlan plan s)" by (simp add: revalidatePlan_iff)
  then show ?thesis using revalidatePlan_feasible by blast
qed

theorem fresh_plan_revalidates_witness:
  "\<exists>out ct' plan.
     planCommunication sample_request sample_snapshot [] default_Bounds initial_Counters = (Inr out, ct') \<and>
     po_plan out = Some plan \<and> rv_ok (revalidatePlan plan sample_snapshot)"
proof -
  obtain out plan ct' where out:
    "planCommunication sample_request sample_snapshot [] default_Bounds initial_Counters = (Inr out, ct')"
    "p2p_result sample_request sample_snapshot [] default_Bounds 2 out plan"
    using sample_planned by blast
  then have plan: "po_success out" "po_plan out = Some plan" by (simp_all add: p2p_result_def Let_def)
  have "pl_requiredStagingResources plan = []"
    using sample_unstaged [OF out] .
  then show ?thesis using fresh_plan_revalidates [OF out(1) plan] out(1) plan(2) by auto
qed

section \<open>Multicast and collective plans\<close>

text \<open>C29: the multicast planner always returns a plan; it succeeds exactly when every destination has a
  feasible enumerated path, it retains for each such destination a best path, numbered from 1 in the
  order of the destinations, and it binds exactly the generations and claims its paths use.\<close>

theorem multicast_plan_exact:
  "\<exists>out plan ct'. buildMulticastPlan r s ws b ct = (Inr out, ct') \<and> po_plan out = Some plan \<and>
     (po_success out \<longleftrightarrow> list_all (destination_feasible r s b (rq_source r)) (rq_destinations r)) \<and>
     pl_feasibility plan = (if po_success out then Feasibility.FEASIBLE else Feasibility.REJECT_ENDPOINT) \<and>
     list_all2 (best_path r s ws b (rq_source r))
       (filter (destination_feasible r s b (rq_source r)) (rq_destinations r)) (pl_candidatePaths plan) \<and>
     map pa_id (pl_candidatePaths plan) =
       map (\<lambda>i. of_nat (Suc i)) [0..<length (pl_candidatePaths plan)] \<and>
     plan_bound s plan \<and> set (pl_requiredResourceClaims plan) = plan_claims plan"
  unfolding list_all_iff by (rule buildMulticastPlan_spec)

text \<open>C30: a collective over a non-empty participant list succeeds exactly when the declared count is
  the number of participants and within the bound, every participant is present, fresh, reachable,
  ready and of known kind, and the root reaches every other participant over a feasible path; the
  plan then holds a best path to each of them and binds exactly what those paths use.\<close>

theorem collective_plan_exact:
  assumes "rq_participants r = root # rest"
  shows "\<exists>out plan ct'. buildCollectivePlan r s ws b ct = (Inr out, ct') \<and> po_plan out = Some plan \<and>
     (po_success out \<longleftrightarrow>
        unat (rq_collectiveCount r) = length (rq_participants r) \<and>
        rq_collectiveCount r \<le> bd_maxCollectiveParticipants b \<and>
        (\<forall>pid\<in>set (rq_participants r). participant_ok s pid) \<and>
        (\<forall>m\<in>set (rq_participants r). m \<noteq> root \<longrightarrow> destination_feasible r s b root m)) \<and>
     pl_feasibility plan = (if po_success out then Feasibility.FEASIBLE else Feasibility.REJECT_ENDPOINT) \<and>
     (po_success out \<longrightarrow>
        list_all2 (best_path r s ws b root) (filter (\<lambda>m. m \<noteq> root) (rq_participants r))
          (pl_candidatePaths plan) \<and>
        plan_bound s plan \<and> set (pl_requiredResourceClaims plan) = plan_claims plan)"
  using assms by (rule buildCollectivePlan_spec)

theorem collective_plan_exact_witness:
  "\<exists>out plan ct' p.
     buildCollectivePlan (sample_request\<lparr>rq_shape := RequestShape.COLLECTIVE, rq_participants := [1, 2],
        rq_collectiveCount := 2\<rparr>) sample_snapshot [] default_Bounds initial_Counters = (Inr out, ct') \<and>
     po_success out \<and> po_plan out = Some plan \<and> pl_candidatePaths plan = [p]"
proof -
  let ?r = "sample_request\<lparr>rq_shape := RequestShape.COLLECTIVE, rq_participants := [1, 2],
        rq_collectiveCount := 2\<rparr>"
  have "participant_ok sample_snapshot k" if "k = 1 \<or> k = 2" for k
    using that by (elim disjE)
      (simp_all add: participant_ok_def sample_endpoints,
       simp_all add: sample_defs endpointFresh_def isNull_def)
  then have ok: "participant_ok sample_snapshot 1" "participant_ok sample_snapshot 2" by simp_all
  have "path_feasible ?r sample_snapshot default_Bounds [sample_hop]"
    using sample_path_feasible
    by (simp add: path_feasible_def hop_usable_def link_usable_def)
  then have feas: "destination_feasible ?r sample_snapshot default_Bounds 1 2"
    by (simp add: destination_feasible_def sample_enumerated) (simp add: sample_candidate_def)
  have "rq_participants ?r = 1 # [2]" by simp
  from collective_plan_exact [OF this, of sample_snapshot "[]" default_Bounds initial_Counters]
  obtain out plan ct' where out:
    "buildCollectivePlan ?r sample_snapshot [] default_Bounds initial_Counters = (Inr out, ct')"
    "po_plan out = Some plan" "po_success out"
    "list_all2 (best_path ?r sample_snapshot [] default_Bounds 1) [2] (pl_candidatePaths plan)"
    using ok feas by (auto simp: default_Bounds_def)
  then obtain p where "pl_candidatePaths plan = [p]" by (auto simp: list_all2_Cons1)
  with out show ?thesis by blast
qed

end
