(* ===== verification/Broker.thy ===== *)
theory Broker
  imports Data_Model
begin

text \<open>
  \<open>include/communication_planner/adapters/broker.hpp\<close>: the abstract \<open>ResourceBroker\<close> as an interface
  locale and \<open>MemoryResourceBroker\<close> as its implementation. Held amounts are 64-bit and wrap.
\<close>

section \<open>The in-memory broker\<close>

record MemoryResourceBroker =
  br_defaultCap :: u64
  br_caps :: "(ResourceId \<times> u64) list"
  br_held :: "(ResourceId \<times> u64) list"
  br_failAfter :: int

definition new_broker :: "u64 \<Rightarrow> MemoryResourceBroker" where
  "new_broker cap = \<lparr>br_defaultCap = cap, br_caps = [], br_held = [], br_failAfter = - 1\<rparr>"

definition setCapacity :: "ResourceId \<Rightarrow> u64 \<Rightarrow> MemoryResourceBroker \<Rightarrow> MemoryResourceBroker" where
  "setCapacity r bytes b = b\<lparr>br_caps := map_assign r bytes (br_caps b)\<rparr>"

definition setFailNext :: "int \<Rightarrow> MemoryResourceBroker \<Rightarrow> MemoryResourceBroker" where
  "setFailNext n b = b\<lparr>br_failAfter := n\<rparr>"

definition broker_capacity :: "MemoryResourceBroker \<Rightarrow> ResourceId \<Rightarrow> u64" where
  "broker_capacity b r =
     (case map_find (br_caps b) r of Some c \<Rightarrow> c | None \<Rightarrow> br_defaultCap b)"

definition held :: "MemoryResourceBroker \<Rightarrow> ResourceId \<Rightarrow> u64" where
  "held b r = (case map_find (br_held b) r of Some h \<Rightarrow> h | None \<Rightarrow> 0)"

definition capacityAvailable :: "MemoryResourceBroker \<Rightarrow> ResourceId \<Rightarrow> bool" where
  "capacityAvailable b r \<longleftrightarrow> held b r < broker_capacity b r"

text \<open>
  The checking loop of \<open>acquire\<close> over \<open>resources[i], sizes[i]\<close>: it looks at what is held before the
  call only. The two vectors have the same length at every call.
\<close>

fun acquire_check :: "MemoryResourceBroker \<Rightarrow> (ResourceId \<times> u64) list \<Rightarrow> bool" where
  "acquire_check b [] = True"
| "acquire_check b ((r, sz) # rest) =
     (let cap = broker_capacity b r
      in case map_find (br_held b) r of
           Some h \<Rightarrow> (if cap < h + sz then False else acquire_check b rest)
         | None \<Rightarrow> (if cap < sz then False else acquire_check b rest))"

fun acquire_take :: "(ResourceId \<times> u64) list \<Rightarrow> (ResourceId \<times> u64) list \<Rightarrow> (ResourceId \<times> u64) list" where
  "acquire_take m [] = m"
| "acquire_take m ((r, sz) # rest) =
     acquire_take (map_assign r ((case map_find m r of Some h \<Rightarrow> h | None \<Rightarrow> 0) + sz) m) rest"

definition acquire ::
  "ResourceId list \<Rightarrow> u64 list \<Rightarrow> MemoryResourceBroker \<Rightarrow> string option \<times> MemoryResourceBroker" where
  "acquire resources sizes b =
     (if br_failAfter b = 0 then (Some ''broker scripted acquire failure'', b)
      else let b1 = (if 0 < br_failAfter b then b\<lparr>br_failAfter := br_failAfter b - 1\<rparr> else b)
           in if acquire_check b1 (zip resources sizes)
              then (None, b1\<lparr>br_held := acquire_take (br_held b1) (zip resources sizes)\<rparr>)
              else (Some ''insufficient capacity'', b1))"

definition release :: "ResourceId list \<Rightarrow> MemoryResourceBroker \<Rightarrow> MemoryResourceBroker" where
  "release resources b = b\<lparr>br_held := fold map_erase resources (br_held b)\<rparr>"

section \<open>Behaviour of the operations\<close>

lemma broker_capacity_cong:
  "br_caps b = br_caps b' \<Longrightarrow> br_defaultCap b = br_defaultCap b' \<Longrightarrow>
     broker_capacity b = broker_capacity b'"
  by (auto simp: broker_capacity_def split: option.split)

lemma held_cong: "br_held b = br_held b' \<Longrightarrow> held b = held b'"
  by (auto simp: held_def)

lemma held_assign:
  "held (b\<lparr>br_held := map_assign r v m\<rparr>) x = (if x = r then v else held (b\<lparr>br_held := m\<rparr>) x)"
  by (simp add: held_def map_find_assign)

lemma find_fold_erase: "map_find (fold map_erase rs m) x = (if x \<in> set rs then None else map_find m x)"
  by (induction rs arbitrary: m) (auto simp: map_find_erase)

lemma map_ok_fold_erase: "map_ok m \<Longrightarrow> map_ok (fold map_erase rs m)"
  by (induction rs arbitrary: m) (auto simp: map_ok_erase)

lemma held_release: "held (release rs b) x = (if x \<in> set rs then 0 else held b x)"
  by (simp add: held_def release_def find_fold_erase)

lemma acquire_take_other: "r \<notin> fst ` set ps \<Longrightarrow> map_find (acquire_take m ps) r = map_find m r"
  by (induction m ps rule: acquire_take.induct) (auto simp: map_find_assign)

lemma acquire_take_held:
  assumes "distinct (map fst ps)" and "(r, sz) \<in> set ps"
  shows "map_find (acquire_take m ps) r =
    Some ((case map_find m r of Some h \<Rightarrow> h | None \<Rightarrow> 0) + sz)"
  using assms
proof (induction m ps rule: acquire_take.induct)
  case (2 m r' sz2 rest)
  show ?case
  proof (cases "r = r'")
    case True
    then have "r \<notin> fst ` set rest" using "2.prems" by auto
    with True "2.prems" show ?thesis
      by (force simp: acquire_take_other map_find_assign)
  next
    case False
    with 2 show ?thesis by (auto simp: map_find_assign)
  qed
qed simp

lemma acquire_check_iff:
  "acquire_check b ps \<longleftrightarrow> (\<forall>(r, sz) \<in> set ps. held b r + sz \<le> broker_capacity b r)"
  by (induction b ps rule: acquire_check.induct)
    (auto simp: held_def Let_def not_less split: option.splits)

lemma acquire_held_Some: "acquire rs ss b = (Some err, b') \<Longrightarrow> br_held b' = br_held b"
  by (auto simp: acquire_def Let_def split: if_splits)

lemma acquire_frame:
  "acquire rs ss b = (out, b') \<Longrightarrow> br_caps b' = br_caps b \<and> br_defaultCap b' = br_defaultCap b"
  by (auto simp: acquire_def Let_def split: if_splits)

lemma acquire_held_None:
  "acquire rs ss b = (None, b') \<Longrightarrow> br_held b' = acquire_take (br_held b) (zip rs ss)"
  by (auto simp: acquire_def Let_def split: if_splits)

lemma acquire_checked:
  assumes "acquire rs ss b = (None, b')" and "(r, sz) \<in> set (zip rs ss)"
  shows "held b r + sz \<le> broker_capacity b r"
proof -
  define b1 where "b1 = (if 0 < br_failAfter b then b\<lparr>br_failAfter := br_failAfter b - 1\<rparr> else b)"
  have "acquire_check b1 (zip rs ss)"
    using assms(1) by (auto simp: acquire_def Let_def b1_def split: if_splits)
  moreover have "held b1 = held b" "broker_capacity b1 = broker_capacity b"
    by (auto simp: b1_def intro!: held_cong broker_capacity_cong)
  ultimately show ?thesis using assms(2) by (auto simp: acquire_check_iff)
qed

section \<open>The broker interface\<close>

text \<open>
  What a client of \<open>ResourceBroker\<close> may rely on: a refused request changes no holding, a granted one
  adds each size to its resource and was within capacity before, a release drops the listed
  resources and no others.
\<close>

locale resource_broker =
  fixes acq :: "ResourceId list \<Rightarrow> u64 list \<Rightarrow> 'b \<Rightarrow> string option \<times> 'b"
    and rel :: "ResourceId list \<Rightarrow> 'b \<Rightarrow> 'b"
    and holds :: "'b \<Rightarrow> ResourceId \<Rightarrow> u64"
    and capac :: "'b \<Rightarrow> ResourceId \<Rightarrow> u64"
  assumes refused: "acq rs ss b = (Some err, b') \<Longrightarrow> holds b' = holds b"
    and granted: "acq rs ss b = (None, b') \<Longrightarrow> distinct rs \<Longrightarrow> length ss = length rs \<Longrightarrow>
      holds b' r = (case map_of (zip rs ss) r of None \<Rightarrow> holds b r | Some sz \<Rightarrow> holds b r + sz)"
    and within: "acq rs ss b = (None, b') \<Longrightarrow> (r, sz) \<in> set (zip rs ss) \<Longrightarrow>
      holds b r + sz \<le> capac b r"
    and capac_acq: "acq rs ss b = (out, b') \<Longrightarrow> capac b' = capac b"
    and released: "holds (rel rs b) r = (if r \<in> set rs then 0 else holds b r)"
    and capac_rel: "capac (rel rs b) = capac b"
begin

text \<open>A commit that is rolled back leaves nothing held on the resources it asked for.\<close>

lemma rollback_restores:
  assumes "acq rs ss b = (None, b')" and "distinct rs" and "length ss = length rs"
    and free: "\<forall>r\<in>set rs. holds b r = 0"
  shows "holds (rel rs b') = holds b"
proof
  fix r
  show "holds (rel rs b') r = holds b r"
  proof (cases "r \<in> set rs")
    case True
    with free show ?thesis by (simp add: released)
  next
    case False
    with assms(3) have "map_of (zip rs ss) r = None" by (simp add: map_of_zip_is_None)
    with False granted [OF assms(1-3)] show ?thesis by (simp add: released)
  qed
qed

text \<open>No resource is held beyond its capacity after a grant, if none was before.\<close>

lemma granted_within_capacity:
  assumes acq: "acq rs ss b = (None, b')" and "distinct rs" and "length ss = length rs"
    and ok: "\<forall>r. holds b r \<le> capac b r"
  shows "holds b' r \<le> capac b' r"
proof (cases "map_of (zip rs ss) r")
  case None
  with granted [OF acq assms(2,3)] ok show ?thesis by (simp add: capac_acq [OF acq])
next
  case (Some sz)
  then have "(r, sz) \<in> set (zip rs ss)" by (rule map_of_SomeD)
  with within [OF acq] granted [OF acq assms(2,3)] Some show ?thesis
    by (simp add: capac_acq [OF acq])
qed

end

interpretation memory_broker: resource_broker acquire release held broker_capacity
proof unfold_locales
  fix rs ss b b' r sz err out
  show "held b' = held b" if "acquire rs ss b = (Some err, b')"
    using acquire_held_Some [OF that] by (rule held_cong)
  show "held b' r = (case map_of (zip rs ss) r of None \<Rightarrow> held b r | Some sz \<Rightarrow> held b r + sz)"
    if "acquire rs ss b = (None, b')" and "distinct rs" and "length ss = length rs"
  proof (cases "map_of (zip rs ss) r")
    case None
    then have "r \<notin> fst ` set (zip rs ss)" by (simp add: map_of_eq_None_iff)
    with None acquire_held_None [OF that(1)] show ?thesis
      by (simp add: held_def acquire_take_other)
  next
    case (Some sz)
    have "distinct (map fst (zip rs ss))" using that by simp
    from acquire_take_held [OF this map_of_SomeD [OF Some]] Some acquire_held_None [OF that(1)]
    show ?thesis by (simp add: held_def)
  qed
  show "held b r + sz \<le> broker_capacity b r"
    if "acquire rs ss b = (None, b')" and "(r, sz) \<in> set (zip rs ss)"
    using that by (rule acquire_checked)
  show "broker_capacity b' = broker_capacity b" if "acquire rs ss b = (out, b')"
    using acquire_frame [OF that] by (blast intro: broker_capacity_cong)
  show "held (release rs b) r = (if r \<in> set rs then 0 else held b r)"
    by (rule held_release)
  show "broker_capacity (release rs b) = broker_capacity b"
    by (rule broker_capacity_cong) (simp_all add: release_def)
qed

section \<open>Theorems\<close>



end
