(* ===== verification/Byte_Codec.thy ===== *)
theory Byte_Codec
  imports Data_Model
begin

unbundle bit_operations_syntax

text \<open>
  The \<open>Writer\<close>/\<open>Reader\<close> of \<open>src/persistence.cpp\<close> and the identical \<open>W\<close>/\<open>R\<close> of \<open>src/protocol.cpp\<close>: little
  endian integers, booleans, doubles, length-prefixed strings, and the FNV-1a checksum. A reader
  takes the bytes from the current position on and returns the value and the bytes that remain, or
  \<open>None\<close> where the source returns \<open>false\<close>. The interface locale \<open>codec\<close> states the round trip.
\<close>

section \<open>Writers and readers\<close>

type_synonym bytes = "u8 list"

definition kMaxCount :: nat where
  "kMaxCount = 2 ^ 20"

text \<open>The loop of \<open>u16\<close>, \<open>u32\<close> and \<open>u64\<close>: byte \<open>i\<close> is \<open>(v >> (8 * i)) & 0xff\<close>.\<close>

definition le_bytes :: "nat \<Rightarrow> 'a::len word \<Rightarrow> bytes" where
  "le_bytes n v = map (\<lambda>i. ucast (drop_bit (8 * i) v AND 0xff)) [0..<n]"

definition w_u8 :: "u8 \<Rightarrow> bytes" where
  "w_u8 v = [v]"

definition w_u16 :: "u16 \<Rightarrow> bytes" where
  "w_u16 v = le_bytes 2 v"

definition w_u32 :: "u32 \<Rightarrow> bytes" where
  "w_u32 v = le_bytes 4 v"

definition w_u64 :: "u64 \<Rightarrow> bytes" where
  "w_u64 v = le_bytes 8 v"

definition w_boo :: "bool \<Rightarrow> bytes" where
  "w_boo b = w_u8 (if b then 1 else 0)"

definition w_dbl :: "double \<Rightarrow> bytes" where
  "w_dbl d = w_u64 (bits d)"

definition char_byte :: "char \<Rightarrow> u8" where
  "char_byte c = of_nat (of_char c)"

definition byte_char :: "u8 \<Rightarrow> char" where
  "byte_char b = char_of (unat b)"

definition w_str :: "string \<Rightarrow> bytes" where
  "w_str s = w_u64 (of_nat (length s)) @ map char_byte s"

text \<open>A count is a \<open>static_cast<std::uint32_t>\<close> of a size.\<close>

definition w_count :: "nat \<Rightarrow> bytes" where
  "w_count n = w_u32 (of_nat n)"

definition r_u8 :: "bytes \<Rightarrow> (u8 \<times> bytes) option" where
  "r_u8 bs = (case bs of [] \<Rightarrow> None | b # rest \<Rightarrow> Some (b, rest))"

text \<open>The \<open>|\<close> of the bytes, byte \<open>i\<close> shifted by \<open>8 * i\<close>.\<close>

fun le_or :: "nat \<Rightarrow> bytes \<Rightarrow> 'a::len word" where
  "le_or i [] = 0"
| "le_or i (b # bs) = push_bit (8 * i) (ucast b) OR le_or (Suc i) bs"

definition r_le :: "nat \<Rightarrow> bytes \<Rightarrow> ('a::len word \<times> bytes) option" where
  "r_le n bs = (if length bs < n then None else Some (le_or 0 (take n bs), drop n bs))"

definition r_u16 :: "bytes \<Rightarrow> (u16 \<times> bytes) option" where
  "r_u16 = r_le 2"

definition r_u32 :: "bytes \<Rightarrow> (u32 \<times> bytes) option" where
  "r_u32 = r_le 4"

definition r_u64 :: "bytes \<Rightarrow> (u64 \<times> bytes) option" where
  "r_u64 = r_le 8"

definition r_boo :: "bytes \<Rightarrow> (bool \<times> bytes) option" where
  "r_boo bs = do { (v, rest) \<leftarrow> r_u8 bs; Some (v \<noteq> 0, rest) }"

definition r_dbl :: "bytes \<Rightarrow> (double \<times> bytes) option" where
  "r_dbl bs = do { (u, rest) \<leftarrow> r_u64 bs; Some (Double u, rest) }"

definition r_str :: "bytes \<Rightarrow> (string \<times> bytes) option" where
  "r_str bs = do {
     (len, rest) \<leftarrow> r_u64 bs;
     if kMaxCount < unat len \<or> length rest < unat len then None
     else Some (map byte_char (take (unat len) rest), drop (unat len) rest) }"

text \<open>An enumeration byte, rejected above the last enumerator.\<close>

definition w_enum :: "'a list \<Rightarrow> 'a \<Rightarrow> bytes" where
  "w_enum all x = w_u8 (of_nat (enum_index all x))"

definition r_enum :: "'a list \<Rightarrow> bytes \<Rightarrow> ('a \<times> bytes) option" where
  "r_enum all bs = do { (v, rest) \<leftarrow> r_u8 bs; x \<leftarrow> enum_at all (unat v); Some (x, rest) }"

text \<open>\<open>n\<close> elements in sequence.\<close>

definition w_all :: "('a \<Rightarrow> bytes) \<Rightarrow> 'a list \<Rightarrow> bytes" where
  "w_all w xs = concat (map w xs)"

fun r_many :: "(bytes \<Rightarrow> ('a \<times> bytes) option) \<Rightarrow> nat \<Rightarrow> bytes \<Rightarrow> ('a list \<times> bytes) option" where
  "r_many r 0 bs = Some ([], bs)"
| "r_many r (Suc n) bs = do { (x, rest) \<leftarrow> r bs; (xs, rest') \<leftarrow> r_many r n rest; Some (x # xs, rest') }"

definition r_counted :: "(bytes \<Rightarrow> ('a \<times> bytes) option) \<Rightarrow> bytes \<Rightarrow> ('a list \<times> bytes) option" where
  "r_counted r bs = do {
     (count, rest) \<leftarrow> r_u32 bs;
     if kMaxCount < unat count then None else r_many r (unat count) rest }"

definition w_counted :: "('a \<Rightarrow> bytes) \<Rightarrow> 'a list \<Rightarrow> bytes" where
  "w_counted w xs = w_count (length xs) @ w_all w xs"

definition fnv_step :: "u64 \<Rightarrow> u8 \<Rightarrow> u64" where
  "fnv_step h b = (h XOR ucast b) * 1099511628211"

definition fnv1a :: "bytes \<Rightarrow> u64" where
  "fnv1a bs = foldl fnv_step 1469598103934665603 bs"

section \<open>Little-endian round trip\<close>

lemma byte_mask_bit: "bit (0xff :: 'a::len word) n \<longleftrightarrow> n < 8 \<and> n < LENGTH('a)"
proof -
  have "(0xff :: 'a word) = mask 8" by (simp add: mask_eq_exp_minus_1)
  then show ?thesis by (simp only: bit_mask_iff possible_bit_word) blast
qed

lemma byte_bit:
  "bit (ucast (drop_bit m (v :: 'a::len word) AND 0xff) :: u8) n \<longleftrightarrow> n < 8 \<and> bit v (m + n)"
  by (simp only: bit_unsigned_iff bit_and_iff bit_drop_bit_eq byte_mask_bit possible_bit_word comp_apply)
    (auto dest: bit_imp_le_length)

lemma le_or_bit:
  fixes v :: "'a::len word"
  defines "f \<equiv> \<lambda>i. ucast (drop_bit (8 * i) v AND 0xff) :: u8"
  shows "bit (le_or j (map f [j..<j + m]) :: 'a word) k \<longleftrightarrow> 8 * j \<le> k \<and> k < 8 * (j + m) \<and> bit v k"
proof (induction m arbitrary: j)
  case 0
  then show ?case by simp
next
  case (Suc m)
  have "[j..<j + Suc m] = j # [Suc j..<Suc j + m]" by (simp add: upt_conv_Cons)
  then have "le_or j (map f [j..<j + Suc m]) =
      push_bit (8 * j) (ucast (f j)) OR (le_or (Suc j) (map f [Suc j..<Suc j + m]) :: 'a word)"
    by (simp only: list.map le_or.simps)
  moreover have "bit (push_bit (8 * j) (ucast (f j)) :: 'a word) k \<longleftrightarrow> 8 * j \<le> k \<and> k < 8 * j + 8 \<and> bit v k"
  proof -
    have "bit (f j) i \<longleftrightarrow> i < 8 \<and> bit v (8 * j + i)" for i by (simp only: f_def byte_bit)
    then have "bit (push_bit (8 * j) (ucast (f j)) :: 'a word) k \<longleftrightarrow>
        8 * j \<le> k \<and> k < LENGTH('a) \<and> k - 8 * j < 8 \<and> bit v (8 * j + (k - 8 * j))"
      by (simp only: bit_push_bit_iff bit_unsigned_iff possible_bit_word) linarith
    moreover have "bit v k \<Longrightarrow> k < LENGTH('a)" by (rule bit_imp_le_length)
    ultimately show ?thesis by (cases "8 * j \<le> k") (simp_all, linarith)
  qed
  ultimately show ?case by (simp only: bit_or_iff Suc) auto
qed

lemma le_or_le_bytes:
  assumes "LENGTH('a::len) = 8 * n"
  shows "le_or 0 (le_bytes n (v :: 'a word)) = v"
  using le_or_bit [of 0 v n] assms
  by (intro bit_word_eqI) (simp add: le_bytes_def)

lemma length_le_bytes [simp]: "length (le_bytes n v) = n"
  by (simp add: le_bytes_def)

lemma r_le_roundtrip:
  assumes "LENGTH('a::len) = 8 * n"
  shows "r_le n (le_bytes n (v :: 'a word) @ rest) = Some (v, rest)"
  using le_or_le_bytes [OF assms] by (simp add: r_le_def)

text \<open>The converse: the bytes are determined by the integer they were read as.\<close>

lemma bit_le_or:
  "bit (le_or j bs :: 'a::len word) k \<longleftrightarrow>
     8 * j \<le> k \<and> k < 8 * (j + length bs) \<and> k < LENGTH('a) \<and> bit (bs ! (k div 8 - j)) (k mod 8)"
proof (induction bs arbitrary: j)
  case Nil
  then show ?case by simp
next
  case (Cons b bs)
  have byte: "bit b n \<Longrightarrow> n < 8" for n using bit_imp_le_length [of b n] by simp
  have "bit (push_bit (8 * j) (ucast b) :: 'a word) k \<longleftrightarrow> 8 * j \<le> k \<and> k < LENGTH('a) \<and> bit b (k - 8 * j)"
    by (simp only: bit_push_bit_iff bit_unsigned_iff possible_bit_word) linarith
  also have "\<dots> \<longleftrightarrow> 8 * j \<le> k \<and> k < 8 * (j + 1) \<and> k < LENGTH('a) \<and> bit b (k mod 8)"
  proof (cases "8 * j \<le> k \<and> k < 8 * (j + 1)")
    case True
    then have "k div 8 = j" by (intro div_nat_eqI) simp_all
    then have "k - 8 * j = k mod 8" by (metis minus_mult_div_eq_mod)
    with True show ?thesis by simp
  qed (use byte in \<open>fastforce\<close>)
  finally have head: "bit (push_bit (8 * j) (ucast b) :: 'a word) k \<longleftrightarrow>
      8 * j \<le> k \<and> k < 8 * (j + 1) \<and> k < LENGTH('a) \<and> bit b (k mod 8)" .
  show ?case
  proof (cases "8 * (j + 1) \<le> k")
    case True
    then have "Suc j \<le> k div 8" by (simp add: less_eq_div_iff_mult_less_eq mult.commute)
    then have "k div 8 - j = Suc (k div 8 - Suc j)" by linarith
    with True show ?thesis by (simp add: bit_or_iff head Cons.IH)
  next
    case False
    then show ?thesis
      by (cases "8 * j \<le> k") (auto simp: bit_or_iff head Cons.IH nth_Cons')
  qed
qed

lemma le_bytes_le_or:
  assumes "LENGTH('a::len) = 8 * n" and "length bs = n"
  shows "le_bytes n (le_or 0 bs :: 'a word) = bs"
proof (rule nth_equalityI)
  fix i assume "i < length (le_bytes n (le_or 0 bs :: 'a word))"
  then have i: "i < n" by (simp add: le_bytes_def)
  have "bit (ucast (drop_bit (8 * i) (le_or 0 bs :: 'a word) AND 0xff) :: u8) k \<longleftrightarrow> bit (bs ! i) k" for k
  proof (cases "k < 8")
    case True
    then have "(8 * i + k) div 8 = i" "(8 * i + k) mod 8 = k" "8 * i + k < 8 * n"
      using i by simp_all
    with True assms show ?thesis by (simp only: byte_bit bit_le_or) simp
  next
    case False
    then show ?thesis using bit_imp_le_length [of "bs ! i" k] by (simp only: byte_bit) auto
  qed
  then show "le_bytes n (le_or 0 bs :: 'a word) ! i = bs ! i"
    using i by (simp add: le_bytes_def bit_eq_iff)
qed (simp add: le_bytes_def assms)

lemma r_le_exact:
  assumes "LENGTH('a::len) = 8 * n" and "r_le n bs = Some (v :: 'a word, rest)"
  shows "bs = le_bytes n v @ rest"
proof -
  from assms(2) have len: "n \<le> length bs" and v: "v = le_or 0 (take n bs)" and rest: "rest = drop n bs"
    by (auto simp: r_le_def split: if_splits)
  from len have "le_bytes n v = take n bs" unfolding v by (intro le_bytes_le_or assms(1)) simp
  then show ?thesis by (simp add: rest)
qed

lemma r_le_None: "r_le n bs = None \<longleftrightarrow> length bs < n"
  by (simp add: r_le_def)

section \<open>The codec interface\<close>

text \<open>
  What a client relies on: what was written is read back, and the reader stops where the writer
  stopped. \<open>ok\<close> are the values within the limits of the format.
\<close>

locale codec =
  fixes enc :: "'a \<Rightarrow> bytes" and dec :: "bytes \<Rightarrow> ('a \<times> bytes) option" and ok :: "'a \<Rightarrow> bool"
  assumes dec_enc: "ok x \<Longrightarrow> dec (enc x @ rest) = Some (x, rest)"
begin

text \<open>Codes are uniquely decodable: two concatenations are equal only with equal values in front.\<close>

lemma enc_inject: "ok x \<Longrightarrow> ok y \<Longrightarrow> enc x @ r = enc y @ r' \<longleftrightarrow> x = y \<and> r = r'"
  by (metis dec_enc option.inject prod.inject)

lemma many_enc: "\<forall>x\<in>set xs. ok x \<Longrightarrow> r_many dec (length xs) (w_all enc xs @ rest) = Some (xs, rest)"
  by (induction xs) (simp_all add: w_all_def dec_enc)

end

interpretation u8_codec: codec w_u8 r_u8 "\<lambda>_. True"
  by unfold_locales (simp add: w_u8_def r_u8_def)

interpretation u16_codec: codec w_u16 r_u16 "\<lambda>_. True"
  by unfold_locales (simp add: w_u16_def r_u16_def r_le_roundtrip)

interpretation u32_codec: codec w_u32 r_u32 "\<lambda>_. True"
  by unfold_locales (simp add: w_u32_def r_u32_def r_le_roundtrip)

interpretation u64_codec: codec w_u64 r_u64 "\<lambda>_. True"
  by unfold_locales (simp add: w_u64_def r_u64_def r_le_roundtrip)

text \<open>
  The fixed-width codes are exact: the reader accepts exactly the code of its result, and it fails
  exactly on fewer bytes than the width.
\<close>

locale exact_codec = codec +
  fixes width :: nat
  assumes enc_dec: "dec bs = Some (x, rest) \<Longrightarrow> bs = enc x @ rest"
    and dec_None: "dec bs = None \<longleftrightarrow> length bs < width"
    and all_ok: "ok x"
begin

lemma dec_iff: "dec bs = Some (x, rest) \<longleftrightarrow> bs = enc x @ rest"
  using enc_dec dec_enc all_ok by blast

lemma length_enc: "length (enc x) = width"
proof -
  have "dec (enc x @ []) \<noteq> None" unfolding dec_enc [OF all_ok] by simp
  then have ge: "width \<le> length (enc x)" unfolding dec_None by simp
  show ?thesis
  proof (rule ccontr)
    assume "length (enc x) \<noteq> width"
    with ge have lt: "width < length (enc x)" by simp
    then have "dec (take width (enc x)) \<noteq> None" unfolding dec_None by simp
    then obtain y r where yr: "dec (take width (enc x)) = Some (y, r)" by auto
    then have "take width (enc x) = enc y @ r" by (rule enc_dec)
    moreover have "enc x = take width (enc x) @ drop width (enc x)" by (rule append_take_drop_id [symmetric])
    ultimately have "enc x @ [] = enc y @ (r @ drop width (enc x))" by (metis append_Nil2 append_assoc)
    then have "x = y \<and> [] = r @ drop width (enc x)" by (rule enc_inject [OF all_ok all_ok, THEN iffD1])
    with lt show False by auto
  qed
qed

text \<open>Changing the code changes the value.\<close>

lemma dec_changed:
  assumes "(enc x)[i := b] \<noteq> enc x"
  shows "\<exists>y. (\<forall>rest. dec ((enc x)[i := b] @ rest) = Some (y, rest)) \<and> y \<noteq> x"
proof -
  let ?c = "(enc x)[i := b]"
  have len: "length ?c = width" by (simp add: length_enc)
  then have "dec ?c \<noteq> None" unfolding dec_None by simp
  then obtain y r where "dec ?c = Some (y, r)" by auto
  then have c: "?c = enc y @ r" by (rule enc_dec)
  with len have "r = []" using length_enc [of y] by simp
  with c have "?c = enc y" by simp
  then have "\<forall>rest. dec (?c @ rest) = Some (y, rest)" by (simp add: dec_enc all_ok)
  moreover have "y \<noteq> x" using \<open>?c = enc y\<close> assms by auto
  ultimately show ?thesis by blast
qed

end

interpretation u8_exact: exact_codec w_u8 r_u8 "\<lambda>_. True" 1
  by unfold_locales (auto simp: w_u8_def r_u8_def split: list.splits)

interpretation u16_exact: exact_codec w_u16 r_u16 "\<lambda>_. True" 2
  by unfold_locales (simp_all add: w_u16_def r_u16_def r_le_exact r_le_None)

interpretation u32_exact: exact_codec w_u32 r_u32 "\<lambda>_. True" 4
  by unfold_locales (simp_all add: w_u32_def r_u32_def r_le_exact r_le_None)

interpretation u64_exact: exact_codec w_u64 r_u64 "\<lambda>_. True" 8
  by unfold_locales (simp_all add: w_u64_def r_u64_def r_le_exact r_le_None)

declare u8_codec.dec_enc [OF TrueI, codec_simps] u16_codec.dec_enc [OF TrueI, codec_simps]
  u32_codec.dec_enc [OF TrueI, codec_simps] u64_codec.dec_enc [OF TrueI, codec_simps]

interpretation boo_codec: codec w_boo r_boo "\<lambda>_. True"
  by unfold_locales (simp add: w_boo_def r_boo_def codec_simps)

interpretation dbl_codec: codec w_dbl r_dbl "\<lambda>_. True"
  by unfold_locales (simp add: w_dbl_def r_dbl_def codec_simps)

lemma char_roundtrip [simp]: "byte_char (char_byte c) = c"
proof -
  have "(of_char c :: nat) < 256" by (rule nat_of_char_less_256)
  then have "unat (char_byte c) = of_char c" by (simp add: char_byte_def unat_of_nat)
  then show ?thesis by (simp add: byte_char_def)
qed

definition str_ok :: "string \<Rightarrow> bool" where
  "str_ok s \<longleftrightarrow> length s \<le> kMaxCount"

interpretation str_codec: codec w_str r_str str_ok
proof unfold_locales
  fix s rest
  assume ok: "str_ok s"
  then have "unat (of_nat (length s) :: u64) = length s"
    by (simp add: str_ok_def kMaxCount_def unat_of_nat)
  with ok show "r_str (w_str s @ rest) = Some (s, rest)"
    by (simp add: r_str_def w_str_def codec_simps str_ok_def map_idI)
qed

declare boo_codec.dec_enc [OF TrueI, codec_simps] dbl_codec.dec_enc [OF TrueI, codec_simps]
  str_codec.dec_enc [codec_simps]

context enumeration
begin

lemma enum_dec_enc: "r_enum enumerators (w_enum enumerators x @ rest) = Some (x, rest)"
  by (simp add: r_enum_def w_enum_def codec_simps at_byte)

end

lemmas enum_codecs [codec_simps] =
  EndpointKind_enum.enum_dec_enc LinkKind_enum.enum_dec_enc Transport_enum.enum_dec_enc
  RequestShape_enum.enum_dec_enc Direction_enum.enum_dec_enc CollectiveShape_enum.enum_dec_enc
  PlanState_enum.enum_dec_enc Feasibility_enum.enum_dec_enc CostFactor_enum.enum_dec_enc
  Provenance_enum.enum_dec_enc

context codec
begin

text \<open>A counted sequence of encodable values, up to the format's limit, is encodable.\<close>

definition list_ok :: "'a list \<Rightarrow> bool" where
  "list_ok xs \<longleftrightarrow> length xs \<le> kMaxCount \<and> (\<forall>x\<in>set xs. ok x)"

lemma counted_dec_enc: "list_ok xs \<Longrightarrow> r_counted dec (w_counted enc xs @ rest) = Some (xs, rest)"
proof -
  assume xs: "list_ok xs"
  then have "unat (of_nat (length xs) :: u32) = length xs"
    by (simp add: list_ok_def kMaxCount_def unat_of_nat)
  with xs show ?thesis
    by (simp add: r_counted_def w_counted_def w_count_def codec_simps list_ok_def many_enc)
qed

end

section \<open>Readers that report an error\<close>

text \<open>
  A reader with a reason for each early return; used with the errors of the store and with the
  details of the protocol.
\<close>

type_synonym ('e, 'a) reader = "bytes \<Rightarrow> 'e + ('a \<times> bytes)"

definition rbind :: "('e, 'a) reader \<Rightarrow> ('a \<Rightarrow> ('e, 'b) reader) \<Rightarrow> ('e, 'b) reader" where
  "rbind m f bs = (case m bs of Inl e \<Rightarrow> Inl e | Inr (x, rest) \<Rightarrow> f x rest)"

definition rreturn :: "'a \<Rightarrow> ('e, 'a) reader" where
  "rreturn x bs = Inr (x, bs)"

definition rfail :: "'e \<Rightarrow> ('e, 'a) reader" where
  "rfail e bs = Inl e"

definition rget :: "'e \<Rightarrow> (bytes \<Rightarrow> ('a \<times> bytes) option) \<Rightarrow> ('e, 'a) reader" where
  "rget e r bs = (case r bs of None \<Rightarrow> Inl e | Some xr \<Rightarrow> Inr xr)"

text \<open>An enumeration byte: missing, or above the last enumerator.\<close>

definition renum :: "'a list \<Rightarrow> 'e \<Rightarrow> 'e \<Rightarrow> ('e, 'a) reader" where
  "renum all e bad = rbind (rget e r_u8)
     (\<lambda>v. case enum_at all (unat v) of None \<Rightarrow> rfail bad | Some x \<Rightarrow> rreturn x)"

text \<open>A count: missing, or above \<open>kMaxCount\<close>; then that many elements.\<close>

definition rcount :: "'e \<Rightarrow> 'e \<Rightarrow> ('e, nat) reader" where
  "rcount e big = rbind (rget e r_u32)
     (\<lambda>n. if kMaxCount < unat n then rfail big else rreturn (unat n))"

fun rmany :: "('e, 'a) reader \<Rightarrow> nat \<Rightarrow> ('e, 'a list) reader" where
  "rmany r 0 = rreturn []"
| "rmany r (Suc n) = rbind r (\<lambda>x. rbind (rmany r n) (\<lambda>xs. rreturn (x # xs)))"

definition rlist :: "'e \<Rightarrow> 'e \<Rightarrow> ('e, 'a) reader \<Rightarrow> ('e, 'a list) reader" where
  "rlist e big r = rbind (rcount e big) (rmany r)"

lemmas reader_defs = rbind_def rreturn_def rget_def rfail_def

lemma rbind_Inr:
  "rbind m f bs = Inr y \<longleftrightarrow> (\<exists>x rest. m bs = Inr (x, rest) \<and> f x rest = Inr y)"
  by (auto simp: rbind_def split: sum.split)

lemma rcount_read:
  assumes "n \<le> kMaxCount"
  shows "rcount e big (w_count n @ rest) = Inr (n, rest)"
proof -
  have "unat (of_nat n :: u32) = n" using assms by (simp add: kMaxCount_def unat_of_nat)
  with assms show ?thesis by (simp add: rcount_def w_count_def reader_defs codec_simps)
qed

text \<open>
  A reader gives back a view of what was written: the value itself, or what the format keeps of it.
  Sequences inherit it.
\<close>

locale reader_codec =
  fixes enc :: "'a \<Rightarrow> bytes" and dec :: "('e, 'b) reader" and ok :: "'a \<Rightarrow> bool" and view :: "'a \<Rightarrow> 'b"
  assumes read_back: "ok x \<Longrightarrow> dec (enc x @ rest) = Inr (view x, rest)"
begin

definition list_ok :: "'a list \<Rightarrow> bool" where
  "list_ok xs \<longleftrightarrow> length xs \<le> kMaxCount \<and> (\<forall>x\<in>set xs. ok x)"

lemma many_read_back:
  "\<forall>x\<in>set xs. ok x \<Longrightarrow> rmany dec (length xs) (w_all enc xs @ rest) = Inr (map view xs, rest)"
  by (induction xs) (simp_all add: w_all_def read_back reader_defs)

lemma list_read_back:
  "list_ok xs \<Longrightarrow> rlist e big dec (w_counted enc xs @ rest) = Inr (map view xs, rest)"
  by (simp add: rlist_def w_counted_def rcount_read list_ok_def many_read_back rbind_def)

end

context codec
begin

lemma rget_enc: "ok x \<Longrightarrow> rget e dec (enc x @ rest) = Inr (x, rest)"
  by (simp add: rget_def dec_enc)

lemma many_rget_enc:
  "\<forall>x\<in>set xs. ok x \<Longrightarrow> rmany (rget e dec) (length xs) (w_all enc xs @ rest) = Inr (xs, rest)"
  by (induction xs) (simp_all add: w_all_def dec_enc reader_defs)

lemma rlist_enc:
  "list_ok xs \<Longrightarrow> rlist e big (rget e' dec) (w_counted enc xs @ rest) = Inr (xs, rest)"
  by (simp add: rlist_def w_counted_def rcount_read list_ok_def many_rget_enc rbind_def)

end

context enumeration
begin

lemma renum_enc: "renum enumerators e bad (w_enum enumerators x @ rest) = Inr (x, rest)"
  by (simp add: renum_def w_enum_def reader_defs codec_simps at_byte)

end

text \<open>A 32-bit value written as 64 bits.\<close>

lemma u32_u64_bound: "\<not> 4294967295 < (ucast (n :: u32) :: u64)"
proof -
  have "unat (ucast n :: u64) = unat n"
    by (simp add: unsigned_ucast_eq take_bit_nat_eq_self unsigned_less [THEN less_le_trans])
  moreover have "unat n < 2 ^ 32" using unsigned_less [of n] by simp
  ultimately show ?thesis by (simp add: word_less_nat_alt)
qed

lemma u32_u64_back: "ucast (ucast (n :: u32) :: u64) = n"
proof -
  have "unat (ucast n :: u64) = unat n"
    by (simp add: unsigned_ucast_eq take_bit_nat_eq_self unsigned_less [THEN less_le_trans])
  then have "of_nat (unat (ucast n :: u64)) = n" by simp
  then show ?thesis by (simp only: of_nat_unat)
qed

lemma length_codes [simp]:
  "length (w_u64 v) = 8" "length (w_u32 v') = 4" "length (w_boo b) = 1" "length (w_dbl d) = 8"
  "length (w_enum xs x) = 1" "length (w_str s) = 8 + length s"
  "length (w_counted w ys) = 4 + length (w_all w ys)"
  by (simp_all add: w_u64_def w_u32_def w_u8_def w_boo_def w_dbl_def w_enum_def w_str_def
      w_counted_def w_count_def)

lemma length_w_all [simp]:
  "length (w_all w []) = 0" "length (w_all w (x # xs)) = length (w x) + length (w_all w xs)"
  by (simp_all add: w_all_def)

lemma rget_exact:
  assumes "\<And>bs x rest. dec bs = Some (x, rest) \<longleftrightarrow> bs = enc x @ rest"
  shows "rget e dec bs = Inr (x, rest) \<longleftrightarrow> bs = enc x @ rest"
  unfolding assms [symmetric] by (auto simp: rget_def split: option.split)

section \<open>The checksum detects every change of a single byte\<close>

lemma fnv_prime_odd: "h * 1099511628211 = h' * 1099511628211 \<longleftrightarrow> h = (h' :: u64)"
proof
  assume eq: "h * 1099511628211 = h' * 1099511628211"
  have inv: "(1099511628211 :: u64) * 14886173955864302971 = 1" by simp
  have "h * (1099511628211 * 14886173955864302971) = h' * (1099511628211 * 14886173955864302971)"
    using arg_cong [OF eq, of "\<lambda>x. x * 14886173955864302971"] by (simp only: mult.assoc)
  then show "h = h'" by (simp only: inv mult_1_right)
qed simp

lemma xor_right_cancel: "h XOR x = h' XOR x \<longleftrightarrow> h = (h' :: 'a::len word)"
proof
  assume "h XOR x = h' XOR x"
  then have "(h XOR x) XOR x = (h' XOR x) XOR x" by (rule arg_cong)
  then show "h = h'" by (simp add: xor.assoc)
qed simp

lemma fnv_step_inject_state: "fnv_step h b = fnv_step h' b \<longleftrightarrow> h = h'"
  unfolding fnv_step_def fnv_prime_odd by (rule xor_right_cancel)

lemma fnv_step_inject_byte: "fnv_step h b = fnv_step h b' \<longleftrightarrow> b = b'"
proof -
  have "h XOR ucast b = h XOR ucast b' \<longleftrightarrow> (ucast b :: u64) = ucast b'"
    by (simp only: xor.commute [of h] xor_right_cancel)
  also have "\<dots> \<longleftrightarrow> b = b'"
  proof
    assume "(ucast b :: u64) = ucast b'"
    then have "unat (ucast b :: u64) = unat (ucast b' :: u64)" by (rule arg_cong)
    then have "unat b = unat b'" by (simp add: unsigned_ucast_eq take_bit_nat_eq_self unsigned_less [THEN less_le_trans])
    then show "b = b'" by (rule word_unat_eq_iff [THEN iffD2])
  qed simp
  finally show ?thesis unfolding fnv_step_def fnv_prime_odd .
qed

lemma fnv_fold_inject: "foldl fnv_step h bs = foldl fnv_step h' bs \<longleftrightarrow> h = h'"
  by (induction bs arbitrary: h h') (simp_all add: fnv_step_inject_state)

lemma fnv1a_single_byte:
  assumes "i < length bs" and "bs ! i \<noteq> b"
  shows "fnv1a (bs[i := b]) \<noteq> fnv1a bs"
proof -
  have "bs[i := b] = take i bs @ b # drop (Suc i) bs" using assms by (simp add: upd_conv_take_nth_drop)
  moreover have "bs = take i bs @ bs ! i # drop (Suc i) bs" using assms by (simp add: id_take_nth_drop)
  ultimately show ?thesis
    using assms(2) unfolding fnv1a_def
    by (metis (no_types, lifting) fnv_fold_inject fnv_step_inject_byte foldl_Cons foldl_append)
qed

end
