(* ===== verification/Store_Format.thy ===== *)
theory Store_Format
  imports Byte_Codec
begin

text \<open>
  The store of \<open>src/persistence.cpp\<close>: its structures (\<open>persistence.hpp\<close>), \<open>serializeStore\<close> and
  \<open>parseStore\<close> with the error code and the detail of every early return. \<open>readCost\<close>, \<open>readStage\<close> and
  \<open>readPath\<close> only report success or failure and are option readers; the readers of \<open>parseStore\<close>
  report a \<open>PersistError\<close>. The body of the loop over the plans is split into six groups of fields,
  in the order of the bytes. What a parsed store has to satisfy is in theory Persistence.
\<close>

section \<open>Structures\<close>

datatype PersistErrorCode =
  OK | BAD_MAGIC | UNSUPPORTED_VERSION | TRUNCATION | CORRUPTION | CHECKSUM_MISMATCH |
  MALFORMED_LENGTH | OVERSIZED_COUNT | INVALID_ENUM | DUPLICATE_ID | DUPLICATE_CURRENT_AUTHORITY |
  GENERATION_REGRESSION | IMPOSSIBLE_LIFECYCLE | PATH_MISSING_ENDPOINT | INVALID_STAGE_ORDER |
  CYCLE_FORBIDDEN | PAYLOAD_MISMATCH | SELECTED_PLAN_NOT_IN_CANDIDATE_SET |
  COMMITTED_PLAN_NO_EVIDENCE | NAN_INF_COST | CP_OVERFLOW | TRAILING_GARBAGE

primrec toString_PersistErrorCode :: "PersistErrorCode \<Rightarrow> string" where
  "toString_PersistErrorCode OK = ''OK''"
| "toString_PersistErrorCode BAD_MAGIC = ''BAD_MAGIC''"
| "toString_PersistErrorCode UNSUPPORTED_VERSION = ''UNSUPPORTED_VERSION''"
| "toString_PersistErrorCode TRUNCATION = ''TRUNCATION''"
| "toString_PersistErrorCode CORRUPTION = ''CORRUPTION''"
| "toString_PersistErrorCode CHECKSUM_MISMATCH = ''CHECKSUM_MISMATCH''"
| "toString_PersistErrorCode MALFORMED_LENGTH = ''MALFORMED_LENGTH''"
| "toString_PersistErrorCode OVERSIZED_COUNT = ''OVERSIZED_COUNT''"
| "toString_PersistErrorCode INVALID_ENUM = ''INVALID_ENUM''"
| "toString_PersistErrorCode DUPLICATE_ID = ''DUPLICATE_ID''"
| "toString_PersistErrorCode DUPLICATE_CURRENT_AUTHORITY = ''DUPLICATE_CURRENT_AUTHORITY''"
| "toString_PersistErrorCode GENERATION_REGRESSION = ''GENERATION_REGRESSION''"
| "toString_PersistErrorCode IMPOSSIBLE_LIFECYCLE = ''IMPOSSIBLE_LIFECYCLE''"
| "toString_PersistErrorCode PATH_MISSING_ENDPOINT = ''PATH_MISSING_ENDPOINT''"
| "toString_PersistErrorCode INVALID_STAGE_ORDER = ''INVALID_STAGE_ORDER''"
| "toString_PersistErrorCode CYCLE_FORBIDDEN = ''CYCLE_FORBIDDEN''"
| "toString_PersistErrorCode PAYLOAD_MISMATCH = ''PAYLOAD_MISMATCH''"
| "toString_PersistErrorCode SELECTED_PLAN_NOT_IN_CANDIDATE_SET = ''SELECTED_PLAN_NOT_IN_CANDIDATE_SET''"
| "toString_PersistErrorCode COMMITTED_PLAN_NO_EVIDENCE = ''COMMITTED_PLAN_NO_EVIDENCE''"
| "toString_PersistErrorCode NAN_INF_COST = ''NAN_INF_COST''"
| "toString_PersistErrorCode CP_OVERFLOW = ''CP_OVERFLOW''"
| "toString_PersistErrorCode TRAILING_GARBAGE = ''TRAILING_GARBAGE''"

record PersistError =
  pe_code :: PersistErrorCode
  pe_detail :: string

definition persist_err :: "PersistErrorCode \<Rightarrow> string \<Rightarrow> PersistError" where
  "persist_err c d = \<lparr>pe_code = c, pe_detail = d\<rparr>"

definition no_error :: PersistError where
  "no_error = \<lparr>pe_code = OK, pe_detail = []\<rparr>"

definition pe_ok :: "PersistError \<Rightarrow> bool" where
  "pe_ok e \<longleftrightarrow> pe_code e = OK"

record SupersessionRecord =
  su_superseded :: CommunicationPlanId
  su_newer :: CommunicationPlanId

record StoreRecord =
  sr_plan :: CommunicationPlan
  sr_state :: PlanState

record StoreState =
  ss_epoch :: Generation
  ss_plans :: "StoreRecord list"
  ss_supersessions :: "SupersessionRecord list"
  ss_requests :: "CommunicationRequest list"

definition default_StoreState :: StoreState where
  "default_StoreState = \<lparr>ss_epoch = 0, ss_plans = [], ss_supersessions = [], ss_requests = []\<rparr>"

definition kMagic :: u32 where
  "kMagic = 0x43504C52"

definition kFormatVersion :: u32 where
  "kFormatVersion = 1"

section \<open>Costs, stages and paths\<close>

definition writeComponent :: "CostComponent \<Rightarrow> bytes" where
  "writeComponent c =
     w_enum all_CostFactor (cc_factor c) @ w_dbl (cc_weight c) @ w_dbl (cc_value c) @
     w_enum all_Provenance (cc_provenance c)"

definition readComponent :: "bytes \<Rightarrow> (CostComponent \<times> bytes) option" where
  "readComponent bs = do {
     (f, bs) \<leftarrow> r_enum all_CostFactor bs;
     (w, bs) \<leftarrow> r_dbl bs;
     (v, bs) \<leftarrow> r_dbl bs;
     (p, bs) \<leftarrow> r_enum all_Provenance bs;
     Some (\<lparr>cc_factor = f, cc_weight = w, cc_value = v, cc_provenance = p\<rparr>, bs) }"

definition writeCost :: "CostSummary \<Rightarrow> bytes" where
  "writeCost c = w_counted writeComponent (cs_components c) @ w_dbl (cs_total c)"

definition readCost :: "bytes \<Rightarrow> (CostSummary \<times> bytes) option" where
  "readCost bs = do {
     (cs, bs) \<leftarrow> r_counted readComponent bs;
     (t, bs) \<leftarrow> r_dbl bs;
     Some (\<lparr>cs_components = cs, cs_total = t\<rparr>, bs) }"

definition writeStage :: "Stage \<Rightarrow> bytes" where
  "writeStage s =
     w_u64 (st_id s) @ w_u64 (st_generation s) @
     w_u64 (st_source s) @ w_u64 (st_destination s) @ w_u64 (st_link s) @
     w_enum all_Transport (st_transport s) @
     w_u64 (st_payload s) @ w_u64 (st_expectedBandwidth s) @ w_u64 (st_expectedLatency s) @
     w_u64 (st_stagingResource s) @
     w_boo (st_requiresAuthority s) @
     w_enum all_Provenance (st_provenance s) @
     w_str (st_description s)"

definition readStage :: "bytes \<Rightarrow> (Stage \<times> bytes) option" where
  "readStage bs = do {
     (i, bs) \<leftarrow> r_u64 bs;
     (g, bs) \<leftarrow> r_u64 bs;
     (src, bs) \<leftarrow> r_u64 bs;
     (dst, bs) \<leftarrow> r_u64 bs;
     (l, bs) \<leftarrow> r_u64 bs;
     (tr, bs) \<leftarrow> r_enum all_Transport bs;
     (pay, bs) \<leftarrow> r_u64 bs;
     (bw, bs) \<leftarrow> r_u64 bs;
     (lat, bs) \<leftarrow> r_u64 bs;
     (res, bs) \<leftarrow> r_u64 bs;
     (auth, bs) \<leftarrow> r_boo bs;
     (p, bs) \<leftarrow> r_enum all_Provenance bs;
     (d, bs) \<leftarrow> r_str bs;
     Some (\<lparr>st_id = i, st_generation = g, st_source = src, st_destination = dst, st_link = l,
            st_transport = tr, st_payload = pay, st_expectedBandwidth = bw,
            st_expectedLatency = lat, st_stagingResource = res, st_requiresAuthority = auth,
            st_provenance = p, st_description = d\<rparr>, bs) }"

definition writePath :: "Path \<Rightarrow> bytes" where
  "writePath p =
     w_u64 (pa_id p) @ w_u64 (pa_generation p) @
     w_u64 (pa_source p) @ w_u64 (pa_destination p) @
     w_u64 (pa_totalPayload p) @
     w_enum all_Provenance (pa_provenance p) @
     w_counted writeStage (pa_stages p) @
     writeCost (pa_cost p) @
     w_str (pa_failureDomain p) @
     w_str (pa_reason p)"

definition readPath :: "bytes \<Rightarrow> (Path \<times> bytes) option" where
  "readPath bs = do {
     (i, bs) \<leftarrow> r_u64 bs;
     (g, bs) \<leftarrow> r_u64 bs;
     (src, bs) \<leftarrow> r_u64 bs;
     (dst, bs) \<leftarrow> r_u64 bs;
     (tot, bs) \<leftarrow> r_u64 bs;
     (pr, bs) \<leftarrow> r_enum all_Provenance bs;
     (ss, bs) \<leftarrow> r_counted readStage bs;
     (c, bs) \<leftarrow> readCost bs;
     (fd, bs) \<leftarrow> r_str bs;
     (why, bs) \<leftarrow> r_str bs;
     Some (\<lparr>pa_id = i, pa_generation = g, pa_source = src, pa_destination = dst, pa_stages = ss,
            pa_totalPayload = tot, pa_cost = c, pa_provenance = pr, pa_failureDomain = fd,
            pa_reason = why\<rparr>, bs) }"

interpretation component_codec: codec writeComponent readComponent "\<lambda>_. True"
  by unfold_locales (simp add: writeComponent_def readComponent_def codec_simps)

definition cost_ok :: "CostSummary \<Rightarrow> bool" where
  "cost_ok c \<longleftrightarrow> length (cs_components c) \<le> kMaxCount"

interpretation cost_codec: codec writeCost readCost cost_ok
  by unfold_locales (simp add: writeCost_def readCost_def codec_simps cost_ok_def
      component_codec.counted_dec_enc component_codec.list_ok_def)

definition stage_ok :: "Stage \<Rightarrow> bool" where
  "stage_ok s \<longleftrightarrow> str_ok (st_description s)"

interpretation stage_codec: codec writeStage readStage stage_ok
  by unfold_locales (simp add: writeStage_def readStage_def codec_simps stage_ok_def)

definition path_ok :: "Path \<Rightarrow> bool" where
  "path_ok p \<longleftrightarrow> stage_codec.list_ok (pa_stages p) \<and> cost_ok (pa_cost p) \<and>
     str_ok (pa_failureDomain p) \<and> str_ok (pa_reason p)"

interpretation path_codec: codec writePath readPath path_ok
  by unfold_locales (simp add: writePath_def readPath_def codec_simps path_ok_def
      stage_codec.counted_dec_enc cost_codec.dec_enc)

declare cost_codec.dec_enc [codec_simps] stage_codec.dec_enc [codec_simps]
  path_codec.dec_enc [codec_simps]

section \<open>Serialization\<close>

definition write_id_pair :: "u64 \<times> u64 \<Rightarrow> bytes" where
  "write_id_pair ab = w_u64 (fst ab) @ w_u64 (snd ab)"

definition write_plan_head :: "StoreRecord \<Rightarrow> bytes" where
  "write_plan_head r = (let p = sr_plan r in
     w_u64 (pl_id p) @ w_u64 (pl_generation p) @
     w_u64 (pl_requestId p) @ w_u64 (pl_requestGeneration p) @
     w_enum all_RequestShape (pl_shape p) @ w_u64 (pl_primaryPath p) @
     w_enum all_Feasibility (pl_feasibility p) @ w_enum all_PlanState (sr_state r))"

definition write_plan_routes :: "CommunicationPlan \<Rightarrow> bytes" where
  "write_plan_routes p =
     w_counted writePath (pl_candidatePaths p) @
     w_counted w_u64 (pl_fallbackPaths p) @
     w_counted writeStage (pl_orderedStages p)"

definition write_plan_generations :: "CommunicationPlan \<Rightarrow> bytes" where
  "write_plan_generations p =
     w_u64 (pl_topologyGeneration p) @ w_u64 (pl_capacityGeneration p) @
     w_u64 (pl_reservationGeneration p) @ w_u64 (pl_congestionGeneration p) @
     w_u64 (pl_capabilityGeneration p) @ w_u64 (pl_healthGeneration p) @
     w_u64 (pl_placementGeneration p) @ w_u64 (pl_authorityGeneration p)"

definition write_plan_bindings :: "CommunicationPlan \<Rightarrow> bytes" where
  "write_plan_bindings p =
     w_counted write_id_pair (pl_endpointGenerations p) @
     w_counted write_id_pair (pl_linkGenerations p) @
     w_counted w_u64 (pl_requiredStagingResources p) @
     w_counted w_u64 (pl_requiredResourceClaims p)"

definition write_plan_account :: "CommunicationPlan \<Rightarrow> bytes" where
  "write_plan_account p =
     writeCost (pl_cost p) @ w_counted w_str (pl_explanations p) @ w_str (pl_provenance p) @
     w_u64 (pl_revalidationGeneration p) @ w_boo (pl_revalidateBeforeExecute p) @
     w_str (pl_handoffRequirement p)"

definition write_plan_targets :: "CommunicationPlan \<Rightarrow> bytes" where
  "write_plan_targets p =
     w_counted w_u64 (pl_multicastDestinations p) @
     w_enum all_CollectiveShape (pl_collectiveShape p) @
     w_counted w_u64 (pl_collectiveParticipants p) @
     w_str (pl_description p) @ w_str (pl_createdProvenance p)"

definition write_record :: "StoreRecord \<Rightarrow> bytes" where
  "write_record r = (let p = sr_plan r in
     write_plan_head r @ write_plan_routes p @ write_plan_generations p @
     write_plan_bindings p @ write_plan_account p @ write_plan_targets p)"

definition write_supersession :: "SupersessionRecord \<Rightarrow> bytes" where
  "write_supersession s = w_u64 (su_superseded s) @ w_u64 (su_newer s)"

definition write_request :: "CommunicationRequest \<Rightarrow> bytes" where
  "write_request q =
     w_u64 (rq_id q) @ w_u64 (rq_generation q) @ w_enum all_RequestShape (rq_shape q) @
     w_u64 (rq_source q) @ w_u64 (rq_payloadSize q) @
     w_enum all_Direction (rq_direction q) @
     w_enum all_CollectiveShape (rq_collectiveShape q) @
     w_u64 (ucast (rq_collectiveCount q)) @
     w_counted w_u64 (rq_destinations q)"

definition store_body :: "StoreState \<Rightarrow> bytes" where
  "store_body s =
     w_u64 (ss_epoch s) @ w_counted write_record (ss_plans s) @
     w_counted write_supersession (ss_supersessions s) @
     w_counted write_request (ss_requests s)"

definition serializeStore :: "StoreState \<Rightarrow> bytes" where
  "serializeStore s = (let b = store_body s in
     w_u32 kMagic @ w_u32 kFormatVersion @ w_u64 (fnv1a b) @ w_u64 (of_nat (length b)) @ b)"

section \<open>Readers of the store\<close>

type_synonym 'a store_reader = "(PersistError, 'a) reader"

text \<open>The generic readers with the error code and the detail of the source.\<close>

abbreviation pget :: "PersistErrorCode \<Rightarrow> string \<Rightarrow> (bytes \<Rightarrow> ('a \<times> bytes) option) \<Rightarrow> 'a store_reader" where
  "pget c d \<equiv> rget (persist_err c d)"

abbreviation pfail :: "PersistErrorCode \<Rightarrow> string \<Rightarrow> 'a store_reader" where
  "pfail c d \<equiv> rfail (persist_err c d)"

abbreviation pu64 :: "string \<Rightarrow> u64 store_reader" where
  "pu64 d \<equiv> pget TRUNCATION d r_u64"

abbreviation penum :: "'a list \<Rightarrow> string \<Rightarrow> string \<Rightarrow> 'a store_reader" where
  "penum all d bad \<equiv> renum all (persist_err TRUNCATION d) (persist_err INVALID_ENUM bad)"

abbreviation pcount :: "string \<Rightarrow> string \<Rightarrow> nat store_reader" where
  "pcount d big \<equiv> rcount (persist_err TRUNCATION d) (persist_err OVERSIZED_COUNT big)"

abbreviation plist :: "string \<Rightarrow> string \<Rightarrow> 'a store_reader \<Rightarrow> 'a list store_reader" where
  "plist d big \<equiv> rlist (persist_err TRUNCATION d) (persist_err OVERSIZED_COUNT big)"

definition read_id_pair :: "string \<Rightarrow> string \<Rightarrow> (u64 \<times> u64) store_reader" where
  "read_id_pair d d' = rbind (pu64 d) (\<lambda>a. rbind (pu64 d') (\<lambda>b. rreturn (a, b)))"

section \<open>Parsing\<close>

text \<open>The identity is checked before the next field is read: not null, not seen before.\<close>

definition parse_plan_head ::
  "CommunicationPlanId list \<Rightarrow> (CommunicationPlanId list \<times> StoreRecord) store_reader" where
  "parse_plan_head ids =
     rbind (pu64 ''plan id'') (\<lambda>i.
     if i = 0 then pfail CORRUPTION ''null plan id''
     else if i \<in> set ids then pfail DUPLICATE_ID ''duplicate plan id''
     else
     rbind (pu64 ''plan gen'') (\<lambda>g.
     rbind (pu64 ''request id'') (\<lambda>rid.
     rbind (pu64 ''request gen'') (\<lambda>rg.
     rbind (penum all_RequestShape ''shape'' ''invalid shape'') (\<lambda>sh.
     rbind (pu64 ''primary'') (\<lambda>prim.
     rbind (penum all_Feasibility ''feasibility'' ''invalid feasibility'') (\<lambda>fb.
     rbind (penum all_PlanState ''state'' ''invalid state'') (\<lambda>st.
     rreturn (set_insert i ids,
       \<lparr>sr_plan = default_CommunicationPlan
          \<lparr>pl_id := i, pl_generation := g, pl_requestId := rid, pl_requestGeneration := rg,
           pl_shape := sh, pl_primaryPath := prim, pl_feasibility := fb\<rparr>,
        sr_state = st\<rparr>)))))))))"

definition parse_plan_routes :: "CommunicationPlan \<Rightarrow> CommunicationPlan store_reader" where
  "parse_plan_routes p =
     rbind (plist ''paths'' ''oversized path count'' (pget CORRUPTION ''path'' readPath)) (\<lambda>paths.
     rbind (plist ''fallbacks'' ''oversized fallback count'' (pu64 ''fallback'')) (\<lambda>falls.
     rbind (plist ''stages'' ''oversized stage count'' (pget CORRUPTION ''stage'' readStage)) (\<lambda>stgs.
     rreturn (p\<lparr>pl_candidatePaths := paths, pl_fallbackPaths := falls, pl_orderedStages := stgs\<rparr>))))"

definition parse_plan_generations :: "CommunicationPlan \<Rightarrow> CommunicationPlan store_reader" where
  "parse_plan_generations p =
     rbind (pu64 ''topology'') (\<lambda>topo.
     rbind (pu64 ''capacity'') (\<lambda>capa.
     rbind (pu64 ''reservation'') (\<lambda>resv.
     rbind (pu64 ''congestion'') (\<lambda>cong.
     rbind (pu64 ''capability'') (\<lambda>capb.
     rbind (pu64 ''health'') (\<lambda>heal.
     rbind (pu64 ''placement'') (\<lambda>plac.
     rbind (pu64 ''authority'') (\<lambda>auth.
     rreturn (p\<lparr>pl_topologyGeneration := topo, pl_capacityGeneration := capa,
       pl_reservationGeneration := resv, pl_congestionGeneration := cong,
       pl_capabilityGeneration := capb, pl_healthGeneration := heal,
       pl_placementGeneration := plac, pl_authorityGeneration := auth\<rparr>)))))))))"

definition parse_plan_bindings :: "CommunicationPlan \<Rightarrow> CommunicationPlan store_reader" where
  "parse_plan_bindings p =
     rbind (plist ''endpoint gens'' ''oversized endpoint gens'' (read_id_pair ''eid'' ''egen'')) (\<lambda>egs.
     rbind (plist ''link gens'' ''oversized link gens'' (read_id_pair ''lid'' ''lgen'')) (\<lambda>lgs.
     rbind (plist ''staging resources'' ''oversized staging resources'' (pu64 ''rid'')) (\<lambda>rs.
     rbind (plist ''claims'' ''oversized claims'' (pu64 ''claim'')) (\<lambda>cs.
     rreturn (p\<lparr>pl_endpointGenerations := egs, pl_linkGenerations := lgs,
       pl_requiredStagingResources := rs, pl_requiredResourceClaims := cs\<rparr>)))))"

definition parse_plan_account :: "CommunicationPlan \<Rightarrow> CommunicationPlan store_reader" where
  "parse_plan_account p =
     rbind (pget CORRUPTION ''cost'' readCost) (\<lambda>c.
     rbind (plist ''explanations'' ''oversized explanations'' (pget CORRUPTION ''explanation'' r_str)) (\<lambda>ex.
     rbind (pget CORRUPTION ''provenance'' r_str) (\<lambda>prov.
     rbind (pu64 ''reval gen'') (\<lambda>rg.
     rbind (pget TRUNCATION ''reval bool'' r_boo) (\<lambda>rb.
     rbind (pget CORRUPTION ''handoff'' r_str) (\<lambda>ho.
     rreturn (p\<lparr>pl_cost := c, pl_explanations := ex, pl_provenance := prov,
       pl_revalidationGeneration := rg, pl_revalidateBeforeExecute := rb,
       pl_handoffRequirement := ho\<rparr>)))))))"

definition parse_plan_targets :: "CommunicationPlan \<Rightarrow> CommunicationPlan store_reader" where
  "parse_plan_targets p =
     rbind (plist ''multicast dests'' ''oversized multicast dests'' (pu64 ''mdest'')) (\<lambda>mds.
     rbind (penum all_CollectiveShape ''collective shape'' ''invalid collective shape'') (\<lambda>cs.
     rbind (plist ''collective participants'' ''oversized participants'' (pu64 ''cp'')) (\<lambda>cps.
     rbind (pget CORRUPTION ''description'' r_str) (\<lambda>d.
     rbind (pget CORRUPTION ''created provenance'' r_str) (\<lambda>cr.
     rreturn (p\<lparr>pl_multicastDestinations := mds, pl_collectiveShape := cs,
       pl_collectiveParticipants := cps, pl_description := d, pl_createdProvenance := cr\<rparr>))))))"

text \<open>One iteration of the loop over the plans, then the loop.\<close>

definition parse_record ::
  "CommunicationPlanId list \<Rightarrow> (CommunicationPlanId list \<times> StoreRecord) store_reader" where
  "parse_record ids =
     rbind (parse_plan_head ids) (\<lambda>(ids', r).
     rbind (parse_plan_routes (sr_plan r)) (\<lambda>p.
     rbind (parse_plan_generations p) (\<lambda>p.
     rbind (parse_plan_bindings p) (\<lambda>p.
     rbind (parse_plan_account p) (\<lambda>p.
     rbind (parse_plan_targets p) (\<lambda>p.
     rreturn (ids', r\<lparr>sr_plan := p\<rparr>)))))))"

fun parse_records :: "nat \<Rightarrow> CommunicationPlanId list \<Rightarrow> StoreRecord list store_reader" where
  "parse_records 0 ids = rreturn []"
| "parse_records (Suc n) ids =
     rbind (parse_record ids) (\<lambda>(ids', r). rbind (parse_records n ids') (\<lambda>rs. rreturn (r # rs)))"

definition parse_supersession :: "SupersessionRecord store_reader" where
  "parse_supersession =
     rbind (pu64 ''sup old'') (\<lambda>a. rbind (pu64 ''sup new'') (\<lambda>b.
     rreturn \<lparr>su_superseded = a, su_newer = b\<rparr>))"

definition parse_request :: "CommunicationRequest store_reader" where
  "parse_request =
     rbind (pu64 ''req id'') (\<lambda>i.
     rbind (pu64 ''req gen'') (\<lambda>g.
     rbind (penum all_RequestShape ''req shape'' ''invalid req shape'') (\<lambda>sh.
     rbind (pu64 ''req source'') (\<lambda>src.
     rbind (pu64 ''req payload'') (\<lambda>pay.
     rbind (penum all_Direction ''req dir'' ''invalid direction'') (\<lambda>d.
     rbind (penum all_CollectiveShape ''req cshape'' ''invalid collective shape'') (\<lambda>cs.
     rbind (pu64 ''req count'') (\<lambda>n.
     if 4294967295 < n then pfail CP_OVERFLOW ''collective count overflow''
     else
     rbind (plist ''req dests'' ''oversized req dests'' (pu64 ''req dest'')) (\<lambda>ds.
     rreturn (default_CommunicationRequest
       \<lparr>rq_id := i, rq_generation := g, rq_shape := sh, rq_source := src, rq_payloadSize := pay,
        rq_direction := d, rq_collectiveShape := cs, rq_collectiveCount := ucast n,
        rq_destinations := ds\<rparr>))))))))))"

definition parse_body :: "StoreState \<Rightarrow> StoreState store_reader" where
  "parse_body out =
     rbind (pu64 ''missing epoch'') (\<lambda>e.
     rbind (pcount ''missing plans'' ''oversized plan count'') (\<lambda>n.
     rbind (parse_records n []) (\<lambda>ps.
     rbind (plist ''supersessions'' ''oversized supersessions'' parse_supersession) (\<lambda>ss.
     rbind (plist ''requests'' ''oversized requests'' parse_request) (\<lambda>qs.
     rreturn \<lparr>ss_epoch = e, ss_plans = ss_plans out @ ps,
       ss_supersessions = ss_supersessions out @ ss, ss_requests = ss_requests out @ qs\<rparr>)))))"

text \<open>
  The frame: magic, version, checksum and length, the checksum over the payload, the payload, and
  nothing after it. \<open>Inr\<close> is the state of \<open>out\<close> before \<open>validateStore\<close>.
\<close>

definition parse_frame :: "(u64 \<times> u64) store_reader" where
  "parse_frame =
     rbind (pget TRUNCATION ''missing magic'' r_u32) (\<lambda>magic.
     if magic \<noteq> kMagic then pfail BAD_MAGIC ''bad magic''
     else
     rbind (pget TRUNCATION ''missing version'' r_u32) (\<lambda>ver.
     if ver \<noteq> kFormatVersion then pfail UNSUPPORTED_VERSION ''unsupported version''
     else
     rbind (pget TRUNCATION ''missing checksum'' r_u64) (\<lambda>chk.
     rbind (pget TRUNCATION ''missing payload length'' r_u64) (\<lambda>n.
     rreturn (chk, n)))))"

definition parse_store_bytes :: "bytes \<Rightarrow> StoreState \<Rightarrow> PersistError + StoreState" where
  "parse_store_bytes data out =
     (case parse_frame data of
        Inl e \<Rightarrow> Inl e
      | Inr ((chk, n), rest) \<Rightarrow>
          if length rest < unat n
          then Inl (persist_err TRUNCATION ''payload length exceeds buffer'')
          else if fnv1a (take (unat n) rest) \<noteq> chk
          then Inl (persist_err CHECKSUM_MISMATCH ''checksum mismatch'')
          else
            (case parse_body out (take (unat n) rest) of
               Inl e \<Rightarrow> Inl e
             | Inr (s, left) \<Rightarrow>
                 if left \<noteq> []
                 then Inl (persist_err TRAILING_GARBAGE ''trailing garbage in payload'')
                 else if length rest \<noteq> unat n
                 then Inl (persist_err TRAILING_GARBAGE ''trailing bytes after frame'')
                 else Inr s))"

section \<open>Reading back what was written\<close>

lemmas penum_encs = RequestShape_enum.renum_enc Feasibility_enum.renum_enc PlanState_enum.renum_enc
  CollectiveShape_enum.renum_enc Direction_enum.renum_enc

lemmas pget_encs = u64_codec.rget_enc [OF TrueI] boo_codec.rget_enc [OF TrueI] str_codec.rget_enc
  cost_codec.rget_enc

definition u64s_ok :: "u64 list \<Rightarrow> bool" where
  "u64s_ok xs \<longleftrightarrow> length xs \<le> kMaxCount"

lemma u64s_read: "u64s_ok xs \<Longrightarrow> plist d big (pu64 e) (w_counted w_u64 xs @ rest) = Inr (xs, rest)"
  by (rule u64_codec.rlist_enc) (simp add: u64s_ok_def u64_codec.list_ok_def)

interpretation id_pair_reader: reader_codec write_id_pair "read_id_pair d d'" "\<lambda>_. True" "\<lambda>x. x" for d d'
  by unfold_locales (simp add: write_id_pair_def read_id_pair_def rbind_def rreturn_def pget_encs)

interpretation supersession_reader: reader_codec write_supersession parse_supersession "\<lambda>_. True" "\<lambda>x. x"
  by unfold_locales (simp add: write_supersession_def parse_supersession_def rbind_def rreturn_def pget_encs)

text \<open>What the store keeps of a request; every other field comes back with its default.\<close>

definition persisted_request :: "CommunicationRequest \<Rightarrow> CommunicationRequest" where
  "persisted_request q = default_CommunicationRequest
     \<lparr>rq_id := rq_id q, rq_generation := rq_generation q, rq_shape := rq_shape q,
      rq_source := rq_source q, rq_payloadSize := rq_payloadSize q, rq_direction := rq_direction q,
      rq_collectiveShape := rq_collectiveShape q, rq_collectiveCount := rq_collectiveCount q,
      rq_destinations := rq_destinations q\<rparr>"

interpretation request_reader:
  reader_codec write_request parse_request "\<lambda>q. u64s_ok (rq_destinations q)" persisted_request
  by unfold_locales
    (simp add: write_request_def parse_request_def rbind_def rreturn_def pget_encs penum_encs
      u64s_read persisted_request_def u32_u64_bound u32_u64_back)

text \<open>The six groups of a plan, each back in its fields.\<close>

lemma head_back:
  assumes "pl_id (sr_plan r) \<noteq> 0" and "pl_id (sr_plan r) \<notin> set ids"
  shows "parse_plan_head ids (write_plan_head r @ rest) =
    Inr ((set_insert (pl_id (sr_plan r)) ids,
      \<lparr>sr_plan = default_CommunicationPlan
         \<lparr>pl_id := pl_id (sr_plan r), pl_generation := pl_generation (sr_plan r),
          pl_requestId := pl_requestId (sr_plan r),
          pl_requestGeneration := pl_requestGeneration (sr_plan r),
          pl_shape := pl_shape (sr_plan r), pl_primaryPath := pl_primaryPath (sr_plan r),
          pl_feasibility := pl_feasibility (sr_plan r)\<rparr>,
       sr_state = sr_state r\<rparr>), rest)"
  using assms
  by (simp add: parse_plan_head_def write_plan_head_def Let_def rbind_def rreturn_def pget_encs penum_encs)

definition routes_ok :: "CommunicationPlan \<Rightarrow> bool" where
  "routes_ok p \<longleftrightarrow> path_codec.list_ok (pl_candidatePaths p) \<and> u64s_ok (pl_fallbackPaths p) \<and>
     stage_codec.list_ok (pl_orderedStages p)"

lemma routes_back:
  "routes_ok q \<Longrightarrow> parse_plan_routes p (write_plan_routes q @ rest) =
     Inr (p\<lparr>pl_candidatePaths := pl_candidatePaths q, pl_fallbackPaths := pl_fallbackPaths q,
       pl_orderedStages := pl_orderedStages q\<rparr>, rest)"
  by (simp add: parse_plan_routes_def write_plan_routes_def rbind_def rreturn_def routes_ok_def
      path_codec.rlist_enc stage_codec.rlist_enc u64s_read)

lemma generations_back:
  "parse_plan_generations p (write_plan_generations q @ rest) =
     Inr (p\<lparr>pl_topologyGeneration := pl_topologyGeneration q,
       pl_capacityGeneration := pl_capacityGeneration q,
       pl_reservationGeneration := pl_reservationGeneration q,
       pl_congestionGeneration := pl_congestionGeneration q,
       pl_capabilityGeneration := pl_capabilityGeneration q,
       pl_healthGeneration := pl_healthGeneration q,
       pl_placementGeneration := pl_placementGeneration q,
       pl_authorityGeneration := pl_authorityGeneration q\<rparr>, rest)"
  by (simp add: parse_plan_generations_def write_plan_generations_def rbind_def rreturn_def pget_encs)

definition bindings_ok :: "CommunicationPlan \<Rightarrow> bool" where
  "bindings_ok p \<longleftrightarrow> length (pl_endpointGenerations p) \<le> kMaxCount \<and>
     length (pl_linkGenerations p) \<le> kMaxCount \<and> u64s_ok (pl_requiredStagingResources p) \<and>
     u64s_ok (pl_requiredResourceClaims p)"

lemma pairs_back:
  "length xs \<le> kMaxCount \<Longrightarrow>
   plist d big (read_id_pair e e') (w_counted write_id_pair xs @ rest) = Inr (xs, rest)"
  using id_pair_reader.list_read_back [of xs _ _ e e' rest]
  by (simp add: id_pair_reader.list_ok_def)

lemma bindings_back:
  "bindings_ok q \<Longrightarrow> parse_plan_bindings p (write_plan_bindings q @ rest) =
     Inr (p\<lparr>pl_endpointGenerations := pl_endpointGenerations q,
       pl_linkGenerations := pl_linkGenerations q,
       pl_requiredStagingResources := pl_requiredStagingResources q,
       pl_requiredResourceClaims := pl_requiredResourceClaims q\<rparr>, rest)"
  by (simp add: parse_plan_bindings_def write_plan_bindings_def rbind_def rreturn_def
      bindings_ok_def pairs_back u64s_read)

definition account_ok :: "CommunicationPlan \<Rightarrow> bool" where
  "account_ok p \<longleftrightarrow> cost_ok (pl_cost p) \<and> str_codec.list_ok (pl_explanations p) \<and>
     str_ok (pl_provenance p) \<and> str_ok (pl_handoffRequirement p)"

lemma account_back:
  "account_ok q \<Longrightarrow> parse_plan_account p (write_plan_account q @ rest) =
     Inr (p\<lparr>pl_cost := pl_cost q, pl_explanations := pl_explanations q,
       pl_provenance := pl_provenance q, pl_revalidationGeneration := pl_revalidationGeneration q,
       pl_revalidateBeforeExecute := pl_revalidateBeforeExecute q,
       pl_handoffRequirement := pl_handoffRequirement q\<rparr>, rest)"
  by (simp add: parse_plan_account_def write_plan_account_def rbind_def rreturn_def account_ok_def
      pget_encs str_codec.rlist_enc)

definition targets_ok :: "CommunicationPlan \<Rightarrow> bool" where
  "targets_ok p \<longleftrightarrow> u64s_ok (pl_multicastDestinations p) \<and> u64s_ok (pl_collectiveParticipants p) \<and>
     str_ok (pl_description p) \<and> str_ok (pl_createdProvenance p)"

lemma targets_back:
  "targets_ok q \<Longrightarrow> parse_plan_targets p (write_plan_targets q @ rest) =
     Inr (p\<lparr>pl_multicastDestinations := pl_multicastDestinations q,
       pl_collectiveShape := pl_collectiveShape q,
       pl_collectiveParticipants := pl_collectiveParticipants q, pl_description := pl_description q,
       pl_createdProvenance := pl_createdProvenance q\<rparr>, rest)"
  by (simp add: parse_plan_targets_def write_plan_targets_def rbind_def rreturn_def targets_ok_def
      pget_encs penum_encs u64s_read)

text \<open>A record within the limits of the format is read back whole.\<close>

definition record_ok :: "StoreRecord \<Rightarrow> bool" where
  "record_ok r \<longleftrightarrow> (let p = sr_plan r in
     pl_id p \<noteq> 0 \<and> routes_ok p \<and> bindings_ok p \<and> account_ok p \<and> targets_ok p)"

lemma record_back:
  assumes "record_ok r" and "pl_id (sr_plan r) \<notin> set ids"
  shows "parse_record ids (write_record r @ rest) =
    Inr ((set_insert (pl_id (sr_plan r)) ids, r), rest)"
proof -
  have ok: "pl_id (sr_plan r) \<noteq> 0" "routes_ok (sr_plan r)" "bindings_ok (sr_plan r)"
    "account_ok (sr_plan r)" "targets_ok (sr_plan r)"
    using assms(1) by (simp_all add: record_ok_def Let_def)
  show ?thesis
    unfolding parse_record_def write_record_def Let_def rbind_def append_assoc
      head_back [OF ok(1) assms(2)]
    by (simp add: routes_back ok generations_back bindings_back account_back targets_back rreturn_def)
qed

lemma records_back:
  assumes "\<forall>r\<in>set rs. record_ok r" and "distinct (map (pl_id \<circ> sr_plan) rs)"
    and "\<forall>r\<in>set rs. pl_id (sr_plan r) \<notin> set ids"
  shows "parse_records (length rs) ids (w_all write_record rs @ rest) = Inr (rs, rest)"
  using assms
proof (induction rs arbitrary: ids)
  case Nil
  then show ?case by (simp add: w_all_def rreturn_def)
next
  case (Cons r rs)
  let ?ids = "set_insert (pl_id (sr_plan r)) ids"
  have "parse_record ids (write_record r @ w_all write_record rs @ rest) =
      Inr ((?ids, r), w_all write_record rs @ rest)"
    using Cons.prems by (intro record_back) simp_all
  moreover have "parse_records (length rs) ?ids (w_all write_record rs @ rest) = Inr (rs, rest)"
    using Cons.prems by (intro Cons.IH) (auto simp: image_iff)
  ultimately show ?case by (simp add: w_all_def rbind_def rreturn_def)
qed

text \<open>
  The stores the format can hold: counts and strings up to \<open>kMaxCount\<close>, distinct plan identities
  other than null, and a payload whose length fits its field.
\<close>

definition storable :: "StoreState \<Rightarrow> bool" where
  "storable s \<longleftrightarrow> length (ss_plans s) \<le> kMaxCount \<and> (\<forall>r\<in>set (ss_plans s). record_ok r) \<and>
     distinct (map (pl_id \<circ> sr_plan) (ss_plans s)) \<and>
     length (ss_supersessions s) \<le> kMaxCount \<and> length (ss_requests s) \<le> kMaxCount \<and>
     (\<forall>q\<in>set (ss_requests s). u64s_ok (rq_destinations q)) \<and> length (store_body s) < 2 ^ 64"

definition persisted :: "StoreState \<Rightarrow> StoreState" where
  "persisted s = s\<lparr>ss_requests := map persisted_request (ss_requests s)\<rparr>"

lemma body_back:
  assumes "storable s"
  shows "parse_body default_StoreState (store_body s @ rest) = Inr (persisted s, rest)"
proof -
  have recs: "parse_records (length (ss_plans s)) [] (w_all write_record (ss_plans s) @ more) =
      Inr (ss_plans s, more)" for more
    using assms by (intro records_back) (simp_all add: storable_def)
  have sups: "plist d big parse_supersession (w_counted write_supersession (ss_supersessions s) @ more) =
      Inr (ss_supersessions s, more)" for d big more
    using supersession_reader.list_read_back [of "ss_supersessions s" _ _ more] assms
    by (simp add: supersession_reader.list_ok_def storable_def)
  have reqs: "plist d big parse_request (w_counted write_request (ss_requests s) @ more) =
      Inr (map persisted_request (ss_requests s), more)" for d big more
    using assms by (intro request_reader.list_read_back) (simp add: request_reader.list_ok_def storable_def)
  have count: "pcount d big (w_count (length (ss_plans s)) @ more) = Inr (length (ss_plans s), more)"
    for d big more using assms by (intro rcount_read) (simp add: storable_def)
  show ?thesis
    unfolding parse_body_def store_body_def w_counted_def [of write_record] rbind_def append_assoc
    by (simp add: pget_encs count recs sups reqs rreturn_def default_StoreState_def persisted_def)
qed

lemma store_frame_back:
  "parse_frame (w_u32 kMagic @ w_u32 kFormatVersion @ w_u64 chk @ w_u64 n @ rest) = Inr ((chk, n), rest)"
  by (simp add: parse_frame_def reader_defs codec_simps)

end
