(* ===== verification/Lifecycle.thy ===== *)
theory Lifecycle
  imports Core_Types
begin

text \<open>
  \<open>src/lifecycle.cpp\<close>: the table of legal plan transitions, and what it guarantees about every run
  that follows it.
\<close>

section \<open>The transition table\<close>

primrec canTransition :: "PlanState \<Rightarrow> PlanState \<Rightarrow> bool" where
  "canTransition PlanState.REQUESTED to \<longleftrightarrow>
     to = PlanState.DISCOVERING \<or> to = PlanState.CONSTRUCTING \<or> to = PlanState.CANCELLED \<or>
     to = PlanState.FAILED \<or> to = PlanState.RETIRED"
| "canTransition PlanState.DISCOVERING to \<longleftrightarrow>
     to = PlanState.CONSTRUCTING \<or> to = PlanState.FILTERING \<or> to = PlanState.CANCELLED \<or>
     to = PlanState.FAILED \<or> to = PlanState.RETIRED"
| "canTransition PlanState.CONSTRUCTING to \<longleftrightarrow>
     to = PlanState.FILTERING \<or> to = PlanState.RANKING \<or> to = PlanState.CANCELLED \<or>
     to = PlanState.FAILED \<or> to = PlanState.RETIRED"
| "canTransition PlanState.FILTERING to \<longleftrightarrow>
     to = PlanState.RANKING \<or> to = PlanState.CANCELLED \<or> to = PlanState.FAILED \<or>
     to = PlanState.RETIRED"
| "canTransition PlanState.RANKING to \<longleftrightarrow>
     to = PlanState.PLAN_READY \<or> to = PlanState.CANCELLED \<or> to = PlanState.FAILED \<or>
     to = PlanState.RETIRED"
| "canTransition PlanState.PLAN_READY to \<longleftrightarrow>
     to = PlanState.AWAITING_RESOURCE_COMMIT \<or> to = PlanState.REVALIDATION_REQUIRED \<or>
     to = PlanState.CANCELLED \<or> to = PlanState.FAILED \<or> to = PlanState.SUPERSEDED \<or>
     to = PlanState.RETIRED"
| "canTransition PlanState.AWAITING_RESOURCE_COMMIT to \<longleftrightarrow>
     to = PlanState.COMMITTED \<or> to = PlanState.CANCELLED \<or> to = PlanState.FAILED \<or>
     to = PlanState.REVALIDATION_REQUIRED \<or> to = PlanState.SUPERSEDED \<or> to = PlanState.RETIRED"
| "canTransition PlanState.COMMITTED to \<longleftrightarrow>
     to = PlanState.AWAITING_EXECUTION \<or> to = PlanState.CANCELLED \<or> to = PlanState.FAILED \<or>
     to = PlanState.REVALIDATION_REQUIRED \<or> to = PlanState.SUPERSEDED \<or> to = PlanState.RETIRED"
| "canTransition PlanState.AWAITING_EXECUTION to \<longleftrightarrow>
     to = PlanState.ACTIVE \<or> to = PlanState.CANCELLED \<or> to = PlanState.FAILED \<or>
     to = PlanState.REVALIDATION_REQUIRED \<or> to = PlanState.SUPERSEDED \<or> to = PlanState.RETIRED"
| "canTransition PlanState.ACTIVE to \<longleftrightarrow>
     to = PlanState.COMPLETED \<or> to = PlanState.REVALIDATION_REQUIRED \<or> to = PlanState.FAILED \<or>
     to = PlanState.CANCELLED \<or> to = PlanState.RETIRED"
| "canTransition PlanState.REVALIDATION_REQUIRED to \<longleftrightarrow>
     to = PlanState.AWAITING_EXECUTION \<or> to = PlanState.PLAN_READY \<or> to = PlanState.CANCELLED \<or>
     to = PlanState.FAILED \<or> to = PlanState.RETIRED"
| "canTransition PlanState.COMPLETED to \<longleftrightarrow> to = PlanState.RETIRED"
| "canTransition PlanState.CANCELLED to \<longleftrightarrow> to = PlanState.RETIRED"
| "canTransition PlanState.FAILED to \<longleftrightarrow> to = PlanState.RETIRED"
| "canTransition PlanState.SUPERSEDED to \<longleftrightarrow> to = PlanState.RETIRED"
| "canTransition PlanState.RETIRED to \<longleftrightarrow> False"

section \<open>Runs of the table\<close>

text \<open>A legal run is a sequence of states in which each is a legal successor of the one before.\<close>

inductive legal_run :: "PlanState \<Rightarrow> PlanState list \<Rightarrow> PlanState \<Rightarrow> bool" where
  stay: "legal_run s [s] s"
| move: "legal_run s run t \<Longrightarrow> canTransition t u \<Longrightarrow> legal_run s (run @ [u]) u"

inductive_cases legal_run_moveE: "legal_run s run t"

definition settled :: "PlanState \<Rightarrow> bool" where
  "settled s \<longleftrightarrow> s \<in> {PlanState.COMPLETED, PlanState.CANCELLED, PlanState.FAILED,
     PlanState.SUPERSEDED, PlanState.RETIRED}"

lemma settled_step: "settled s \<Longrightarrow> canTransition s t \<Longrightarrow> t = PlanState.RETIRED"
  by (auto simp: settled_def)

lemma settled_run: "legal_run s run t \<Longrightarrow> settled s \<Longrightarrow> t = s \<or> t = PlanState.RETIRED"
proof (induction rule: legal_run.induct)
  case (move s run t u)
  then have "settled t" by (auto simp: settled_def)
  with move show ?case by (auto dest: settled_step)
qed simp

text \<open>
  The order of progress: every legal move that does not leave \<open>REVALIDATION_REQUIRED\<close> goes strictly
  up, so only revalidation can bring a plan back to an earlier state.
\<close>

primrec progress :: "PlanState \<Rightarrow> nat" where
  "progress PlanState.REQUESTED = 0"
| "progress PlanState.DISCOVERING = 1"
| "progress PlanState.CONSTRUCTING = 2"
| "progress PlanState.FILTERING = 3"
| "progress PlanState.RANKING = 4"
| "progress PlanState.PLAN_READY = 5"
| "progress PlanState.AWAITING_RESOURCE_COMMIT = 6"
| "progress PlanState.COMMITTED = 7"
| "progress PlanState.AWAITING_EXECUTION = 8"
| "progress PlanState.ACTIVE = 9"
| "progress PlanState.REVALIDATION_REQUIRED = 10"
| "progress PlanState.COMPLETED = 11"
| "progress PlanState.CANCELLED = 11"
| "progress PlanState.FAILED = 11"
| "progress PlanState.SUPERSEDED = 11"
| "progress PlanState.RETIRED = 12"

lemma progress_step:
  "canTransition s t \<Longrightarrow> s \<noteq> PlanState.REVALIDATION_REQUIRED \<Longrightarrow> progress s < progress t"
  by (cases s) auto

lemma run_without_revalidation_bounded:
  assumes "legal_run s run t" and "PlanState.REVALIDATION_REQUIRED \<notin> set (butlast run)"
  shows "progress s + length run \<le> Suc (progress t)"
  using assms
proof (induction rule: legal_run.induct)
  case (stay s)
  then show ?case by simp
next
  case (move s run t u)
  have "t \<in> set run \<and> last run = t \<and> run \<noteq> []"
    using move.hyps(1) by (induction rule: legal_run.induct) auto
  then have "t \<noteq> PlanState.REVALIDATION_REQUIRED" using move.prems by auto
  moreover have "PlanState.REVALIDATION_REQUIRED \<notin> set (butlast run)"
    using move.prems by (auto dest: in_set_butlastD)
  ultimately show ?case
    using move.IH progress_step [OF move.hyps(2)] by simp
qed

lemma first_states_before_ready:
  assumes "legal_run PlanState.REQUESTED run t"
  shows "progress t < 5 \<or> settled t \<or> PlanState.PLAN_READY \<in> set run"
  using assms
proof (induction PlanState.REQUESTED run t rule: legal_run.induct)
  case stay
  then show ?case by simp
next
  case (move run t u)
  then show ?case by (cases t) (auto simp: settled_def)
qed

section \<open>Theorems\<close>

text \<open>C39: between two revalidations a plan makes a bounded number of moves: a legal run that does not
  leave \<open>REVALIDATION_REQUIRED\<close> visits at most 13 states, each at most once in order of progress.\<close>

theorem runs_without_revalidation_terminate:
  assumes "legal_run s run t" and "PlanState.REVALIDATION_REQUIRED \<notin> set (butlast run)"
  shows "length run \<le> 13 - progress s"
proof -
  have "progress t \<le> 12" by (cases t) simp_all
  with run_without_revalidation_bounded [OF assms] show ?thesis by linarith
qed

theorem runs_without_revalidation_terminate_witness:
  "length [PlanState.ACTIVE, PlanState.COMPLETED] \<le> 13 - progress PlanState.ACTIVE \<and>
   legal_run PlanState.ACTIVE [PlanState.ACTIVE, PlanState.COMPLETED] PlanState.COMPLETED"
proof -
  have "legal_run PlanState.ACTIVE ([PlanState.ACTIVE] @ [PlanState.COMPLETED]) PlanState.COMPLETED"
    by (rule legal_run.intros(2) [OF legal_run.intros(1)]) simp
  with runs_without_revalidation_terminate [OF this] show ?thesis by simp
qed

text \<open>No plan reaches execution without having been ready: a legal run from \<open>REQUESTED\<close> to
  \<open>ACTIVE\<close> passes through \<open>PLAN_READY\<close>.\<close>

lemma active_plans_were_ready:
  assumes "legal_run PlanState.REQUESTED run PlanState.ACTIVE"
  shows "PlanState.PLAN_READY \<in> set run"
  using first_states_before_ready [OF assms] by (simp add: settled_def)

text \<open>The shortest legal run to \<open>ACTIVE\<close>; it does not pass through \<open>COMMITTED\<close>.\<close>

lemma uncommitted_run:
  "legal_run PlanState.REQUESTED
     [PlanState.REQUESTED, PlanState.CONSTRUCTING, PlanState.RANKING, PlanState.PLAN_READY,
      PlanState.REVALIDATION_REQUIRED, PlanState.AWAITING_EXECUTION, PlanState.ACTIVE] PlanState.ACTIVE"
  using legal_run.move [OF legal_run.move [OF legal_run.move [OF legal_run.move [OF legal_run.move
        [OF legal_run.move [OF legal_run.stay [of PlanState.REQUESTED],
            of PlanState.CONSTRUCTING], of PlanState.RANKING], of PlanState.PLAN_READY],
        of PlanState.REVALIDATION_REQUIRED], of PlanState.AWAITING_EXECUTION], of PlanState.ACTIVE]
  by simp

text \<open>The table lets a plan reach \<open>ACTIVE\<close> without ever being \<open>COMMITTED\<close>, through
  \<open>PLAN_READY\<close>, \<open>REVALIDATION_REQUIRED\<close> and \<open>AWAITING_EXECUTION\<close>.\<close>

lemma active_without_commit:
  "\<exists>run. legal_run PlanState.REQUESTED run PlanState.ACTIVE \<and> PlanState.COMMITTED \<notin> set run"
  using uncommitted_run by (intro exI) (rule conjI, assumption, simp)

end
