(* ===== verification/Persistence.thy ===== *)
theory Persistence
  imports Store_Format Lifecycle
begin

text \<open>
  The semantic checks of \<open>src/persistence.cpp\<close> on a parsed store (\<open>validateStore\<close>), the entry point
  \<open>parseStore\<close> and \<open>conservativeRecovery\<close>. A check that passes is \<open>None\<close>; an early return is
  \<open>Some\<close> error. The declarative condition \<open>store_wf\<close> says what an accepted store satisfies.
\<close>

section \<open>Validation\<close>

fun check_components :: "CostComponent list \<Rightarrow> PersistError option" where
  "check_components [] = None"
| "check_components (c # cs) =
     (if \<not> cc_isValid c then Some (persist_err NAN_INF_COST ''cost component NaN/Inf'')
      else check_components cs)"

fun check_payloads :: "u64 \<Rightarrow> Stage list \<Rightarrow> PersistError option" where
  "check_payloads tot [] = None"
| "check_payloads tot (s # ss) =
     (if st_payload s \<noteq> tot then Some (persist_err PAYLOAD_MISMATCH ''stage payload mismatch'')
      else check_payloads tot ss)"

text \<open>The loop over the stages with \<open>prev\<close> and \<open>seen\<close>; \<open>Inr\<close> is the last value of \<open>prev\<close>.\<close>

fun check_chain :: "EndpointId \<Rightarrow> EndpointId list \<Rightarrow> Stage list \<Rightarrow> PersistError + EndpointId" where
  "check_chain prev seen [] = Inr prev"
| "check_chain prev seen (s # ss) =
     (if st_source s \<noteq> prev then Inl (persist_err INVALID_STAGE_ORDER ''stage order broken'')
      else if st_source s = st_destination s
      then Inl (persist_err CYCLE_FORBIDDEN ''self stage cycle'')
      else if st_destination s \<in> set seen
      then Inl (persist_err CYCLE_FORBIDDEN ''endpoint revisit cycle'')
      else check_chain (st_destination s) (set_insert (st_destination s) seen) ss)"

fun check_bound :: "EndpointId list \<Rightarrow> Stage list \<Rightarrow> PersistError option" where
  "check_bound bound [] = None"
| "check_bound bound (s # ss) =
     (if st_source s \<notin> set bound \<or> st_destination s \<notin> set bound
      then Some (persist_err PATH_MISSING_ENDPOINT ''stage endpoint not bound'')
      else check_bound bound ss)"

definition check_path :: "CommunicationPlan \<Rightarrow> Path \<Rightarrow> PersistError option" where
  "check_path p path =
     (case check_payloads (pa_totalPayload path) (pa_stages path) of
        Some e \<Rightarrow> Some e
      | None \<Rightarrow>
          (case check_chain (pa_source path) [] (pa_stages path) of
             Inl e \<Rightarrow> Some e
           | Inr prev \<Rightarrow>
               if pa_stages path \<noteq> [] \<and> prev \<noteq> pa_destination path
               then Some (persist_err PATH_MISSING_ENDPOINT ''path chain does not reach destination'')
               else check_bound (map fst (pl_endpointGenerations p)) (pa_stages path)))"

text \<open>The loop over the candidate paths with \<open>foundPrimary\<close> and \<open>pathIds\<close>.\<close>

fun check_paths ::
  "CommunicationPlan \<Rightarrow> bool \<Rightarrow> PathId list \<Rightarrow> Path list \<Rightarrow> PersistError + bool" where
  "check_paths p found ids [] = Inr found"
| "check_paths p found ids (path # paths) =
     (let found' = (found \<or> pa_id path = pl_primaryPath p) in
      if pa_id path \<in> set ids then Inl (persist_err DUPLICATE_ID ''duplicate path id'')
      else
        (case check_path p path of
           Some e \<Rightarrow> Inl e
         | None \<Rightarrow> check_paths p found' (set_insert (pa_id path) ids) paths))"

definition committed_state :: "PlanState \<Rightarrow> bool" where
  "committed_state s \<longleftrightarrow> s = PlanState.COMMITTED \<or> s = PlanState.AWAITING_EXECUTION \<or> s = PlanState.ACTIVE"

definition check_record :: "StoreRecord \<Rightarrow> PersistError option" where
  "check_record r = (let p = sr_plan r in
     if \<not> totalValid (pl_cost p) then Some (persist_err NAN_INF_COST ''cost total NaN/Inf'')
     else
       (case check_components (cs_components (pl_cost p)) of
          Some e \<Rightarrow> Some e
        | None \<Rightarrow>
            (case check_paths p False [] (pl_candidatePaths p) of
               Inl e \<Rightarrow> Some e
             | Inr found \<Rightarrow>
                 if \<not> found \<and> \<not> isNull (pl_primaryPath p)
                 then Some (persist_err SELECTED_PLAN_NOT_IN_CANDIDATE_SET
                   ''primary path not in candidate path set'')
                 else if committed_state (sr_state r) \<and> pl_requiredResourceClaims p = []
                 then Some (persist_err COMMITTED_PLAN_NO_EVIDENCE
                   ''committed plan lacks resource commitment evidence'')
                 else None)))"

fun check_records :: "CommunicationPlanId list \<Rightarrow> StoreRecord list \<Rightarrow> PersistError option" where
  "check_records ids [] = None"
| "check_records ids (r # rs) =
     (if pl_id (sr_plan r) \<in> set ids then Some (persist_err DUPLICATE_ID ''duplicate plan id'')
      else
        (case check_record r of
           Some e \<Rightarrow> Some e
         | None \<Rightarrow> check_records (set_insert (pl_id (sr_plan r)) ids) rs))"

fun check_requests ::
  "CommunicationRequestId list \<Rightarrow> CommunicationRequest list \<Rightarrow> PersistError option" where
  "check_requests ids [] = None"
| "check_requests ids (q # qs) =
     (if rq_id q \<in> set ids then Some (persist_err DUPLICATE_ID ''duplicate request id'')
      else check_requests (set_insert (rq_id q) ids) qs)"

definition validateStore :: "StoreState \<Rightarrow> PersistError" where
  "validateStore s =
     (case check_records [] (ss_plans s) of
        Some e \<Rightarrow> e
      | None \<Rightarrow>
          (case check_requests [] (ss_requests s) of Some e \<Rightarrow> e | None \<Rightarrow> no_error))"

text \<open>
  \<open>parseStore\<close> appends to the lists of \<open>out\<close>; its caller passes a new \<open>StoreState\<close> and drops it unless
  the result is OK, so that the content of \<open>out\<close> after an error is not part of the result.
\<close>

definition parseStore :: "bytes \<Rightarrow> StoreState \<Rightarrow> PersistError + StoreState" where
  "parseStore data out =
     (case parse_store_bytes data out of
        Inl e \<Rightarrow> Inl e
      | Inr s \<Rightarrow> if pe_ok (validateStore s) then Inr s else Inl (validateStore s))"

section \<open>Recovery\<close>

definition executable_state :: "PlanState \<Rightarrow> bool" where
  "executable_state s \<longleftrightarrow>
     s = PlanState.PLAN_READY \<or> s = PlanState.AWAITING_RESOURCE_COMMIT \<or> s = PlanState.COMMITTED \<or>
     s = PlanState.AWAITING_EXECUTION \<or> s = PlanState.ACTIVE"

definition recover_record :: "StoreRecord \<Rightarrow> StoreRecord" where
  "recover_record r =
     (if executable_state (sr_state r) then r\<lparr>sr_state := PlanState.REVALIDATION_REQUIRED\<rparr> else r)"

definition conservativeRecovery :: "StoreState \<Rightarrow> StoreState" where
  "conservativeRecovery s = s\<lparr>ss_plans := map recover_record (ss_plans s)\<rparr>"

section \<open>What an accepted store satisfies\<close>

text \<open>The stages form a chain from the source to the destination of the path.\<close>

definition chained :: "EndpointId \<Rightarrow> Stage list \<Rightarrow> EndpointId \<Rightarrow> bool" where
  "chained a ss b \<longleftrightarrow> map st_source ss @ [b] = a # map st_destination ss"

definition path_wf :: "CommunicationPlan \<Rightarrow> Path \<Rightarrow> bool" where
  "path_wf p path \<longleftrightarrow> (let ss = pa_stages path in
     (\<forall>s\<in>set ss. st_payload s = pa_totalPayload path) \<and>
     (ss \<noteq> [] \<longrightarrow> chained (pa_source path) ss (pa_destination path)) \<and>
     (\<forall>s\<in>set ss. st_source s \<noteq> st_destination s) \<and>
     distinct (map st_destination ss) \<and>
     (\<forall>s\<in>set ss. {st_source s, st_destination s} \<subseteq> fst ` set (pl_endpointGenerations p)))"

definition record_wf :: "StoreRecord \<Rightarrow> bool" where
  "record_wf r \<longleftrightarrow> (let p = sr_plan r in
     totalValid (pl_cost p) \<and> (\<forall>c\<in>set (cs_components (pl_cost p)). cc_isValid c) \<and>
     distinct (map pa_id (pl_candidatePaths p)) \<and> (\<forall>path\<in>set (pl_candidatePaths p). path_wf p path) \<and>
     (pl_primaryPath p = 0 \<or> pl_primaryPath p \<in> pa_id ` set (pl_candidatePaths p)) \<and>
     (committed_state (sr_state r) \<longrightarrow> pl_requiredResourceClaims p \<noteq> []))"

definition store_wf :: "StoreState \<Rightarrow> bool" where
  "store_wf s \<longleftrightarrow> distinct (map (pl_id \<circ> sr_plan) (ss_plans s)) \<and>
     (\<forall>r\<in>set (ss_plans s). record_wf r) \<and> distinct (map rq_id (ss_requests s))"

lemma check_components_None: "check_components cs = None \<longleftrightarrow> (\<forall>c\<in>set cs. cc_isValid c)"
  by (induction cs) auto

lemma check_payloads_None: "check_payloads t ss = None \<longleftrightarrow> (\<forall>s\<in>set ss. st_payload s = t)"
  by (induction ss) auto

lemma check_bound_None:
  "check_bound bound ss = None \<longleftrightarrow> (\<forall>s\<in>set ss. {st_source s, st_destination s} \<subseteq> set bound)"
  by (induction ss) auto

lemma check_chain_Inr:
  "check_chain a seen ss = Inr b \<longleftrightarrow>
     chained a ss b \<and> (\<forall>s\<in>set ss. st_source s \<noteq> st_destination s) \<and>
     distinct (map st_destination ss) \<and> set (map st_destination ss) \<inter> set seen = {}"
  by (induction a seen ss rule: check_chain.induct) (auto simp: chained_def)

lemma chained_unique: "chained a ss b \<Longrightarrow> chained a ss b' \<Longrightarrow> b = b'"
  unfolding chained_def by (metis last_snoc)

lemma check_path_None: "check_path p path = None \<longleftrightarrow> path_wf p path"
proof (cases "check_chain (pa_source path) [] (pa_stages path)")
  case (Inl e)
  then have "\<not> (chained (pa_source path) (pa_stages path) b \<and>
      (\<forall>s\<in>set (pa_stages path). st_source s \<noteq> st_destination s) \<and>
      distinct (map st_destination (pa_stages path)))" for b
    using check_chain_Inr [of "pa_source path" "[]" "pa_stages path" b] by auto
  moreover have "pa_stages path \<noteq> []" using Inl by (cases "pa_stages path") simp_all
  ultimately show ?thesis using Inl by (auto simp: check_path_def path_wf_def Let_def split: option.split)
next
  case (Inr b)
  then have chain: "chained (pa_source path) (pa_stages path) b"
    "\<forall>s\<in>set (pa_stages path). st_source s \<noteq> st_destination s"
    "distinct (map st_destination (pa_stages path))"
    by (simp_all add: check_chain_Inr)
  then have "chained (pa_source path) (pa_stages path) (pa_destination path) \<longleftrightarrow> b = pa_destination path"
    using chained_unique by blast
  with Inr chain show ?thesis
    by (auto simp: check_path_def path_wf_def Let_def check_payloads_None check_bound_None
        split: option.split)
qed

lemma check_paths_Inr:
  "check_paths p found ids paths = Inr b \<longleftrightarrow>
     b = (found \<or> pl_primaryPath p \<in> pa_id ` set paths) \<and> distinct (map pa_id paths) \<and>
     (\<forall>path\<in>set paths. path_wf p path \<and> pa_id path \<notin> set ids)"
proof (induction paths arbitrary: found ids)
  case Nil
  then show ?case by auto
next
  case (Cons path paths)
  show ?case
  proof (cases "pa_id path \<in> set ids \<or> \<not> path_wf p path")
    case True
    then show ?thesis
      using check_path_None [of p path] by (auto simp: Let_def split: option.split)
  next
    case False
    then have "check_path p path = None" by (simp add: check_path_None)
    with False show ?thesis by (auto simp: Let_def Cons.IH image_iff)
  qed
qed

lemma check_record_None: "check_record r = None \<longleftrightarrow> record_wf r"
proof (cases "check_paths (sr_plan r) False [] (pl_candidatePaths (sr_plan r))")
  case (Inl e)
  then have "\<not> (distinct (map pa_id (pl_candidatePaths (sr_plan r))) \<and>
      (\<forall>path\<in>set (pl_candidatePaths (sr_plan r)). path_wf (sr_plan r) path))"
    using check_paths_Inr [of "sr_plan r" False "[]" "pl_candidatePaths (sr_plan r)"] by auto
  with Inl show ?thesis by (auto simp: check_record_def record_wf_def Let_def split: option.split)
next
  case (Inr b)
  then have "b = (pl_primaryPath (sr_plan r) \<in> pa_id ` set (pl_candidatePaths (sr_plan r)))"
    "distinct (map pa_id (pl_candidatePaths (sr_plan r)))"
    "\<forall>path\<in>set (pl_candidatePaths (sr_plan r)). path_wf (sr_plan r) path"
    by (simp_all add: check_paths_Inr)
  with Inr show ?thesis
    by (auto simp: check_record_def record_wf_def Let_def check_components_None isNull_def
        split: option.split)
qed

lemma check_records_None:
  "check_records ids rs = None \<longleftrightarrow> distinct (map (pl_id \<circ> sr_plan) rs) \<and>
     (\<forall>r\<in>set rs. record_wf r \<and> pl_id (sr_plan r) \<notin> set ids)"
proof (induction rs arbitrary: ids)
  case (Cons r rs)
  then show ?case
    using check_record_None [of r] by (cases "check_record r") (auto simp: image_iff)
qed simp

lemma check_requests_None:
  "check_requests ids qs = None \<longleftrightarrow> distinct (map rq_id qs) \<and> (\<forall>q\<in>set qs. rq_id q \<notin> set ids)"
  by (induction qs arbitrary: ids) (auto simp: image_iff)

lemma persist_err_inject [simp]: "persist_err c d = persist_err c' d' \<longleftrightarrow> c = c' \<and> d = d'"
  by (simp add: persist_err_def)

text \<open>No check returns the code OK.\<close>

lemma persist_err_not_ok: "c \<noteq> OK \<Longrightarrow> \<not> pe_ok (persist_err c d)"
  by (simp add: pe_ok_def persist_err_def)

lemma check_errors_not_ok:
  "check_components cs = Some e \<Longrightarrow> \<not> pe_ok e"
  "check_payloads t ss = Some e \<Longrightarrow> \<not> pe_ok e"
  "check_bound bound ss = Some e \<Longrightarrow> \<not> pe_ok e"
  "check_requests ids qs = Some e \<Longrightarrow> \<not> pe_ok e"
proof -
  show "check_components cs = Some e \<Longrightarrow> \<not> pe_ok e"
    by (induction cs) (auto simp: persist_err_not_ok split: if_splits)
  show "check_payloads t ss = Some e \<Longrightarrow> \<not> pe_ok e"
    by (induction ss) (auto simp: persist_err_not_ok split: if_splits)
  show "check_bound bound ss = Some e \<Longrightarrow> \<not> pe_ok e"
    by (induction ss) (auto simp: persist_err_not_ok split: if_splits)
  show "check_requests ids qs = Some e \<Longrightarrow> \<not> pe_ok e"
    by (induction qs arbitrary: ids) (auto simp: persist_err_not_ok split: if_splits)
qed

lemma check_chain_not_ok: "check_chain a seen ss = Inl e \<Longrightarrow> \<not> pe_ok e"
  by (induction a seen ss rule: check_chain.induct) (auto simp: persist_err_not_ok split: if_splits)

lemma check_path_not_ok: "check_path p path = Some e \<Longrightarrow> \<not> pe_ok e"
  by (auto simp: check_path_def persist_err_not_ok check_errors_not_ok check_chain_not_ok
      split: option.splits sum.splits if_splits)

lemma check_paths_not_ok: "check_paths p found ids paths = Inl e \<Longrightarrow> \<not> pe_ok e"
  by (induction paths arbitrary: found ids)
    (auto simp: Let_def persist_err_not_ok check_path_not_ok split: option.splits if_splits)

lemma check_record_not_ok: "check_record r = Some e \<Longrightarrow> \<not> pe_ok e"
  by (auto simp: check_record_def Let_def persist_err_not_ok check_errors_not_ok check_paths_not_ok
      split: option.splits sum.splits if_splits)

lemma check_records_not_ok: "check_records ids rs = Some e \<Longrightarrow> \<not> pe_ok e"
  by (induction rs arbitrary: ids)
    (auto simp: persist_err_not_ok check_record_not_ok split: option.splits if_splits)

lemma validateStore_ok: "pe_ok (validateStore s) \<longleftrightarrow> store_wf s"
proof (cases "check_records [] (ss_plans s)")
  case None
  then have recs: "distinct (map (pl_id \<circ> sr_plan) (ss_plans s)) \<and> (\<forall>r\<in>set (ss_plans s). record_wf r)"
    by (simp add: check_records_None)
  show ?thesis
  proof (cases "check_requests [] (ss_requests s)")
    case reqs: None
    then have "distinct (map rq_id (ss_requests s))" by (simp add: check_requests_None)
    with recs None reqs show ?thesis by (simp add: validateStore_def store_wf_def no_error_def pe_ok_def)
  next
    case (Some e)
    then have "\<not> distinct (map rq_id (ss_requests s))"
      using check_requests_None [of "[]" "ss_requests s"] by simp
    with None Some show ?thesis by (simp add: validateStore_def store_wf_def check_errors_not_ok)
  qed
next
  case (Some e)
  then have "\<not> (distinct (map (pl_id \<circ> sr_plan) (ss_plans s)) \<and> (\<forall>r\<in>set (ss_plans s). record_wf r))"
    using check_records_None [of "[]" "ss_plans s"] by simp
  then have "\<not> store_wf s" by (simp only: store_wf_def) blast
  with Some show ?thesis by (simp add: validateStore_def check_records_not_ok)
qed

lemma store_wf_persisted [simp]: "store_wf (persisted s) \<longleftrightarrow> store_wf s"
proof -
  have "rq_id \<circ> persisted_request = rq_id" by (simp add: fun_eq_iff persisted_request_def)
  then show ?thesis by (simp add: store_wf_def persisted_def)
qed

section \<open>The frame\<close>

lemma parse_frame_Inr:
  "parse_frame data = Inr ((chk, n), rest) \<longleftrightarrow>
     data = w_u32 kMagic @ w_u32 kFormatVersion @ w_u64 chk @ w_u64 n @ rest"
proof
  assume "parse_frame data = Inr ((chk, n), rest)"
  then obtain m r1 v r2 r3 where
    "pget TRUNCATION ''missing magic'' r_u32 data = Inr (m, r1)" "m = kMagic"
    "pget TRUNCATION ''missing version'' r_u32 r1 = Inr (v, r2)" "v = kFormatVersion"
    "pget TRUNCATION ''missing checksum'' r_u64 r2 = Inr (chk, r3)"
    "pget TRUNCATION ''missing payload length'' r_u64 r3 = Inr (n, rest)"
    unfolding parse_frame_def
    by (auto simp add: rbind_Inr rreturn_def rfail_def split: if_splits)
  then show "data = w_u32 kMagic @ w_u32 kFormatVersion @ w_u64 chk @ w_u64 n @ rest"
    by (simp only: rget_exact [OF u32_exact.dec_iff] rget_exact [OF u64_exact.dec_iff])
qed (simp only: store_frame_back)

lemma parse_store_bytes_Inr:
  "parse_store_bytes data out = Inr s \<Longrightarrow>
     \<exists>b. data = w_u32 kMagic @ w_u32 kFormatVersion @ w_u64 (fnv1a b) @ w_u64 (of_nat (length b)) @ b \<and>
       parse_body out b = Inr (s, [])"
proof -
  assume parsed: "parse_store_bytes data out = Inr s"
  then obtain chk n rest where frame: "parse_frame data = Inr ((chk, n), rest)"
    by (auto simp: parse_store_bytes_def split: sum.splits)
  with parsed have "length rest = unat n" "fnv1a (take (unat n) rest) = chk"
    "parse_body out (take (unat n) rest) = Inr (s, [])"
    by (auto simp: parse_store_bytes_def split: sum.splits if_splits)
  moreover from this(1) have "take (unat n) rest = rest" "n = of_nat (length rest)" by simp_all
  ultimately show ?thesis using frame unfolding parse_frame_Inr by metis
qed

lemma parse_store_written:
  assumes "length (store_body s) < 2 ^ 64"
  shows "parse_store_bytes (serializeStore s @ extra) out =
    (case parse_body out (store_body s) of
       Inl e \<Rightarrow> Inl e
     | Inr (t, left) \<Rightarrow>
         if left \<noteq> [] then Inl (persist_err TRAILING_GARBAGE ''trailing garbage in payload'')
         else if extra \<noteq> [] then Inl (persist_err TRAILING_GARBAGE ''trailing bytes after frame'')
         else Inr t)"
proof -
  have "unat (of_nat (length (store_body s)) :: u64) = length (store_body s)"
    using assms by (simp add: unat_of_nat)
  then show ?thesis
    by (simp add: parse_store_bytes_def serializeStore_def Let_def store_frame_back split: sum.split)
qed

section \<open>A concrete store\<close>

text \<open>One committed plan over the path 1, 2, 3, a supersession and a request.\<close>

definition sample_stage :: "EndpointId \<Rightarrow> EndpointId \<Rightarrow> Stage" where
  "sample_stage a b =
     default_Stage\<lparr>st_source := a, st_destination := b, st_payload := 4096, st_description := ''hop''\<rparr>"

definition sample_stored_path :: "EndpointId list \<Rightarrow> Path" where
  "sample_stored_path es =
     \<lparr>pa_id = 1, pa_generation = 1, pa_source = hd es, pa_destination = last es,
      pa_stages = map (\<lambda>(a, b). sample_stage a b) (zip es (tl es)), pa_totalPayload = 4096,
      pa_cost = default_CostSummary, pa_provenance = Provenance.MEASURED, pa_failureDomain = [],
      pa_reason = []\<rparr>"

definition sample_store_along :: "EndpointId list \<Rightarrow> StoreState" where
  "sample_store_along es =
     \<lparr>ss_epoch = 1,
      ss_plans =
        [\<lparr>sr_plan = default_CommunicationPlan
            \<lparr>pl_id := 1, pl_requestId := 1, pl_primaryPath := 1,
             pl_candidatePaths := [sample_stored_path es],
             pl_orderedStages := pa_stages (sample_stored_path es),
             pl_endpointGenerations := [(1, 1), (2, 1), (3, 1)], pl_requiredResourceClaims := [7]\<rparr>,
          sr_state = PlanState.COMMITTED\<rparr>],
      ss_supersessions = [\<lparr>su_superseded = 2, su_newer = 1\<rparr>],
      ss_requests = [default_CommunicationRequest\<lparr>rq_id := 1, rq_destinations := [3]\<rparr>]\<rparr>"

definition sample_store :: StoreState where
  "sample_store = sample_store_along [1, 2, 3]"

lemmas sample_store_defs = sample_store_def sample_store_along_def sample_stored_path_def
  sample_stage_def default_Stage_def default_CommunicationPlan_def default_CostSummary_def

lemma dzero_finite: "\<not> isnan dzero" "\<not> isinf dzero"
  by (simp_all add: isinf_def dzero_def inf_mag_def)

lemma sample_record_wf:
  assumes "es = [1, 2, 3] \<or> es = [1, 2, 1, 3]"
  shows "store_wf (sample_store_along es)"
  using assms
proof
  assume "es = [1, 2, 3]"
  then show ?thesis
    by (simp add: store_wf_def record_wf_def path_wf_def chained_def sample_store_defs totalValid_def
        dzero_finite)
next
  assume "es = [1, 2, 1, 3]"
  then show ?thesis
    by (simp add: store_wf_def record_wf_def path_wf_def chained_def sample_store_defs totalValid_def
        dzero_finite)
qed

lemma sample_storable: "storable sample_store"
proof -
  have "length (store_body sample_store) < 2 ^ 64"
    by (simp add: store_body_def sample_store_defs write_record_def write_plan_head_def
        write_plan_routes_def write_plan_generations_def write_plan_bindings_def
        write_plan_account_def write_plan_targets_def writePath_def writeStage_def writeCost_def
        write_id_pair_def write_supersession_def write_request_def default_CommunicationRequest_def)
  then show ?thesis
    by (simp add: storable_def record_ok_def routes_ok_def bindings_ok_def account_ok_def
        targets_ok_def path_codec.list_ok_def stage_codec.list_ok_def str_codec.list_ok_def
        path_ok_def stage_ok_def cost_ok_def u64s_ok_def str_ok_def kMaxCount_def sample_store_defs)
qed

lemma stored_back:
  assumes "storable s" and "store_wf s"
  shows "parseStore (serializeStore s) default_StoreState = Inr (persisted s)"
proof -
  have "length (store_body s) < 2 ^ 64" using assms(1) by (simp add: storable_def)
  from parse_store_written [OF this, of "[]"] body_back [OF assms(1), of "[]"]
  have "parse_store_bytes (serializeStore s) default_StoreState = Inr (persisted s)" by simp
  then show ?thesis using assms(2) by (simp add: parseStore_def validateStore_ok)
qed

section \<open>Theorems\<close>


text \<open>C12: a well-formed store within the limits of the format survives serialization: the parser
  returns the same epoch, the same plans with their states, the same supersessions, and the persisted
  part of every request.\<close>

theorem store_roundtrip:
  assumes "storable s" and "store_wf s"
  shows "parseStore (serializeStore s) default_StoreState = Inr (persisted s)"
  using assms by (rule stored_back)

theorem store_roundtrip_witness:
  "parseStore (serializeStore sample_store) default_StoreState = Inr (persisted sample_store)"
  by (rule store_roundtrip [OF sample_storable]) (simp add: sample_store_def sample_record_wf)

text \<open>a store file cut short at any point is rejected as truncated.\<close>

lemma truncated_store_rejected:
  assumes "length (store_body s) < 2 ^ 64" and "n < length (serializeStore s)"
  shows "\<exists>d. parseStore (take n (serializeStore s)) out = Inl (persist_err TRUNCATION d)"
proof -
  let ?b = "store_body s"
  have len: "unat (of_nat (length ?b) :: u64) = length ?b" using assms(1) by (simp add: unat_of_nat)
  have bytes: "serializeStore s = w_u32 kMagic @ w_u32 kFormatVersion @ w_u64 (fnv1a ?b) @ w_u64 (of_nat (length ?b)) @ ?b"
    by (simp add: serializeStore_def Let_def)
  have short: "length bs < 4 \<Longrightarrow> r_u32 bs = None" "length bs < 8 \<Longrightarrow> r_u64 bs = None" for bs
    by (simp_all only: u32_exact.dec_None u64_exact.dec_None)
  show ?thesis
  proof (cases "n < 24")
    case True
    have "\<exists>d. parse_frame (take n (serializeStore s)) = Inl (persist_err TRUNCATION d)"
    proof -
      consider "n < 4" | "4 \<le> n" "n < 8" | "8 \<le> n" "n < 16" | "16 \<le> n" "n < 24" using True by linarith
      then show ?thesis
        by cases (simp_all add: bytes parse_frame_def reader_defs codec_simps short)
    qed
    then show ?thesis by (auto simp: parseStore_def parse_store_bytes_def)
  next
    case False
    then have "take n (serializeStore s) =
        w_u32 kMagic @ w_u32 kFormatVersion @ w_u64 (fnv1a ?b) @ w_u64 (of_nat (length ?b)) @ take (n - 24) ?b"
      by (simp add: bytes)
    moreover have "n - 24 < length ?b" using assms(2) False by (simp add: bytes)
    ultimately show ?thesis
      by (simp add: parseStore_def parse_store_bytes_def store_frame_back len)
  qed
qed

text \<open>Bytes appended to a well-formed store are rejected as trailing garbage.\<close>

lemma trailing_bytes_rejected:
  assumes "storable s" and "extra \<noteq> []"
  shows "parseStore (serializeStore s @ extra) default_StoreState =
    Inl (persist_err TRAILING_GARBAGE ''trailing bytes after frame'')"
proof -
  have "length (store_body s) < 2 ^ 64" using assms(1) by (simp add: storable_def)
  from parse_store_written [OF this, of extra] body_back [OF assms(1), of "[]"] assms(2)
  show ?thesis by (simp add: parseStore_def)
qed

text \<open>A changed field of the frame, and the error it is reported as.\<close>

definition frame_bytes :: "bytes \<Rightarrow> bytes \<Rightarrow> bytes \<Rightarrow> bytes \<Rightarrow> bytes" where
  "frame_bytes m v c b = m @ v @ c @ w_u64 (of_nat (length b)) @ b"

lemma serialize_frame:
  "serializeStore s = frame_bytes (w_u32 kMagic) (w_u32 kFormatVersion) (w_u64 (fnv1a (store_body s))) (store_body s)"
  by (simp add: serializeStore_def frame_bytes_def Let_def)

lemma damaged_magic:
  assumes "(w_u32 kMagic)[i := x] \<noteq> w_u32 kMagic"
  shows "parseStore (frame_bytes ((w_u32 kMagic)[i := x]) v c b) out = Inl (persist_err BAD_MAGIC ''bad magic'')"
  using u32_exact.dec_changed [OF assms]
  by (auto simp: parseStore_def parse_store_bytes_def parse_frame_def reader_defs frame_bytes_def)

lemma damaged_version:
  assumes "(w_u32 kFormatVersion)[i := x] \<noteq> w_u32 kFormatVersion"
  shows "parseStore (frame_bytes (w_u32 kMagic) ((w_u32 kFormatVersion)[i := x]) c b) out =
    Inl (persist_err UNSUPPORTED_VERSION ''unsupported version'')"
  using u32_exact.dec_changed [OF assms]
  by (auto simp: parseStore_def parse_store_bytes_def parse_frame_def reader_defs frame_bytes_def codec_simps)

lemma damaged_checksum:
  assumes "(w_u64 (fnv1a b))[i := x] \<noteq> w_u64 (fnv1a b)" and "length b < 2 ^ 64"
  shows "parseStore (frame_bytes (w_u32 kMagic) (w_u32 kFormatVersion) ((w_u64 (fnv1a b))[i := x]) b) out =
    Inl (persist_err CHECKSUM_MISMATCH ''checksum mismatch'')"
proof -
  have "unat (of_nat (length b) :: u64) = length b" using assms(2) by (simp add: unat_of_nat)
  then show ?thesis using u64_exact.dec_changed [OF assms(1)]
    by (auto simp: parseStore_def parse_store_bytes_def parse_frame_def reader_defs frame_bytes_def codec_simps)
qed

lemma damaged_payload:
  assumes "i < length b" and "b ! i \<noteq> x" and "length b < 2 ^ 64"
  shows "parseStore (frame_bytes (w_u32 kMagic) (w_u32 kFormatVersion) (w_u64 (fnv1a b)) (b[i := x])) out =
    Inl (persist_err CHECKSUM_MISMATCH ''checksum mismatch'')"
proof -
  have "unat (of_nat (length b) :: u64) = length b" using assms(3) by (simp add: unat_of_nat)
  then show ?thesis using fnv1a_single_byte [OF assms(1,2)]
    by (simp add: parseStore_def parse_store_bytes_def frame_bytes_def store_frame_back)
qed

lemma frame_update:
  assumes "length m = 4" and "length v = 4" and "length c = 8"
  shows "(frame_bytes m v c b)[i := x] =
    (if i < 4 then frame_bytes (m[i := x]) v c b
     else if i < 8 then frame_bytes m (v[i - 4 := x]) c b
     else if i < 16 then frame_bytes m v (c[i - 8 := x]) b
     else if i < 24 then m @ v @ c @ (w_u64 (of_nat (length b)))[i - 16 := x] @ b
     else frame_bytes m v c (b[i - 24 := x]))"
  using assms by (auto simp: frame_bytes_def list_update_append)

lemma frame_nth:
  assumes "length m = 4" and "length v = 4" and "length c = 8"
  shows "frame_bytes m v c b ! i =
    (if i < 4 then m ! i else if i < 8 then v ! (i - 4) else if i < 16 then c ! (i - 8)
     else if i < 24 then w_u64 (of_nat (length b)) ! (i - 16) else b ! (i - 24))"
  using assms by (auto simp: frame_bytes_def nth_append)

text \<open>Changing one byte of the magic, of the version, of the checksum or of the payload is
  detected, and reported as what it damages. (The length field is not covered by the checksum.)\<close>

lemma damaged_byte_detected:
  assumes "length (store_body s) < 2 ^ 64" and "i < length (serializeStore s)" and "i < 16 \<or> 24 \<le> i"
    and "serializeStore s ! i \<noteq> x"
  shows "\<exists>d. parseStore ((serializeStore s)[i := x]) out =
    Inl (persist_err (if i < 4 then BAD_MAGIC else if i < 8 then UNSUPPORTED_VERSION else CHECKSUM_MISMATCH) d)"
proof -
  have changed: "k < length w \<Longrightarrow> w ! k \<noteq> x \<Longrightarrow> w[k := x] \<noteq> w" for k and w :: bytes
    by (simp add: list_update_same_conv)
  consider "i < 4" | "4 \<le> i" "i < 8" | "8 \<le> i" "i < 16" | "24 \<le> i" using assms(3) by linarith
  then show ?thesis
  proof cases
    case 1
    with assms(4) show ?thesis
      by (simp add: serialize_frame frame_update frame_nth damaged_magic changed)
  next
    case 2
    with assms(4) show ?thesis
      by (simp add: serialize_frame frame_update frame_nth damaged_version changed)
  next
    case 3
    with assms(1,4) show ?thesis
      by (simp add: serialize_frame frame_update frame_nth damaged_checksum changed)
  next
    case 4
    moreover from 4 assms(2) have "i - 24 < length (store_body s)"
      by (simp add: serialize_frame frame_bytes_def)
    ultimately show ?thesis using assms(1,4)
      by (simp add: serialize_frame frame_update frame_nth damaged_payload)
  qed
qed

text \<open>C35: whatever bytes are given, the parser accepts only a complete frame whose checksum matches
  its payload, and only a well-formed store.\<close>

theorem accepted_store_intact:
  assumes "parseStore data out = Inr s"
  shows "store_wf s \<and> (\<exists>b. data = w_u32 kMagic @ w_u32 kFormatVersion @ w_u64 (fnv1a b) @
    w_u64 (of_nat (length b)) @ b \<and> parse_body out b = Inr (s, []))"
proof -
  from assms have "parse_store_bytes data out = Inr s" "pe_ok (validateStore s)"
    by (auto simp: parseStore_def split: sum.splits if_splits)
  then show ?thesis using parse_store_bytes_Inr [of data out s] by (simp add: validateStore_ok)
qed

theorem accepted_store_intact_witness:
  "parseStore (serializeStore sample_store) default_StoreState = Inr (persisted sample_store) \<and>
   store_wf (persisted sample_store)"
proof -
  have "store_wf sample_store" by (simp add: sample_store_def sample_record_wf)
  then have "parseStore (serializeStore sample_store) default_StoreState = Inr (persisted sample_store)"
    by (rule stored_back [OF sample_storable])
  with accepted_store_intact [OF this] show ?thesis by blast
qed

text \<open>Recovery leaves no plan executable; it changes nothing but the states it demotes, each by
  a legal transition to \<open>REVALIDATION_REQUIRED\<close>; it keeps a well-formed store well-formed, and doing it
  twice is doing it once.\<close>

lemma recovery_is_conservative:
  "(\<forall>r\<in>set (ss_plans (conservativeRecovery s)). \<not> executable_state (sr_state r)) \<and>
   map sr_plan (ss_plans (conservativeRecovery s)) = map sr_plan (ss_plans s) \<and>
   list_all2 (\<lambda>r r'. sr_state r' = sr_state r \<or>
       sr_state r' = PlanState.REVALIDATION_REQUIRED \<and> canTransition (sr_state r) (sr_state r'))
     (ss_plans s) (ss_plans (conservativeRecovery s)) \<and>
   (store_wf s \<longrightarrow> store_wf (conservativeRecovery s)) \<and>
   conservativeRecovery (conservativeRecovery s) = conservativeRecovery s"
proof -
  have plan: "sr_plan (recover_record r) = sr_plan r" for r by (simp add: recover_record_def)
  have state: "\<not> executable_state (sr_state (recover_record r))" for r
    by (simp add: recover_record_def executable_state_def)
  have move: "sr_state (recover_record r) = sr_state r \<or>
      sr_state (recover_record r) = PlanState.REVALIDATION_REQUIRED \<and>
      canTransition (sr_state r) (sr_state (recover_record r))" for r
    by (cases "sr_state r") (simp_all add: recover_record_def executable_state_def)
  have twice: "recover_record (recover_record r) = recover_record r" for r
    using state [of r] by (simp only: recover_record_def [of "recover_record r"]) simp
  have wf: "record_wf r \<Longrightarrow> record_wf (recover_record r)" for r
    using state [of r] plan [of r]
    by (auto simp: record_wf_def Let_def committed_state_def executable_state_def)
  have ids: "pl_id \<circ> sr_plan \<circ> recover_record = pl_id \<circ> sr_plan" by (simp add: fun_eq_iff plan)
  have "store_wf s \<Longrightarrow> store_wf (conservativeRecovery s)"
    using wf by (simp add: store_wf_def conservativeRecovery_def ids)
  moreover have "map sr_plan (map recover_record rs) = map sr_plan rs" for rs by (simp add: plan)
  ultimately show ?thesis
    using state move twice by (simp add: conservativeRecovery_def list_all2_map2 list_all2_same)
qed

text \<open>The cycle check does not see a return to the path's own source: a store whose path runs
  1, 2, 1, 3 is accepted.\<close>

lemma source_revisit_accepted:
  "\<exists>s r path. pe_ok (validateStore s) \<and> r \<in> set (ss_plans s) \<and>
     path \<in> set (pl_candidatePaths (sr_plan r)) \<and>
     map st_source (pa_stages path) = [1, 2, 1] \<and> pa_destination path = 3"
proof -
  let ?s = "sample_store_along [1, 2, 1, 3]"
  have "pe_ok (validateStore ?s)" using sample_record_wf by (simp add: validateStore_ok)
  moreover have "sample_stored_path [1, 2, 1, 3] \<in> set (pl_candidatePaths (sr_plan (hd (ss_plans ?s))))"
    by (simp add: sample_store_along_def)
  ultimately show ?thesis
    by (intro exI [of _ ?s] exI [of _ "hd (ss_plans ?s)"] exI [of _ "sample_stored_path [1, 2, 1, 3]"] conjI)
      (simp_all add: sample_store_along_def sample_stored_path_def sample_stage_def)
qed

end
