(* ===== verification/Protocol.thy ===== *)
theory Protocol
  imports Byte_Codec
begin

text \<open>
  The wire format of \<open>src/protocol.cpp\<close>: the codes of endpoints, links and requests, the message
  record and its code per message type, and the checksummed frame. A \<open>wire_\<close> function says what the
  format keeps of a value; the fields it does not carry come back with their defaults.
\<close>

section \<open>Message types, frames and messages\<close>

datatype MessageType =
  HELLO | REGISTER | PUBLISH_ENDPOINT | PUBLISH_LINK | PUBLISH_TOPOLOGY | PUBLISH_CAPACITY |
  PUBLISH_CONGESTION | SUBMIT_REQUEST | QUERY_PLAN | PLAN_RESULT | COMMIT_REQUEST | COMMIT_RESULT |
  REVALIDATE | SUPERSEDE | CANCEL | EXECUTION_HANDOFF | EXECUTION_RESULT | EXECUTE | SAVE |
  SHUTDOWN | ERROR

primrec toString_MessageType :: "MessageType \<Rightarrow> string" where
  "toString_MessageType HELLO = ''HELLO''"
| "toString_MessageType REGISTER = ''REGISTER''"
| "toString_MessageType PUBLISH_ENDPOINT = ''PUBLISH_ENDPOINT''"
| "toString_MessageType PUBLISH_LINK = ''PUBLISH_LINK''"
| "toString_MessageType PUBLISH_TOPOLOGY = ''PUBLISH_TOPOLOGY''"
| "toString_MessageType PUBLISH_CAPACITY = ''PUBLISH_CAPACITY''"
| "toString_MessageType PUBLISH_CONGESTION = ''PUBLISH_CONGESTION''"
| "toString_MessageType SUBMIT_REQUEST = ''SUBMIT_REQUEST''"
| "toString_MessageType QUERY_PLAN = ''QUERY_PLAN''"
| "toString_MessageType PLAN_RESULT = ''PLAN_RESULT''"
| "toString_MessageType COMMIT_REQUEST = ''COMMIT_REQUEST''"
| "toString_MessageType COMMIT_RESULT = ''COMMIT_RESULT''"
| "toString_MessageType REVALIDATE = ''REVALIDATE''"
| "toString_MessageType SUPERSEDE = ''SUPERSEDE''"
| "toString_MessageType CANCEL = ''CANCEL''"
| "toString_MessageType EXECUTION_HANDOFF = ''EXECUTION_HANDOFF''"
| "toString_MessageType EXECUTION_RESULT = ''EXECUTION_RESULT''"
| "toString_MessageType EXECUTE = ''EXECUTE''"
| "toString_MessageType SAVE = ''SAVE''"
| "toString_MessageType SHUTDOWN = ''SHUTDOWN''"
| "toString_MessageType ERROR = ''ERROR''"

definition all_MessageType :: "MessageType list" where
  "all_MessageType =
    [HELLO, REGISTER, PUBLISH_ENDPOINT, PUBLISH_LINK, PUBLISH_TOPOLOGY, PUBLISH_CAPACITY,
     PUBLISH_CONGESTION, SUBMIT_REQUEST, QUERY_PLAN, PLAN_RESULT, COMMIT_REQUEST, COMMIT_RESULT,
     REVALIDATE, SUPERSEDE, CANCEL, EXECUTION_HANDOFF, EXECUTION_RESULT, EXECUTE, SAVE, SHUTDOWN,
     ERROR]"

interpretation MessageType_enum: enumeration all_MessageType
proof unfold_locales
  show "x \<in> set all_MessageType" for x
    by (cases x) (simp_all add: all_MessageType_def)
qed (simp_all add: all_MessageType_def)

declare MessageType_enum.enum_dec_enc [codec_simps]

record Frame =
  fr_type :: MessageType
  fr_payload :: bytes

record Message =
  ms_type :: MessageType
  ms_epoch :: Generation
  ms_worker :: WorkerId
  ms_boot :: Generation
  ms_source :: SourceId
  ms_sourceBoot :: Generation
  ms_name :: string
  ms_endpoint :: Endpoint
  ms_link :: Link
  ms_request :: CommunicationRequest
  ms_plan :: CommunicationPlan
  ms_linkId :: LinkId
  ms_capacity :: Capacity
  ms_congestion :: Congestion
  ms_planId :: CommunicationPlanId
  ms_requestId :: CommunicationRequestId
  ms_ok :: bool
  ms_bytes :: u64
  ms_error :: string

definition default_Message :: Message where
  "default_Message =
     \<lparr>ms_type = HELLO, ms_epoch = 0, ms_worker = 0, ms_boot = 0, ms_source = 0, ms_sourceBoot = 0,
      ms_name = [], ms_endpoint = default_Endpoint, ms_link = default_Link,
      ms_request = default_CommunicationRequest, ms_plan = default_CommunicationPlan, ms_linkId = 0,
      ms_capacity = default_Capacity, ms_congestion = default_Congestion, ms_planId = 0,
      ms_requestId = 0, ms_ok = False, ms_bytes = 0, ms_error = []\<rparr>"

definition kMaxFramePayload :: nat where
  "kMaxFramePayload = 64 * 1024 * 1024"

definition kFrameMagic :: u32 where
  "kFrameMagic = 0x43504600"

definition kFrameVersion :: u32 where
  "kFrameVersion = 1"

section \<open>Endpoints\<close>

definition w_transports :: "Transport list \<Rightarrow> bytes" where
  "w_transports ts = w_counted (w_enum all_Transport) ts"

text \<open>At most 64 transports, each inserted into the set.\<close>

definition r_transports :: "bytes \<Rightarrow> (Transport list \<times> bytes) option" where
  "r_transports bs = do {
     (n, bs) \<leftarrow> r_u32 bs;
     if 64 < unat n then None
     else do {
       (ts, bs) \<leftarrow> r_many (r_enum all_Transport) (unat n) bs;
       Some (fold set_insert ts [], bs) } }"

text \<open>\<open>(int)v\<close> of an unsigned 64-bit value.\<close>

definition to_int32 :: "u64 \<Rightarrow> int" where
  "to_int32 v = sint (ucast v :: u32)"

definition encEndpoint :: "Endpoint \<Rightarrow> bytes" where
  "encEndpoint e =
     w_u64 (ep_id e) @ w_u64 (ep_generation e) @ w_enum all_EndpointKind (ep_kind e) @
     w_u64 (ep_node e) @ w_u64 (ep_device e) @
     w_u64 (cap_generation (ep_capability e)) @ w_transports (cap_transports (ep_capability e)) @
     w_enum all_Provenance (cap_provenance (ep_capability e)) @
     w_all w_u8 (map (\<lambda>i. cap_computeArch (ep_capability e) ! i) [0..<8]) @
     w_str (ep_address e) @ w_str (ep_protocol e) @ w_str (ep_version e) @ w_str (ep_name e) @
     w_boo (he_healthy (ep_health e)) @ w_boo (ep_reachable e) @ w_boo (ep_ready e) @
     w_u64 (ep_worker e) @ w_u64 (ep_workerBoot e) @
     w_u64 (ep_source e) @ w_u64 (ep_sourceBoot e) @
     w_str (ep_failureDomain e) @ w_enum all_Provenance (ep_provenance e) @
     w_str (loc_pcieRoot (ep_location e)) @
     w_u64 (if 0 < loc_numaDistance (ep_location e) then of_int (loc_numaDistance (ep_location e)) else 0)"

definition decEndpoint :: "bytes \<Rightarrow> (Endpoint \<times> bytes) option" where
  "decEndpoint bs = do {
     (i, bs) \<leftarrow> r_u64 bs;
     (g, bs) \<leftarrow> r_u64 bs;
     (k, bs) \<leftarrow> r_enum all_EndpointKind bs;
     (node, bs) \<leftarrow> r_u64 bs;
     (dev, bs) \<leftarrow> r_u64 bs;
     (cg, bs) \<leftarrow> r_u64 bs;
     (ts, bs) \<leftarrow> r_transports bs;
     (pv, bs) \<leftarrow> r_enum all_Provenance bs;
     (arch, bs) \<leftarrow> r_many r_u8 8 bs;
     (addr, bs) \<leftarrow> r_str bs;
     (proto, bs) \<leftarrow> r_str bs;
     (ver, bs) \<leftarrow> r_str bs;
     (name, bs) \<leftarrow> r_str bs;
     (hh, bs) \<leftarrow> r_boo bs;
     (rc, bs) \<leftarrow> r_boo bs;
     (rd, bs) \<leftarrow> r_boo bs;
     (wk, bs) \<leftarrow> r_u64 bs;
     (wb, bs) \<leftarrow> r_u64 bs;
     (src, bs) \<leftarrow> r_u64 bs;
     (sb, bs) \<leftarrow> r_u64 bs;
     (fd, bs) \<leftarrow> r_str bs;
     (pr, bs) \<leftarrow> r_enum all_Provenance bs;
     (root, bs) \<leftarrow> r_str bs;
     (numa, bs) \<leftarrow> r_u64 bs;
     Some (setArch arch (default_Endpoint
       \<lparr>ep_id := i, ep_generation := g, ep_kind := k, ep_node := node, ep_device := dev,
        ep_location := default_TopologyLocation\<lparr>loc_pcieRoot := root, loc_numaDistance := to_int32 numa\<rparr>,
        ep_address := addr, ep_protocol := proto, ep_version := ver, ep_name := name,
        ep_capability := default_Capability
          \<lparr>cap_generation := cg, cap_transports := ts, cap_provenance := pv\<rparr>,
        ep_health := default_Health\<lparr>he_healthy := hh\<rparr>,
        ep_reachable := rc, ep_ready := rd, ep_worker := wk, ep_workerBoot := wb,
        ep_source := src, ep_sourceBoot := sb, ep_failureDomain := fd, ep_provenance := pr\<rparr>), bs) }"

text \<open>
  What the wire keeps of an endpoint: of the location only \<open>pcieRoot\<close> and a non-negative
  \<open>numaDistance\<close>, of the health only the flag, and the first seven bytes of the architecture name.
\<close>

definition wire_endpoint :: "Endpoint \<Rightarrow> Endpoint" where
  "wire_endpoint e =
     e\<lparr>ep_location := default_TopologyLocation
         \<lparr>loc_pcieRoot := loc_pcieRoot (ep_location e),
          loc_numaDistance := max 0 (loc_numaDistance (ep_location e))\<rparr>,
       ep_capability := (ep_capability e)
         \<lparr>cap_features := [], cap_computeArch := take 7 (cap_computeArch (ep_capability e)) @ [0]\<rparr>,
       ep_health := default_Health\<lparr>he_healthy := he_healthy (ep_health e)\<rparr>\<rparr>"

definition endpoint_ok :: "Endpoint \<Rightarrow> bool" where
  "endpoint_ok e \<longleftrightarrow> set_ok (cap_transports (ep_capability e)) \<and>
     length (cap_computeArch (ep_capability e)) = 8 \<and>
     str_ok (ep_address e) \<and> str_ok (ep_protocol e) \<and> str_ok (ep_version e) \<and> str_ok (ep_name e) \<and>
     str_ok (ep_failureDomain e) \<and> str_ok (loc_pcieRoot (ep_location e)) \<and>
     loc_numaDistance (ep_location e) < 2 ^ 31"

interpretation transport_codec: codec "w_enum all_Transport" "r_enum all_Transport" "\<lambda>_. True"
  by unfold_locales (rule Transport_enum.enum_dec_enc)

text \<open>Inserting the elements of a sorted set one by one gives the set back.\<close>

lemma fold_insert_sorted: "set_ok xs \<Longrightarrow> fold set_insert xs [] = xs"
proof -
  have "set_ok (zs @ ys) \<Longrightarrow> fold set_insert ys zs = zs @ ys" for ys zs :: "'a list"
  proof (induction ys arbitrary: zs)
    case Nil
    then show ?case by simp
  next
    case (Cons y ys)
    have "set_ok (zs @ [y]) \<Longrightarrow> set_insert y zs = zs @ [y]"
      by (induction zs) (auto simp: set_ok_def)
    moreover have "set_ok (zs @ [y])" using Cons.prems by (auto simp: set_ok_def sorted_wrt_append)
    ultimately show ?case using Cons by simp
  qed
  from this [of "[]" xs] show "set_ok xs \<Longrightarrow> fold set_insert xs [] = xs" by simp
qed

lemma length_transports: "set_ok (ts :: Transport list) \<Longrightarrow> length ts \<le> 64"
proof -
  assume "set_ok ts"
  then have "distinct ts" by (simp add: set_ok_def strict_sorted_iff)
  then have "length ts = card (set ts)" by (rule distinct_card [symmetric])
  also have "\<dots> \<le> card (set all_Transport)"
    by (intro card_mono) (auto intro: Transport_enum.complete)
  also have "\<dots> \<le> 64" by (rule order_trans [OF card_length]) (simp add: all_Transport_def)
  finally show ?thesis .
qed

interpretation transports_codec: codec w_transports r_transports set_ok
proof unfold_locales
  fix ts :: "Transport list" and rest
  assume ok: "set_ok ts"
  then have "length ts \<le> 64" by (rule length_transports)
  moreover from this have "unat (of_nat (length ts) :: u32) = length ts" by (simp add: unat_of_nat)
  ultimately show "r_transports (w_transports ts @ rest) = Some (ts, rest)"
    using ok by (simp add: r_transports_def w_transports_def w_counted_def w_count_def codec_simps
        transport_codec.many_enc fold_insert_sorted)
qed

declare transports_codec.dec_enc [codec_simps]

lemma to_int32_nonneg: "0 \<le> n \<Longrightarrow> n < 2 ^ 31 \<Longrightarrow> to_int32 (of_int n) = n"
  by (simp add: to_int32_def unsigned_of_int signed_of_int take_bit_int_eq_self signed_take_bit_int_eq_self)

lemma arch_back:
  "length arch = 8 \<Longrightarrow> r_many r_u8 8 (w_all w_u8 (map (\<lambda>i. arch ! i) [0..<8]) @ rest) = Some (arch, rest)"
  using u8_codec.many_enc [of arch rest] map_nth [of arch] by simp

lemma endpoint_back:
  assumes "endpoint_ok e"
  shows "decEndpoint (encEndpoint e @ rest) = Some (wire_endpoint e, rest)"
proof -
  have numa: "0 < n \<Longrightarrow> n < 2147483648 \<Longrightarrow> to_int32 (of_int n) = n" "to_int32 0 = 0" for n
    using to_int32_nonneg [of n] to_int32_nonneg [of 0] by simp_all
  show ?thesis
    using assms
    by (cases e, cases "ep_capability e", simp add: decEndpoint_def encEndpoint_def codec_simps endpoint_ok_def arch_back numa
        wire_endpoint_def setArch_def default_Endpoint_def default_Capability_def Let_def)
qed

section \<open>Links\<close>

definition encLink :: "Link \<Rightarrow> bytes" where
  "encLink l =
     w_u64 (ln_id l) @ w_u64 (ln_generation l) @
     w_u64 (ln_source l) @ w_u64 (ln_destination l) @
     w_enum all_LinkKind (ln_kind l) @ w_enum all_Transport (ln_transport l) @ w_boo (ln_directed l) @
     w_u64 (ln_capacity l) @ w_u64 (ln_effectiveBandwidth l) @ w_u64 (ln_latency l) @
     w_boo (he_healthy (ln_health l)) @ w_u64 (cg_generation (ln_congestion l)) @
     w_dbl (cg_load (ln_congestion l)) @ w_dbl (cg_penalty (ln_congestion l)) @
     w_boo (cg_hardLimitExceeded (ln_congestion l)) @
     w_enum all_Provenance (cg_provenance (ln_congestion l)) @
     w_u64 (cy_generation (ln_capacityEvidence l)) @ w_u64 (cy_usable (ln_capacityEvidence l)) @
     w_u64 (cy_headroom (ln_capacityEvidence l)) @
     w_enum all_Provenance (cy_provenance (ln_capacityEvidence l)) @
     w_u64 (ln_topologyGeneration l) @ w_u64 (ln_capabilityGeneration l) @
     w_str (ln_failureDomain l) @ w_u64 (ln_workerBoot l) @ w_enum all_Provenance (ln_provenance l)"

definition decLink :: "bytes \<Rightarrow> (Link \<times> bytes) option" where
  "decLink bs = do {
     (i, bs) \<leftarrow> r_u64 bs;
     (g, bs) \<leftarrow> r_u64 bs;
     (src, bs) \<leftarrow> r_u64 bs;
     (dst, bs) \<leftarrow> r_u64 bs;
     (k, bs) \<leftarrow> r_enum all_LinkKind bs;
     (tr, bs) \<leftarrow> r_enum all_Transport bs;
     (dir, bs) \<leftarrow> r_boo bs;
     (capa, bs) \<leftarrow> r_u64 bs;
     (bw, bs) \<leftarrow> r_u64 bs;
     (lat, bs) \<leftarrow> r_u64 bs;
     (hh, bs) \<leftarrow> r_boo bs;
     (cgen, bs) \<leftarrow> r_u64 bs;
     (load, bs) \<leftarrow> r_dbl bs;
     (pen, bs) \<leftarrow> r_dbl bs;
     (hard, bs) \<leftarrow> r_boo bs;
     (cp, bs) \<leftarrow> r_enum all_Provenance bs;
     (ygen, bs) \<leftarrow> r_u64 bs;
     (usable, bs) \<leftarrow> r_u64 bs;
     (headroom, bs) \<leftarrow> r_u64 bs;
     (yp, bs) \<leftarrow> r_enum all_Provenance bs;
     (tg, bs) \<leftarrow> r_u64 bs;
     (kg, bs) \<leftarrow> r_u64 bs;
     (fd, bs) \<leftarrow> r_str bs;
     (wb, bs) \<leftarrow> r_u64 bs;
     (lp, bs) \<leftarrow> r_enum all_Provenance bs;
     Some (\<lparr>ln_id = i, ln_generation = g, ln_source = src, ln_destination = dst, ln_kind = k,
            ln_transport = tr, ln_directed = dir, ln_capacity = capa, ln_effectiveBandwidth = bw,
            ln_latency = lat, ln_health = default_Health\<lparr>he_healthy := hh\<rparr>,
            ln_congestion = \<lparr>cg_generation = cgen, cg_load = load, cg_penalty = pen,
              cg_hardLimitExceeded = hard, cg_provenance = cp\<rparr>,
            ln_capacityEvidence = \<lparr>cy_generation = ygen, cy_usable = usable, cy_headroom = headroom,
              cy_provenance = yp\<rparr>,
            ln_topologyGeneration = tg, ln_capabilityGeneration = kg, ln_failureDomain = fd,
            ln_workerBoot = wb, ln_provenance = lp\<rparr>, bs) }"

text \<open>Of a link, the wire drops only the generation and the message of its health.\<close>

definition wire_link :: "Link \<Rightarrow> Link" where
  "wire_link l = l\<lparr>ln_health := default_Health\<lparr>he_healthy := he_healthy (ln_health l)\<rparr>\<rparr>"

lemma link_back:
  "str_ok (ln_failureDomain l) \<Longrightarrow> decLink (encLink l @ rest) = Some (wire_link l, rest)"
  by (cases l) (simp add: decLink_def encLink_def codec_simps wire_link_def)

section \<open>Requests\<close>

definition encRequest :: "CommunicationRequest \<Rightarrow> bytes" where
  "encRequest q =
     w_u64 (rq_id q) @ w_u64 (rq_generation q) @ w_enum all_RequestShape (rq_shape q) @
     w_u64 (rq_source q) @ w_u64 (rq_payloadSize q) @
     w_enum all_Direction (rq_direction q) @
     w_boo (rq_allowStaging q) @ w_boo (rq_allowHostStaging q) @ w_boo (rq_allowStorageStaging q) @
     w_boo (rq_allowRelay q) @ w_boo (rq_allowMulticast q) @
     w_u32 (rq_maxHops q) @ w_u32 (rq_maxStages q) @ w_u64 (ucast (rq_externalPriority q)) @
     w_u64 (rq_policyGeneration q) @
     w_transports (rq_allowed q) @ w_transports (rq_forbidden q) @
     w_enum all_CollectiveShape (rq_collectiveShape q) @ w_u64 (ucast (rq_collectiveCount q)) @
     w_counted w_u64 (rq_destinations q) @
     w_counted w_u64 (rq_participants q) @
     w_str (rq_provenance q) @ w_str (rq_requiredFailureDomain q) @ w_str (rq_preferredLocality q)"

definition decRequest :: "bytes \<Rightarrow> (CommunicationRequest \<times> bytes) option" where
  "decRequest bs = do {
     (i, bs) \<leftarrow> r_u64 bs;
     (g, bs) \<leftarrow> r_u64 bs;
     (sh, bs) \<leftarrow> r_enum all_RequestShape bs;
     (src, bs) \<leftarrow> r_u64 bs;
     (pay, bs) \<leftarrow> r_u64 bs;
     (d, bs) \<leftarrow> r_enum all_Direction bs;
     (stg, bs) \<leftarrow> r_boo bs;
     (host, bs) \<leftarrow> r_boo bs;
     (stor, bs) \<leftarrow> r_boo bs;
     (relay, bs) \<leftarrow> r_boo bs;
     (multi, bs) \<leftarrow> r_boo bs;
     (mh, bs) \<leftarrow> r_u32 bs;
     (ms, bs) \<leftarrow> r_u32 bs;
     (prio, bs) \<leftarrow> r_u64 bs;
     (pg, bs) \<leftarrow> r_u64 bs;
     (allowed, bs) \<leftarrow> r_transports bs;
     (forbidden, bs) \<leftarrow> r_transports bs;
     (cs, bs) \<leftarrow> r_enum all_CollectiveShape bs;
     (cnt, bs) \<leftarrow> r_u64 bs;
     if 4294967295 < cnt then None
     else do {
       (ds, bs) \<leftarrow> r_counted r_u64 bs;
       (ps, bs) \<leftarrow> r_counted r_u64 bs;
       (prov, bs) \<leftarrow> r_str bs;
       (rfd, bs) \<leftarrow> r_str bs;
       (loc, bs) \<leftarrow> r_str bs;
       Some (default_CommunicationRequest
         \<lparr>rq_id := i, rq_generation := g, rq_shape := sh, rq_source := src, rq_destinations := ds,
          rq_payloadSize := pay, rq_direction := d, rq_allowStaging := stg,
          rq_allowHostStaging := host, rq_allowStorageStaging := stor, rq_allowRelay := relay,
          rq_allowMulticast := multi, rq_allowed := allowed, rq_forbidden := forbidden,
          rq_requiredFailureDomain := rfd, rq_preferredLocality := loc, rq_maxHops := mh,
          rq_maxStages := ms, rq_externalPriority := ucast prio, rq_policyGeneration := pg,
          rq_collectiveShape := cs, rq_participants := ps, rq_collectiveCount := ucast cnt,
          rq_provenance := prov\<rparr>, bs) } }"

text \<open>Of a request, the wire drops the seven fields below.\<close>

definition wire_request :: "CommunicationRequest \<Rightarrow> CommunicationRequest" where
  "wire_request q =
     q\<lparr>rq_latencySensitive := False, rq_throughputTarget := 0, rq_requireOrdering := False,
       rq_requireReliability := False, rq_allowRetry := False, rq_maxMovementCost := None,
       rq_reservationBinding := None\<rparr>"

definition request_ok :: "CommunicationRequest \<Rightarrow> bool" where
  "request_ok q \<longleftrightarrow> set_ok (rq_allowed q) \<and> set_ok (rq_forbidden q) \<and>
     length (rq_destinations q) \<le> kMaxCount \<and> length (rq_participants q) \<le> kMaxCount \<and>
     str_ok (rq_provenance q) \<and> str_ok (rq_requiredFailureDomain q) \<and> str_ok (rq_preferredLocality q)"

lemma request_back:
  "request_ok q \<Longrightarrow> decRequest (encRequest q @ rest) = Some (wire_request q, rest)"
  by (cases q) (simp add: decRequest_def encRequest_def codec_simps wire_request_def request_ok_def
      u32_u64_bound u32_u64_back u64_codec.counted_dec_enc u64_codec.list_ok_def
      default_CommunicationRequest_def)

section \<open>Messages\<close>

text \<open>The part of a plan that a \<open>PLAN_RESULT\<close> carries.\<close>

definition enc_result_stage :: "Stage \<Rightarrow> bytes" where
  "enc_result_stage s =
     w_u64 (st_link s) @ w_u64 (st_source s) @ w_u64 (st_destination s) @ w_u64 (st_payload s)"

definition enc_result_path :: "Path \<Rightarrow> bytes" where
  "enc_result_path p =
     w_u64 (pa_id p) @ w_u64 (pa_totalPayload p) @ w_counted enc_result_stage (pa_stages p)"

definition enc_result_pair :: "u64 \<times> u64 \<Rightarrow> bytes" where
  "enc_result_pair ab = w_u64 (fst ab) @ w_u64 (snd ab)"

definition enc_result_plan :: "CommunicationPlan \<Rightarrow> bytes" where
  "enc_result_plan p =
     w_u64 (pl_id p) @ w_u64 (pl_generation p) @ w_u64 (pl_requestId p) @
     w_u64 (pl_requestGeneration p) @ w_u64 (pl_primaryPath p) @
     w_counted enc_result_path (pl_candidatePaths p) @
     w_counted enc_result_stage (pl_orderedStages p) @
     w_counted enc_result_pair (pl_endpointGenerations p)"

definition enc_capacity :: "LinkId \<Rightarrow> Capacity \<Rightarrow> bytes" where
  "enc_capacity l c =
     w_u64 l @ w_u64 (cy_generation c) @ w_u64 (cy_usable c) @ w_u64 (cy_headroom c) @
     w_enum all_Provenance (cy_provenance c)"

definition enc_congestion :: "LinkId \<Rightarrow> Congestion \<Rightarrow> bytes" where
  "enc_congestion l c =
     w_u64 l @ w_u64 (cg_generation c) @ w_dbl (cg_load c) @ w_dbl (cg_penalty c) @
     w_boo (cg_hardLimitExceeded c) @ w_enum all_Provenance (cg_provenance c)"

definition encodeMessage :: "Message \<Rightarrow> bytes" where
  "encodeMessage m =
     (case ms_type m of
        HELLO \<Rightarrow> w_u64 (ms_epoch m)
      | REGISTER \<Rightarrow> w_u64 (ms_worker m) @ w_u64 (ms_boot m) @ w_str (ms_name m)
      | PUBLISH_ENDPOINT \<Rightarrow> w_u64 (ms_worker m) @ w_u64 (ms_boot m) @ encEndpoint (ms_endpoint m)
      | PUBLISH_LINK \<Rightarrow> w_u64 (ms_worker m) @ w_u64 (ms_boot m) @ encLink (ms_link m)
      | PUBLISH_CAPACITY \<Rightarrow> enc_capacity (ms_linkId m) (ms_capacity m)
      | PUBLISH_CONGESTION \<Rightarrow> enc_congestion (ms_linkId m) (ms_congestion m)
      | SUBMIT_REQUEST \<Rightarrow> encRequest (ms_request m)
      | PLAN_RESULT \<Rightarrow>
          w_boo (ms_ok m) @
          w_enum all_Feasibility (if ms_ok m then Feasibility.FEASIBLE else Feasibility.REJECT_ENDPOINT) @
          (if ms_ok m then enc_result_plan (ms_plan m) else [])
      | REVALIDATE \<Rightarrow> w_u64 (ms_planId m)
      | COMMIT_REQUEST \<Rightarrow> w_u64 (ms_planId m)
      | EXECUTION_HANDOFF \<Rightarrow> w_u64 (ms_planId m)
      | QUERY_PLAN \<Rightarrow> w_u64 (ms_planId m)
      | CANCEL \<Rightarrow> w_u64 (ms_requestId m) @ w_u64 (ms_planId m)
      | SUPERSEDE \<Rightarrow> w_u64 (ms_requestId m) @ w_u64 (ms_planId m)
      | COMMIT_RESULT \<Rightarrow> w_boo (ms_ok m) @ w_u64 (ms_planId m)
      | EXECUTION_RESULT \<Rightarrow> w_boo (ms_ok m) @ w_u64 (ms_planId m) @ w_u64 (ms_worker m) @ w_u64 (ms_boot m)
      | EXECUTE \<Rightarrow> w_u64 (ms_planId m) @ w_u64 (ms_bytes m) @ w_u64 (ms_worker m) @ w_u64 (ms_boot m)
      | PUBLISH_TOPOLOGY \<Rightarrow> w_u64 (cap_generation (ep_capability (ms_endpoint m)))
      | SAVE \<Rightarrow> []
      | SHUTDOWN \<Rightarrow> []
      | ERROR \<Rightarrow> w_str (ms_error m))"

type_synonym 'a message_reader = "(string, 'a) reader"

abbreviation mu64 :: "string \<Rightarrow> u64 message_reader" where
  "mu64 d \<equiv> rget d r_u64"

definition dec_result_stage :: "string \<Rightarrow> Stage message_reader" where
  "dec_result_stage d =
     rbind (mu64 d) (\<lambda>l.
     rbind (mu64 d) (\<lambda>src.
     rbind (mu64 d) (\<lambda>dst.
     rbind (mu64 d) (\<lambda>pay.
     rreturn (default_Stage\<lparr>st_link := l, st_source := src, st_destination := dst, st_payload := pay\<rparr>)))))"

definition default_Path :: Path where
  "default_Path =
     \<lparr>pa_id = 0, pa_generation = 0, pa_source = 0, pa_destination = 0, pa_stages = [],
      pa_totalPayload = 0, pa_cost = default_CostSummary, pa_provenance = Provenance.UNKNOWN,
      pa_failureDomain = [], pa_reason = []\<rparr>"

definition dec_result_path :: "Path message_reader" where
  "dec_result_path =
     rbind (mu64 ''PR path id'') (\<lambda>i.
     rbind (mu64 ''PR path payload'') (\<lambda>pay.
     rbind (rlist ''PR stages'' ''PR stages count'' (dec_result_stage ''PR st'')) (\<lambda>ss.
     rreturn (default_Path\<lparr>pa_id := i, pa_totalPayload := pay, pa_stages := ss\<rparr>))))"

definition dec_result_pair :: "(u64 \<times> u64) message_reader" where
  "dec_result_pair = rbind (mu64 ''PR eg'') (\<lambda>e. rbind (mu64 ''PR eg'') (\<lambda>g. rreturn (e, g)))"

definition dec_result_plan :: "CommunicationPlan message_reader" where
  "dec_result_plan =
     rbind (mu64 ''PR plan id'') (\<lambda>i.
     rbind (mu64 ''PR plan gen'') (\<lambda>g.
     rbind (mu64 ''PR req id'') (\<lambda>rid.
     rbind (mu64 ''PR req gen'') (\<lambda>rg.
     rbind (mu64 ''PR primary'') (\<lambda>prim.
     rbind (rlist ''PR paths'' ''PR paths count'' dec_result_path) (\<lambda>ps.
     rbind (rlist ''PR ordered stages'' ''PR ordered count'' (dec_result_stage ''PR os'')) (\<lambda>ss.
     rbind (rlist ''PR endp gens'' ''PR eg count'' dec_result_pair) (\<lambda>egs.
     rreturn (default_CommunicationPlan
       \<lparr>pl_id := i, pl_generation := g, pl_requestId := rid, pl_requestGeneration := rg,
        pl_primaryPath := prim, pl_candidatePaths := ps, pl_orderedStages := ss,
        pl_endpointGenerations := egs\<rparr>)))))))))"

definition dec_capacity :: "Message \<Rightarrow> Message message_reader" where
  "dec_capacity m =
     rbind (mu64 ''CAP link'') (\<lambda>l.
     rbind (mu64 ''CAP gen'') (\<lambda>g.
     rbind (mu64 ''CAP usable'') (\<lambda>u.
     rbind (mu64 ''CAP head'') (\<lambda>h.
     rbind (renum all_Provenance ''CAP prov'' ''CAP prov enum'') (\<lambda>p.
     rreturn (m\<lparr>ms_linkId := l, ms_capacity :=
       \<lparr>cy_generation = g, cy_usable = u, cy_headroom = h, cy_provenance = p\<rparr>\<rparr>))))))"

definition dec_congestion :: "Message \<Rightarrow> Message message_reader" where
  "dec_congestion m =
     rbind (mu64 ''COG link'') (\<lambda>l.
     rbind (mu64 ''COG gen'') (\<lambda>g.
     rbind (rget ''COG load'' r_dbl) (\<lambda>ld.
     rbind (rget ''COG pen'' r_dbl) (\<lambda>pen.
     rbind (rget ''COG hard'' r_boo) (\<lambda>hard.
     rbind (renum all_Provenance ''COG prov'' ''COG prov enum'') (\<lambda>p.
     rreturn (m\<lparr>ms_linkId := l, ms_congestion :=
       \<lparr>cg_generation = g, cg_load = ld, cg_penalty = pen, cg_hardLimitExceeded = hard,
        cg_provenance = p\<rparr>\<rparr>)))))))"

definition dec_plan_result :: "Message \<Rightarrow> Message message_reader" where
  "dec_plan_result m =
     rbind (rget ''PR ok'' r_boo) (\<lambda>ok.
     rbind (renum all_Feasibility ''PR feas'' ''PR feas enum'') (\<lambda>_.
     if ok then rbind dec_result_plan (\<lambda>p. rreturn (m\<lparr>ms_ok := ok, ms_plan := p\<rparr>))
     else rreturn (m\<lparr>ms_ok := ok\<rparr>)))"

definition dec_publisher :: "string \<Rightarrow> string \<Rightarrow> Message \<Rightarrow> Message message_reader" where
  "dec_publisher d d' m =
     rbind (mu64 d) (\<lambda>w. rbind (mu64 d') (\<lambda>b. rreturn (m\<lparr>ms_worker := w, ms_boot := b\<rparr>)))"

definition dec_fields :: "MessageType \<Rightarrow> Message \<Rightarrow> Message message_reader" where
  "dec_fields t m =
     (case t of
        HELLO \<Rightarrow> rbind (mu64 ''HELLO trunc'') (\<lambda>v. rreturn (m\<lparr>ms_epoch := v\<rparr>))
      | REGISTER \<Rightarrow>
          rbind (dec_publisher ''REG worker'' ''REG boot'' m) (\<lambda>m.
          rbind (rget ''REG name'' r_str) (\<lambda>s. rreturn (m\<lparr>ms_name := s\<rparr>)))
      | PUBLISH_ENDPOINT \<Rightarrow>
          rbind (dec_publisher ''EP worker'' ''EP boot'' m) (\<lambda>m.
          rbind (rget ''EP endpoint'' decEndpoint) (\<lambda>e. rreturn (m\<lparr>ms_endpoint := e\<rparr>)))
      | PUBLISH_LINK \<Rightarrow>
          rbind (dec_publisher ''LK worker'' ''LK boot'' m) (\<lambda>m.
          rbind (rget ''LK link'' decLink) (\<lambda>l. rreturn (m\<lparr>ms_link := l\<rparr>)))
      | PUBLISH_CAPACITY \<Rightarrow> dec_capacity m
      | PUBLISH_CONGESTION \<Rightarrow> dec_congestion m
      | SUBMIT_REQUEST \<Rightarrow>
          rbind (rget ''SUBMIT request'' decRequest) (\<lambda>q. rreturn (m\<lparr>ms_request := q\<rparr>))
      | PLAN_RESULT \<Rightarrow> dec_plan_result m
      | REVALIDATE \<Rightarrow> rbind (mu64 ''ID'') (\<lambda>v. rreturn (m\<lparr>ms_planId := v\<rparr>))
      | COMMIT_REQUEST \<Rightarrow> rbind (mu64 ''ID'') (\<lambda>v. rreturn (m\<lparr>ms_planId := v\<rparr>))
      | EXECUTION_HANDOFF \<Rightarrow> rbind (mu64 ''ID'') (\<lambda>v. rreturn (m\<lparr>ms_planId := v\<rparr>))
      | QUERY_PLAN \<Rightarrow> rbind (mu64 ''ID'') (\<lambda>v. rreturn (m\<lparr>ms_planId := v\<rparr>))
      | CANCEL \<Rightarrow>
          rbind (mu64 ''ID'') (\<lambda>v. rbind (mu64 ''ID2'') (\<lambda>w.
          rreturn (m\<lparr>ms_requestId := v, ms_planId := w\<rparr>)))
      | SUPERSEDE \<Rightarrow>
          rbind (mu64 ''ID'') (\<lambda>v. rbind (mu64 ''ID2'') (\<lambda>w.
          rreturn (m\<lparr>ms_requestId := v, ms_planId := w\<rparr>)))
      | COMMIT_RESULT \<Rightarrow>
          rbind (rget ''RES ok'' r_boo) (\<lambda>ok. rbind (mu64 ''RES id'') (\<lambda>v.
          rreturn (m\<lparr>ms_ok := ok, ms_planId := v\<rparr>)))
      | EXECUTION_RESULT \<Rightarrow>
          rbind (rget ''ER ok'' r_boo) (\<lambda>ok. rbind (mu64 ''ER id'') (\<lambda>v.
          dec_publisher ''ER worker'' ''ER boot'' (m\<lparr>ms_ok := ok, ms_planId := v\<rparr>)))
      | EXECUTE \<Rightarrow>
          rbind (mu64 ''EX id'') (\<lambda>v. rbind (mu64 ''EX bytes'') (\<lambda>n.
          dec_publisher ''EX worker'' ''EX boot'' (m\<lparr>ms_planId := v, ms_bytes := n\<rparr>)))
      | PUBLISH_TOPOLOGY \<Rightarrow>
          rbind (mu64 ''TOPO gen'') (\<lambda>v. rreturn (m\<lparr>ms_endpoint := (ms_endpoint m)
            \<lparr>ep_capability := (ep_capability (ms_endpoint m))\<lparr>cap_generation := v\<rparr>\<rparr>\<rparr>))
      | SAVE \<Rightarrow> rreturn m
      | SHUTDOWN \<Rightarrow> rreturn m
      | ERROR \<Rightarrow> rbind (rget ''ERR'' r_str) (\<lambda>s. rreturn (m\<lparr>ms_error := s\<rparr>)))"

text \<open>\<open>Inl\<close> is the detail of the error. Bytes left over are ignored.\<close>

definition decodeMessage :: "MessageType \<Rightarrow> bytes \<Rightarrow> string + Message" where
  "decodeMessage t payload =
     (case dec_fields t (default_Message\<lparr>ms_type := t\<rparr>) payload of
        Inl e \<Rightarrow> Inl e
      | Inr (m, _) \<Rightarrow> Inr m)"

section \<open>Frames\<close>

definition frame_body :: "Frame \<Rightarrow> bytes" where
  "frame_body f =
     w_u32 kFrameMagic @ w_u32 kFrameVersion @ w_enum all_MessageType (fr_type f) @
     w_u64 (of_nat (length (fr_payload f))) @ fr_payload f"

definition encodeFrame :: "Frame \<Rightarrow> string + bytes" where
  "encodeFrame f =
     (if kMaxFramePayload < length (fr_payload f) then Inl ''frame payload oversized''
      else Inr (frame_body f @ w_u64 (fnv1a (frame_body f))))"

definition dec_frame_header :: "(MessageType \<times> nat) message_reader" where
  "dec_frame_header =
     rbind (rget ''frame truncated: magic'' r_u32) (\<lambda>m.
     if m \<noteq> kFrameMagic then rfail ''bad frame magic''
     else
     rbind (rget ''frame truncated: version'' r_u32) (\<lambda>v.
     if v \<noteq> kFrameVersion then rfail ''unsupported frame version''
     else
     rbind (renum all_MessageType ''frame truncated: type'' ''invalid frame type'') (\<lambda>t.
     rbind (mu64 ''frame truncated: length'') (\<lambda>n.
     if kMaxFramePayload < unat n then rfail ''frame payload oversized''
     else rreturn (t, unat n)))))"

text \<open>The checksum is over the header and the payload and follows them; later bytes are ignored.\<close>

definition decodeFrame :: "bytes \<Rightarrow> string + Frame" where
  "decodeFrame data =
     (case dec_frame_header data of
        Inl e \<Rightarrow> Inl e
      | Inr ((t, n), rest) \<Rightarrow>
          let header = length data - length rest in
          if length data < header + n + 8 then Inl ''frame truncated: payload/checksum''
          else if fnv1a (take (header + n) data) \<noteq> le_or 0 (take 8 (drop (header + n) data))
          then Inl ''frame checksum mismatch''
          else Inr \<lparr>fr_type = t, fr_payload = take n rest\<rparr>)"

section \<open>Decoding what was encoded\<close>

definition wire_stage :: "Stage \<Rightarrow> Stage" where
  "wire_stage s = default_Stage\<lparr>st_link := st_link s, st_source := st_source s,
     st_destination := st_destination s, st_payload := st_payload s\<rparr>"

definition wire_path :: "Path \<Rightarrow> Path" where
  "wire_path p = default_Path\<lparr>pa_id := pa_id p, pa_totalPayload := pa_totalPayload p,
     pa_stages := map wire_stage (pa_stages p)\<rparr>"

definition wire_plan :: "CommunicationPlan \<Rightarrow> CommunicationPlan" where
  "wire_plan p = default_CommunicationPlan
     \<lparr>pl_id := pl_id p, pl_generation := pl_generation p, pl_requestId := pl_requestId p,
      pl_requestGeneration := pl_requestGeneration p, pl_primaryPath := pl_primaryPath p,
      pl_candidatePaths := map wire_path (pl_candidatePaths p),
      pl_orderedStages := map wire_stage (pl_orderedStages p),
      pl_endpointGenerations := pl_endpointGenerations p\<rparr>"

lemmas rget_encs = u64_codec.rget_enc [OF TrueI] boo_codec.rget_enc [OF TrueI]
  dbl_codec.rget_enc [OF TrueI] str_codec.rget_enc u32_codec.rget_enc [OF TrueI]

interpretation result_stage: reader_codec enc_result_stage "dec_result_stage d" "\<lambda>_. True" wire_stage for d
  by unfold_locales
    (simp add: enc_result_stage_def dec_result_stage_def rbind_def rreturn_def rget_encs wire_stage_def)

interpretation result_pair: reader_codec enc_result_pair dec_result_pair "\<lambda>_. True" "\<lambda>x. x"
  by unfold_locales (simp add: enc_result_pair_def dec_result_pair_def rbind_def rreturn_def rget_encs)

interpretation result_path:
  reader_codec enc_result_path dec_result_path "\<lambda>p. length (pa_stages p) \<le> kMaxCount" wire_path
  by unfold_locales
    (simp add: enc_result_path_def dec_result_path_def rbind_def rreturn_def rget_encs wire_path_def
      result_stage.list_read_back result_stage.list_ok_def)

definition plan_result_ok :: "CommunicationPlan \<Rightarrow> bool" where
  "plan_result_ok p \<longleftrightarrow> result_path.list_ok (pl_candidatePaths p) \<and>
     length (pl_orderedStages p) \<le> kMaxCount \<and> length (pl_endpointGenerations p) \<le> kMaxCount"

interpretation result_plan: reader_codec enc_result_plan dec_result_plan plan_result_ok wire_plan
proof unfold_locales
  fix p rest
  assume ok: "plan_result_ok p"
  have pairs: "rlist e big dec_result_pair (w_counted enc_result_pair (pl_endpointGenerations p) @ rest) =
      Inr (pl_endpointGenerations p, rest)" for e big
    using result_pair.list_read_back [of "pl_endpointGenerations p" e big rest] ok
    by (simp add: result_pair.list_ok_def plan_result_ok_def)
  show "dec_result_plan (enc_result_plan p @ rest) = Inr (wire_plan p, rest)"
    using ok
    by (simp add: enc_result_plan_def dec_result_plan_def rbind_def rreturn_def rget_encs wire_plan_def
        plan_result_ok_def result_path.list_read_back result_stage.list_read_back
        result_stage.list_ok_def pairs)
qed

text \<open>
  The fields of a message that its type carries, over a message that is otherwise default.
\<close>

definition wire_message :: "Message \<Rightarrow> Message" where
  "wire_message m = (let d = default_Message\<lparr>ms_type := ms_type m\<rparr> in
     (case ms_type m of
        HELLO \<Rightarrow> d\<lparr>ms_epoch := ms_epoch m\<rparr>
      | REGISTER \<Rightarrow> d\<lparr>ms_worker := ms_worker m, ms_boot := ms_boot m, ms_name := ms_name m\<rparr>
      | PUBLISH_ENDPOINT \<Rightarrow>
          d\<lparr>ms_worker := ms_worker m, ms_boot := ms_boot m, ms_endpoint := wire_endpoint (ms_endpoint m)\<rparr>
      | PUBLISH_LINK \<Rightarrow>
          d\<lparr>ms_worker := ms_worker m, ms_boot := ms_boot m, ms_link := wire_link (ms_link m)\<rparr>
      | PUBLISH_CAPACITY \<Rightarrow> d\<lparr>ms_linkId := ms_linkId m, ms_capacity := ms_capacity m\<rparr>
      | PUBLISH_CONGESTION \<Rightarrow> d\<lparr>ms_linkId := ms_linkId m, ms_congestion := ms_congestion m\<rparr>
      | SUBMIT_REQUEST \<Rightarrow> d\<lparr>ms_request := wire_request (ms_request m)\<rparr>
      | PLAN_RESULT \<Rightarrow>
          if ms_ok m then d\<lparr>ms_ok := True, ms_plan := wire_plan (ms_plan m)\<rparr> else d
      | CANCEL \<Rightarrow> d\<lparr>ms_requestId := ms_requestId m, ms_planId := ms_planId m\<rparr>
      | SUPERSEDE \<Rightarrow> d\<lparr>ms_requestId := ms_requestId m, ms_planId := ms_planId m\<rparr>
      | COMMIT_RESULT \<Rightarrow> d\<lparr>ms_ok := ms_ok m, ms_planId := ms_planId m\<rparr>
      | EXECUTION_RESULT \<Rightarrow>
          d\<lparr>ms_ok := ms_ok m, ms_planId := ms_planId m, ms_worker := ms_worker m, ms_boot := ms_boot m\<rparr>
      | EXECUTE \<Rightarrow>
          d\<lparr>ms_planId := ms_planId m, ms_bytes := ms_bytes m, ms_worker := ms_worker m, ms_boot := ms_boot m\<rparr>
      | PUBLISH_TOPOLOGY \<Rightarrow>
          d\<lparr>ms_endpoint := default_Endpoint\<lparr>ep_capability := default_Capability
            \<lparr>cap_generation := cap_generation (ep_capability (ms_endpoint m))\<rparr>\<rparr>\<rparr>
      | SAVE \<Rightarrow> d
      | SHUTDOWN \<Rightarrow> d
      | ERROR \<Rightarrow> d\<lparr>ms_error := ms_error m\<rparr>
      | _ \<Rightarrow> d\<lparr>ms_planId := ms_planId m\<rparr>))"

text \<open>The limits on what a message of its type carries.\<close>

definition message_ok :: "Message \<Rightarrow> bool" where
  "message_ok m \<longleftrightarrow>
     (case ms_type m of
        REGISTER \<Rightarrow> str_ok (ms_name m)
      | PUBLISH_ENDPOINT \<Rightarrow> endpoint_ok (ms_endpoint m)
      | PUBLISH_LINK \<Rightarrow> str_ok (ln_failureDomain (ms_link m))
      | SUBMIT_REQUEST \<Rightarrow> request_ok (ms_request m)
      | PLAN_RESULT \<Rightarrow> ms_ok m \<longrightarrow> plan_result_ok (ms_plan m)
      | ERROR \<Rightarrow> str_ok (ms_error m)
      | _ \<Rightarrow> True)"

lemmas message_readers = rbind_def rreturn_def rget_encs dec_publisher_def

lemma capacity_back:
  "dec_capacity m (enc_capacity l c @ rest) = Inr (m\<lparr>ms_linkId := l, ms_capacity := c\<rparr>, rest)"
  by (simp add: dec_capacity_def enc_capacity_def message_readers Provenance_enum.renum_enc)

lemma congestion_back:
  "dec_congestion m (enc_congestion l c @ rest) = Inr (m\<lparr>ms_linkId := l, ms_congestion := c\<rparr>, rest)"
  by (simp add: dec_congestion_def enc_congestion_def message_readers Provenance_enum.renum_enc)

lemma plan_result_back:
  assumes "ok \<Longrightarrow> plan_result_ok p" and "\<not> ms_ok m"
  shows "dec_plan_result m (w_boo ok @ w_enum all_Feasibility fb @ (if ok then enc_result_plan p else []) @ rest) =
    Inr (if ok then m\<lparr>ms_ok := True, ms_plan := wire_plan p\<rparr> else m, rest)"
  using assms
  by (cases m) (simp add: dec_plan_result_def message_readers Feasibility_enum.renum_enc result_plan.read_back)

lemma rget_back:
  "endpoint_ok e \<Longrightarrow> rget d decEndpoint (encEndpoint e @ rest) = Inr (wire_endpoint e, rest)"
  "str_ok (ln_failureDomain l) \<Longrightarrow> rget d decLink (encLink l @ rest) = Inr (wire_link l, rest)"
  "request_ok q \<Longrightarrow> rget d decRequest (encRequest q @ rest) = Inr (wire_request q, rest)"
  by (simp_all add: rget_def endpoint_back link_back request_back)

lemma fields_back:
  assumes "message_ok m"
  shows "dec_fields (ms_type m) (default_Message\<lparr>ms_type := ms_type m\<rparr>) (encodeMessage m @ rest) =
    Inr (wire_message m, rest)"
proof (cases "ms_type m")
  case PLAN_RESULT
  with assms show ?thesis
    using plan_result_back [of "ms_ok m" "ms_plan m" "default_Message\<lparr>ms_type := PLAN_RESULT\<rparr>"]
    by (simp add: dec_fields_def encodeMessage_def wire_message_def message_ok_def default_Message_def)
qed (use assms in \<open>simp_all add: dec_fields_def encodeMessage_def wire_message_def message_ok_def
  message_readers rget_back capacity_back congestion_back default_Message_def default_Endpoint_def Let_def\<close>)

lemma message_back: "message_ok m \<Longrightarrow> decodeMessage (ms_type m) (encodeMessage m @ rest) = Inr (wire_message m)"
  by (simp add: decodeMessage_def fields_back)

section \<open>Frames on the wire\<close>

lemma length_frame_body [simp]: "length (frame_body f) = 17 + length (fr_payload f)"
  by (simp add: frame_body_def)

lemma unat_payload:
  "n \<le> kMaxFramePayload \<Longrightarrow> unat (of_nat n :: u64) = n"
  by (simp add: kMaxFramePayload_def unat_of_nat)

lemma header_back:
  assumes "n \<le> kMaxFramePayload"
  shows "dec_frame_header (w_u32 kFrameMagic @ w_u32 kFrameVersion @ w_enum all_MessageType t @
    w_u64 (of_nat n) @ rest) = Inr ((t, n), rest)"
  using assms unat_payload [OF assms]
  by (simp add: dec_frame_header_def rbind_def rreturn_def rget_encs MessageType_enum.renum_enc)

lemma frame_header_back:
  "length (fr_payload f) \<le> kMaxFramePayload \<Longrightarrow>
   dec_frame_header (frame_body f @ rest) = Inr ((fr_type f, length (fr_payload f)), fr_payload f @ rest)"
  by (simp add: frame_body_def header_back)

lemma le_or_u64 [simp]: "le_or 0 (w_u64 v) = v"
  by (simp add: w_u64_def le_or_le_bytes)

lemma le_or_u64_inject: "length c = 8 \<Longrightarrow> le_or 0 c = (v :: u64) \<longleftrightarrow> c = w_u64 v"
  using le_bytes_le_or [where 'a = 64, of 8 c] by (auto simp: w_u64_def le_or_le_bytes)

text \<open>After an intact header, the body and the checksum decide.\<close>

lemma decode_after_header:
  assumes "dec_frame_header data = Inr ((t, n), rest)" and "length data = 17 + length rest"
  shows "decodeFrame data =
    (if length rest < n + 8 then Inl ''frame truncated: payload/checksum''
     else if fnv1a (take (17 + n) data) \<noteq> le_or 0 (take 8 (drop (17 + n) data))
     then Inl ''frame checksum mismatch''
     else Inr \<lparr>fr_type = t, fr_payload = take n rest\<rparr>)"
  using assms by (simp add: decodeFrame_def Let_def)

lemma frame_back:
  assumes "length (fr_payload f) \<le> kMaxFramePayload"
  shows "decodeFrame (frame_body f @ w_u64 (fnv1a (frame_body f)) @ extra) = Inr f"
  using frame_header_back [OF assms] by (simp add: decode_after_header)

text \<open>The header accepts only its own code.\<close>

lemma header_Inr:
  assumes "dec_frame_header data = Inr ((t, n), rest)"
  shows "data = w_u32 kFrameMagic @ w_u32 kFrameVersion @ w_enum all_MessageType t @ w_u64 (of_nat n) @ rest \<and>
    n \<le> kMaxFramePayload"
proof -
  from assms obtain r1 r2 r3 v k where
    "rget ''frame truncated: magic'' r_u32 data = Inr (kFrameMagic, r1)"
    "rget ''frame truncated: version'' r_u32 r1 = Inr (kFrameVersion, r2)"
    "rget ''frame truncated: type'' r_u8 r2 = Inr (k, r3)" "enum_at all_MessageType (unat k) = Some t"
    "rget ''frame truncated: length'' r_u64 r3 = Inr (v, rest)"
    "n = unat v" "unat v \<le> kMaxFramePayload"
    unfolding dec_frame_header_def renum_def
    by (auto simp: rbind_Inr rreturn_def rfail_def split: if_splits option.splits)
  moreover from this have "w_enum all_MessageType t = w_u8 k"
    using MessageType_enum.index_at [of "unat k" t] by (simp add: w_enum_def)
  ultimately show ?thesis
    by (simp add: rget_exact [OF u32_exact.dec_iff] rget_exact [OF u64_exact.dec_iff]
        rget_exact [OF u8_exact.dec_iff])
qed

text \<open>What decodes is a frame followed by its checksum.\<close>

lemma decodeFrame_Inr:
  assumes "decodeFrame data = Inr f"
  shows "\<exists>extra. data = frame_body f @ w_u64 (fnv1a (frame_body f)) @ extra \<and>
    length (fr_payload f) \<le> kMaxFramePayload"
proof -
  from assms obtain t n rest where head: "dec_frame_header data = Inr ((t, n), rest)"
    by (auto simp: decodeFrame_def split: sum.splits)
  then have data: "data = w_u32 kFrameMagic @ w_u32 kFrameVersion @ w_enum all_MessageType t @ w_u64 (of_nat n) @ rest"
    and n: "n \<le> kMaxFramePayload" using header_Inr by blast+
  from assms decode_after_header [OF head] have parts: "n + 8 \<le> length rest"
    "fnv1a (take (17 + n) data) = le_or 0 (take 8 (drop (17 + n) data))"
    "f = \<lparr>fr_type = t, fr_payload = take n rest\<rparr>"
    by (auto simp: data split: if_splits)
  have body: "take (17 + n) data = frame_body f" "drop (17 + n) data = drop n rest"
    using parts(1) by (simp_all add: data frame_body_def parts(3))
  have "take 8 (drop n rest) = w_u64 (fnv1a (frame_body f))"
    using parts(1,2) by (intro le_or_u64_inject [THEN iffD1]) (simp_all add: body)
  moreover have "data = take (17 + n) data @ take 8 (drop (17 + n) data) @ drop 8 (drop (17 + n) data)"
    by (simp only: append_take_drop_id)
  ultimately have "data = frame_body f @ w_u64 (fnv1a (frame_body f)) @ drop 8 (drop n rest)"
    by (metis body)
  then show ?thesis using parts(1,3) n by auto
qed

section \<open>Theorems\<close>

text \<open>C13: a message within the limits of the format, encoded, framed, unframed and decoded, arrives
  with its type and every field that its type carries.\<close>

theorem message_delivered:
  assumes "message_ok m" and "length (encodeMessage m) \<le> kMaxFramePayload"
  shows "\<exists>data. encodeFrame \<lparr>fr_type = ms_type m, fr_payload = encodeMessage m\<rparr> = Inr data \<and>
    decodeFrame data = Inr \<lparr>fr_type = ms_type m, fr_payload = encodeMessage m\<rparr> \<and>
    decodeMessage (ms_type m) (encodeMessage m) = Inr (wire_message m)"
proof -
  let ?f = "\<lparr>fr_type = ms_type m, fr_payload = encodeMessage m\<rparr>"
  have "decodeFrame (frame_body ?f @ w_u64 (fnv1a (frame_body ?f)) @ []) = Inr ?f"
    using assms(2) by (intro frame_back) simp
  moreover have "decodeMessage (ms_type m) (encodeMessage m @ []) = Inr (wire_message m)"
    using assms(1) by (rule message_back)
  ultimately show ?thesis using assms(2) by (simp add: encodeFrame_def)
qed

theorem message_delivered_witness:
  "\<exists>data. encodeFrame \<lparr>fr_type = CANCEL, fr_payload = w_u64 5 @ w_u64 6\<rparr> = Inr data \<and>
     decodeFrame data = Inr \<lparr>fr_type = CANCEL, fr_payload = w_u64 5 @ w_u64 6\<rparr> \<and>
     decodeMessage CANCEL (w_u64 5 @ w_u64 6) =
       Inr (default_Message\<lparr>ms_type := CANCEL, ms_requestId := 5, ms_planId := 6\<rparr>)"
proof -
  let ?m = "default_Message\<lparr>ms_type := CANCEL, ms_requestId := 5, ms_planId := 6\<rparr>"
  have "message_ok ?m" "length (encodeMessage ?m) \<le> kMaxFramePayload"
    by (simp_all add: message_ok_def encodeMessage_def kMaxFramePayload_def)
  from message_delivered [OF this] show ?thesis
    by (simp add: encodeMessage_def wire_message_def default_Message_def)
qed

text \<open>Whatever bytes arrive, a frame that decodes is exactly the bytes \<open>encodeFrame\<close> writes for it,
  within the payload bound; what follows it is ignored.\<close>

lemma decoded_frame_intact:
  assumes "decodeFrame data = Inr f"
  shows "\<exists>bytes extra. encodeFrame f = Inr bytes \<and> data = bytes @ extra"
  using decodeFrame_Inr [OF assms] by (auto simp: encodeFrame_def)

text \<open>The length field of a frame.\<close>

lemma frame_length_field: "take 8 (drop 9 (frame_body f @ rest)) = w_u64 (of_nat (length (fr_payload f)))"
  by (simp add: frame_body_def)

lemma length_field_inject:
  assumes "take 8 (drop 9 (frame_body f @ r)) = take 8 (drop 9 (frame_body g @ r'))"
    and "length (fr_payload f) \<le> kMaxFramePayload" and "length (fr_payload g) \<le> kMaxFramePayload"
  shows "length (fr_payload f) = length (fr_payload g)"
proof -
  from assms(1) have "w_u64 (of_nat (length (fr_payload f))) @ [] = w_u64 (of_nat (length (fr_payload g))) @ []"
    by (simp only: frame_length_field)
  then have "(of_nat (length (fr_payload f)) :: u64) = of_nat (length (fr_payload g))"
    using u64_codec.enc_inject [OF TrueI TrueI] by blast
  then show ?thesis using unat_payload assms(2,3) by metis
qed

lemma update_outside_length:
  "i < 9 \<or> 17 \<le> i \<Longrightarrow> take 8 (drop 9 (xs[i := x])) = take 8 (drop 9 xs)"
  by (auto simp: drop_update_swap)

text \<open>A frame with one byte changed, anywhere but in its length field, is rejected.\<close>

lemma damaged_frame_rejected:
  assumes "encodeFrame f = Inr data" and "i < length data" and "i < 9 \<or> 17 \<le> i" and "data ! i \<noteq> x"
  shows "\<exists>e. decodeFrame (data[i := x]) = Inl e"
proof (cases "decodeFrame (data[i := x])")
  case (Inr g)
  let ?L = "length (frame_body f)" and ?sum = "\<lambda>h. w_u64 (fnv1a (frame_body h))"
  from assms(1) have data: "data = frame_body f @ ?sum f" and f: "length (fr_payload f) \<le> kMaxFramePayload"
    by (auto simp: encodeFrame_def split: if_splits)
  from decodeFrame_Inr [OF Inr] obtain extra where
    new: "data[i := x] = frame_body g @ ?sum g @ extra" and g: "length (fr_payload g) \<le> kMaxFramePayload"
    by blast
  have "take 8 (drop 9 (frame_body f @ ?sum f)) = take 8 (drop 9 (frame_body g @ ?sum g @ extra))"
    unfolding new [symmetric] data [symmetric] using assms(3) by (rule update_outside_length [symmetric])
  then have "length (fr_payload f) = length (fr_payload g)" by (rule length_field_inject [OF _ f g])
  then have len: "length (frame_body g) = ?L" by simp
  have "length (data[i := x]) = ?L + 8" by (simp add: data)
  then have "extra = []" unfolding new using len by simp
  show ?thesis
  proof (cases "i < ?L")
    case True
    then have "(frame_body f)[i := x] @ ?sum f = frame_body g @ ?sum g"
      using new \<open>extra = []\<close> by (simp add: data list_update_append)
    with len have "frame_body g = (frame_body f)[i := x]" "?sum f @ [] = ?sum g @ []" by simp_all
    then have "fnv1a ((frame_body f)[i := x]) = fnv1a (frame_body f)"
      using u64_codec.enc_inject [OF TrueI TrueI] by metis
    moreover have "frame_body f ! i \<noteq> x" using assms(4) True by (simp add: data nth_append)
    ultimately show ?thesis using fnv1a_single_byte [OF True] by blast
  next
    case False
    then have "data[i := x] = frame_body f @ (?sum f)[i - ?L := x]"
      by (simp only: data list_update_append if_False)
    then have "frame_body f @ (?sum f)[i - ?L := x] = frame_body g @ ?sum g"
      unfolding new \<open>extra = []\<close> append_Nil2 by (rule sym)
    then have "frame_body f = frame_body g \<and> (?sum f)[i - ?L := x] = ?sum g"
      by (rule append_eq_append_conv [THEN iffD1, rotated]) (simp only: len simp_thms)
    then have "(?sum f)[i - ?L := x] = ?sum f" by metis
    moreover have "i - ?L < 8" using assms(2) False by (simp add: data)
    ultimately have "?sum f ! (i - ?L) = x" by (metis length_codes(1) nth_list_update_eq)
    then show ?thesis using assms(4) False by (simp add: data nth_append)
  qed
qed simp

end
