(* ===== verification/Coordinator.thy ===== *)
theory Coordinator
  imports Planner Revalidation Broker Persistence Protocol "HOL-Library.Product_Lexorder"
begin

text \<open>
  The coordinator server of \<open>src/coordinator.cpp\<close>: its state (\<open>CoordinatorServer::Impl\<close>) as a record,
  one function per message handler, the three phases of a commit, registration and fencing of
  workers, saving and loading of the store. A handler returns the frames it sends, in order, and
  the next state; \<open>Inl\<close> is an exception that leaves the handler. Sockets are numbers, the store
  file is a component of the state, and a handler runs under the mutex, so that it is one step;
  a commit gives the mutex back while it asks the broker and is therefore three steps.
\<close>

section \<open>State\<close>

type_synonym SOCKET = u64

definition INVALID_SOCKET :: SOCKET where
  "INVALID_SOCKET = u64_max"

record WorkerInfo =
  wi_id :: WorkerId
  wi_boot :: Generation
  wi_name :: string
  wi_sock :: SOCKET
  wi_endpoints :: "EndpointId list"
  wi_links :: "LinkId list"
  wi_alive :: bool

record PlanRecord =
  pr_plan :: CommunicationPlan
  pr_state :: PlanState
  pr_worker :: WorkerId
  pr_boot :: Generation

record Coordinator =
  co_weights :: RankingWeights
  co_bounds :: Bounds
  co_snap :: EvidenceSnapshot
  co_epoch :: Generation
  co_broker :: MemoryResourceBroker
  co_plans :: "(CommunicationPlanId \<times> PlanRecord) list"
  co_currentByRequest :: "(CommunicationRequestId \<times> CommunicationPlanId) list"
  co_cancelled :: "CommunicationRequestId list"
  co_supersessions :: "SupersessionRecord list"
  co_requests :: "CommunicationRequest list"
  co_stopping :: bool
  co_socketToWorker :: "(SOCKET \<times> WorkerId) list"
  co_workers :: "(WorkerId \<times> WorkerInfo) list"
  co_fenced :: "(WorkerId \<times> Generation) list"
  co_activeSockets :: "SOCKET list"
  co_counters :: Counters
  co_file :: "bytes option"

definition initial_snapshot :: EvidenceSnapshot where
  "initial_snapshot = default_EvidenceSnapshot
     \<lparr>sn_epoch := 1, sn_authorityGeneration := currentAuthority, sn_topologyGeneration := 1,
      sn_capacityGeneration := 1, sn_reservationGeneration := 1, sn_congestionGeneration := 1,
      sn_capabilityGeneration := 1, sn_healthGeneration := 1, sn_placementGeneration := 1,
      sn_policyGeneration := 1\<rparr>"

definition new_coordinator :: "RankingWeights \<Rightarrow> Bounds \<Rightarrow> bytes option \<Rightarrow> Coordinator" where
  "new_coordinator ws b file =
     \<lparr>co_weights = ws, co_bounds = b, co_snap = initial_snapshot, co_epoch = 1,
      co_broker = new_broker (2 ^ 30), co_plans = [], co_currentByRequest = [], co_cancelled = [],
      co_supersessions = [], co_requests = [], co_stopping = False, co_socketToWorker = [],
      co_workers = [], co_fenced = [], co_activeSockets = [], co_counters = initial_Counters,
      co_file = file\<rparr>"

section \<open>Replies\<close>

type_synonym sent = "(SOCKET \<times> Frame) list"

definition send_message :: "SOCKET \<Rightarrow> MessageType \<Rightarrow> Message \<Rightarrow> sent" where
  "send_message s t m = [(s, \<lparr>fr_type = t, fr_payload = encodeMessage m\<rparr>)]"

definition sendError :: "SOCKET \<Rightarrow> string \<Rightarrow> sent" where
  "sendError s e = send_message s ERROR (default_Message\<lparr>ms_type := ERROR, ms_error := e\<rparr>)"

definition send_result :: "SOCKET \<Rightarrow> bool \<Rightarrow> CommunicationPlanId \<Rightarrow> sent" where
  "send_result s ok i =
     send_message s COMMIT_RESULT (default_Message\<lparr>ms_type := COMMIT_RESULT, ms_ok := ok, ms_planId := i\<rparr>)"

definition sendOk :: "SOCKET \<Rightarrow> u64 \<Rightarrow> sent" where
  "sendOk s i = send_result s True i"

section \<open>Evidence\<close>

text \<open>Replace the first element with the same key, or append.\<close>

fun upsert :: "('a \<Rightarrow> 'k) \<Rightarrow> 'a \<Rightarrow> 'a list \<Rightarrow> 'a list" where
  "upsert key x [] = [x]"
| "upsert key x (y # ys) = (if key y = key x then x # ys else y # upsert key x ys)"

definition publishEndpoint :: "Endpoint \<Rightarrow> EvidenceSnapshot \<Rightarrow> EvidenceSnapshot" where
  "publishEndpoint e s = s\<lparr>sn_endpoints := upsert ep_id e (sn_endpoints s)\<rparr>"

definition publishLink :: "Link \<Rightarrow> EvidenceSnapshot \<Rightarrow> EvidenceSnapshot" where
  "publishLink l s =
     s\<lparr>sn_links := upsert ln_id l (sn_links s),
       sn_topologyGeneration := gen_next (sn_topologyGeneration s)\<rparr>"

text \<open>\<open>fenceWorker\<close>: the boot of a worker that is gone becomes permanently stale.\<close>

definition unready_endpoints :: "EndpointId list \<Rightarrow> Endpoint list \<Rightarrow> Endpoint list" where
  "unready_endpoints ids es =
     map (\<lambda>e. if ep_id e \<in> set ids then e\<lparr>ep_reachable := False, ep_ready := False\<rparr> else e) es"

definition fenceWorker :: "WorkerId \<Rightarrow> Coordinator \<Rightarrow> Coordinator" where
  "fenceWorker i st =
     (let snap = (co_snap st)\<lparr>sn_workerBoots := map_erase i (sn_workerBoots (co_snap st)),
                              sn_sourceBoots := map_erase i (sn_sourceBoots (co_snap st))\<rparr>
      in case map_find (co_workers st) i of
           None \<Rightarrow> st\<lparr>co_snap := snap\<rparr>
         | Some w \<Rightarrow>
             st\<lparr>co_fenced := set_insert (i, wi_boot w) (co_fenced st),
                co_workers := map_assign i (w\<lparr>wi_alive := False\<rparr>) (co_workers st),
                co_snap := snap
                  \<lparr>sn_endpoints := unready_endpoints (wi_endpoints w) (sn_endpoints snap),
                   sn_links := filter (\<lambda>l. ln_id l \<notin> set (wi_links w)) (sn_links snap),
                   sn_topologyGeneration := gen_next (sn_topologyGeneration snap)\<rparr>\<rparr>)"

section \<open>Handlers\<close>

definition handle_register :: "SOCKET \<Rightarrow> Message \<Rightarrow> Coordinator \<Rightarrow> sent \<times> Coordinator" where
  "handle_register s m st =
     (if isNull (ms_worker m) \<or> isNull (ms_boot m) then (sendError s ''null worker/boot'', st)
      else if (ms_worker m, ms_boot m) \<in> set (co_fenced st)
      then (sendError s ''fenced boot authority'', st)
      else (sendOk s (ms_worker m),
        st\<lparr>co_workers := map_assign (ms_worker m)
             \<lparr>wi_id = ms_worker m, wi_boot = ms_boot m, wi_name = ms_name m, wi_sock = s,
              wi_endpoints = [], wi_links = [], wi_alive = True\<rparr> (co_workers st),
           co_socketToWorker := map_assign s (ms_worker m) (co_socketToWorker st),
           co_snap := (co_snap st)
             \<lparr>sn_workerBoots := map_assign (ms_worker m) (ms_boot m) (sn_workerBoots (co_snap st)),
              sn_sourceBoots := map_assign (ms_worker m) (ms_boot m) (sn_sourceBoots (co_snap st))\<rparr>\<rparr>))"

text \<open>The worker a publication claims to come from: registered, alive and with the same boot.\<close>

definition publisher :: "Message \<Rightarrow> Coordinator \<Rightarrow> WorkerInfo option" where
  "publisher m st =
     (case map_find (co_workers st) (ms_worker m) of
        None \<Rightarrow> None
      | Some w \<Rightarrow> if \<not> wi_alive w \<or> wi_boot w \<noteq> ms_boot m then None else Some w)"

definition handle_publish_endpoint :: "SOCKET \<Rightarrow> Message \<Rightarrow> Coordinator \<Rightarrow> sent \<times> Coordinator" where
  "handle_publish_endpoint s m st =
     (case publisher m st of
        None \<Rightarrow> (sendError s ''stale publisher authority'', st)
      | Some w \<Rightarrow>
          let e = (ms_endpoint m)\<lparr>ep_worker := ms_worker m, ep_workerBoot := ms_boot m\<rparr>
          in (sendOk s (ep_id e),
              st\<lparr>co_snap := publishEndpoint e (co_snap st),
                 co_workers := map_assign (ms_worker m)
                   (w\<lparr>wi_endpoints := wi_endpoints w @ [ep_id e]\<rparr>) (co_workers st)\<rparr>))"

definition handle_publish_link :: "SOCKET \<Rightarrow> Message \<Rightarrow> Coordinator \<Rightarrow> sent \<times> Coordinator" where
  "handle_publish_link s m st =
     (case publisher m st of
        None \<Rightarrow> (sendError s ''stale publisher authority'', st)
      | Some w \<Rightarrow>
          let l = (ms_link m)\<lparr>ln_workerBoot := ms_boot m\<rparr>
          in (sendOk s (ln_id l),
              st\<lparr>co_snap := publishLink l (co_snap st),
                 co_workers := map_assign (ms_worker m)
                   (w\<lparr>wi_links := wi_links w @ [ln_id l]\<rparr>) (co_workers st)\<rparr>))"

definition handle_publish_capacity :: "SOCKET \<Rightarrow> Message \<Rightarrow> Coordinator \<Rightarrow> sent \<times> Coordinator" where
  "handle_publish_capacity s m st =
     (if \<not> isNull (ms_worker m) \<and> publisher m st = None
      then (sendError s ''stale publisher authority'', st)
      else (sendOk s (ms_linkId m),
        st\<lparr>co_snap := (co_snap st)
          \<lparr>sn_capacityGeneration := gen_next (sn_capacityGeneration (co_snap st)),
           sn_links := map (\<lambda>l. if ln_id l = ms_linkId m then l\<lparr>ln_capacityEvidence := ms_capacity m\<rparr> else l)
             (sn_links (co_snap st))\<rparr>\<rparr>))"

definition handle_publish_congestion :: "SOCKET \<Rightarrow> Message \<Rightarrow> Coordinator \<Rightarrow> sent \<times> Coordinator" where
  "handle_publish_congestion s m st =
     (if \<not> isNull (ms_worker m) \<and> publisher m st = None
      then (sendError s ''stale publisher authority'', st)
      else (sendOk s (ms_linkId m),
        st\<lparr>co_snap := (co_snap st)
          \<lparr>sn_congestionGeneration := gen_next (sn_congestionGeneration (co_snap st)),
           sn_links := map (\<lambda>l. if ln_id l = ms_linkId m then l\<lparr>ln_congestion := ms_congestion m\<rparr> else l)
             (sn_links (co_snap st))\<rparr>\<rparr>))"

text \<open>The reply to a query carries the ordinal of the state in the plan identity.\<close>

definition handle_query :: "SOCKET \<Rightarrow> Message \<Rightarrow> Coordinator \<Rightarrow> sent \<times> Coordinator" where
  "handle_query s m st =
     (case map_find (co_plans st) (ms_planId m) of
        Some r \<Rightarrow> (send_result s True (of_nat (enum_index all_PlanState (pr_state r))), st)
      | None \<Rightarrow> (send_result s False 0, st))"

text \<open>The executor of a plan: the worker and boot of its first stage's source endpoint.\<close>

definition plan_record :: "EvidenceSnapshot \<Rightarrow> CommunicationPlan \<Rightarrow> PlanRecord" where
  "plan_record snap p =
     (let owner = (case pl_orderedStages p of
                     [] \<Rightarrow> None
                   | g # _ \<Rightarrow> List.find (\<lambda>e. ep_id e = st_source g) (sn_endpoints snap))
      in \<lparr>pr_plan = p, pr_state = PlanState.PLAN_READY,
          pr_worker = (case owner of None \<Rightarrow> 0 | Some e \<Rightarrow> ep_worker e),
          pr_boot = (case owner of None \<Rightarrow> 0 | Some e \<Rightarrow> ep_workerBoot e)\<rparr>)"

definition send_plan_result :: "SOCKET \<Rightarrow> bool \<Rightarrow> CommunicationPlan \<Rightarrow> sent" where
  "send_plan_result s ok p =
     send_message s PLAN_RESULT
       ((if ok then default_Message\<lparr>ms_plan := p\<rparr> else default_Message)
          \<lparr>ms_type := PLAN_RESULT, ms_ok := ok\<rparr>)"

definition handle_submit ::
  "SOCKET \<Rightarrow> Message \<Rightarrow> Coordinator \<Rightarrow> cp_exception + (sent \<times> Coordinator)" where
  "handle_submit s m st =
     (let q = ms_request m in
      if isNull (rq_id q) then Inr (sendError s ''null request'', st)
      else if rq_id q \<in> set (co_cancelled st) then Inr (sendError s ''request already cancelled'', st)
      else
        (case planCommunication q (co_snap st) (co_weights st) (co_bounds st) (co_counters st) of
           (Inl ex, _) \<Rightarrow> Inl ex
         | (Inr po, ct) \<Rightarrow>
             let st1 = st\<lparr>co_requests := co_requests st @ [q], co_counters := ct\<rparr> in
             if po_success po then
               (case po_plan po of
                  Some p \<Rightarrow>
                    Inr (send_plan_result s True p,
                      st1\<lparr>co_plans := map_assign (pl_id p) (plan_record (co_snap st) p) (co_plans st1),
                          co_currentByRequest := map_assign (rq_id q) (pl_id p) (co_currentByRequest st1)\<rparr>)
                | None \<Rightarrow> Inr (send_plan_result s True default_CommunicationPlan, st1))
             else Inr (send_plan_result s False default_CommunicationPlan, st1)))"

definition set_plan_state :: "CommunicationPlanId \<Rightarrow> PlanState \<Rightarrow> Coordinator \<Rightarrow> Coordinator" where
  "set_plan_state i x st =
     (case map_find (co_plans st) i of
        None \<Rightarrow> st
      | Some r \<Rightarrow> st\<lparr>co_plans := map_assign i (r\<lparr>pr_state := x\<rparr>) (co_plans st)\<rparr>)"

definition handle_revalidate :: "SOCKET \<Rightarrow> Message \<Rightarrow> Coordinator \<Rightarrow> sent \<times> Coordinator" where
  "handle_revalidate s m st =
     (case map_find (co_plans st) (ms_planId m) of
        None \<Rightarrow> (send_result s False (ms_planId m), st)
      | Some r \<Rightarrow>
          if rv_ok (revalidatePlan (pr_plan r) (co_snap st))
          then (send_result s True (ms_planId m), set_plan_state (ms_planId m) PlanState.AWAITING_EXECUTION st)
          else (send_result s False (ms_planId m), set_plan_state (ms_planId m) PlanState.REVALIDATION_REQUIRED st))"

text \<open>The order to execute, for the executor if it is registered and alive.\<close>

definition send_execute :: "PlanRecord \<Rightarrow> Coordinator \<Rightarrow> sent" where
  "send_execute r st =
     (if isNull (pr_worker r) then []
      else
        (case map_find (co_workers st) (pr_worker r) of
           None \<Rightarrow> []
         | Some w \<Rightarrow>
             if wi_alive w \<and> wi_sock w \<noteq> INVALID_SOCKET
             then send_message (wi_sock w) EXECUTE
               (default_Message\<lparr>ms_type := EXECUTE, ms_planId := pl_id (pr_plan r),
                  ms_bytes := (case pl_orderedStages (pr_plan r) of [] \<Rightarrow> 0 | g # _ \<Rightarrow> st_payload g),
                  ms_worker := pr_worker r, ms_boot := pr_boot r\<rparr>)
             else []))"

definition handle_handoff :: "SOCKET \<Rightarrow> Message \<Rightarrow> Coordinator \<Rightarrow> sent \<times> Coordinator" where
  "handle_handoff s m st =
     (case map_find (co_plans st) (ms_planId m) of
        None \<Rightarrow> (send_result s False (ms_planId m), st)
      | Some r \<Rightarrow>
          if rv_ok (revalidatePlan (pr_plan r) (co_snap st))
          then (send_execute r st @ send_result s True (ms_planId m),
                set_plan_state (ms_planId m) PlanState.ACTIVE st)
          else (send_result s False (ms_planId m), set_plan_state (ms_planId m) PlanState.REVALIDATION_REQUIRED st))"

text \<open>The refusal of a result names its reason, although the code of a \<open>COMMIT_RESULT\<close> leaves it out.\<close>

definition send_stale_result :: "SOCKET \<Rightarrow> CommunicationPlanId \<Rightarrow> sent" where
  "send_stale_result s i =
     send_message s COMMIT_RESULT
       (default_Message\<lparr>ms_type := COMMIT_RESULT, ms_ok := False, ms_planId := i, ms_error := ''stale result''\<rparr>)"

definition handle_execution_result :: "SOCKET \<Rightarrow> Message \<Rightarrow> Coordinator \<Rightarrow> sent \<times> Coordinator" where
  "handle_execution_result s m st =
     (case map_find (co_plans st) (ms_planId m) of
        Some r \<Rightarrow>
          if pr_state r = PlanState.ACTIVE then
            if \<not> isNull (ms_worker m) \<and> (pr_worker r \<noteq> ms_worker m \<or> pr_boot r \<noteq> ms_boot m)
            then (sendError s ''stale result authority'', st)
            else (send_result s True (ms_planId m),
                  set_plan_state (ms_planId m) (if ms_ok m then PlanState.COMPLETED else PlanState.FAILED) st)
          else (send_stale_result s (ms_planId m), st)
      | None \<Rightarrow> (send_stale_result s (ms_planId m), st))"

definition release_claims :: "PlanRecord \<Rightarrow> Coordinator \<Rightarrow> Coordinator" where
  "release_claims r st = st\<lparr>co_broker := release (pl_requiredResourceClaims (pr_plan r)) (co_broker st)\<rparr>"

definition handle_cancel :: "SOCKET \<Rightarrow> Message \<Rightarrow> Coordinator \<Rightarrow> sent \<times> Coordinator" where
  "handle_cancel s m st =
     (let st0 = st\<lparr>co_cancelled := set_insert (ms_requestId m) (co_cancelled st)\<rparr> in
      (send_result s True (ms_planId m),
       (case map_find (co_plans st0) (ms_planId m) of
          None \<Rightarrow> st0
        | Some r \<Rightarrow>
            let st1 = (if pr_state r \<in> {PlanState.COMMITTED, PlanState.AWAITING_EXECUTION, PlanState.ACTIVE,
                           PlanState.AWAITING_RESOURCE_COMMIT}
                       then release_claims r st0 else st0)
            in if pr_state r \<noteq> PlanState.COMPLETED \<and> pr_state r \<noteq> PlanState.CANCELLED
               then set_plan_state (ms_planId m) PlanState.CANCELLED st1 else st1)))"

text \<open>First the named plan, then the current plan of the named request if it is another one.\<close>

definition supersede_named :: "Message \<Rightarrow> Coordinator \<Rightarrow> Coordinator" where
  "supersede_named m st =
     (case map_find (co_plans st) (ms_planId m) of
        None \<Rightarrow> st
      | Some r \<Rightarrow>
          if pr_state r \<noteq> PlanState.COMPLETED \<and> pr_state r \<noteq> PlanState.CANCELLED
          then release_claims r (set_plan_state (ms_planId m) PlanState.SUPERSEDED st) else st)"

definition supersede_current :: "Message \<Rightarrow> Coordinator \<Rightarrow> Coordinator" where
  "supersede_current m st =
     (case map_find (co_currentByRequest st) (ms_requestId m) of
        None \<Rightarrow> st
      | Some cur \<Rightarrow>
          if cur \<noteq> ms_planId m \<and> map_find (co_plans st) cur \<noteq> None
          then (set_plan_state cur PlanState.SUPERSEDED st)
            \<lparr>co_supersessions := co_supersessions st @ [\<lparr>su_superseded = cur, su_newer = ms_planId m\<rparr>]\<rparr>
          else st)"

definition handle_supersede :: "SOCKET \<Rightarrow> Message \<Rightarrow> Coordinator \<Rightarrow> sent \<times> Coordinator" where
  "handle_supersede s m st =
     (send_result s True (ms_planId m), supersede_current m (supersede_named m st))"

section \<open>The store\<close>

definition store_of :: "Coordinator \<Rightarrow> StoreState" where
  "store_of st =
     \<lparr>ss_epoch = co_epoch st,
      ss_plans = map (\<lambda>(i, r). \<lparr>sr_plan = pr_plan r, sr_state = pr_state r\<rparr>) (co_plans st),
      ss_supersessions = co_supersessions st, ss_requests = co_requests st\<rparr>"

definition saveStore :: "Coordinator \<Rightarrow> Coordinator" where
  "saveStore st = st\<lparr>co_file := Some (serializeStore (store_of st))\<rparr>"

definition handle_save :: "SOCKET \<Rightarrow> Coordinator \<Rightarrow> sent \<times> Coordinator" where
  "handle_save s st = (send_result s True 0, saveStore st)"

definition load_record :: "StoreRecord \<Rightarrow> Coordinator \<Rightarrow> Coordinator" where
  "load_record r st =
     st\<lparr>co_plans := map_assign (pl_id (sr_plan r))
          \<lparr>pr_plan = sr_plan r, pr_state = sr_state r, pr_worker = 0, pr_boot = 0\<rparr> (co_plans st),
        co_currentByRequest := map_assign (pl_requestId (sr_plan r)) (pl_id (sr_plan r))
          (co_currentByRequest st)\<rparr>"

definition loadStoreIfAny :: "Coordinator \<Rightarrow> Coordinator" where
  "loadStoreIfAny st =
     (case co_file st of
        None \<Rightarrow> st
      | Some data \<Rightarrow>
          if data = [] then st
          else
            (case parseStore data default_StoreState of
               Inl e \<Rightarrow> st
             | Inr s \<Rightarrow>
                 let st1 = st\<lparr>co_epoch := gen_next (ss_epoch s),
                              co_snap := (co_snap st)\<lparr>sn_epoch := gen_next (ss_epoch s)\<rparr>\<rparr>;
                     s' = conservativeRecovery s
                 in (fold load_record (ss_plans s') st1)
                      \<lparr>co_supersessions := ss_supersessions s', co_requests := ss_requests s'\<rparr>))"

text \<open>\<open>CoordinatorServer\<close> constructed and started with a store file.\<close>

definition start_coordinator :: "RankingWeights \<Rightarrow> Bounds \<Rightarrow> bytes option \<Rightarrow> Coordinator" where
  "start_coordinator ws b file = loadStoreIfAny (new_coordinator ws b file)"

section \<open>Commit\<close>

record PendingCommit =
  pc_sock :: SOCKET
  pc_plan :: CommunicationPlanId
  pc_resources :: "ResourceId list"
  pc_sizes :: "u64 list"

text \<open>What a commit asks of the broker for each claim: the payload of the first stage.\<close>

definition commit_payload :: "CommunicationPlan \<Rightarrow> u64" where
  "commit_payload p = (case pl_orderedStages p of [] \<Rightarrow> 1024 | g # _ \<Rightarrow> st_payload g)"

text \<open>Under the mutex: the plan is marked and its claims are copied.\<close>

definition commit_begin ::
  "SOCKET \<Rightarrow> Message \<Rightarrow> Coordinator \<Rightarrow> sent \<times> PendingCommit option \<times> Coordinator" where
  "commit_begin s m st =
     (case map_find (co_plans st) (ms_planId m) of
        None \<Rightarrow> (sendError s ''plan not found'', None, st)
      | Some r \<Rightarrow>
          if pr_state r \<noteq> PlanState.PLAN_READY \<and> pr_state r \<noteq> PlanState.AWAITING_RESOURCE_COMMIT
          then (sendError s ''plan not committable'', None, st)
          else if pl_requestId (pr_plan r) \<in> set (co_cancelled st)
          then (sendError s ''request cancelled'', None, st)
          else
            let resources = pl_requiredResourceClaims (pr_plan r);
                payload = commit_payload (pr_plan r)
            in ([], Some \<lparr>pc_sock = s, pc_plan = ms_planId m, pc_resources = resources,
                       pc_sizes = replicate (length resources) payload\<rparr>,
                set_plan_state (ms_planId m) PlanState.AWAITING_RESOURCE_COMMIT st))"

text \<open>Outside the mutex: the broker is asked. \<open>None\<close> is a grant, \<open>Some\<close> the broker's error.\<close>

definition commit_acquire :: "PendingCommit \<Rightarrow> Coordinator \<Rightarrow> string option \<times> Coordinator" where
  "commit_acquire c st =
     (let (err, b) = acquire (pc_resources c) (pc_sizes c) (co_broker st)
      in (err, st\<lparr>co_broker := b\<rparr>))"

definition release_pending :: "PendingCommit \<Rightarrow> string option \<Rightarrow> Coordinator \<Rightarrow> Coordinator" where
  "release_pending c err st =
     (if err = None then st\<lparr>co_broker := release (pc_resources c) (co_broker st)\<rparr> else st)"

text \<open>Under the mutex again: the plan may have been cancelled or superseded meanwhile.\<close>

definition commit_finish ::
  "PendingCommit \<Rightarrow> string option \<Rightarrow> Coordinator \<Rightarrow> sent \<times> Coordinator" where
  "commit_finish c err st =
     (case map_find (co_plans st) (pc_plan c) of
        None \<Rightarrow> (sendError (pc_sock c) ''plan missing after commit'', release_pending c err st)
      | Some r \<Rightarrow>
          if pl_requestId (pr_plan r) \<in> set (co_cancelled st) \<or> pr_state r = PlanState.CANCELLED \<or>
             pr_state r = PlanState.SUPERSEDED \<or> pr_state r = PlanState.RETIRED
          then (sendError (pc_sock c) ''cancelled during commit'',
                set_plan_state (pc_plan c) PlanState.CANCELLED (release_pending c err st))
          else
            (case err of
               Some e \<Rightarrow> (sendError (pc_sock c) (''resource commit failed: '' @ e),
                         set_plan_state (pc_plan c) PlanState.FAILED st)
             | None \<Rightarrow> (sendOk (pc_sock c) (pc_plan c), set_plan_state (pc_plan c) PlanState.COMMITTED st)))"

text \<open>The three phases with nothing in between.\<close>

definition handleCommit :: "SOCKET \<Rightarrow> Message \<Rightarrow> Coordinator \<Rightarrow> sent \<times> Coordinator" where
  "handleCommit s m st =
     (case commit_begin s m st of
        (out, None, st1) \<Rightarrow> (out, st1)
      | (out, Some c, st1) \<Rightarrow>
          (case commit_acquire c st1 of
             (err, st2) \<Rightarrow> (case commit_finish c err st2 of (out', st3) \<Rightarrow> (out @ out', st3))))"

section \<open>Dispatch\<close>

definition handleMessage ::
  "SOCKET \<Rightarrow> Message \<Rightarrow> Coordinator \<Rightarrow> cp_exception + (sent \<times> Coordinator)" where
  "handleMessage s m st =
     (case ms_type m of
        REGISTER \<Rightarrow> Inr (handle_register s m st)
      | PUBLISH_ENDPOINT \<Rightarrow> Inr (handle_publish_endpoint s m st)
      | PUBLISH_LINK \<Rightarrow> Inr (handle_publish_link s m st)
      | PUBLISH_CAPACITY \<Rightarrow> Inr (handle_publish_capacity s m st)
      | PUBLISH_CONGESTION \<Rightarrow> Inr (handle_publish_congestion s m st)
      | QUERY_PLAN \<Rightarrow> Inr (handle_query s m st)
      | SUBMIT_REQUEST \<Rightarrow> handle_submit s m st
      | COMMIT_REQUEST \<Rightarrow> Inr (handleCommit s m st)
      | REVALIDATE \<Rightarrow> Inr (handle_revalidate s m st)
      | EXECUTION_HANDOFF \<Rightarrow> Inr (handle_handoff s m st)
      | EXECUTION_RESULT \<Rightarrow> Inr (handle_execution_result s m st)
      | CANCEL \<Rightarrow> Inr (handle_cancel s m st)
      | SUPERSEDE \<Rightarrow> Inr (handle_supersede s m st)
      | SAVE \<Rightarrow> Inr (handle_save s st)
      | SHUTDOWN \<Rightarrow> Inr (send_result s True 0, st\<lparr>co_stopping := True\<rparr>)
      | _ \<Rightarrow> Inr (sendError s ''unsupported message'', st))"

text \<open>A connection: greeting, one received frame, and the end of the connection.\<close>

definition accept_connection :: "SOCKET \<Rightarrow> Coordinator \<Rightarrow> sent \<times> Coordinator" where
  "accept_connection s st =
     (send_message s HELLO (default_Message\<lparr>ms_type := HELLO, ms_epoch := co_epoch st\<rparr>),
      st\<lparr>co_activeSockets := set_insert s (co_activeSockets st)\<rparr>)"

definition receive_frame ::
  "SOCKET \<Rightarrow> Frame \<Rightarrow> Coordinator \<Rightarrow> cp_exception + (sent \<times> Coordinator)" where
  "receive_frame s f st =
     (case decodeMessage (fr_type f) (fr_payload f) of
        Inl e \<Rightarrow> Inr (sendError s e, st)
      | Inr m \<Rightarrow> handleMessage s m st)"

text \<open>
  A connection that fails to deliver a frame fences the worker registered on it; one that ends
  because the coordinator is stopping does not.
\<close>

definition fence_connection :: "SOCKET \<Rightarrow> Coordinator \<Rightarrow> Coordinator" where
  "fence_connection s st =
     (case map_find (co_socketToWorker st) s of
        None \<Rightarrow> st
      | Some w \<Rightarrow> (fenceWorker w st)\<lparr>co_socketToWorker := map_erase s (co_socketToWorker st)\<rparr>)"

definition end_connection :: "SOCKET \<Rightarrow> Coordinator \<Rightarrow> Coordinator" where
  "end_connection s st = st\<lparr>co_activeSockets := filter (\<lambda>x. x \<noteq> s) (co_activeSockets st)\<rparr>"

definition disconnect :: "SOCKET \<Rightarrow> Coordinator \<Rightarrow> Coordinator" where
  "disconnect s st = end_connection s (fence_connection s st)"

lemmas disconnect_defs = disconnect_def end_connection_def fence_connection_def

text \<open>\<open>CoordinatorServer::stop\<close> raises the flag; the connections end one by one.\<close>

definition stop :: "Coordinator \<Rightarrow> Coordinator" where
  "stop st = st\<lparr>co_stopping := True\<rparr>"

section \<open>Observers\<close>

definition currentPlanCount :: "Coordinator \<Rightarrow> nat" where
  "currentPlanCount st = length (co_plans st)"

definition hasRevalidatedPlans :: "Coordinator \<Rightarrow> bool" where
  "hasRevalidatedPlans st \<longleftrightarrow>
     (\<exists>r \<in> snd ` set (co_plans st). pr_state r = PlanState.REVALIDATION_REQUIRED)"

definition planState :: "CommunicationPlanId \<Rightarrow> Coordinator \<Rightarrow> PlanState" where
  "planState i st =
     (case map_find (co_plans st) i of Some r \<Rightarrow> pr_state r | None \<Rightarrow> PlanState.RETIRED)"

end
