(* ===== verification/Coordinator_Invariants.thy ===== *)
theory Coordinator_Invariants
  imports Coordinator
begin

text \<open>
  The coordinator as a state machine: which steps it can take, with commits in flight between their
  phases, which states it can reach, and what holds in all of them.
\<close>

section \<open>Invariants of the state\<close>

definition live_boot :: "Coordinator \<Rightarrow> WorkerId \<Rightarrow> Generation option" where
  "live_boot st w =
     (case map_find (co_workers st) w of
        Some i \<Rightarrow> if wi_alive i then Some (wi_boot i) else None
      | None \<Rightarrow> None)"

text \<open>
  Registration: a worker entry is under its own identity, it is alive exactly as long as its boot is
  not fenced, the boots published in the snapshot are those of the live workers, and a connection
  maps to a worker that is known.
\<close>

definition registry_inv :: "Coordinator \<Rightarrow> bool" where
  "registry_inv st \<longleftrightarrow>
     (\<forall>w i. map_find (co_workers st) w = Some i \<longrightarrow>
        wi_id i = w \<and> w \<noteq> 0 \<and> wi_boot i \<noteq> 0 \<and> (wi_alive i \<longleftrightarrow> (w, wi_boot i) \<notin> set (co_fenced st))) \<and>
     map_find (sn_workerBoots (co_snap st)) = live_boot st \<and>
     map_find (sn_sourceBoots (co_snap st)) = live_boot st \<and>
     (\<forall>s w. map_find (co_socketToWorker st) s = Some w \<longrightarrow> map_find (co_workers st) w \<noteq> None)"

text \<open>Plans: each under its own identity, and the current plan of a request is a known plan.\<close>

definition plans_inv :: "Coordinator \<Rightarrow> bool" where
  "plans_inv st \<longleftrightarrow>
     map_ok (co_plans st) \<and>
     (\<forall>i r. map_find (co_plans st) i = Some r \<longrightarrow> pl_id (pr_plan r) = i) \<and>
     (\<forall>q i. map_find (co_currentByRequest st) q = Some i \<longrightarrow> map_find (co_plans st) i \<noteq> None)"

definition coordinator_inv :: "Coordinator \<Rightarrow> bool" where
  "coordinator_inv st \<longleftrightarrow> registry_inv st \<and> plans_inv st \<and> sn_epoch (co_snap st) = co_epoch st"

text \<open>What the registration invariant looks at.\<close>

definition registry_of ::
  "Coordinator \<Rightarrow> (WorkerId \<times> WorkerInfo) list \<times> (WorkerId \<times> Generation) list \<times> (SOCKET \<times> WorkerId) list \<times>
     (WorkerId \<times> Generation) list \<times> (SourceId \<times> Generation) list \<times> Generation \<times> Generation" where
  "registry_of st = (co_workers st, co_fenced st, co_socketToWorker st, sn_workerBoots (co_snap st),
     sn_sourceBoots (co_snap st), sn_epoch (co_snap st), co_epoch st)"

lemma registry_inv_frame: "registry_of st' = registry_of st \<Longrightarrow> registry_inv st' = registry_inv st"
  by (simp add: registry_of_def registry_inv_def live_boot_def fun_eq_iff)

lemma epoch_frame: "registry_of st' = registry_of st \<Longrightarrow>
    (sn_epoch (co_snap st') = co_epoch st') = (sn_epoch (co_snap st) = co_epoch st)"
  by (simp add: registry_of_def)

definition plans_of :: "Coordinator \<Rightarrow> (CommunicationPlanId \<times> PlanRecord) list \<times> (CommunicationRequestId \<times> CommunicationPlanId) list" where
  "plans_of st = (co_plans st, co_currentByRequest st)"

lemma plans_inv_frame: "plans_of st' = plans_of st \<Longrightarrow> plans_inv st' = plans_inv st"
  by (simp add: plans_of_def plans_inv_def)

lemmas inv_frames = registry_inv_frame epoch_frame plans_inv_frame

section \<open>Plan states\<close>

lemma set_plan_state_registry [simp]: "registry_of (set_plan_state i x st) = registry_of st"
  by (simp add: set_plan_state_def registry_of_def split: option.split)

lemma release_registry [simp]: "registry_of (release_claims r st) = registry_of st"
  "registry_of (release_pending c err st) = registry_of st"
  "registry_of (st\<lparr>co_broker := b\<rparr>) = registry_of st"
  "plans_of (release_claims r st) = plans_of st" "plans_of (release_pending c err st) = plans_of st"
  "plans_of (st\<lparr>co_broker := b\<rparr>) = plans_of st"
  by (simp_all add: release_claims_def release_pending_def registry_of_def plans_of_def)

lemma find_set_plan_state:
  "map_find (co_plans (set_plan_state i x st)) k =
     (if k = i then map_option (\<lambda>r. r\<lparr>pr_state := x\<rparr>) (map_find (co_plans st) i) else map_find (co_plans st) k)"
  by (simp add: set_plan_state_def map_find_assign split: option.split)

lemma set_plan_state_inv [simp]:
  assumes "plans_inv st"
  shows "plans_inv (set_plan_state i x st)"
proof -
  have ok: "map_ok (co_plans (set_plan_state i x st))"
    using assms by (simp add: set_plan_state_def plans_inv_def map_ok_assign split: option.split)
  have cur: "co_currentByRequest (set_plan_state i x st) = co_currentByRequest st"
    by (simp add: set_plan_state_def split: option.split)
  show ?thesis
    using assms unfolding plans_inv_def cur find_set_plan_state by (auto simp: ok)
qed

section \<open>Every handler keeps the invariants\<close>

lemma publisher_Some:
  "publisher m st = Some w \<longleftrightarrow>
     map_find (co_workers st) (ms_worker m) = Some w \<and> wi_alive w \<and> wi_boot w = ms_boot m"
  by (auto simp: publisher_def split: option.split)

text \<open>An entry that keeps its identity, boot and flag is replaced.\<close>

lemma registry_inv_update_worker:
  assumes "registry_inv st" and "map_find (co_workers st) w = Some i"
    and "wi_id j = wi_id i" "wi_boot j = wi_boot i" "wi_alive j = wi_alive i"
    and "co_workers st' = map_assign w j (co_workers st)" "co_fenced st' = co_fenced st"
    "co_socketToWorker st' = co_socketToWorker st"
    "sn_workerBoots (co_snap st') = sn_workerBoots (co_snap st)"
    "sn_sourceBoots (co_snap st') = sn_sourceBoots (co_snap st)"
  shows "registry_inv st'"
proof -
  have "live_boot st' = live_boot st"
    using assms by (simp add: fun_eq_iff live_boot_def map_find_assign)
  then show ?thesis using assms by (auto simp: registry_inv_def map_find_assign)
qed

lemma handle_register_inv:
  assumes "coordinator_inv st"
  shows "coordinator_inv (snd (handle_register s m st))"
proof (cases "isNull (ms_worker m) \<or> isNull (ms_boot m) \<or> (ms_worker m, ms_boot m) \<in> set (co_fenced st)")
  case True
  then show ?thesis using assms by (auto simp: handle_register_def)
next
  case False
  define st' where "st' = snd (handle_register s m st)"
  have st': "co_workers st' = map_assign (ms_worker m)
      \<lparr>wi_id = ms_worker m, wi_boot = ms_boot m, wi_name = ms_name m, wi_sock = s,
       wi_endpoints = [], wi_links = [], wi_alive = True\<rparr> (co_workers st)"
    "co_fenced st' = co_fenced st"
    "co_socketToWorker st' = map_assign s (ms_worker m) (co_socketToWorker st)"
    "sn_workerBoots (co_snap st') = map_assign (ms_worker m) (ms_boot m) (sn_workerBoots (co_snap st))"
    "sn_sourceBoots (co_snap st') = map_assign (ms_worker m) (ms_boot m) (sn_sourceBoots (co_snap st))"
    "plans_of st' = plans_of st" "sn_epoch (co_snap st') = sn_epoch (co_snap st)" "co_epoch st' = co_epoch st"
    using False by (simp_all add: st'_def handle_register_def plans_of_def)
  have live: "live_boot st' = (live_boot st)(ms_worker m := Some (ms_boot m))"
    by (simp add: fun_eq_iff live_boot_def st' map_find_assign)
  have "registry_inv st'"
    using assms False unfolding registry_inv_def live coordinator_inv_def
    by (auto simp: st' map_find_assign fun_eq_iff isNull_def)
  then show ?thesis
    using assms st' plans_inv_frame [of st' st] by (simp add: coordinator_inv_def flip: st'_def)
qed

lemma fenceWorker_inv:
  assumes "coordinator_inv st"
  shows "coordinator_inv (fenceWorker w st)"
proof (cases "map_find (co_workers st) w")
  case None
  then have "live_boot st w = None" by (simp add: live_boot_def)
  moreover have "live_boot (fenceWorker w st) = live_boot st"
    by (simp add: fun_eq_iff live_boot_def fenceWorker_def None)
  ultimately show ?thesis
    using assms None plans_inv_frame [of "fenceWorker w st" st]
    by (auto simp: coordinator_inv_def registry_inv_def fenceWorker_def plans_of_def map_find_erase fun_eq_iff)
next
  case (Some i)
  define st' where "st' = fenceWorker w st"
  have st': "co_workers st' = map_assign w (i\<lparr>wi_alive := False\<rparr>) (co_workers st)"
    "co_fenced st' = set_insert (w, wi_boot i) (co_fenced st)"
    "co_socketToWorker st' = co_socketToWorker st"
    "sn_workerBoots (co_snap st') = map_erase w (sn_workerBoots (co_snap st))"
    "sn_sourceBoots (co_snap st') = map_erase w (sn_sourceBoots (co_snap st))"
    "plans_of st' = plans_of st" "sn_epoch (co_snap st') = sn_epoch (co_snap st)" "co_epoch st' = co_epoch st"
    using Some by (simp_all add: st'_def fenceWorker_def plans_of_def Let_def)
  have live: "live_boot st' = (live_boot st)(w := None)"
    by (simp add: fun_eq_iff live_boot_def st' map_find_assign)
  have "registry_inv st'"
    using assms Some unfolding registry_inv_def live coordinator_inv_def
    by (auto simp: st' map_find_assign map_find_erase fun_eq_iff)
  then show ?thesis
    using assms st' plans_inv_frame [of st' st] by (simp add: coordinator_inv_def flip: st'_def)
qed

lemma handle_publish_inv:
  assumes "coordinator_inv st"
  shows "coordinator_inv (snd (handle_publish_endpoint s m st))"
    and "coordinator_inv (snd (handle_publish_link s m st))"
proof -
  show "coordinator_inv (snd (handle_publish_endpoint s m st))"
  proof (cases "publisher m st")
    case (Some w)
    have "registry_inv (snd (handle_publish_endpoint s m st))"
      by (rule registry_inv_update_worker [where st = st and w = "ms_worker m" and i = w])
        (use assms Some [unfolded publisher_Some] in \<open>simp_all add: Some handle_publish_endpoint_def
           coordinator_inv_def publishEndpoint_def Let_def\<close>)
    then show ?thesis
      using assms Some plans_inv_frame [of "snd (handle_publish_endpoint s m st)" st]
      by (simp add: coordinator_inv_def handle_publish_endpoint_def plans_of_def publishEndpoint_def Let_def)
  qed (simp add: handle_publish_endpoint_def assms)
  show "coordinator_inv (snd (handle_publish_link s m st))"
  proof (cases "publisher m st")
    case (Some w)
    have "registry_inv (snd (handle_publish_link s m st))"
      by (rule registry_inv_update_worker [where st = st and w = "ms_worker m" and i = w])
        (use assms Some [unfolded publisher_Some] in \<open>simp_all add: Some handle_publish_link_def
           coordinator_inv_def publishLink_def Let_def\<close>)
    then show ?thesis
      using assms Some plans_inv_frame [of "snd (handle_publish_link s m st)" st]
      by (simp add: coordinator_inv_def handle_publish_link_def plans_of_def publishLink_def Let_def)
  qed (simp add: handle_publish_link_def assms)
qed

text \<open>The other handlers leave the registration alone.\<close>

lemma inv_by_frame:
  "coordinator_inv st \<Longrightarrow> registry_of st' = registry_of st \<Longrightarrow> plans_inv st' \<Longrightarrow> coordinator_inv st'"
  using registry_inv_frame [of st' st] epoch_frame [of st' st] by (simp add: coordinator_inv_def)

lemma inv_plans: "coordinator_inv st \<Longrightarrow> plans_inv st"
  by (simp add: coordinator_inv_def)

lemma frame_simps [simp]:
  "registry_of (st\<lparr>co_cancelled := c\<rparr>) = registry_of st" "plans_of (st\<lparr>co_cancelled := c\<rparr>) = plans_of st"
  "registry_of (st\<lparr>co_supersessions := u\<rparr>) = registry_of st" "plans_of (st\<lparr>co_supersessions := u\<rparr>) = plans_of st"
  "registry_of (st\<lparr>co_file := f\<rparr>) = registry_of st" "plans_of (st\<lparr>co_file := f\<rparr>) = plans_of st"
  "registry_of (st\<lparr>co_stopping := b\<rparr>) = registry_of st" "plans_of (st\<lparr>co_stopping := b\<rparr>) = plans_of st"
  "registry_of (st\<lparr>co_requests := r, co_counters := ct\<rparr>) = registry_of st"
  "plans_of (st\<lparr>co_requests := r, co_counters := ct\<rparr>) = plans_of st"
  "registry_of (st\<lparr>co_activeSockets := x\<rparr>) = registry_of st" "plans_of (st\<lparr>co_activeSockets := x\<rparr>) = plans_of st"
  by (simp_all add: registry_of_def plans_of_def)

lemma plans_inv_simps [simp]:
  "plans_inv (st\<lparr>co_cancelled := c\<rparr>) = plans_inv st" "plans_inv (st\<lparr>co_supersessions := u\<rparr>) = plans_inv st"
  "plans_inv (st\<lparr>co_file := f\<rparr>) = plans_inv st" "plans_inv (st\<lparr>co_stopping := b\<rparr>) = plans_inv st"
  "plans_inv (st\<lparr>co_requests := r, co_counters := ct\<rparr>) = plans_inv st"
  "plans_inv (st\<lparr>co_broker := br\<rparr>) = plans_inv st" "plans_inv (release_claims r0 st) = plans_inv st"
  "plans_inv (release_pending p err st) = plans_inv st" "plans_inv (st\<lparr>co_activeSockets := x\<rparr>) = plans_inv st"
  by (rule plans_inv_frame, simp)+

lemma handle_evidence_inv:
  assumes "coordinator_inv st"
  shows "coordinator_inv (snd (handle_publish_capacity s m st))"
    and "coordinator_inv (snd (handle_publish_congestion s m st))"
    and "coordinator_inv (snd (handle_query s m st))"
proof -
  have "plans_inv (snd (handle_publish_capacity s m st)) = plans_inv st"
    by (rule plans_inv_frame) (simp add: handle_publish_capacity_def plans_of_def)
  then show "coordinator_inv (snd (handle_publish_capacity s m st))"
    using inv_plans [OF assms] by (intro inv_by_frame [OF assms]) (simp_all add: handle_publish_capacity_def registry_of_def)
  have "plans_inv (snd (handle_publish_congestion s m st)) = plans_inv st"
    by (rule plans_inv_frame) (simp add: handle_publish_congestion_def plans_of_def)
  then show "coordinator_inv (snd (handle_publish_congestion s m st))"
    using inv_plans [OF assms] by (intro inv_by_frame [OF assms]) (simp_all add: handle_publish_congestion_def registry_of_def)
  show "coordinator_inv (snd (handle_query s m st))"
    using assms by (simp add: handle_query_def split: option.split)
qed

lemma add_plan_inv:
  assumes "plans_inv st" and "pl_id (pr_plan r) = i"
  shows "plans_inv (st\<lparr>co_plans := map_assign i r (co_plans st),
    co_currentByRequest := map_assign q i (co_currentByRequest st)\<rparr>)"
  using assms by (auto simp: plans_inv_def map_find_assign map_ok_assign)

lemma handle_submit_inv:
  assumes "coordinator_inv st" and "handle_submit s m st = Inr (out, st')"
  shows "coordinator_inv st'"
proof -
  obtain res ct where plan: "planCommunication (ms_request m) (co_snap st) (co_weights st) (co_bounds st) (co_counters st) = (res, ct)"
    by (cases "planCommunication (ms_request m) (co_snap st) (co_weights st) (co_bounds st) (co_counters st)")
  let ?st1 = "st\<lparr>co_requests := co_requests st @ [ms_request m], co_counters := ct\<rparr>"
  consider "st' = st" | "st' = ?st1"
    | p where "st' = ?st1\<lparr>co_plans := map_assign (pl_id p) (plan_record (co_snap st) p) (co_plans ?st1),
        co_currentByRequest := map_assign (rq_id (ms_request m)) (pl_id p) (co_currentByRequest ?st1)\<rparr>"
    using assms(2) plan unfolding handle_submit_def Let_def
    by (auto split: if_splits sum.splits option.splits)
  then show ?thesis
  proof cases
    case 1
    then show ?thesis using assms(1) by simp
  next
    case 2
    then show ?thesis using inv_plans [OF assms(1)] by (intro inv_by_frame [OF assms(1)]) simp_all
  next
    case 3
    have "plans_inv st'"
      unfolding 3 using inv_plans [OF assms(1)]
      by (intro add_plan_inv) (simp_all add: plan_record_def Let_def)
    moreover have "registry_of st' = registry_of st" unfolding 3 by (simp add: registry_of_def)
    ultimately show ?thesis by (intro inv_by_frame [OF assms(1)])
  qed
qed

lemma handle_execution_inv:
  assumes "coordinator_inv st"
  shows "coordinator_inv (snd (handle_revalidate s m st))"
    and "coordinator_inv (snd (handle_handoff s m st))"
    and "coordinator_inv (snd (handle_execution_result s m st))"
  by (rule inv_by_frame [OF assms];
      simp add: handle_revalidate_def handle_handoff_def handle_execution_result_def
        inv_plans [OF assms] split: option.split)+

lemma handle_cancel_inv:
  assumes "coordinator_inv st"
  shows "coordinator_inv (snd (handle_cancel s m st))"
  by (rule inv_by_frame [OF assms];
      simp add: handle_cancel_def Let_def inv_plans [OF assms] split: option.split)

lemma supersede_inv:
  assumes "coordinator_inv st"
  shows "coordinator_inv (supersede_named m st)" "coordinator_inv (supersede_current m st)"
  by (rule inv_by_frame [OF assms];
      simp add: supersede_named_def supersede_current_def inv_plans [OF assms] split: option.split)+

lemma commit_inv:
  assumes "coordinator_inv st"
  shows "coordinator_inv (snd (snd (commit_begin s m st)))"
    and "coordinator_inv (snd (commit_acquire c st))"
    and "coordinator_inv (snd (commit_finish c err st))"
  by (rule inv_by_frame [OF assms];
      simp add: commit_begin_def commit_acquire_def commit_finish_def Let_def inv_plans [OF assms]
        split: option.split prod.split)+

text \<open>The phases of an undisturbed commit.\<close>

lemma handleCommit_cases:
  obtains (refused) out st1 where "commit_begin s m st = (out, None, st1)" "handleCommit s m st = (out, st1)"
  | (answered) out c st1 err st2 out' st3 where "commit_begin s m st = (out, Some c, st1)"
      "commit_acquire c st1 = (err, st2)" "commit_finish c err st2 = (out', st3)"
      "handleCommit s m st = (out @ out', st3)"
proof -
  obtain out pend st1 where start: "commit_begin s m st = (out, pend, st1)" by (metis prod_cases3)
  show thesis
  proof (cases pend)
    case None
    with start refused show thesis by (simp add: handleCommit_def)
  next
    case (Some c)
    obtain err st2 where acq: "commit_acquire c st1 = (err, st2)" by (metis surj_pair)
    obtain out' st3 where fin: "commit_finish c err st2 = (out', st3)" by (metis surj_pair)
    show thesis using start Some acq fin by (intro answered) (simp_all add: handleCommit_def)
  qed
qed

lemma handleCommit_inv:
  assumes "coordinator_inv st"
  shows "coordinator_inv (snd (handleCommit s m st))"
proof (cases rule: handleCommit_cases [of s m st])
  case (refused out st1)
  then show ?thesis using commit_inv(1) [OF assms, of s m] by simp
next
  case (answered out c st1 err st2 out' st3)
  have "coordinator_inv st1" using commit_inv(1) [OF assms, of s m] answered by simp
  then have "coordinator_inv st2" using commit_inv(2) [of st1 c] answered by simp
  then show ?thesis using commit_inv(3) [of st2 c err] answered by simp
qed

lemma handleMessage_inv:
  assumes "coordinator_inv st" and "handleMessage s m st = Inr (out, st')"
  shows "coordinator_inv st'"
proof -
  have stop: "coordinator_inv (st\<lparr>co_stopping := True\<rparr>)" and save: "coordinator_inv (saveStore st)"
    using inv_plans [OF assms(1)] by (intro inv_by_frame [OF assms(1)]; simp add: saveStore_def)+
  have snd: "y = (out, st') \<Longrightarrow> coordinator_inv (snd y) \<Longrightarrow> coordinator_inv st'" for y by simp
  show ?thesis
  proof (cases "ms_type m")
    case SUBMIT_REQUEST
    with assms show ?thesis by (auto simp: handleMessage_def intro: handle_submit_inv)
  qed (use assms stop save in \<open>auto simp: handleMessage_def handle_save_def handle_supersede_def
      intro: snd [OF _ handle_register_inv] snd [OF _ handle_publish_inv(1)] snd [OF _ handle_publish_inv(2)]
        snd [OF _ handle_evidence_inv(1)] snd [OF _ handle_evidence_inv(2)] snd [OF _ handle_evidence_inv(3)]
        snd [OF _ handle_execution_inv(1)] snd [OF _ handle_execution_inv(2)] snd [OF _ handle_execution_inv(3)]
        snd [OF _ handle_cancel_inv] snd [OF _ handleCommit_inv] supersede_inv\<close>)
qed

section \<open>Starting from a store\<close>

lemma load_record_frames:
  "registry_of (load_record r st) = registry_of st"
  "plans_inv st \<Longrightarrow> plans_inv (load_record r st)"
  by (simp_all add: load_record_def registry_of_def add_plan_inv)

lemma load_records_frames:
  "registry_of (fold load_record rs st) = registry_of st"
  "plans_inv st \<Longrightarrow> plans_inv (fold load_record rs st)"
  by (induction rs arbitrary: st) (simp_all add: load_record_frames)

lemma new_coordinator_inv: "coordinator_inv (new_coordinator ws b file)"
  by (simp add: coordinator_inv_def registry_inv_def plans_inv_def new_coordinator_def initial_snapshot_def
      default_EvidenceSnapshot_def live_boot_def fun_eq_iff)

lemma loaded_inv:
  assumes "coordinator_inv st"
  shows "coordinator_inv (loadStoreIfAny st)"
proof -
  have "coordinator_inv ((fold load_record rs
      (st\<lparr>co_epoch := e, co_snap := (co_snap st)\<lparr>sn_epoch := e\<rparr>\<rparr>))\<lparr>co_supersessions := u, co_requests := q\<rparr>)"
    for rs e u q
  proof -
    let ?st1 = "st\<lparr>co_epoch := e, co_snap := (co_snap st)\<lparr>sn_epoch := e\<rparr>\<rparr>"
    have "plans_inv ?st1 = plans_inv st" by (rule plans_inv_frame) (simp add: plans_of_def)
    moreover have "registry_inv ?st1 = registry_inv st"
      by (simp add: registry_inv_def live_boot_def fun_eq_iff)
    ultimately have one: "coordinator_inv ?st1" using assms by (simp add: coordinator_inv_def)
    have "plans_inv ((fold load_record rs ?st1)\<lparr>co_supersessions := u, co_requests := q\<rparr>) =
        plans_inv (fold load_record rs ?st1)"
      by (rule plans_inv_frame) (simp add: plans_of_def)
    moreover have "registry_of ((fold load_record rs ?st1)\<lparr>co_supersessions := u, co_requests := q\<rparr>) = registry_of ?st1"
      using load_records_frames(1) [of rs ?st1] by (simp add: registry_of_def)
    ultimately show ?thesis
      using load_records_frames(2) [OF inv_plans [OF one]] by (intro inv_by_frame [OF one]) simp_all
  qed
  then show ?thesis using assms by (simp add: loadStoreIfAny_def Let_def split: option.split sum.split)
qed

lemma start_inv: "coordinator_inv (start_coordinator ws b file)"
  unfolding start_coordinator_def by (intro loaded_inv new_coordinator_inv)

section \<open>The coordinator as a state machine\<close>

text \<open>A commit in flight: not yet answered by the broker, or answered.\<close>

record System =
  sy_co :: Coordinator
  sy_pending :: "(PendingCommit \<times> string option option) list"

inductive coordinator_step :: "System \<Rightarrow> sent \<Rightarrow> System \<Rightarrow> bool" where
  connect:
    "accept_connection s (sy_co y) = (out, st') \<Longrightarrow> coordinator_step y out (y\<lparr>sy_co := st'\<rparr>)"
| message:
    "fr_type f \<noteq> COMMIT_REQUEST \<Longrightarrow> receive_frame s f (sy_co y) = Inr (out, st') \<Longrightarrow>
     coordinator_step y out (y\<lparr>sy_co := st'\<rparr>)"
| bad_commit:
    "decodeMessage COMMIT_REQUEST payload = Inl e \<Longrightarrow> coordinator_step y (sendError s e) y"
| refuse_commit:
    "decodeMessage COMMIT_REQUEST payload = Inr m \<Longrightarrow> commit_begin s m (sy_co y) = (out, None, st') \<Longrightarrow>
     coordinator_step y out (y\<lparr>sy_co := st'\<rparr>)"
| begin_commit:
    "decodeMessage COMMIT_REQUEST payload = Inr m \<Longrightarrow> commit_begin s m (sy_co y) = (out, Some c, st') \<Longrightarrow>
     coordinator_step y out (y\<lparr>sy_co := st', sy_pending := sy_pending y @ [(c, None)]\<rparr>)"
| acquire_commit:
    "sy_pending y = xs @ (c, None) # zs \<Longrightarrow> commit_acquire c (sy_co y) = (err, st') \<Longrightarrow>
     coordinator_step y [] (y\<lparr>sy_co := st', sy_pending := xs @ (c, Some err) # zs\<rparr>)"
| finish_commit:
    "sy_pending y = xs @ (c, Some err) # zs \<Longrightarrow> commit_finish c err (sy_co y) = (out, st') \<Longrightarrow>
     coordinator_step y out (y\<lparr>sy_co := st', sy_pending := xs @ zs\<rparr>)"
| hangup:
    "coordinator_step y [] (y\<lparr>sy_co := disconnect s (sy_co y)\<rparr>)"
| stopped:
    "coordinator_step y [] (y\<lparr>sy_co := stop (sy_co y)\<rparr>)"
| drained:
    "co_stopping (sy_co y) \<Longrightarrow> coordinator_step y [] (y\<lparr>sy_co := end_connection s (sy_co y)\<rparr>)"

inductive reachable_system :: "System \<Rightarrow> bool" where
  started: "reachable_system \<lparr>sy_co = start_coordinator ws b file, sy_pending = []\<rparr>"
| stepped: "reachable_system y \<Longrightarrow> coordinator_step y out y' \<Longrightarrow> reachable_system y'"

inductive_cases coordinator_stepE: "coordinator_step y out y'"

lemma end_connection_inv: "coordinator_inv st \<Longrightarrow> coordinator_inv (end_connection s st)"
  by (rule inv_by_frame) (simp_all add: end_connection_def inv_plans)

lemma stop_inv: "coordinator_inv st \<Longrightarrow> coordinator_inv (stop st)"
  by (rule inv_by_frame) (simp_all add: stop_def inv_plans)

lemma fence_connection_inv:
  assumes "coordinator_inv st"
  shows "coordinator_inv (fence_connection s st)"
proof -
  have gone: "coordinator_inv (st'\<lparr>co_socketToWorker := map_erase s (co_socketToWorker st')\<rparr>)"
    if "coordinator_inv st'" for st'
  proof -
    have "plans_inv (st'\<lparr>co_socketToWorker := map_erase s (co_socketToWorker st')\<rparr>) = plans_inv st'"
      by (rule plans_inv_frame) (simp add: plans_of_def)
    then show ?thesis using that
      by (auto simp: coordinator_inv_def registry_inv_def live_boot_def fun_eq_iff map_find_erase)
  qed
  have socks: "co_socketToWorker (fenceWorker w st) = co_socketToWorker st" for w
    by (simp add: fenceWorker_def Let_def split: option.split)
  show ?thesis
    using assms gone [OF fenceWorker_inv [OF assms]]
    by (simp add: fence_connection_def socks split: option.split)
qed

lemma disconnect_inv: "coordinator_inv st \<Longrightarrow> coordinator_inv (disconnect s st)"
  by (simp add: disconnect_def end_connection_inv fence_connection_inv)

lemma coordinator_step_inv:
  assumes "coordinator_step y out y'" and "coordinator_inv (sy_co y)"
  shows "coordinator_inv (sy_co y')"
  using assms
proof (induction rule: coordinator_step.induct)
  case (connect s y out st')
  then have st': "st' = (sy_co y)\<lparr>co_activeSockets := set_insert s (co_activeSockets (sy_co y))\<rparr>"
    by (simp add: accept_connection_def)
  have "coordinator_inv st'"
    unfolding st' using inv_plans [OF connect(2)] by (intro inv_by_frame [OF connect(2)]) simp_all
  then show ?case by simp
next
  case (message f s y out st')
  then show ?case
    by (auto simp: receive_frame_def split: sum.splits intro: handleMessage_inv)
next
  case (refuse_commit payload m s y out st')
  then show ?case using commit_inv(1) [of "sy_co y" s m] by simp
next
  case (begin_commit payload m s y out c st')
  then show ?case using commit_inv(1) [of "sy_co y" s m] by simp
next
  case (acquire_commit y xs c zs err st')
  then show ?case using commit_inv(2) [of "sy_co y" c] by simp
next
  case (finish_commit y xs c err zs out st')
  then show ?case using commit_inv(3) [of "sy_co y" c err] by simp
next
  case (hangup y s)
  then show ?case by (simp add: disconnect_inv)
qed (simp_all add: stop_inv end_connection_inv)

lemma reachable_inv: "reachable_system y \<Longrightarrow> coordinator_inv (sy_co y)"
  by (induction rule: reachable_system.induct) (auto simp: start_inv intro: coordinator_step_inv)

text \<open>A message that is sent, arrives and is handled is a step.\<close>

lemma sent_message_reachable:
  assumes "reachable_system y" and "message_ok m" and "ms_type m \<noteq> COMMIT_REQUEST"
    and "handleMessage s (wire_message m) (sy_co y) = Inr (out, st')"
  shows "reachable_system (y\<lparr>sy_co := st'\<rparr>)"
proof -
  let ?f = "\<lparr>fr_type = ms_type m, fr_payload = encodeMessage m\<rparr>"
  have "receive_frame s ?f (sy_co y) = Inr (out, st')"
    using message_back [OF assms(2), of "[]"] assms(4) by (simp add: receive_frame_def)
  then have "coordinator_step y out (y\<lparr>sy_co := st'\<rparr>)"
    using assms(3) by (intro coordinator_step.message [where f = ?f and s = s]) simp_all
  with assms(1) show ?thesis by (rule reachable_system.stepped)
qed

lemma hangup_reachable: "reachable_system y \<Longrightarrow> reachable_system (y\<lparr>sy_co := disconnect s (sy_co y)\<rparr>)"
  using reachable_system.stepped [OF _ coordinator_step.hangup [of y s]] .

section \<open>Fenced boots and cancelled requests are forever\<close>

text \<open>
  The interface a worker's authority is used through: an authority is live or stale, never both, and
  no step makes a stale one live again.
\<close>

locale authority_registry =
  fixes valid :: "'s \<Rightarrow> bool" and live :: "'s \<Rightarrow> 'a \<Rightarrow> bool" and stale :: "'s \<Rightarrow> 'a \<Rightarrow> bool"
    and moves :: "'s \<Rightarrow> 's \<Rightarrow> bool"
  assumes valid_moves: "valid s \<Longrightarrow> moves s t \<Longrightarrow> valid t"
    and stale_moves: "moves s t \<Longrightarrow> stale s a \<Longrightarrow> stale t a"
    and not_both: "valid s \<Longrightarrow> stale s a \<Longrightarrow> \<not> live s a"
begin

lemma stale_forever: "moves\<^sup>*\<^sup>* s t \<Longrightarrow> valid s \<Longrightarrow> stale s a \<Longrightarrow> valid t \<and> stale t a"
  by (induction rule: rtranclp_induct) (auto intro: valid_moves stale_moves)

lemma never_live_again: "moves\<^sup>*\<^sup>* s t \<Longrightarrow> valid s \<Longrightarrow> stale s a \<Longrightarrow> \<not> live t a"
  using stale_forever not_both by blast

end

definition system_moves :: "System \<Rightarrow> System \<Rightarrow> bool" where
  "system_moves y y' \<longleftrightarrow> (\<exists>out. coordinator_step y out y')"

text \<open>What grows only: fenced boots and cancelled requests.\<close>

definition grown :: "Coordinator \<Rightarrow> Coordinator \<Rightarrow> bool" where
  "grown st st' \<longleftrightarrow> set (co_fenced st) \<subseteq> set (co_fenced st') \<and> set (co_cancelled st) \<subseteq> set (co_cancelled st')"

lemma grown_same: "co_fenced st' = co_fenced st \<Longrightarrow> co_cancelled st' = co_cancelled st \<Longrightarrow> grown st st'"
  by (simp add: grown_def)

lemma keeps_simps [simp]:
  "co_fenced (set_plan_state i x st) = co_fenced st" "co_cancelled (set_plan_state i x st) = co_cancelled st"
  "co_fenced (release_claims r st) = co_fenced st" "co_cancelled (release_claims r st) = co_cancelled st"
  "co_fenced (release_pending c err st) = co_fenced st" "co_cancelled (release_pending c err st) = co_cancelled st"
  by (simp_all add: set_plan_state_def release_claims_def release_pending_def split: option.split)

lemma supersede_keeps [simp]:
  "co_fenced (supersede_named m st) = co_fenced st" "co_cancelled (supersede_named m st) = co_cancelled st"
  "co_fenced (supersede_current m st) = co_fenced st" "co_cancelled (supersede_current m st) = co_cancelled st"
  by (simp_all add: supersede_named_def supersede_current_def split: option.split)

lemma commit_grown:
  "grown st (snd (snd (commit_begin s m st)))" "grown st (snd (commit_acquire c st))"
  "grown st (snd (commit_finish c err st))"
  by (simp_all add: grown_def commit_begin_def commit_acquire_def commit_finish_def Let_def
      split: option.split prod.split)

lemma handle_submit_grown: "handle_submit s m st = Inr (out, st') \<Longrightarrow> grown st st'"
  by (auto simp: grown_def handle_submit_def Let_def split: if_splits prod.splits sum.splits option.splits)

lemma handle_grown:
  "grown st (snd (handle_register s m st))" "grown st (snd (handle_publish_endpoint s m st))"
  "grown st (snd (handle_publish_link s m st))" "grown st (snd (handle_publish_capacity s m st))"
  "grown st (snd (handle_publish_congestion s m st))" "grown st (snd (handle_query s m st))"
  "grown st (snd (handle_revalidate s m st))" "grown st (snd (handle_handoff s m st))"
  "grown st (snd (handle_execution_result s m st))" "grown st (snd (handle_cancel s m st))"
  "grown st (snd (handle_supersede s m st))" "grown st (snd (handle_save s st))"
  by (auto simp: grown_def handle_register_def handle_publish_endpoint_def handle_publish_link_def
      handle_publish_capacity_def handle_publish_congestion_def handle_query_def handle_revalidate_def
      handle_handoff_def handle_execution_result_def handle_cancel_def handle_supersede_def
      handle_save_def saveStore_def Let_def split: option.split)

lemma fenceWorker_grown: "grown st (fenceWorker w st)"
  by (auto simp: grown_def fenceWorker_def Let_def split: option.split)

lemma handleMessage_grown:
  assumes "handleMessage s m st = Inr (out, st')"
  shows "grown st st'"
proof -
  have snd: "y = (out, st') \<Longrightarrow> grown st (snd y) \<Longrightarrow> grown st st'" for y by simp
  have commit: "grown st (snd (handleCommit s m st))"
  proof (cases rule: handleCommit_cases [of s m st])
    case (refused out st1)
    then show ?thesis using commit_grown(1) [of st s m] by simp
  next
    case (answered out c st1 err st2 out' st3)
    then show ?thesis
      using commit_grown(1) [of st s m] commit_grown(2) [of st1 c] commit_grown(3) [of st2 c err]
      by (auto simp: grown_def)
  qed
  show ?thesis
  proof (cases "ms_type m")
    case SUBMIT_REQUEST
    with assms show ?thesis by (auto simp: handleMessage_def intro: handle_submit_grown)
  qed (use assms commit in \<open>auto simp: handleMessage_def
      intro: grown_same handle_grown [THEN snd [rotated]] snd\<close>)
qed

lemma disconnect_grown: "grown st (disconnect s st)"
proof (cases "map_find (co_socketToWorker st) s")
  case (Some w)
  then show ?thesis using fenceWorker_grown [of st w] by (simp add: disconnect_defs grown_def)
qed (simp add: disconnect_defs grown_def)

lemma system_moves_grown: "system_moves y y' \<Longrightarrow> grown (sy_co y) (sy_co y')"
proof -
  have "coordinator_step y out y' \<Longrightarrow> grown (sy_co y) (sy_co y')" for out
  proof (induction rule: coordinator_step.induct)
    case (message f s y out st')
    then show ?case by (auto simp: receive_frame_def grown_same split: sum.splits intro: handleMessage_grown)
  next
    case (refuse_commit payload m s y out st')
    then show ?case using commit_grown(1) [of "sy_co y" s m] by simp
  next
    case (begin_commit payload m s y out c st')
    then show ?case using commit_grown(1) [of "sy_co y" s m] by simp
  next
    case (acquire_commit y xs c zs err st')
    then show ?case using commit_grown(2) [of "sy_co y" c] by simp
  next
    case (finish_commit y xs c err zs out st')
    then show ?case using commit_grown(3) [of "sy_co y" c err] by simp
  qed (auto simp: accept_connection_def disconnect_grown stop_def end_connection_def intro: grown_same)
  then show "system_moves y y' \<Longrightarrow> grown (sy_co y) (sy_co y')" by (auto simp: system_moves_def)
qed

lemma fenced_not_live:
  "registry_inv st \<Longrightarrow> (w, b) \<in> set (co_fenced st) \<Longrightarrow> live_boot st w \<noteq> Some b"
  by (auto simp: registry_inv_def live_boot_def split: option.splits)

interpretation worker_authority: authority_registry
  "\<lambda>y. coordinator_inv (sy_co y)" "\<lambda>y (w, b). live_boot (sy_co y) w = Some b"
  "\<lambda>y a. a \<in> set (co_fenced (sy_co y))" system_moves
proof unfold_locales
  fix y y' assume "coordinator_inv (sy_co y)" "system_moves y y'"
  then show "coordinator_inv (sy_co y')" by (auto simp: system_moves_def intro: coordinator_step_inv)
next
  fix y y' a assume "system_moves y y'" "a \<in> set (co_fenced (sy_co y))"
  then show "a \<in> set (co_fenced (sy_co y'))" using system_moves_grown by (auto simp: grown_def)
next
  fix y a assume "coordinator_inv (sy_co y)" "a \<in> set (co_fenced (sy_co y))"
  then show "\<not> (case a of (w, b) \<Rightarrow> live_boot (sy_co y) w = Some b)"
    using fenced_not_live by (auto simp: coordinator_inv_def)
qed

text \<open>A request may still be planned as long as it is not cancelled.\<close>

interpretation request_authority: authority_registry
  "\<lambda>y. True" "\<lambda>y q. q \<notin> set (co_cancelled (sy_co y))" "\<lambda>y q. q \<in> set (co_cancelled (sy_co y))" system_moves
  by unfold_locales (use system_moves_grown in \<open>auto simp: grown_def\<close>)

section \<open>The abstract registry of authorities\<close>

text \<open>
  The specification: for each worker at most one live boot, and a set of boots that are dead. A
  registration makes a boot live unless it is null or dead; losing a worker makes its live boot dead.
\<close>

record Authority =
  au_live :: "WorkerId \<Rightarrow> Generation option"
  au_dead :: "(WorkerId \<times> Generation) set"

definition auth_register :: "WorkerId \<Rightarrow> Generation \<Rightarrow> Authority \<Rightarrow> Authority" where
  "auth_register w b a =
     (if w = 0 \<or> b = 0 \<or> (w, b) \<in> au_dead a then a else a\<lparr>au_live := (au_live a)(w := Some b)\<rparr>)"

definition auth_lose :: "WorkerId \<Rightarrow> Authority \<Rightarrow> Authority" where
  "auth_lose w a =
     (case au_live a w of
        None \<Rightarrow> a
      | Some b \<Rightarrow> a\<lparr>au_live := (au_live a)(w := None), au_dead := insert (w, b) (au_dead a)\<rparr>)"

definition authority_of :: "Coordinator \<Rightarrow> Authority" where
  "authority_of st = \<lparr>au_live = live_boot st, au_dead = set (co_fenced st)\<rparr>"

lemma authority_frame: "registry_of st' = registry_of st \<Longrightarrow> authority_of st' = authority_of st"
  by (simp add: authority_of_def registry_of_def live_boot_def fun_eq_iff)

lemma register_refines: "authority_of (snd (handle_register s m st)) = auth_register (ms_worker m) (ms_boot m) (authority_of st)"
  by (simp add: authority_of_def auth_register_def handle_register_def isNull_def live_boot_def
      map_find_assign fun_eq_iff)

lemma fence_refines:
  assumes "registry_inv st"
  shows "authority_of (fenceWorker w st) = auth_lose w (authority_of st)"
proof (cases "map_find (co_workers st) w")
  case None
  then show ?thesis by (simp add: authority_of_def auth_lose_def fenceWorker_def live_boot_def fun_eq_iff)
next
  case (Some i)
  show ?thesis
  proof (cases "wi_alive i")
    case True
    then show ?thesis using Some
      by (simp add: authority_of_def auth_lose_def fenceWorker_def live_boot_def Let_def map_find_assign fun_eq_iff)
  next
    case False
    then have "(w, wi_boot i) \<in> set (co_fenced st)" using assms Some by (auto simp: registry_inv_def)
    then show ?thesis using Some False
      by (auto simp: authority_of_def auth_lose_def fenceWorker_def live_boot_def Let_def map_find_assign fun_eq_iff)
  qed
qed

lemma publish_keeps_authority:
  "authority_of (snd (handle_publish_endpoint s m st)) = authority_of st"
  "authority_of (snd (handle_publish_link s m st)) = authority_of st"
proof -
  show "authority_of (snd (handle_publish_endpoint s m st)) = authority_of st"
  proof (cases "publisher m st")
    case (Some w)
    from Some [unfolded publisher_Some] show ?thesis
      by (simp add: Some authority_of_def handle_publish_endpoint_def live_boot_def Let_def map_find_assign fun_eq_iff)
  qed (simp add: handle_publish_endpoint_def)
  show "authority_of (snd (handle_publish_link s m st)) = authority_of st"
  proof (cases "publisher m st")
    case (Some w)
    from Some [unfolded publisher_Some] show ?thesis
      by (simp add: Some authority_of_def handle_publish_link_def live_boot_def Let_def map_find_assign fun_eq_iff)
  qed (simp add: handle_publish_link_def)
qed

text \<open>All other handlers leave the registration as it is.\<close>

lemma handlers_keep_registry:
  "registry_of (snd (handle_publish_capacity s m st)) = registry_of st"
  "registry_of (snd (handle_publish_congestion s m st)) = registry_of st"
  "registry_of (snd (handle_query s m st)) = registry_of st"
  "registry_of (snd (handle_revalidate s m st)) = registry_of st"
  "registry_of (snd (handle_handoff s m st)) = registry_of st"
  "registry_of (snd (handle_execution_result s m st)) = registry_of st"
  "registry_of (snd (handle_cancel s m st)) = registry_of st"
  "registry_of (snd (handle_supersede s m st)) = registry_of st"
  "registry_of (snd (handle_save s st)) = registry_of st"
  by (simp_all add: handle_publish_capacity_def handle_publish_congestion_def handle_query_def
      handle_revalidate_def handle_handoff_def handle_execution_result_def handle_cancel_def
      handle_supersede_def supersede_named_def supersede_current_def handle_save_def saveStore_def Let_def
      split: option.split)
    (simp_all add: registry_of_def)

lemma submit_keeps_registry: "handle_submit s m st = Inr (out, st') \<Longrightarrow> registry_of st' = registry_of st"
  by (auto simp: registry_of_def handle_submit_def Let_def split: if_splits prod.splits sum.splits option.splits)

lemma commit_keeps_registry: "registry_of (snd (handleCommit s m st)) = registry_of st"
proof -
  have "registry_of (snd (snd (commit_begin s m st))) = registry_of st"
    "registry_of (snd (commit_acquire c st')) = registry_of st'"
    "registry_of (snd (commit_finish c err st')) = registry_of st'" for c err st'
    by (simp_all add: commit_begin_def commit_acquire_def commit_finish_def Let_def
        split: option.split prod.split)
  then show ?thesis by (cases rule: handleCommit_cases [of s m st]) (metis snd_conv)+
qed

lemma message_refines:
  assumes "handleMessage s m st = Inr (out, st')"
  shows "authority_of st' =
    (if ms_type m = REGISTER then auth_register (ms_worker m) (ms_boot m) (authority_of st) else authority_of st)"
proof -
  have snd: "y = (out, st') \<Longrightarrow> registry_of (snd y) = registry_of st \<Longrightarrow> authority_of st' = authority_of st" for y
    by (rule authority_frame) simp
  show ?thesis
  proof (cases "ms_type m")
    case REGISTER
    then have "handle_register s m st = (out, st')" using assms by (simp add: handleMessage_def)
    then show ?thesis using register_refines [of s m st] REGISTER by simp
  next
    case PUBLISH_ENDPOINT
    then show ?thesis using assms publish_keeps_authority(1) [of s m st] by (auto simp: handleMessage_def)
  next
    case PUBLISH_LINK
    then show ?thesis using assms publish_keeps_authority(2) [of s m st] by (auto simp: handleMessage_def)
  next
    case SUBMIT_REQUEST
    then show ?thesis using assms by (auto simp: handleMessage_def intro: authority_frame submit_keeps_registry)
  next
    case SHUTDOWN
    then show ?thesis using assms by (auto simp: handleMessage_def intro: authority_frame)
  qed (use assms in \<open>auto simp: handleMessage_def
      intro: handlers_keep_registry [THEN snd [rotated]] commit_keeps_registry [THEN snd [rotated]]\<close>)
qed

end
