(* ===== verification/Coordinator_Theorems.thy ===== *)
theory Coordinator_Theorems
  imports Coordinator_Invariants
begin

text \<open>
  The theorems about the coordinator: what holds in every reachable state, what fencing and
  cancellation guarantee, how a commit ends, what survives a restart, and that every message is
  answered.
\<close>

section \<open>Concrete runs\<close>

definition sample_register :: Message where
  "sample_register = default_Message\<lparr>ms_type := REGISTER, ms_worker := 7, ms_boot := 9, ms_name := ''w7''\<rparr>"

definition sample_registered :: Coordinator where
  "sample_registered = snd (handle_register 1 sample_register (start_coordinator [] default_Bounds None))"

definition sample_fenced :: System where
  "sample_fenced = \<lparr>sy_co = disconnect 1 sample_registered, sy_pending = []\<rparr>"

lemma start_empty: "start_coordinator ws b None = new_coordinator ws b None"
  by (simp add: start_coordinator_def loadStoreIfAny_def new_coordinator_def)

lemma sample_register_ok: "message_ok sample_register" "wire_message sample_register = sample_register"
  by (simp_all add: message_ok_def sample_register_def str_ok_def kMaxCount_def wire_message_def default_Message_def)

lemma sample_registered_reachable: "reachable_system \<lparr>sy_co = sample_registered, sy_pending = []\<rparr>"
proof -
  let ?y0 = "\<lparr>sy_co = start_coordinator [] default_Bounds None, sy_pending = []\<rparr>"
  have "handleMessage 1 (wire_message sample_register) (sy_co ?y0) =
      Inr (fst (handle_register 1 sample_register (sy_co ?y0)), sample_registered)"
    unfolding sample_register_ok(2) by (simp add: handleMessage_def sample_registered_def) (simp add: sample_register_def)
  from sent_message_reachable [OF reachable_system.started sample_register_ok(1) _ this]
  show ?thesis by (simp add: sample_register_def)
qed

lemma sample_fenced_reachable: "reachable_system sample_fenced"
  using hangup_reachable [OF sample_registered_reachable, of 1] by (simp add: sample_fenced_def)

lemma sample_fenced_boot: "(7, 9) \<in> set (co_fenced (sy_co sample_fenced))"
  by (simp add: sample_fenced_def disconnect_defs sample_registered_def handle_register_def start_empty
      new_coordinator_def sample_register_def isNull_def map_find_def fenceWorker_def Let_def)

text \<open>A coordinator with one plan that claims a resource, and the same after its request is cancelled.\<close>

definition sample_ready :: Coordinator where
  "sample_ready = (new_coordinator [] default_Bounds None)
     \<lparr>co_plans := [(5, \<lparr>pr_plan = default_CommunicationPlan
        \<lparr>pl_id := 5, pl_requestId := 3, pl_requiredResourceClaims := [1]\<rparr>,
        pr_state = PlanState.PLAN_READY, pr_worker = 0, pr_boot = 0\<rparr>)]\<rparr>"

definition sample_commit :: Message where
  "sample_commit = default_Message\<lparr>ms_type := COMMIT_REQUEST, ms_planId := 5\<rparr>"

definition sample_cancelled :: Coordinator where
  "sample_cancelled = snd (handle_cancel 2 (default_Message\<lparr>ms_type := CANCEL, ms_requestId := 3\<rparr>) sample_ready)"

lemmas sample_plan_defs = sample_ready_def sample_commit_def sample_cancelled_def new_coordinator_def
  default_CommunicationPlan_def default_Message_def

section \<open>Reachable states\<close>

text \<open>C3: in every state the coordinator can reach, with any number of commits in flight, workers are
  registered under their own identity and alive exactly as long as their boot is not fenced, the
  boots in the evidence snapshot are those of the live workers, every connection belongs to a known
  worker, plans are stored under their own identity, the current plan of a request is known, and
  the snapshot carries the coordinator's epoch.\<close>

theorem coordinator_invariant:
  assumes "reachable_system y"
  shows "coordinator_inv (sy_co y)"
  using assms by (rule reachable_inv)

theorem coordinator_invariant_witness:
  "reachable_system sample_fenced \<and> coordinator_inv (sy_co sample_fenced)"
  using coordinator_invariant [OF sample_fenced_reachable] sample_fenced_reachable by blast

text \<open>C7: once the boot of a worker is fenced, nothing that happens later makes it live again, and
  every message under that boot that would register it or publish an endpoint or a link is answered
  with an error and changes nothing.\<close>

theorem fenced_boot_powerless:
  assumes "reachable_system y" and "(ms_worker m, ms_boot m) \<in> set (co_fenced (sy_co y))"
    and "system_moves\<^sup>*\<^sup>* y y'"
  shows "map_find (sn_workerBoots (co_snap (sy_co y'))) (ms_worker m) \<noteq> Some (ms_boot m) \<and>
    (\<exists>e. handle_register s m (sy_co y') = (sendError s e, sy_co y')) \<and>
    handle_publish_endpoint s m (sy_co y') = (sendError s ''stale publisher authority'', sy_co y') \<and>
    handle_publish_link s m (sy_co y') = (sendError s ''stale publisher authority'', sy_co y')"
proof -
  have inv: "coordinator_inv (sy_co y)" using assms(1) by (rule reachable_inv)
  have later: "coordinator_inv (sy_co y')" "(ms_worker m, ms_boot m) \<in> set (co_fenced (sy_co y'))"
    using worker_authority.stale_forever [OF assms(3) inv assms(2)] by blast+
  have dead: "live_boot (sy_co y') (ms_worker m) \<noteq> Some (ms_boot m)"
    using worker_authority.never_live_again [OF assms(3) inv assms(2)] by simp
  then have "publisher m (sy_co y') = None"
    by (auto simp: publisher_def live_boot_def split: option.splits)
  moreover have "map_find (sn_workerBoots (co_snap (sy_co y'))) = live_boot (sy_co y')"
    using later(1) by (simp add: coordinator_inv_def registry_inv_def)
  ultimately show ?thesis
    using dead later(2)
    by (auto simp: handle_publish_endpoint_def handle_publish_link_def handle_register_def)
qed

theorem fenced_boot_powerless_witness:
  "reachable_system sample_fenced \<and>
   handle_publish_link 3 sample_register (sy_co sample_fenced) =
     (sendError 3 ''stale publisher authority'', sy_co sample_fenced)"
proof -
  have "(ms_worker sample_register, ms_boot sample_register) \<in> set (co_fenced (sy_co sample_fenced))"
    using sample_fenced_boot by (simp add: sample_register_def)
  from fenced_boot_powerless [OF sample_fenced_reachable this rtranclp.rtrancl_refl] sample_fenced_reachable
  show ?thesis by blast
qed

text \<open>C16: the registration of workers refines the abstract registry: a REGISTER message is a
  registration of the abstract machine, the end of a connection loses the worker registered on it,
  and no other message has any effect on it.\<close>

theorem registry_refinement:
  assumes "coordinator_inv st"
  shows "(handleMessage s m st = Inr (out, st') \<longrightarrow> authority_of st' =
      (if ms_type m = REGISTER then auth_register (ms_worker m) (ms_boot m) (authority_of st) else authority_of st)) \<and>
    authority_of (disconnect s st) =
      (case map_find (co_socketToWorker st) s of None \<Rightarrow> authority_of st | Some w \<Rightarrow> auth_lose w (authority_of st))"
proof -
  have frame: "authority_of (st1\<lparr>co_socketToWorker := x, co_activeSockets := z\<rparr>) = authority_of st1"
    "authority_of (st1\<lparr>co_activeSockets := z\<rparr>) = authority_of st1"
    "authority_of (st1\<lparr>co_socketToWorker := x\<rparr>) = authority_of st1" for st1 x z
    by (simp_all add: authority_of_def live_boot_def fun_eq_iff)
  have "registry_inv st" using assms by (simp add: coordinator_inv_def)
  then show ?thesis
    using message_refines fence_refines by (auto simp: disconnect_defs frame split: option.split)
qed

theorem registry_refinement_witness:
  "au_live (authority_of sample_registered) 7 = Some 9 \<and>
   authority_of (disconnect 1 sample_registered) = auth_lose 7 (authority_of sample_registered)"
proof -
  have start: "coordinator_inv (start_coordinator [] default_Bounds None)" by (rule start_inv)
  have inv: "coordinator_inv sample_registered" unfolding sample_registered_def by (rule handle_register_inv [OF start])
  have "map_find (co_socketToWorker sample_registered) 1 = Some 7"
    by (simp add: sample_registered_def handle_register_def start_empty new_coordinator_def
        sample_register_def isNull_def map_find_def)
  moreover have "au_live (authority_of sample_registered) 7 = Some 9"
    by (simp add: authority_of_def live_boot_def sample_registered_def handle_register_def start_empty
        new_coordinator_def sample_register_def isNull_def map_find_def)
  ultimately show ?thesis using registry_refinement [OF inv, of 1] by simp
qed

section \<open>Cancellation and commit\<close>

lemma planState_set: "map_find (co_plans st) i = Some r \<Longrightarrow> planState i (set_plan_state i x st) = x"
  by (simp add: planState_def find_set_plan_state)

lemma commit_run:
  assumes "x = PlanState.COMMITTED \<or> x = PlanState.FAILED"
  shows "legal_run PlanState.AWAITING_RESOURCE_COMMIT [PlanState.AWAITING_RESOURCE_COMMIT, x] x"
    and "legal_run PlanState.PLAN_READY [PlanState.PLAN_READY, PlanState.AWAITING_RESOURCE_COMMIT, x] x"
proof -
  have next_state: "canTransition PlanState.AWAITING_RESOURCE_COMMIT x" using assms by auto
  show "legal_run PlanState.AWAITING_RESOURCE_COMMIT [PlanState.AWAITING_RESOURCE_COMMIT, x] x"
    using legal_run.move [OF legal_run.stay next_state] by simp
  have "legal_run PlanState.PLAN_READY ([PlanState.PLAN_READY] @ [PlanState.AWAITING_RESOURCE_COMMIT])
      PlanState.AWAITING_RESOURCE_COMMIT"
    by (rule legal_run.move [OF legal_run.stay]) simp
  from legal_run.move [OF this next_state]
  show "legal_run PlanState.PLAN_READY [PlanState.PLAN_READY, PlanState.AWAITING_RESOURCE_COMMIT, x] x" by simp
qed

lemma broker_set_plan_state [simp]: "co_broker (set_plan_state i x st) = co_broker st"
  by (simp add: set_plan_state_def split: option.split)

lemma finish_cancelled:
  assumes "map_find (co_plans st) (pc_plan c) = Some r" and "pl_requestId (pr_plan r) \<in> set (co_cancelled st)"
  shows "commit_finish c err st = (sendError (pc_sock c) ''cancelled during commit'',
    set_plan_state (pc_plan c) PlanState.CANCELLED (release_pending c err st))"
  using assms by (simp add: commit_finish_def)

lemma release_pending_find [simp]: "map_find (co_plans (release_pending c err st)) i = map_find (co_plans st) i"
  by (simp add: release_pending_def)

text \<open>C4: cancellation is final. Once a request is cancelled, whatever happens later, the request is
  not planned again, no commit of a plan for it starts, and a commit that was already with the broker
  is answered with an error, ends in \<open>CANCELLED\<close> and gives back everything it was granted.\<close>

theorem cancelled_request_stays_cancelled:
  assumes "q \<in> set (co_cancelled (sy_co y))" and "system_moves\<^sup>*\<^sup>* y y'" and "q \<noteq> 0"
  shows "(\<forall>s m. rq_id (ms_request m) = q \<longrightarrow>
      handle_submit s m (sy_co y') = Inr (sendError s ''request already cancelled'', sy_co y')) \<and>
    (\<forall>s m r. map_find (co_plans (sy_co y')) (ms_planId m) = Some r \<and> pl_requestId (pr_plan r) = q \<longrightarrow>
      (\<exists>e. commit_begin s m (sy_co y') = (sendError s e, None, sy_co y'))) \<and>
    (\<forall>c err r. map_find (co_plans (sy_co y')) (pc_plan c) = Some r \<and> pl_requestId (pr_plan r) = q \<longrightarrow>
      (\<exists>st'. commit_finish c err (sy_co y') = (sendError (pc_sock c) ''cancelled during commit'', st') \<and>
        planState (pc_plan c) st' = PlanState.CANCELLED \<and>
        (\<forall>x. held (co_broker st') x =
          (if err = None \<and> x \<in> set (pc_resources c) then 0 else held (co_broker (sy_co y')) x))))"
proof -
  have q: "q \<in> set (co_cancelled (sy_co y'))"
    using request_authority.stale_forever [OF assms(2) _ assms(1)] by blast
  have "handle_submit s m (sy_co y') = Inr (sendError s ''request already cancelled'', sy_co y')"
    if "rq_id (ms_request m) = q" for s m
    using that q assms(3) by (simp add: handle_submit_def Let_def isNull_def)
  moreover have "\<exists>e. commit_begin s m (sy_co y') = (sendError s e, None, sy_co y')"
    if "map_find (co_plans (sy_co y')) (ms_planId m) = Some r" "pl_requestId (pr_plan r) = q" for s m r
    using that q by (auto simp: commit_begin_def)
  moreover have "\<exists>st'. commit_finish c err (sy_co y') = (sendError (pc_sock c) ''cancelled during commit'', st') \<and>
        planState (pc_plan c) st' = PlanState.CANCELLED \<and>
        (\<forall>x. held (co_broker st') x =
          (if err = None \<and> x \<in> set (pc_resources c) then 0 else held (co_broker (sy_co y')) x))"
    if "map_find (co_plans (sy_co y')) (pc_plan c) = Some r" "pl_requestId (pr_plan r) = q" for c err r
    using that q planState_set [of "release_pending c err (sy_co y')" "pc_plan c" r]
    by (simp add: finish_cancelled) (simp add: release_pending_def held_release)
  ultimately show ?thesis by blast
qed

theorem cancelled_request_stays_cancelled_witness:
  "\<exists>st'. commit_finish \<lparr>pc_sock = 1, pc_plan = 5, pc_resources = [1], pc_sizes = [1024]\<rparr> None sample_cancelled =
     (sendError 1 ''cancelled during commit'', st') \<and> planState 5 st' = PlanState.CANCELLED \<and>
     held (co_broker st') 1 = 0"
proof -
  let ?y = "\<lparr>sy_co = sample_cancelled, sy_pending = []\<rparr>"
  let ?c = "\<lparr>pc_sock = 1, pc_plan = 5, pc_resources = [1], pc_sizes = [1024]\<rparr>"
  have q: "3 \<in> set (co_cancelled (sy_co ?y))" and "(3 :: u64) \<noteq> 0"
    by (simp_all add: sample_plan_defs handle_cancel_def map_find_def)
  moreover have "\<exists>r. map_find (co_plans (sy_co ?y)) (pc_plan ?c) = Some r \<and> pl_requestId (pr_plan r) = 3"
    by (simp add: sample_plan_defs handle_cancel_def map_find_def)
  ultimately obtain r where r: "map_find (co_plans (sy_co ?y)) (pc_plan ?c) = Some r \<and> pl_requestId (pr_plan r) = 3"
    by blast
  have "\<exists>st'. commit_finish ?c None (sy_co ?y) = (sendError (pc_sock ?c) ''cancelled during commit'', st') \<and>
      planState (pc_plan ?c) st' = PlanState.CANCELLED \<and>
      (\<forall>x. held (co_broker st') x =
        (if None = (None :: string option) \<and> x \<in> set (pc_resources ?c) then 0 else held (co_broker (sy_co ?y)) x))"
    using cancelled_request_stays_cancelled [OF q rtranclp.rtrancl_refl \<open>3 \<noteq> 0\<close>, THEN conjunct2, THEN conjunct2,
      THEN spec, THEN spec, THEN spec, THEN mp, OF r] .
  then show ?thesis by fastforce
qed

lemma commit_outcome:
  assumes "map_find (co_plans st) (ms_planId m) = Some r"
    and "pr_state r = PlanState.PLAN_READY \<or> pr_state r = PlanState.AWAITING_RESOURCE_COMMIT"
    and "pl_requestId (pr_plan r) \<notin> set (co_cancelled st)"
    and "acquire claims (replicate (length claims) (commit_payload (pr_plan r))) (co_broker st) = (err, b)"
    and "claims = pl_requiredResourceClaims (pr_plan r)"
    and "handleCommit s m st = (out, st')"
  shows "out = (case err of None \<Rightarrow> sendOk s (ms_planId m)
                | Some e \<Rightarrow> sendError s (''resource commit failed: '' @ e)) \<and>
    planState (ms_planId m) st' = (if err = None then PlanState.COMMITTED else PlanState.FAILED) \<and>
    legal_run (pr_state r)
      (remdups_adj [pr_state r, PlanState.AWAITING_RESOURCE_COMMIT, planState (ms_planId m) st'])
      (planState (ms_planId m) st') \<and>
    co_broker st' = b \<and> (err \<noteq> None \<longrightarrow> held b = held (co_broker st)) \<and>
    (\<forall>i. i \<noteq> ms_planId m \<longrightarrow> map_find (co_plans st') i = map_find (co_plans st) i)"
proof -
  let ?st1 = "set_plan_state (ms_planId m) PlanState.AWAITING_RESOURCE_COMMIT st"
  let ?c = "\<lparr>pc_sock = s, pc_plan = ms_planId m, pc_resources = claims,
      pc_sizes = replicate (length claims) (commit_payload (pr_plan r))\<rparr>"
  let ?new = "if err = None then PlanState.COMMITTED else PlanState.FAILED"
  have started: "commit_begin s m st = ([], Some ?c, ?st1)"
    using assms(1-3,5) by (auto simp: commit_begin_def Let_def)
  have acquired: "commit_acquire ?c ?st1 = (err, ?st1\<lparr>co_broker := b\<rparr>)"
    using assms(4) by (simp add: commit_acquire_def)
  have find: "map_find (co_plans (?st1\<lparr>co_broker := b\<rparr>)) (ms_planId m) =
      Some (r\<lparr>pr_state := PlanState.AWAITING_RESOURCE_COMMIT\<rparr>)"
    using assms(1) by (simp add: find_set_plan_state)
  have finish: "commit_finish ?c err (?st1\<lparr>co_broker := b\<rparr>) =
      (case err of None \<Rightarrow> sendOk s (ms_planId m) | Some e \<Rightarrow> sendError s (''resource commit failed: '' @ e),
       set_plan_state (ms_planId m) ?new (?st1\<lparr>co_broker := b\<rparr>))"
    using find assms(3) by (simp add: commit_finish_def split: option.split)
  have end_state: "st' = set_plan_state (ms_planId m) ?new (?st1\<lparr>co_broker := b\<rparr>)"
    and reply: "out = (case err of None \<Rightarrow> sendOk s (ms_planId m) | Some e \<Rightarrow> sendError s (''resource commit failed: '' @ e))"
    using assms(6) by (simp_all add: handleCommit_def started acquired finish)
  have state: "planState (ms_planId m) st' = ?new"
    unfolding end_state by (rule planState_set [OF find])
  have "held b = held (co_broker st)" if "err \<noteq> None"
    using that assms(4) acquire_held_Some held_cong by blast
  moreover have "legal_run (pr_state r) (remdups_adj [pr_state r, PlanState.AWAITING_RESOURCE_COMMIT, ?new]) ?new"
    using assms(2) commit_run [of ?new] by auto
  moreover have "map_find (co_plans st') i = map_find (co_plans st) i" if "i \<noteq> ms_planId m" for i
    using that by (simp add: end_state find_set_plan_state)
  ultimately show ?thesis unfolding state reply by (simp add: end_state)
qed

text \<open>C5: a commit that nothing disturbs is all or nothing. The plan becomes \<open>COMMITTED\<close>, and the caller
  is told so, exactly when the broker grants every claim; otherwise it becomes \<open>FAILED\<close>, the caller
  gets the broker's reason and no holding has changed. Either way the plan moved along the transition
  table and no other plan was touched.\<close>

theorem undisturbed_commit_exact:
  assumes "map_find (co_plans st) (ms_planId m) = Some r"
    and "pr_state r = PlanState.PLAN_READY \<or> pr_state r = PlanState.AWAITING_RESOURCE_COMMIT"
    and "pl_requestId (pr_plan r) \<notin> set (co_cancelled st)"
    and "acquire claims (replicate (length claims) (commit_payload (pr_plan r))) (co_broker st) = (err, b)"
    and "claims = pl_requiredResourceClaims (pr_plan r)"
    and "handleCommit s m st = (out, st')"
  shows "out = (case err of None \<Rightarrow> sendOk s (ms_planId m)
                | Some e \<Rightarrow> sendError s (''resource commit failed: '' @ e)) \<and>
    planState (ms_planId m) st' = (if err = None then PlanState.COMMITTED else PlanState.FAILED) \<and>
    legal_run (pr_state r)
      (remdups_adj [pr_state r, PlanState.AWAITING_RESOURCE_COMMIT, planState (ms_planId m) st'])
      (planState (ms_planId m) st') \<and>
    co_broker st' = b \<and> (err \<noteq> None \<longrightarrow> held b = held (co_broker st)) \<and>
    (\<forall>i. i \<noteq> ms_planId m \<longrightarrow> map_find (co_plans st') i = map_find (co_plans st) i)"
  using assms by (rule commit_outcome)

theorem undisturbed_commit_exact_witness:
  "planState 5 (snd (handleCommit 1 sample_commit sample_ready)) = PlanState.COMMITTED \<and>
   fst (handleCommit 1 sample_commit sample_ready) = sendOk 1 5"
proof -
  obtain r where r: "map_find (co_plans sample_ready) (ms_planId sample_commit) = Some r"
    "pr_state r = PlanState.PLAN_READY" "pl_requestId (pr_plan r) \<notin> set (co_cancelled sample_ready)"
    "pl_requiredResourceClaims (pr_plan r) = [1]" "commit_payload (pr_plan r) = 1024"
    by (simp add: sample_plan_defs map_find_def commit_payload_def)
  obtain b where "acquire [1] (replicate (length [1 :: u64]) (commit_payload (pr_plan r))) (co_broker sample_ready) = (None, b)"
    unfolding r(5) by (simp add: sample_plan_defs new_broker_def acquire_def broker_capacity_def Let_def)
  from undisturbed_commit_exact [OF r(1) _ r(3) this r(4) [symmetric] surjective_pairing] r(2)
  show ?thesis by (simp add: sample_commit_def)
qed

section \<open>Restart\<close>

lemma load_record_find:
  "map_find (co_plans (load_record r st)) i =
     (if pl_id (sr_plan r) = i then Some \<lparr>pr_plan = sr_plan r, pr_state = sr_state r, pr_worker = 0, pr_boot = 0\<rparr>
      else map_find (co_plans st) i)"
  "map_find (co_currentByRequest (load_record r st)) q =
     (if pl_requestId (sr_plan r) = q then Some (pl_id (sr_plan r)) else map_find (co_currentByRequest st) q)"
  by (simp_all add: load_record_def map_find_assign)

lemma load_records_plans:
  assumes "distinct (map (pl_id \<circ> sr_plan) rs)"
  shows "map_find (co_plans (fold load_record rs st)) i =
    (case List.find (\<lambda>r. pl_id (sr_plan r) = i) rs of
       Some r \<Rightarrow> Some \<lparr>pr_plan = sr_plan r, pr_state = sr_state r, pr_worker = 0, pr_boot = 0\<rparr>
     | None \<Rightarrow> map_find (co_plans st) i)"
  using assms
proof (induction rs arbitrary: st)
  case (Cons r rs)
  have "List.find (\<lambda>r'. pl_id (sr_plan r') = pl_id (sr_plan r)) rs = None"
    using Cons.prems by (auto simp: find_None_iff image_iff)
  with Cons show ?case
    by (cases "pl_id (sr_plan r) = i") (simp_all add: load_record_find split: option.split)
qed simp

text \<open>The current plan of a request, after records in the order of their identities are loaded.\<close>

definition latest_plan :: "StoreRecord list \<Rightarrow> CommunicationRequestId \<Rightarrow> CommunicationPlanId \<Rightarrow> bool" where
  "latest_plan rs q i \<longleftrightarrow>
     (\<exists>r\<in>set rs. pl_requestId (sr_plan r) = q \<and> pl_id (sr_plan r) = i) \<and>
     (\<forall>r\<in>set rs. pl_requestId (sr_plan r) = q \<longrightarrow> pl_id (sr_plan r) \<le> i)"

lemma load_records_current:
  assumes "sorted_wrt (<) (map (pl_id \<circ> sr_plan) rs)" and "co_currentByRequest st = []"
    and "map_find (co_currentByRequest (fold load_record rs st)) q = Some i"
  shows "latest_plan rs q i"
  using assms
proof (induction rs rule: rev_induct)
  case (snoc r rs)
  show ?case
  proof (cases "pl_requestId (sr_plan r) = q")
    case True
    have "\<forall>r'\<in>set rs. pl_id (sr_plan r') \<le> pl_id (sr_plan r)"
      using snoc.prems(1) by (auto simp: sorted_wrt_append intro: less_imp_le)
    with True snoc.prems(3) show ?thesis by (auto simp: load_record_find latest_plan_def)
  next
    case False
    have "latest_plan rs q i"
      using snoc.prems False by (intro snoc.IH) (simp_all add: sorted_wrt_append load_record_find)
    with False show ?thesis by (auto simp: latest_plan_def)
  qed
qed simp

lemma load_records_frame:
  "co_workers (fold load_record rs st) = co_workers st \<and> co_fenced (fold load_record rs st) = co_fenced st \<and>
   co_cancelled (fold load_record rs st) = co_cancelled st \<and> co_epoch (fold load_record rs st) = co_epoch st \<and>
   co_snap (fold load_record rs st) = co_snap st"
  by (induction rs arbitrary: st) (simp_all add: load_record_def)

text \<open>The records of the store that a coordinator saves, recovered.\<close>

definition recovered_records :: "Coordinator \<Rightarrow> StoreRecord list" where
  "recovered_records st = map recover_record (ss_plans (store_of st))"

definition recovered_state :: "PlanState \<Rightarrow> PlanState" where
  "recovered_state x = (if executable_state x then PlanState.REVALIDATION_REQUIRED else x)"

lemma recovered_keys:
  assumes "plans_inv st"
  shows "map (pl_id \<circ> sr_plan) (recovered_records st) = map fst (co_plans st)"
proof -
  have "pl_id (pr_plan r) = i" if "(i, r) \<in> set (co_plans st)" for i r
    using assms that map_find_in_set [of "co_plans st"] by (auto simp: plans_inv_def)
  then show ?thesis by (auto simp: recovered_records_def store_of_def recover_record_def)
qed

lemma recovered_find:
  assumes "plans_inv st"
  shows "List.find (\<lambda>r. pl_id (sr_plan r) = i) (recovered_records st) =
    map_option (\<lambda>r. \<lparr>sr_plan = pr_plan r, sr_state = recovered_state (pr_state r)\<rparr>) (map_find (co_plans st) i)"
proof -
  have keys: "\<forall>(j, r) \<in> set (co_plans st). pl_id (pr_plan r) = j"
    using assms map_find_in_set [of "co_plans st"] by (auto simp: plans_inv_def)
  have "List.find (\<lambda>r. pl_id (sr_plan r) = i)
      (map recover_record (map (\<lambda>(j, r). \<lparr>sr_plan = pr_plan r, sr_state = pr_state r\<rparr>) ps)) =
    map_option (\<lambda>r. \<lparr>sr_plan = pr_plan r, sr_state = recovered_state (pr_state r)\<rparr>) (map_find ps i)"
    if "\<forall>(j, r) \<in> set ps. pl_id (pr_plan r) = j" for ps
    using that by (induction ps) (auto simp: map_find_def recover_record_def recovered_state_def)
  from this [OF keys] show ?thesis by (simp add: recovered_records_def store_of_def)
qed

lemma recovered_members:
  assumes "plans_inv st"
  shows "(\<exists>r\<in>set (recovered_records st). pl_requestId (sr_plan r) = q \<and> pl_id (sr_plan r) = i) \<longleftrightarrow>
    (\<exists>r. map_find (co_plans st) i = Some r \<and> pl_requestId (pr_plan r) = q)"
proof -
  have ok: "map_ok (co_plans st)" and ids: "map_find (co_plans st) j = Some r \<Longrightarrow> pl_id (pr_plan r) = j" for j r
    using assms by (auto simp: plans_inv_def)
  have "sr_plan (recover_record x) = sr_plan x" for x by (simp add: recover_record_def)
  then have "(\<exists>r\<in>set (recovered_records st). pl_requestId (sr_plan r) = q \<and> pl_id (sr_plan r) = i) \<longleftrightarrow>
      (\<exists>j r. (j, r) \<in> set (co_plans st) \<and> pl_requestId (pr_plan r) = q \<and> pl_id (pr_plan r) = i)"
    by (simp add: recovered_records_def store_of_def split_beta) force
  also have "\<dots> \<longleftrightarrow> (\<exists>j r. map_find (co_plans st) j = Some r \<and> pl_requestId (pr_plan r) = q \<and> pl_id (pr_plan r) = i)"
    unfolding map_find_in_set [OF ok] ..
  also have "\<dots> \<longleftrightarrow> (\<exists>r. map_find (co_plans st) i = Some r \<and> pl_requestId (pr_plan r) = q)"
    by (safe; frule ids; force)
  finally show ?thesis .
qed

text \<open>The coordinator into which the records are loaded.\<close>

definition restarted :: "RankingWeights \<Rightarrow> Bounds \<Rightarrow> Coordinator \<Rightarrow> Coordinator" where
  "restarted ws b st = (new_coordinator ws b (co_file (saveStore st)))
     \<lparr>co_epoch := gen_next (co_epoch st), co_snap := initial_snapshot\<lparr>sn_epoch := gen_next (co_epoch st)\<rparr>\<rparr>"

lemma restart_state:
  assumes "storable (store_of st)" and "store_wf (store_of st)"
  shows "start_coordinator ws b (co_file (saveStore st)) =
      (fold load_record (recovered_records st) (restarted ws b st))
        \<lparr>co_supersessions := co_supersessions st, co_requests := map persisted_request (co_requests st)\<rparr>"
proof -
  have "serializeStore (store_of st) \<noteq> []" by (simp add: serializeStore_def Let_def flip: length_greater_0_conv)
  moreover have "ss_epoch (store_of st) = co_epoch st" "ss_supersessions (store_of st) = co_supersessions st"
    "ss_requests (store_of st) = co_requests st"
    by (simp_all add: store_of_def)
  moreover have "co_file (new_coordinator ws b f) = f" "co_snap (new_coordinator ws b f) = initial_snapshot" for f
    by (simp_all add: new_coordinator_def)
  ultimately show ?thesis
    by (simp add: start_coordinator_def loadStoreIfAny_def stored_back [OF assms] saveStore_def persisted_def
        conservativeRecovery_def recovered_records_def restarted_def Let_def)
qed


definition sample_saved :: Coordinator where
  "sample_saved = (new_coordinator [] default_Bounds None)
     \<lparr>co_plans := map (\<lambda>r. (1, \<lparr>pr_plan = sr_plan r, pr_state = sr_state r, pr_worker = 7, pr_boot = 9\<rparr>))
        (ss_plans sample_store),
      co_supersessions := ss_supersessions sample_store, co_requests := ss_requests sample_store\<rparr>"

lemma sample_saved_inv: "coordinator_inv sample_saved"
proof (rule inv_by_frame [OF new_coordinator_inv [of "[]" default_Bounds None]])
  show "registry_of sample_saved = registry_of (new_coordinator [] default_Bounds None)"
    by (simp add: registry_of_def sample_saved_def)
  show "plans_inv sample_saved"
    by (simp add: plans_inv_def sample_saved_def sample_store_defs map_ok_def map_find_def new_coordinator_def)
qed


text \<open>A store that does not validate is ignored as a whole: nothing of it is recovered.\<close>

lemma ill_formed_store_lost:
  assumes "storable (store_of st)" and "\<not> store_wf (persisted (store_of st))"
  shows "start_coordinator ws b (co_file (saveStore st)) = new_coordinator ws b (co_file (saveStore st))"
proof -
  have "length (store_body (store_of st)) < 2 ^ 64" using assms(1) by (simp add: storable_def)
  from parse_store_written [OF this, of "[]"] body_back [OF assms(1), of "[]"]
  have "parse_store_bytes (serializeStore (store_of st)) default_StoreState = Inr (persisted (store_of st))" by simp
  then have "parseStore (serializeStore (store_of st)) default_StoreState = Inl (validateStore (persisted (store_of st)))"
    using assms(2) by (simp add: parseStore_def flip: validateStore_ok)
  then show ?thesis
    by (simp add: start_coordinator_def loadStoreIfAny_def saveStore_def new_coordinator_def)
qed

text \<open>Committing a plan without claims succeeds, and makes the store that is saved next useless.\<close>

lemma committed_without_claims_lost:
  assumes "storable (store_of st)" and "(i, r) \<in> set (co_plans st)"
    and "committed_state (pr_state r)" and "pl_requiredResourceClaims (pr_plan r) = []"
  shows "start_coordinator ws b (co_file (saveStore st)) = new_coordinator ws b (co_file (saveStore st))"
proof (rule ill_formed_store_lost [OF assms(1)])
  have "\<lparr>sr_plan = pr_plan r, sr_state = pr_state r\<rparr> \<in> set (ss_plans (persisted (store_of st)))"
    using assms(2) by (force simp: persisted_def store_of_def)
  then show "\<not> store_wf (persisted (store_of st))"
    using assms(3,4) by (force simp: store_wf_def record_wf_def Let_def)
qed

section \<open>Replies\<close>

definition answers :: "SOCKET \<Rightarrow> sent \<Rightarrow> bool" where
  "answers s out \<longleftrightarrow> (\<exists>t m. out = send_message s t m \<and> (t = COMMIT_RESULT \<or> t = PLAN_RESULT \<or> t = ERROR))"

lemma answers_simps [simp]:
  "answers s (sendError s e)" "answers s (send_result s ok i)" "answers s (sendOk s i)"
  "answers s (send_stale_result s i)" "answers s (send_plan_result s ok p)"
  unfolding answers_def sendError_def sendOk_def send_result_def send_stale_result_def send_plan_result_def by blast+

lemma handlers_answer:
  "answers s (fst (handle_register s m st))" "answers s (fst (handle_publish_endpoint s m st))"
  "answers s (fst (handle_publish_link s m st))" "answers s (fst (handle_publish_capacity s m st))"
  "answers s (fst (handle_publish_congestion s m st))" "answers s (fst (handle_query s m st))"
  "answers s (fst (handle_revalidate s m st))" "answers s (fst (handle_execution_result s m st))"
  "answers s (fst (handle_cancel s m st))" "answers s (fst (handle_supersede s m st))"
  "answers s (fst (handle_save s st))"
  by (simp_all add: handle_register_def handle_publish_endpoint_def handle_publish_link_def
      handle_publish_capacity_def handle_publish_congestion_def handle_query_def handle_revalidate_def
      handle_execution_result_def handle_cancel_def handle_supersede_def handle_save_def Let_def
      split: option.split)

lemma handleCommit_answers: "answers s (fst (handleCommit s m st))"
proof (cases rule: handleCommit_cases [of s m st])
  case (refused out st1)
  then show ?thesis by (auto simp: commit_begin_def Let_def split: option.splits if_splits)
next
  case (answered out c st1 err st2 out' st3)
  have c: "out = []" "pc_sock c = s"
    using answered(1) by (auto simp: commit_begin_def Let_def split: option.splits if_splits)
  have "answers (pc_sock c) (fst (commit_finish c err st2))"
    by (simp add: commit_finish_def split: option.split)
  then show ?thesis using answered c by simp
qed

lemma handle_handoff_answers:
  "\<exists>orders reply. fst (handle_handoff s m st) = orders @ reply \<and> length orders \<le> 1 \<and> answers s reply"
proof -
  have "length (send_execute r st) \<le> 1" for r
    by (simp add: send_execute_def send_message_def split: option.split)
  moreover have "fst (handle_handoff s m st) = [] @ reply \<Longrightarrow> answers s reply \<Longrightarrow> ?thesis" for reply
    by (intro exI [of _ "[]"] exI [of _ reply]) simp
  ultimately show ?thesis
    by (cases "map_find (co_plans st) (ms_planId m)") (fastforce simp: handle_handoff_def)+
qed

lemma answers_alone:
  "answers s out \<Longrightarrow> \<exists>orders reply. out = orders @ reply \<and> answers s reply \<and> length orders \<le> n"
  by (rule exI [of _ "[]"], rule exI [of _ out]) simp

text \<open>C28: every message is answered. A handler that returns sends exactly one reply on the connection
  the message came from, after at most one order to execute, which only a handoff gives. A handler
  does not return only when planning a submitted request raises.\<close>

theorem every_message_answered:
  "case handleMessage s m st of
     Inr (out, st') \<Rightarrow> \<exists>orders reply. out = orders @ reply \<and> answers s reply \<and>
       length orders \<le> (if ms_type m = EXECUTION_HANDOFF then 1 else 0)
   | Inl ex \<Rightarrow> ms_type m = SUBMIT_REQUEST \<and>
       fst (planCommunication (ms_request m) (co_snap st) (co_weights st) (co_bounds st) (co_counters st)) = Inl ex"
proof (cases "ms_type m")
  case SUBMIT_REQUEST
  then show ?thesis
    by (auto simp: handleMessage_def handle_submit_def Let_def split: sum.split prod.split option.split
        intro!: answers_alone [where n = 0, unfolded le_zero_eq length_0_conv])
next
  case EXECUTION_HANDOFF
  then show ?thesis using handle_handoff_answers [of s m st] by (simp add: handleMessage_def split_beta) blast
qed (simp_all add: handleMessage_def split_beta handlers_answer handleCommit_answers)

section \<open>Where the handlers leave the lifecycle\<close>

text \<open>
  A handoff looks at the evidence only: whatever the state of the plan, also a cancelled one, it
  becomes \<open>ACTIVE\<close> when its evidence is current.
\<close>

lemma handoff_ignores_lifecycle:
  assumes "map_find (co_plans st) (ms_planId m) = Some r" and "rv_ok (revalidatePlan (pr_plan r) (co_snap st))"
  shows "planState (ms_planId m) (snd (handle_handoff s m st)) = PlanState.ACTIVE"
    and "\<not> canTransition PlanState.CANCELLED PlanState.ACTIVE"
  using assms planState_set [OF assms(1)] by (simp_all add: handle_handoff_def)

text \<open>
  A worker that registers its next boot on a new connection before the old connection ends is fenced
  when the old one does: the end of a connection names the worker, not the boot.
\<close>

lemma late_hangup_fences_new_boot:
  assumes "coordinator_inv st" and "map_find (co_socketToWorker st) s = Some w"
    and "live_boot st w = Some new"
  shows "(w, new) \<in> set (co_fenced (disconnect s st)) \<and> live_boot (disconnect s st) w = None"
proof -
  have reg: "registry_inv st" using assms(1) by (simp add: coordinator_inv_def)
  have same: "co_fenced (disconnect s st) = co_fenced (fenceWorker w st)"
    "live_boot (disconnect s st) w = live_boot (fenceWorker w st) w"
    using assms(2) by (simp_all add: disconnect_defs live_boot_def)
  have "authority_of (fenceWorker w st) =
      \<lparr>au_live = (live_boot st)(w := None), au_dead = insert (w, new) (set (co_fenced st))\<rparr>"
    using fence_refines [OF reg, of w] assms(3) by (simp add: auth_lose_def authority_of_def)
  then have "live_boot (fenceWorker w st) = (live_boot st)(w := None)"
    "set (co_fenced (fenceWorker w st)) = insert (w, new) (set (co_fenced st))"
    by (simp_all add: authority_of_def)
  then show ?thesis by (simp add: same)
qed

text \<open>
  A capacity that arrives over the wire names no worker, so that its publisher is never checked.
\<close>

lemma wire_capacity_unchecked:
  assumes "ms_type m = PUBLISH_CAPACITY"
  shows "handle_publish_capacity s (wire_message m) st =
    (sendOk s (ms_linkId m), snd (handle_publish_capacity s (wire_message m) st))"
  using assms by (simp add: wire_message_def handle_publish_capacity_def isNull_def default_Message_def)

end
