(* ===== verification/Stream_Transport.thy ===== *)
theory Stream_Transport
  imports Protocol
begin

text \<open>
  \<open>src/transport/tcp.hpp\<close>: frames on a byte stream, each after its length. The system calls \<open>recv\<close> and
  \<open>send\<close> on the socket are parameters over a state of the network: \<open>recv n\<close> returns at most \<open>n\<close> bytes,
  none when the peer has closed, or \<open>None\<close> for \<open>SOCKET_ERROR\<close>; \<open>send\<close> returns how many of the bytes it
  took. All callers wait without a time limit.
\<close>

section \<open>The loops over the system calls\<close>

type_synonym 's receiver = "nat \<Rightarrow> 's \<Rightarrow> bytes option \<times> 's"
type_synonym 's sender = "bytes \<Rightarrow> 's \<Rightarrow> nat option \<times> 's"

function readExact :: "'s receiver \<Rightarrow> nat \<Rightarrow> 's \<Rightarrow> bytes option \<times> 's" where
  "readExact get n s =
     (if n = 0 then (Some [], s)
      else
        (case get n s of
           (None, s') \<Rightarrow> (None, s')
         | (Some c, s') \<Rightarrow>
             if c = [] then (None, s')
             else
               (case readExact get (n - length c) s' of
                  (None, s'') \<Rightarrow> (None, s'')
                | (Some rest, s'') \<Rightarrow> (Some (c @ rest), s''))))"
  by pat_completeness auto
termination by (relation "measure (\<lambda>(get, n, s). n)") auto

declare readExact.simps [simp del]

text \<open>A \<open>send\<close> that takes nothing is repeated, so that the loop may run forever.\<close>

partial_function (option) writeAll :: "'s sender \<Rightarrow> bytes \<Rightarrow> 's \<Rightarrow> (bool \<times> 's) option" where
  "writeAll put buf s =
     (if buf = [] then Some (True, s)
      else
        (case put buf s of
           (None, s') \<Rightarrow> Some (False, s')
         | (Some r, s') \<Rightarrow> writeAll put (drop r buf) s'))"

section \<open>Frames\<close>

definition sendFrame :: "'s sender \<Rightarrow> Frame \<Rightarrow> 's \<Rightarrow> ((string + unit) \<times> 's) option" where
  "sendFrame put f s =
     (case encodeFrame f of
        Inl e \<Rightarrow> Some (Inl e, s)
      | Inr bytes \<Rightarrow>
          (case writeAll put (w_u32 (of_nat (length bytes))) s of
             None \<Rightarrow> None
           | Some (False, s') \<Rightarrow> Some (Inl ''write length failed'', s')
           | Some (True, s') \<Rightarrow>
               (case writeAll put bytes s' of
                  None \<Rightarrow> None
                | Some (False, s'') \<Rightarrow> Some (Inl ''write frame failed'', s'')
                | Some (True, s'') \<Rightarrow> Some (Inr (), s''))))"

definition recvFrame :: "'s receiver \<Rightarrow> 's \<Rightarrow> (string + Frame) \<times> 's" where
  "recvFrame get s =
     (case readExact get 4 s of
        (None, s') \<Rightarrow> (Inl ''read length failed'', s')
      | (Some hdr, s') \<Rightarrow>
          let len = unat (le_or 0 hdr :: u32) in
          if len = 0 \<or> kMaxFramePayload < len then (Inl ''bad frame length'', s')
          else
            (case readExact get len s' of
               (None, s'') \<Rightarrow> (Inl ''read frame failed'', s'')
             | (Some buf, s'') \<Rightarrow> (decodeFrame buf, s'')))"

section \<open>A reliable stream\<close>

text \<open>
  What the system calls do on a connection that does not fail, with \<open>wire s\<close> the bytes sent and not
  yet received: \<open>send\<close> takes a part of the bytes, not none, and appends it; \<open>recv\<close> on a stream that is
  not empty takes a part from the front.
\<close>

definition stream_sends :: "('s \<Rightarrow> bytes) \<Rightarrow> 's sender \<Rightarrow> bool" where
  "stream_sends wire put \<longleftrightarrow>
     (\<forall>b s. b \<noteq> [] \<longrightarrow>
       (\<exists>r s'. put b s = (Some r, s') \<and> 0 < r \<and> r \<le> length b \<and> wire s' = wire s @ take r b))"

definition stream_receives :: "('s \<Rightarrow> bytes) \<Rightarrow> 's receiver \<Rightarrow> bool" where
  "stream_receives wire get \<longleftrightarrow>
     (\<forall>n s. 0 < n \<and> wire s \<noteq> [] \<longrightarrow>
       (\<exists>c s'. get n s = (Some c, s') \<and> c \<noteq> [] \<and> length c \<le> n \<and> wire s = c @ wire s'))"

lemma writeAll_delivers:
  assumes "stream_sends wire put"
  shows "\<exists>s'. writeAll put b s = Some (True, s') \<and> wire s' = wire s @ b"
proof (induction "length b" arbitrary: b s rule: less_induct)
  case less
  show ?case
  proof (cases "b = []")
    case True
    then show ?thesis by (simp add: writeAll.simps)
  next
    case False
    with assms obtain r s' where r: "put b s = (Some r, s')" "0 < r" "r \<le> length b" "wire s' = wire s @ take r b"
      unfolding stream_sends_def by blast
    then have "length (drop r b) < length b" by simp
    from less [OF this, of s'] r show ?thesis by (auto simp: writeAll.simps [of put b] False)
  qed
qed

lemma readExact_delivers:
  assumes "stream_receives wire get" and "n \<le> length (wire s)"
  shows "\<exists>s'. readExact get n s = (Some (take n (wire s)), s') \<and> wire s' = drop n (wire s)"
  using assms(2)
proof (induction n arbitrary: s rule: less_induct)
  case (less n)
  show ?case
  proof (cases "n = 0")
    case True
    then show ?thesis by (simp add: readExact.simps)
  next
    case False
    with less.prems have "wire s \<noteq> []" by auto
    with assms(1) False obtain c s' where c: "get n s = (Some c, s')" "c \<noteq> []" "length c \<le> n" "wire s = c @ wire s'"
      unfolding stream_receives_def by (metis neq0_conv)
    have "n - length c < n" "n - length c \<le> length (wire s')" using c less.prems False by auto
    then obtain s'' where "readExact get (n - length c) s' = (Some (take (n - length c) (wire s')), s'')"
      "wire s'' = drop (n - length c) (wire s')"
      using less.IH by blast
    then show ?thesis using c False by (simp add: readExact.simps [of get n])
  qed
qed

text \<open>The bytes of a frame on the stream, and the frames that fit the limit of the receiver.\<close>

definition stream_frame :: "Frame \<Rightarrow> bytes" where
  "stream_frame f = w_u32 (of_nat (length (frame_body f) + 8)) @ frame_body f @ w_u64 (fnv1a (frame_body f))"

definition receivable :: "Frame \<Rightarrow> bool" where
  "receivable f \<longleftrightarrow> length (fr_payload f) + 25 \<le> kMaxFramePayload"

lemma sendFrame_delivers:
  assumes "stream_sends wire put" and "length (fr_payload f) \<le> kMaxFramePayload"
  shows "\<exists>s'. sendFrame put f s = Some (Inr (), s') \<and> wire s' = wire s @ stream_frame f"
proof -
  obtain bytes where bytes: "encodeFrame f = Inr bytes" "bytes = frame_body f @ w_u64 (fnv1a (frame_body f))"
    using assms(2) by (simp add: encodeFrame_def)
  obtain s1 where s1: "writeAll put (w_u32 (of_nat (length bytes))) s = Some (True, s1)"
    "wire s1 = wire s @ w_u32 (of_nat (length bytes))"
    using writeAll_delivers [OF assms(1)] by blast
  obtain s2 where "writeAll put bytes s1 = Some (True, s2)" "wire s2 = wire s1 @ bytes"
    using writeAll_delivers [OF assms(1)] by blast
  then show ?thesis using bytes s1 by (simp add: sendFrame_def stream_frame_def)
qed

lemma unat_frame_length: "n \<le> kMaxFramePayload + 25 \<Longrightarrow> unat (of_nat n :: u32) = n"
  by (simp add: kMaxFramePayload_def unat_of_nat)

lemma le_or_u32 [simp]: "le_or 0 (w_u32 v) = v"
  by (simp add: w_u32_def le_or_le_bytes)

lemma recvFrame_delivers:
  assumes "stream_receives wire get" and "receivable f" and "wire s = stream_frame f @ rest"
  shows "\<exists>s'. recvFrame get s = (Inr f, s') \<and> wire s' = rest"
proof -
  let ?n = "length (frame_body f) + 8"
  let ?b = "frame_body f @ w_u64 (fnv1a (frame_body f))"
  have wire: "wire s = w_u32 (of_nat ?n) @ ?b @ rest" using assms(3) by (simp add: stream_frame_def)
  have "4 \<le> length (wire s)" by (simp add: wire)
  from readExact_delivers [OF assms(1) this] obtain s1 where
    s1: "readExact get 4 s = (Some (w_u32 (of_nat ?n)), s1)" "wire s1 = ?b @ rest"
    by (auto simp: wire)
  have "?n \<le> length (wire s1)" by (simp add: s1(2))
  from readExact_delivers [OF assms(1) this] obtain s2 where
    s2: "readExact get ?n s1 = (Some ?b, s2)" "wire s2 = rest"
    by (auto simp: s1(2))
  have "?n \<le> kMaxFramePayload" using assms(2) by (simp add: receivable_def)
  moreover from this have "unat (of_nat ?n :: u32) = ?n" by (intro unat_frame_length) simp
  moreover have "decodeFrame ?b = Inr f"
    using frame_back [of f "[]"] assms(2) by (simp add: receivable_def)
  ultimately show ?thesis using s1 s2 by (simp add: recvFrame_def)
qed

text \<open>Many frames, one after the other.\<close>

primrec sendFrames :: "'s sender \<Rightarrow> Frame list \<Rightarrow> 's \<Rightarrow> 's option" where
  "sendFrames put [] s = Some s"
| "sendFrames put (f # fs) s =
     (case sendFrame put f s of Some (Inr _, s') \<Rightarrow> sendFrames put fs s' | _ \<Rightarrow> None)"

primrec recvFrames :: "'s receiver \<Rightarrow> nat \<Rightarrow> 's \<Rightarrow> (Frame list \<times> 's) option" where
  "recvFrames get 0 s = Some ([], s)"
| "recvFrames get (Suc n) s =
     (case recvFrame get s of
        (Inr f, s') \<Rightarrow> map_option (\<lambda>(fs, t). (f # fs, t)) (recvFrames get n s')
      | _ \<Rightarrow> None)"

lemma sendFrames_delivers:
  assumes "stream_sends wire put" and "\<forall>f\<in>set fs. receivable f"
  shows "\<exists>s'. sendFrames put fs s = Some s' \<and> wire s' = wire s @ concat (map stream_frame fs)"
  using assms(2)
proof (induction fs arbitrary: s)
  case (Cons f fs)
  then have "length (fr_payload f) \<le> kMaxFramePayload" by (simp add: receivable_def)
  with sendFrame_delivers [OF assms(1)] obtain s1 where
    s1: "sendFrame put f s = Some (Inr (), s1)" "wire s1 = wire s @ stream_frame f" by blast
  moreover obtain s2 where "sendFrames put fs s1 = Some s2" "wire s2 = wire s1 @ concat (map stream_frame fs)"
    using Cons by auto
  ultimately show ?case by simp
qed simp

lemma recvFrames_delivers:
  assumes "stream_receives wire get" and "\<forall>f\<in>set fs. receivable f"
    and "wire s = concat (map stream_frame fs) @ rest"
  shows "\<exists>s'. recvFrames get (length fs) s = Some (fs, s') \<and> wire s' = rest"
  using assms(2,3)
proof (induction fs arbitrary: s)
  case (Cons f fs)
  have "wire s = stream_frame f @ concat (map stream_frame fs) @ rest" using Cons.prems(2) by simp
  moreover have "receivable f" using Cons.prems(1) by simp
  ultimately obtain s1 where s1: "recvFrame get s = (Inr f, s1)" "wire s1 = concat (map stream_frame fs) @ rest"
    using recvFrame_delivers [OF assms(1)] by blast
  with Cons obtain s2 where "recvFrames get (length fs) s1 = Some (fs, s2)" "wire s2 = rest" by auto
  with s1 show ?case by simp
qed simp

text \<open>The checks of the two ends differ by the size of the frame's header and checksum.\<close>

lemma largest_frames_not_received:
  assumes "stream_sends wire put" and "stream_receives wire get" and "wire s = []"
    and "length (fr_payload f) \<le> kMaxFramePayload" and "\<not> receivable f"
  shows "\<exists>s1 s2. sendFrame put f s = Some (Inr (), s1) \<and> recvFrame get s1 = (Inl ''bad frame length'', s2)"
proof -
  let ?n = "length (frame_body f) + 8"
  obtain s1 where s1: "sendFrame put f s = Some (Inr (), s1)" "wire s1 = stream_frame f"
    using sendFrame_delivers [OF assms(1,4), of s] assms(3) by auto
  then have "4 \<le> length (wire s1)" by (simp add: stream_frame_def)
  from readExact_delivers [OF assms(2) this] obtain s2 where "readExact get 4 s1 = (Some (w_u32 (of_nat ?n)), s2)"
    by (auto simp: s1(2) stream_frame_def)
  moreover have "unat (of_nat ?n :: u32) = ?n"
    using assms(4) by (intro unat_frame_length) simp
  moreover have "kMaxFramePayload < ?n" using assms(5) by (simp add: receivable_def)
  ultimately have "recvFrame get s1 = (Inl ''bad frame length'', s2)" by (simp add: recvFrame_def)
  with s1(1) show ?thesis by blast
qed

section \<open>Theorems\<close>

text \<open>C14: frames cross a reliable stream. However the system calls split the bytes, sending a sequence
  of frames ends, and receiving as many yields the same frames in the same order and leaves nothing on
  the stream.\<close>

theorem frames_cross_the_stream:
  assumes "stream_sends wire put" and "stream_receives wire get"
    and "wire s = []" and "\<forall>f\<in>set fs. receivable f"
  shows "\<exists>s1 s2. sendFrames put fs s = Some s1 \<and> recvFrames get (length fs) s1 = Some (fs, s2) \<and> wire s2 = []"
proof -
  obtain s1 where s1: "sendFrames put fs s = Some s1" "wire s1 = concat (map stream_frame fs) @ []"
    using sendFrames_delivers [OF assms(1,4), of s] assms(3) by auto
  with recvFrames_delivers [OF assms(2,4) s1(2)] show ?thesis by blast
qed

text \<open>A pipe that takes and gives at most three bytes at a time.\<close>

definition pipe_send :: "bytes sender" where
  "pipe_send b s = (let r = min 3 (length b) in (Some r, s @ take r b))"

definition pipe_recv :: "bytes receiver" where
  "pipe_recv n s = (Some (take (min n 3) s), drop (min n 3) s)"

lemma pipe_stream: "stream_sends (\<lambda>s. s) pipe_send" "stream_receives (\<lambda>s. s) pipe_recv"
  by (auto simp: stream_sends_def stream_receives_def pipe_send_def pipe_recv_def Let_def)

theorem frames_cross_the_stream_witness:
  "\<exists>s1 s2. sendFrames pipe_send [\<lparr>fr_type = SAVE, fr_payload = []\<rparr>, \<lparr>fr_type = CANCEL, fr_payload = w_u64 1\<rparr>] [] = Some s1 \<and>
     recvFrames pipe_recv 2 s1 =
       Some ([\<lparr>fr_type = SAVE, fr_payload = []\<rparr>, \<lparr>fr_type = CANCEL, fr_payload = w_u64 1\<rparr>], s2) \<and> s2 = []"
proof -
  let ?fs = "[\<lparr>fr_type = SAVE, fr_payload = []\<rparr>, \<lparr>fr_type = CANCEL, fr_payload = w_u64 1\<rparr>]"
  have "\<forall>f\<in>set ?fs. receivable f" by (simp add: receivable_def kMaxFramePayload_def)
  moreover have "length ?fs = 2" by simp
  ultimately show ?thesis using frames_cross_the_stream [OF pipe_stream refl, of ?fs] by (simp only:)
qed

end
