(* ===== verification/Coordinator_Client.thy ===== *)
theory Coordinator_Client
  imports Stream_Transport Coordinator_Theorems
begin

text \<open>
  The \<open>CoordinatorClient\<close> of \<open>src/coordinator.cpp\<close>: one request frame, one reply frame, and what each
  method makes of the reply. A method returns \<open>None\<close> when sending never ends, otherwise \<open>Inl\<close> and the
  text left in \<open>err\<close> or \<open>Inr\<close> and what the method hands back.
\<close>

section \<open>The connection\<close>

record Client =
  cl_sock :: SOCKET
  cl_connected :: bool

text \<open>The pointer \<open>impl_\<close> is \<open>None\<close> before the first \<open>connect\<close>.\<close>

definition client_disconnect :: "Client option \<Rightarrow> Client option" where
  "client_disconnect impl =
     map_option (\<lambda>c. if cl_connected c then c\<lparr>cl_sock := INVALID_SOCKET, cl_connected := False\<rparr> else c) impl"

text \<open>\<open>sock\<close> is what \<open>connectTo\<close> returned; the first frame of the coordinator is its greeting.\<close>

definition client_connect :: "'s receiver \<Rightarrow> SOCKET \<Rightarrow> 's \<Rightarrow> bool \<times> Client option \<times> 's" where
  "client_connect get sock s =
     (if sock = INVALID_SOCKET then (False, Some \<lparr>cl_sock = sock, cl_connected = False\<rparr>, s)
      else
        (case recvFrame get s of
           (Inl e, s') \<Rightarrow> (False, client_disconnect (Some \<lparr>cl_sock = sock, cl_connected = True\<rparr>), s')
         | (Inr f, s') \<Rightarrow> (True, Some \<lparr>cl_sock = sock, cl_connected = True\<rparr>, s')))"

section \<open>One request and its reply\<close>

definition client_send :: "'s sender \<Rightarrow> 's receiver \<Rightarrow> Client \<Rightarrow> Message \<Rightarrow> 's \<Rightarrow> (Message option \<times> 's) option" where
  "client_send put get c m s =
     (if \<not> cl_connected c then Some (None, s)
      else
        (case sendFrame put \<lparr>fr_type = ms_type m, fr_payload = encodeMessage m\<rparr> s of
           None \<Rightarrow> None
         | Some (Inl e, s1) \<Rightarrow> Some (None, s1)
         | Some (Inr _, s1) \<Rightarrow>
             (case recvFrame get s1 of
                (Inl e, s2) \<Rightarrow> Some (None, s2)
              | (Inr rf, s2) \<Rightarrow>
                  (case decodeMessage (fr_type rf) (fr_payload rf) of
                     Inl e \<Rightarrow> Some (None, s2)
                   | Inr reply \<Rightarrow> Some (Some reply, s2)))))"

type_synonym ('s, 'a) call = "((string + 'a) \<times> 's) option"

definition client_call :: "'s sender \<Rightarrow> 's receiver \<Rightarrow> Client option \<Rightarrow> Message \<Rightarrow> 's \<Rightarrow> ('s, Message) call" where
  "client_call put get impl m s =
     (case impl of
        None \<Rightarrow> Some (Inl ''not connected'', s)
      | Some c \<Rightarrow>
          (case client_send put get c m s of
             None \<Rightarrow> None
           | Some (None, s') \<Rightarrow> Some (Inl ''transport error'', s')
           | Some (Some reply, s') \<Rightarrow>
               if ms_type reply = ERROR then Some (Inl (ms_error reply), s') else Some (Inr reply, s')))"

definition on_reply :: "(Message \<Rightarrow> 'a) \<Rightarrow> ('s, Message) call \<Rightarrow> ('s, 'a) call" where
  "on_reply f r = map_option (map_prod (map_sum id f) id) r"

section \<open>The methods\<close>

text \<open>The flag is the method's result where it returns \<open>reply.ok\<close>, and its out parameter otherwise.\<close>

definition client_registerWorker ::
  "'s sender \<Rightarrow> 's receiver \<Rightarrow> Client option \<Rightarrow> WorkerId \<Rightarrow> Generation \<Rightarrow> string \<Rightarrow> 's \<Rightarrow> ('s, bool) call" where
  "client_registerWorker put get impl w b name s = on_reply ms_ok (client_call put get impl
     (default_Message\<lparr>ms_type := REGISTER, ms_worker := w, ms_boot := b, ms_name := name\<rparr>) s)"

definition client_publishEndpoint ::
  "'s sender \<Rightarrow> 's receiver \<Rightarrow> Client option \<Rightarrow> WorkerId \<Rightarrow> Generation \<Rightarrow> Endpoint \<Rightarrow> 's \<Rightarrow> ('s, bool) call" where
  "client_publishEndpoint put get impl w b e s = on_reply ms_ok (client_call put get impl
     (default_Message\<lparr>ms_type := PUBLISH_ENDPOINT, ms_worker := w, ms_boot := b, ms_endpoint := e\<rparr>) s)"

definition client_publishLink ::
  "'s sender \<Rightarrow> 's receiver \<Rightarrow> Client option \<Rightarrow> WorkerId \<Rightarrow> Generation \<Rightarrow> Link \<Rightarrow> 's \<Rightarrow> ('s, bool) call" where
  "client_publishLink put get impl w b l s = on_reply ms_ok (client_call put get impl
     (default_Message\<lparr>ms_type := PUBLISH_LINK, ms_worker := w, ms_boot := b, ms_link := l\<rparr>) s)"

definition client_publishCapacity ::
  "'s sender \<Rightarrow> 's receiver \<Rightarrow> Client option \<Rightarrow> LinkId \<Rightarrow> Capacity \<Rightarrow> 's \<Rightarrow> ('s, bool) call" where
  "client_publishCapacity put get impl l c s = on_reply ms_ok (client_call put get impl
     (default_Message\<lparr>ms_type := PUBLISH_CAPACITY, ms_linkId := l, ms_capacity := c\<rparr>) s)"

definition client_publishCongestion ::
  "'s sender \<Rightarrow> 's receiver \<Rightarrow> Client option \<Rightarrow> LinkId \<Rightarrow> Congestion \<Rightarrow> 's \<Rightarrow> ('s, bool) call" where
  "client_publishCongestion put get impl l c s = on_reply ms_ok (client_call put get impl
     (default_Message\<lparr>ms_type := PUBLISH_CONGESTION, ms_linkId := l, ms_congestion := c\<rparr>) s)"

text \<open>The plan, when the request is feasible.\<close>

definition client_submitRequest ::
  "'s sender \<Rightarrow> 's receiver \<Rightarrow> Client option \<Rightarrow> CommunicationRequest \<Rightarrow> 's \<Rightarrow> ('s, CommunicationPlan option) call" where
  "client_submitRequest put get impl q s =
     on_reply (\<lambda>reply. if ms_ok reply then Some (ms_plan reply) else None) (client_call put get impl
       (default_Message\<lparr>ms_type := SUBMIT_REQUEST, ms_request := q\<rparr>) s)"

definition client_commitPlan ::
  "'s sender \<Rightarrow> 's receiver \<Rightarrow> Client option \<Rightarrow> CommunicationPlanId \<Rightarrow> 's \<Rightarrow> ('s, bool) call" where
  "client_commitPlan put get impl i s = on_reply ms_ok (client_call put get impl
     (default_Message\<lparr>ms_type := COMMIT_REQUEST, ms_planId := i\<rparr>) s)"

definition client_revalidate ::
  "'s sender \<Rightarrow> 's receiver \<Rightarrow> Client option \<Rightarrow> CommunicationPlanId \<Rightarrow> 's \<Rightarrow> ('s, bool) call" where
  "client_revalidate put get impl i s = on_reply ms_ok (client_call put get impl
     (default_Message\<lparr>ms_type := REVALIDATE, ms_planId := i\<rparr>) s)"

definition client_executionHandoff ::
  "'s sender \<Rightarrow> 's receiver \<Rightarrow> Client option \<Rightarrow> CommunicationPlanId \<Rightarrow> 's \<Rightarrow> ('s, bool) call" where
  "client_executionHandoff put get impl i s = on_reply ms_ok (client_call put get impl
     (default_Message\<lparr>ms_type := EXECUTION_HANDOFF, ms_planId := i\<rparr>) s)"

definition client_executionResult ::
  "'s sender \<Rightarrow> 's receiver \<Rightarrow> Client option \<Rightarrow> CommunicationPlanId \<Rightarrow> bool \<Rightarrow> 's \<Rightarrow> ('s, bool) call" where
  "client_executionResult put get impl i ok s = on_reply ms_ok (client_call put get impl
     (default_Message\<lparr>ms_type := EXECUTION_RESULT, ms_planId := i, ms_ok := ok\<rparr>) s)"

text \<open>The result of the method and the \<open>int\<close> it stores.\<close>

definition client_queryPlanState ::
  "'s sender \<Rightarrow> 's receiver \<Rightarrow> Client option \<Rightarrow> CommunicationPlanId \<Rightarrow> 's \<Rightarrow> ('s, bool \<times> int) call" where
  "client_queryPlanState put get impl i s =
     on_reply (\<lambda>reply. (ms_ok reply, to_int32 (ms_planId reply))) (client_call put get impl
       (default_Message\<lparr>ms_type := QUERY_PLAN, ms_planId := i\<rparr>) s)"

definition client_cancel ::
  "'s sender \<Rightarrow> 's receiver \<Rightarrow> Client option \<Rightarrow> CommunicationRequestId \<Rightarrow> CommunicationPlanId \<Rightarrow> 's \<Rightarrow> ('s, bool) call" where
  "client_cancel put get impl q i s = on_reply ms_ok (client_call put get impl
     (default_Message\<lparr>ms_type := CANCEL, ms_requestId := q, ms_planId := i\<rparr>) s)"

definition client_supersede ::
  "'s sender \<Rightarrow> 's receiver \<Rightarrow> Client option \<Rightarrow> CommunicationRequestId \<Rightarrow> CommunicationPlanId \<Rightarrow> 's \<Rightarrow> ('s, bool) call" where
  "client_supersede put get impl q i s = on_reply ms_ok (client_call put get impl
     (default_Message\<lparr>ms_type := SUPERSEDE, ms_requestId := q, ms_planId := i\<rparr>) s)"

definition client_save :: "'s sender \<Rightarrow> 's receiver \<Rightarrow> Client option \<Rightarrow> 's \<Rightarrow> ('s, bool) call" where
  "client_save put get impl s = on_reply ms_ok (client_call put get impl (default_Message\<lparr>ms_type := SAVE\<rparr>) s)"

definition client_shutdown :: "'s sender \<Rightarrow> 's receiver \<Rightarrow> Client option \<Rightarrow> 's \<Rightarrow> ('s, bool) call" where
  "client_shutdown put get impl s = on_reply ms_ok (client_call put get impl (default_Message\<lparr>ms_type := SHUTDOWN\<rparr>) s)"

section \<open>What the client reads\<close>

text \<open>
  A call of the client whose request reaches the coordinator and whose reply comes back: \<open>m\<close> is the
  message, \<open>r\<close> what the coordinator answers, \<open>s\<close> and \<open>s2\<close> the network before and after.
\<close>

definition exchanged :: "'s sender \<Rightarrow> 's receiver \<Rightarrow> Client \<Rightarrow> Message \<Rightarrow> Frame \<Rightarrow> 's \<Rightarrow> 's \<Rightarrow> bool" where
  "exchanged put get c m rf s s2 \<longleftrightarrow> cl_connected c \<and>
     (\<exists>s1. sendFrame put \<lparr>fr_type = ms_type m, fr_payload = encodeMessage m\<rparr> s = Some (Inr (), s1) \<and>
        recvFrame get s1 = (Inr rf, s2))"

lemma wire_message_type [simp]: "ms_type (wire_message m) = ms_type m"
  by (simp add: wire_message_def Let_def split: MessageType.split)

lemma reply_read:
  assumes "exchanged put get c m \<lparr>fr_type = ms_type r, fr_payload = encodeMessage r\<rparr> s s2" and "message_ok r"
  shows "client_call put get (Some c) m s =
    Some (if ms_type r = ERROR then Inl (ms_error r) else Inr (wire_message r), s2)"
proof -
  have "ms_error (wire_message r) = ms_error r" if "ms_type r = ERROR"
    using that by (simp add: wire_message_def)
  then show ?thesis
    using assms message_back [OF assms(2), of "[]"]
    by (auto simp: exchanged_def client_call_def client_send_def)
qed

text \<open>The coordinator's replies, as the client reads them.\<close>

lemma result_read:
  assumes "exchanged put get c m rf s s2" and "send_result k ok i = [(k, rf)]"
  shows "client_call put get (Some c) m s =
    Some (Inr (default_Message\<lparr>ms_type := COMMIT_RESULT, ms_ok := ok, ms_planId := i\<rparr>), s2)"
proof -
  let ?r = "default_Message\<lparr>ms_type := COMMIT_RESULT, ms_ok := ok, ms_planId := i\<rparr>"
  have "rf = \<lparr>fr_type = ms_type ?r, fr_payload = encodeMessage ?r\<rparr>"
    using assms(2) by (simp add: send_result_def send_message_def)
  moreover have "message_ok ?r" by (simp add: message_ok_def)
  ultimately show ?thesis
    using reply_read [of put get c m ?r s s2] assms(1) by (simp add: wire_message_def default_Message_def)
qed

lemma error_read:
  assumes "exchanged put get c m rf s s2" and "sendError k e = [(k, rf)]" and "str_ok e"
  shows "client_call put get (Some c) m s = Some (Inl e, s2)"
proof -
  let ?r = "default_Message\<lparr>ms_type := ERROR, ms_error := e\<rparr>"
  have "rf = \<lparr>fr_type = ms_type ?r, fr_payload = encodeMessage ?r\<rparr>"
    using assms(2) by (simp add: sendError_def send_message_def)
  moreover have "message_ok ?r" using assms(3) by (simp add: message_ok_def)
  ultimately show ?thesis using reply_read [of put get c m ?r s s2] assms(1) by simp
qed

text \<open>What reaches the handlers is what was sent, when the message is within the limits.\<close>

lemma request_received:
  assumes "message_ok m"
  shows "receive_frame k \<lparr>fr_type = ms_type m, fr_payload = encodeMessage m\<rparr> st = handleMessage k (wire_message m) st"
  using message_back [OF assms, of "[]"] by (simp add: receive_frame_def)

text \<open>A line that takes all bytes at once and on which the reply is already waiting.\<close>

definition line_send :: "(bytes \<times> bytes) sender" where
  "line_send b s = (Some (length b), (fst s @ b, snd s))"

definition line_recv :: "(bytes \<times> bytes) receiver" where
  "line_recv n s = (Some (take n (snd s)), (fst s, drop n (snd s)))"

lemma line_exchanged:
  assumes "length (encodeMessage m) \<le> kMaxFramePayload" and "receivable rf"
  shows "\<exists>s2. exchanged line_send line_recv \<lparr>cl_sock = 1, cl_connected = True\<rparr> m rf ([], stream_frame rf) s2"
proof -
  let ?f = "\<lparr>fr_type = ms_type m, fr_payload = encodeMessage m\<rparr>"
  have all: "writeAll line_send b s = Some (True, (fst s @ b, snd s))" for b s
    by (cases "b = []") (simp_all add: writeAll.simps line_send_def)
  have "\<exists>sent. sendFrame line_send ?f ([], stream_frame rf) = Some (Inr (), (sent, stream_frame rf))"
    using assms(1) by (simp add: sendFrame_def encodeFrame_def all)
  moreover have "stream_receives snd line_recv" by (simp add: stream_receives_def line_recv_def)
  ultimately show ?thesis
    using recvFrame_delivers [OF _ assms(2), of snd line_recv _ "[]"] by (fastforce simp: exchanged_def)
qed

section \<open>Commits\<close>

lemma broker_error_short: "acquire rs ss b = (Some e, b') \<Longrightarrow> str_ok (''resource commit failed: '' @ e)"
  by (auto simp: acquire_def str_ok_def kMaxCount_def Let_def split: if_splits)

text \<open>Every way a commit ends: granted, or refused with a short reason.\<close>

lemma commit_replies:
  assumes "handleCommit k m st = (out, st')"
  shows "out = send_result k True (ms_planId m) \<and> planState (ms_planId m) st' = PlanState.COMMITTED \<and>
      planState (ms_planId m) st \<in> {PlanState.PLAN_READY, PlanState.AWAITING_RESOURCE_COMMIT} \<or>
    (\<exists>e. out = sendError k e \<and> str_ok e \<and>
      (planState (ms_planId m) st' = PlanState.FAILED \<or> co_plans st' = co_plans st))"
proof (cases "map_find (co_plans st) (ms_planId m)")
  case None
  then show ?thesis using assms
    by (auto simp: handleCommit_def commit_begin_def str_ok_def kMaxCount_def)
next
  case (Some r)
  show ?thesis
  proof (cases "(pr_state r = PlanState.PLAN_READY \<or> pr_state r = PlanState.AWAITING_RESOURCE_COMMIT) \<and>
      pl_requestId (pr_plan r) \<notin> set (co_cancelled st)")
    case False
    with Some assms show ?thesis
      by (auto simp: handleCommit_def commit_begin_def str_ok_def kMaxCount_def split: if_splits)
  next
    case True
    let ?cl = "pl_requiredResourceClaims (pr_plan r)"
    obtain err b where acq: "acquire ?cl (replicate (length ?cl) (commit_payload (pr_plan r))) (co_broker st) = (err, b)"
      by (metis surj_pair)
    have state: "planState (ms_planId m) st = pr_state r" using Some by (simp add: planState_def)
    from commit_outcome [OF Some _ _ acq refl assms] True
    have "out = (case err of None \<Rightarrow> sendOk k (ms_planId m) | Some e \<Rightarrow> sendError k (''resource commit failed: '' @ e))"
      "planState (ms_planId m) st' = (if err = None then PlanState.COMMITTED else PlanState.FAILED)" by auto
    then show ?thesis
      using True broker_error_short acq by (cases err) (auto simp: state sendOk_def)
  qed
qed

text \<open>C15: what \<open>commitPlan\<close> reports is what happened. When the request reaches the coordinator undisturbed
  and the reply comes back, the client returns success with the flag set exactly if this commit took
  a ready plan to \<open>COMMITTED\<close>; otherwise it returns an error and the plan failed or nothing changed.\<close>

theorem client_commit_truthful:
  assumes "receive_frame k \<lparr>fr_type = COMMIT_REQUEST, fr_payload = w_u64 i\<rparr> st = Inr ([(k, rf)], st')"
    and "exchanged put get c (default_Message\<lparr>ms_type := COMMIT_REQUEST, ms_planId := i\<rparr>) rf s s2"
  shows "\<exists>x. client_commitPlan put get (Some c) i s = Some (x, s2) \<and>
    (case x of
       Inr ok \<Rightarrow> ok \<and> planState i st' = PlanState.COMMITTED \<and>
         planState i st \<in> {PlanState.PLAN_READY, PlanState.AWAITING_RESOURCE_COMMIT}
     | Inl e \<Rightarrow> planState i st' = PlanState.FAILED \<or> co_plans st' = co_plans st)"
proof -
  let ?m = "default_Message\<lparr>ms_type := COMMIT_REQUEST, ms_planId := i\<rparr>"
  have "message_ok ?m" by (simp add: message_ok_def)
  from request_received [OF this, of k st] assms(1)
  have "handleCommit k ?m st = ([(k, rf)], st')"
    by (simp add: encodeMessage_def handleMessage_def wire_message_def default_Message_def)
  from commit_replies [OF this] consider
    (granted) "send_result k True i = [(k, rf)]" "planState i st' = PlanState.COMMITTED"
      "planState i st \<in> {PlanState.PLAN_READY, PlanState.AWAITING_RESOURCE_COMMIT}"
    | (refused) e where "sendError k e = [(k, rf)]" "str_ok e"
      "planState i st' = PlanState.FAILED \<or> co_plans st' = co_plans st"
    by auto
  then show ?thesis
  proof cases
    case granted
    with result_read [OF assms(2)] show ?thesis by (simp add: client_commitPlan_def on_reply_def)
  next
    case (refused e)
    with error_read [OF assms(2)] show ?thesis by (simp add: client_commitPlan_def on_reply_def)
  qed
qed

lemma sample_commit_granted:
  "\<exists>st'. receive_frame 1 \<lparr>fr_type = COMMIT_REQUEST, fr_payload = w_u64 5\<rparr> sample_ready = Inr (send_result 1 True 5, st')"
proof -
  obtain r where r: "map_find (co_plans sample_ready) (ms_planId sample_commit) = Some r"
    "pr_state r = PlanState.PLAN_READY" "pl_requestId (pr_plan r) \<notin> set (co_cancelled sample_ready)"
    "pl_requiredResourceClaims (pr_plan r) = [1]" "commit_payload (pr_plan r) = 1024"
    by (simp add: sample_plan_defs map_find_def commit_payload_def)
  obtain b where "acquire [1] (replicate (length [1 :: u64]) (commit_payload (pr_plan r))) (co_broker sample_ready) = (None, b)"
    unfolding r(5) by (simp add: sample_plan_defs new_broker_def acquire_def broker_capacity_def Let_def)
  from commit_outcome [OF r(1) _ r(3) this r(4) [symmetric] surjective_pairing] r(2)
  have "fst (handleCommit 1 sample_commit sample_ready) = send_result 1 True 5"
    by (simp add: sample_commit_def sendOk_def)
  moreover have "message_ok sample_commit" by (simp add: message_ok_def sample_commit_def)
  from request_received [OF this, of 1 sample_ready]
  have "receive_frame 1 \<lparr>fr_type = COMMIT_REQUEST, fr_payload = w_u64 5\<rparr> sample_ready = Inr (handleCommit 1 sample_commit sample_ready)"
    by (simp add: encodeMessage_def sample_commit_def handleMessage_def wire_message_def default_Message_def)
  ultimately show ?thesis by (metis prod.collapse)
qed

theorem client_commit_truthful_witness:
  "\<exists>reply s2 st'. receive_frame 1 \<lparr>fr_type = COMMIT_REQUEST, fr_payload = w_u64 5\<rparr> sample_ready = Inr ([(1, reply)], st') \<and>
     client_commitPlan line_send line_recv (Some \<lparr>cl_sock = 1, cl_connected = True\<rparr>) 5 ([], stream_frame reply) =
        Some (Inr True, s2) \<and> planState 5 st' = PlanState.COMMITTED"
proof -
  let ?rf = "\<lparr>fr_type = COMMIT_RESULT, fr_payload = w_boo True @ w_u64 5\<rparr>"
  let ?m = "default_Message\<lparr>ms_type := COMMIT_REQUEST, ms_planId := 5\<rparr>"
  obtain st' where st': "receive_frame 1 \<lparr>fr_type = COMMIT_REQUEST, fr_payload = w_u64 5\<rparr> sample_ready = Inr ([(1, ?rf)], st')"
    using sample_commit_granted by (auto simp: send_result_def send_message_def encodeMessage_def)
  have "length (encodeMessage ?m) \<le> kMaxFramePayload" "receivable ?rf"
    by (simp_all add: encodeMessage_def kMaxFramePayload_def receivable_def)
  from line_exchanged [OF this] obtain s2 where
    s2: "exchanged line_send line_recv \<lparr>cl_sock = 1, cl_connected = True\<rparr> ?m ?rf ([], stream_frame ?rf) s2" by blast
  have "send_result 1 True 5 = [(1, ?rf)]" by (simp add: send_result_def send_message_def encodeMessage_def)
  from result_read [OF s2 this]
  have ok: "client_commitPlan line_send line_recv (Some \<lparr>cl_sock = 1, cl_connected = True\<rparr>) 5 ([], stream_frame ?rf) =
      Some (Inr True, s2)"
    by (simp add: client_commitPlan_def on_reply_def)
  from client_commit_truthful [OF st' s2] have "planState 5 st' = PlanState.COMMITTED" by (auto simp: ok)
  with st' ok show ?thesis by blast
qed

section \<open>Queries\<close>

lemma state_ordinal_back:
  "to_int32 (of_nat (enum_index all_PlanState x)) = int (enum_index all_PlanState x)"
proof -
  have "enum_index all_PlanState x < 16"
    using PlanState_enum.index_bound [of x] by (simp add: all_PlanState_def)
  then show ?thesis using to_int32_nonneg [of "int (enum_index all_PlanState x)"] by simp
qed

text \<open>A query returns true exactly for the plans the coordinator knows, and then the number it
  stores is the ordinal of the plan's state.\<close>

lemma client_query_exact:
  assumes "receive_frame k \<lparr>fr_type = QUERY_PLAN, fr_payload = w_u64 i\<rparr> st = Inr ([(k, rf)], st')"
    and "exchanged put get c (default_Message\<lparr>ms_type := QUERY_PLAN, ms_planId := i\<rparr>) rf s s2"
  shows "st' = st \<and> (\<exists>known n. client_queryPlanState put get (Some c) i s = Some (Inr (known, n), s2) \<and>
    (if known then map_find (co_plans st) i \<noteq> None \<and> enum_at all_PlanState (nat n) = Some (planState i st)
     else map_find (co_plans st) i = None))"
proof -
  let ?m = "default_Message\<lparr>ms_type := QUERY_PLAN, ms_planId := i\<rparr>"
  have "message_ok ?m" by (simp add: message_ok_def)
  from request_received [OF this, of k st] assms(1)
  have query: "handle_query k ?m st = ([(k, rf)], st')"
    by (simp add: encodeMessage_def handleMessage_def wire_message_def default_Message_def)
  show ?thesis
  proof (cases "map_find (co_plans st) i")
    case None
    with query have "send_result k False 0 = [(k, rf)]" "st' = st" by (simp_all add: handle_query_def)
    with result_read [OF assms(2)] None show ?thesis by (auto simp: client_queryPlanState_def on_reply_def)
  next
    case (Some r)
    with query have "send_result k True (of_nat (enum_index all_PlanState (pr_state r))) = [(k, rf)]" "st' = st"
      by (simp_all add: handle_query_def)
    with result_read [OF assms(2)] Some show ?thesis
      by (auto simp: client_queryPlanState_def on_reply_def state_ordinal_back planState_def PlanState_enum.at_index)
  qed
qed

end
