(* ===== verification/Evidence_Invariants.thy ===== *)
theory Evidence_Invariants
  imports Coordinator_Invariants Planning_Theorems
begin

text \<open>
  The evidence the coordinator keeps: in every reachable state the snapshot is well-formed, and what
  belongs to a worker that is gone is of no use to planning, revalidation and handoff.
\<close>

section \<open>Well-formed evidence\<close>

text \<open>
  Endpoints and links have distinct identities, every endpoint carries the non-null identity of a
  known worker and a non-null boot, and nothing is ever reserved or committed in the snapshot.
\<close>

definition evidence_wf :: "(WorkerId \<Rightarrow> bool) \<Rightarrow> EvidenceSnapshot \<Rightarrow> bool" where
  "evidence_wf known s \<longleftrightarrow>
     distinct (map ep_id (sn_endpoints s)) \<and> distinct (map ln_id (sn_links s)) \<and>
     (\<forall>e\<in>set (sn_endpoints s). ep_worker e \<noteq> 0 \<and> ep_workerBoot e \<noteq> 0 \<and> known (ep_worker e)) \<and>
     (\<forall>l\<in>set (sn_links s). ln_workerBoot l \<noteq> 0) \<and>
     sn_reservations s = [] \<and> sn_resourceCapacities s = []"

definition known_worker :: "Coordinator \<Rightarrow> WorkerId \<Rightarrow> bool" where
  "known_worker st w \<longleftrightarrow> map_find (co_workers st) w \<noteq> None"

definition evidence_inv :: "Coordinator \<Rightarrow> bool" where
  "evidence_inv st \<longleftrightarrow> evidence_wf (known_worker st) (co_snap st)"

lemma upsert_keys: "key ` set (upsert key x xs) = insert (key x) (key ` set xs)"
  by (induction xs) auto

lemma upsert_distinct: "distinct (map key xs) \<Longrightarrow> distinct (map key (upsert key x xs))"
  by (induction xs) (auto simp: upsert_keys)

lemma upsert_subset: "set (upsert key x xs) \<subseteq> insert x (set xs)"
  by (induction xs) auto

lemma upsert_find:
  "List.find (\<lambda>y. key y = k) (upsert key x xs) = (if k = key x then Some x else List.find (\<lambda>y. key y = k) xs)"
  by (induction xs) auto

lemma evidence_wf_mono:
  "evidence_wf known s \<Longrightarrow> (\<And>w. known w \<Longrightarrow> known' w) \<Longrightarrow> evidence_wf known' s"
  by (auto simp: evidence_wf_def)

lemma evidence_wf_fields:
  assumes "evidence_wf known s" and "sn_endpoints s' = sn_endpoints s" and "sn_links s' = sn_links s"
    and "sn_reservations s' = sn_reservations s" and "sn_resourceCapacities s' = sn_resourceCapacities s"
  shows "evidence_wf known s'"
  using assms by (simp add: evidence_wf_def)

lemma evidence_wf_map_links:
  assumes "evidence_wf known s" and "\<And>l. ln_id (f l) = ln_id l" and "\<And>l. ln_workerBoot (f l) = ln_workerBoot l"
    and "sn_links s' = map f (sn_links s)" and "sn_endpoints s' = sn_endpoints s"
    and "sn_reservations s' = sn_reservations s" and "sn_resourceCapacities s' = sn_resourceCapacities s"
  shows "evidence_wf known s'"
proof -
  have "ln_id \<circ> f = ln_id" using assms(2) by auto
  then show ?thesis using assms by (simp add: evidence_wf_def)
qed

lemma publishEndpoint_wf:
  assumes "evidence_wf known s" and "ep_worker e \<noteq> 0" and "ep_workerBoot e \<noteq> 0" and "known (ep_worker e)"
  shows "evidence_wf known (publishEndpoint e s)"
  using assms upsert_subset [of ep_id e "sn_endpoints s"]
  by (auto simp: evidence_wf_def publishEndpoint_def upsert_distinct)

lemma publishLink_wf:
  assumes "evidence_wf known s" and "ln_workerBoot l \<noteq> 0"
  shows "evidence_wf known (publishLink l s)"
  using assms upsert_subset [of ln_id l "sn_links s"]
  by (auto simp: evidence_wf_def publishLink_def upsert_distinct)

section \<open>Every step keeps the evidence well-formed\<close>

text \<open>What the evidence invariant looks at.\<close>

definition evidence_of :: "Coordinator \<Rightarrow> EvidenceSnapshot \<times> (WorkerId \<times> WorkerInfo) list" where
  "evidence_of st = (co_snap st, co_workers st)"

lemma evidence_frame: "evidence_inv st \<Longrightarrow> evidence_of st' = evidence_of st \<Longrightarrow> evidence_inv st'"
  by (simp add: evidence_of_def evidence_inv_def known_worker_def [abs_def])

lemma evidence_of_simps [simp]:
  "evidence_of (set_plan_state i x st) = evidence_of st" "evidence_of (release_claims r st) = evidence_of st"
  "evidence_of (release_pending c err st) = evidence_of st" "evidence_of (st\<lparr>co_broker := b\<rparr>) = evidence_of st"
  "evidence_of (st\<lparr>co_cancelled := u\<rparr>) = evidence_of st" "evidence_of (st\<lparr>co_supersessions := v\<rparr>) = evidence_of st"
  "evidence_of (st\<lparr>co_file := f\<rparr>) = evidence_of st" "evidence_of (st\<lparr>co_stopping := z\<rparr>) = evidence_of st"
  "evidence_of (st\<lparr>co_activeSockets := a\<rparr>) = evidence_of st" "evidence_of (st\<lparr>co_socketToWorker := w\<rparr>) = evidence_of st"
  by (simp_all add: evidence_of_def set_plan_state_def release_claims_def release_pending_def split: option.split)

lemma handlers_keep_evidence:
  "evidence_of (snd (handle_query s m st)) = evidence_of st"
  "evidence_of (snd (handle_revalidate s m st)) = evidence_of st"
  "evidence_of (snd (handle_handoff s m st)) = evidence_of st"
  "evidence_of (snd (handle_execution_result s m st)) = evidence_of st"
  "evidence_of (snd (handle_cancel s m st)) = evidence_of st"
  "evidence_of (snd (handle_supersede s m st)) = evidence_of st"
  "evidence_of (snd (handle_save s st)) = evidence_of st"
  by (simp_all add: handle_query_def handle_revalidate_def handle_handoff_def handle_execution_result_def
      handle_cancel_def handle_supersede_def supersede_named_def supersede_current_def handle_save_def
      saveStore_def Let_def split: option.split)

lemma phases_keep_evidence:
  "evidence_of (snd (snd (commit_begin s m st))) = evidence_of st"
  "evidence_of (snd (commit_acquire c st)) = evidence_of st"
  "evidence_of (snd (commit_finish c err st)) = evidence_of st"
  by (simp_all add: commit_begin_def commit_acquire_def commit_finish_def Let_def split: option.split prod.split)

lemma submit_keeps_evidence: "handle_submit s m st = Inr (out, st') \<Longrightarrow> evidence_of st' = evidence_of st"
  by (auto simp: evidence_of_def handle_submit_def Let_def split: if_splits prod.splits sum.splits option.splits)

lemma commit_keeps_evidence: "evidence_of (snd (handleCommit s m st)) = evidence_of st"
  using phases_keep_evidence
  by (cases rule: handleCommit_cases [of s m st]) (metis snd_conv)+

lemma register_evidence:
  assumes "evidence_inv st"
  shows "evidence_inv (snd (handle_register s m st))"
proof -
  have "evidence_wf (known_worker (snd (handle_register s m st))) (co_snap st)"
    using assms unfolding evidence_inv_def
    by (rule evidence_wf_mono) (auto simp: known_worker_def handle_register_def map_find_assign)
  then show ?thesis
    unfolding evidence_inv_def by (rule evidence_wf_fields) (simp_all add: handle_register_def)
qed

lemma publish_evidence:
  assumes "coordinator_inv st" and "evidence_inv st"
  shows "evidence_inv (snd (handle_publish_endpoint s m st))"
    and "evidence_inv (snd (handle_publish_link s m st))"
proof -
  have both: "evidence_inv (snd (handle_publish_endpoint s m st)) \<and> evidence_inv (snd (handle_publish_link s m st))"
  proof (cases "publisher m st")
    case None
    with assms(2) show ?thesis by (simp add: handle_publish_endpoint_def handle_publish_link_def)
  next
    case (Some w)
    then have w: "map_find (co_workers st) (ms_worker m) = Some w" "wi_boot w = ms_boot m"
      using publisher_Some by blast+
    with assms(1) have ids: "ms_worker m \<noteq> 0" "ms_boot m \<noteq> 0"
      unfolding coordinator_inv_def registry_inv_def by metis+
    let ?e = "(ms_endpoint m)\<lparr>ep_worker := ms_worker m, ep_workerBoot := ms_boot m\<rparr>"
    let ?l = "(ms_link m)\<lparr>ln_workerBoot := ms_boot m\<rparr>"
    have known: "known_worker (snd (handle_publish_endpoint s m st)) = known_worker st"
      "known_worker (snd (handle_publish_link s m st)) = known_worker st"
      using w by (auto simp: fun_eq_iff known_worker_def handle_publish_endpoint_def handle_publish_link_def
          Some Let_def map_find_assign)
    have "evidence_wf (known_worker st) (publishEndpoint ?e (co_snap st))"
      "evidence_wf (known_worker st) (publishLink ?l (co_snap st))"
      using assms(2) w ids by (intro publishEndpoint_wf publishLink_wf; simp add: evidence_inv_def known_worker_def)+
    then show ?thesis
      unfolding evidence_inv_def known by (simp add: handle_publish_endpoint_def handle_publish_link_def Some Let_def)
  qed
  then show "evidence_inv (snd (handle_publish_endpoint s m st))"
    "evidence_inv (snd (handle_publish_link s m st))" by blast+
qed

lemma news_evidence:
  assumes "evidence_inv st"
  shows "evidence_inv (snd (handle_publish_capacity s m st))"
    and "evidence_inv (snd (handle_publish_congestion s m st))"
proof -
  have known: "known_worker (snd (handle_publish_capacity s m st)) = known_worker st"
    "known_worker (snd (handle_publish_congestion s m st)) = known_worker st"
    by (simp_all add: fun_eq_iff known_worker_def handle_publish_capacity_def handle_publish_congestion_def)
  have wf: "evidence_wf (known_worker st) (co_snap st)" using assms by (simp add: evidence_inv_def)
  have "evidence_inv (snd (handle_publish_capacity s m st))"
  proof (cases "\<not> isNull (ms_worker m) \<and> publisher m st = None")
    case False
    show ?thesis unfolding evidence_inv_def known
      by (rule evidence_wf_map_links [OF wf, where f = "\<lambda>l. if ln_id l = ms_linkId m then l\<lparr>ln_capacityEvidence := ms_capacity m\<rparr> else l"])
        (use False in \<open>auto simp: handle_publish_capacity_def\<close>)
  qed (use assms in \<open>simp add: handle_publish_capacity_def\<close>)
  moreover have "evidence_inv (snd (handle_publish_congestion s m st))"
  proof (cases "\<not> isNull (ms_worker m) \<and> publisher m st = None")
    case False
    show ?thesis unfolding evidence_inv_def known
      by (rule evidence_wf_map_links [OF wf, where f = "\<lambda>l. if ln_id l = ms_linkId m then l\<lparr>ln_congestion := ms_congestion m\<rparr> else l"])
        (use False in \<open>auto simp: handle_publish_congestion_def\<close>)
  qed (use assms in \<open>simp add: handle_publish_congestion_def\<close>)
  ultimately show "evidence_inv (snd (handle_publish_capacity s m st))"
    "evidence_inv (snd (handle_publish_congestion s m st))" .
qed

lemma fence_evidence:
  assumes "evidence_inv st"
  shows "evidence_inv (fenceWorker w st)"
proof (cases "map_find (co_workers st) w")
  case None
  have "known_worker (fenceWorker w st) = known_worker st" by (simp add: fun_eq_iff known_worker_def fenceWorker_def None)
  with assms show ?thesis by (simp add: evidence_inv_def evidence_wf_def) (simp add: fenceWorker_def None)
next
  case (Some i)
  have known: "known_worker (fenceWorker w st) = known_worker st"
    using Some by (auto simp: fun_eq_iff known_worker_def fenceWorker_def Let_def map_find_assign)
  have ids: "map ep_id (unready_endpoints ids es) = map ep_id es" for ids es
    by (induction es) (simp_all add: unready_endpoints_def)
  have members: "e \<in> set (unready_endpoints ids es) \<Longrightarrow>
      \<exists>e'\<in>set es. ep_worker e = ep_worker e' \<and> ep_workerBoot e = ep_workerBoot e'" for e ids es
    by (force simp: unready_endpoints_def)
  have snap: "sn_endpoints (co_snap (fenceWorker w st)) = unready_endpoints (wi_endpoints i) (sn_endpoints (co_snap st))"
    "sn_links (co_snap (fenceWorker w st)) = filter (\<lambda>l. ln_id l \<notin> set (wi_links i)) (sn_links (co_snap st))"
    "sn_reservations (co_snap (fenceWorker w st)) = sn_reservations (co_snap st)"
    "sn_resourceCapacities (co_snap (fenceWorker w st)) = sn_resourceCapacities (co_snap st)"
    using Some by (simp_all add: fenceWorker_def Let_def)
  have wf: "evidence_wf (known_worker st) (co_snap st)" using assms by (simp add: evidence_inv_def)
  have "\<forall>e\<in>set (unready_endpoints (wi_endpoints i) (sn_endpoints (co_snap st))).
      ep_worker e \<noteq> 0 \<and> ep_workerBoot e \<noteq> 0 \<and> known_worker st (ep_worker e)"
  proof
    fix e assume "e \<in> set (unready_endpoints (wi_endpoints i) (sn_endpoints (co_snap st)))"
    from members [OF this] wf show "ep_worker e \<noteq> 0 \<and> ep_workerBoot e \<noteq> 0 \<and> known_worker st (ep_worker e)"
      by (auto simp: evidence_wf_def)
  qed
  with wf show ?thesis
    unfolding evidence_inv_def known by (simp add: evidence_wf_def snap ids distinct_map_filter)
qed

lemma handleMessage_evidence:
  assumes "coordinator_inv st" and "evidence_inv st" and "handleMessage s m st = Inr (out, st')"
  shows "evidence_inv st'"
proof -
  have snd: "y = (out, st') \<Longrightarrow> evidence_inv (snd y) \<Longrightarrow> evidence_inv st'" for y by simp
  have kept: "y = (out, st') \<Longrightarrow> evidence_of (snd y) = evidence_of st \<Longrightarrow> evidence_inv st'" for y
    using evidence_frame [OF assms(2), of st'] by simp
  show ?thesis
  proof (cases "ms_type m")
    case SUBMIT_REQUEST
    then have "evidence_of st' = evidence_of st"
      using assms(3) by (auto simp: handleMessage_def intro: submit_keeps_evidence)
    then show ?thesis by (rule evidence_frame [OF assms(2)])
  next
    case SHUTDOWN
    then have "evidence_of st' = evidence_of st" using assms(3) by (auto simp: handleMessage_def)
    then show ?thesis by (rule evidence_frame [OF assms(2)])
  qed (use assms in \<open>auto simp: handleMessage_def
      intro: snd [OF _ register_evidence] snd [OF _ publish_evidence(1)] snd [OF _ publish_evidence(2)]
        snd [OF _ news_evidence(1)] snd [OF _ news_evidence(2)]
        handlers_keep_evidence [THEN kept [rotated]] commit_keeps_evidence [THEN kept [rotated]]\<close>)
qed

lemma fence_connection_evidence: "evidence_inv st \<Longrightarrow> evidence_inv (fence_connection s st)"
proof (cases "map_find (co_socketToWorker st) s")
  case (Some w)
  assume "evidence_inv st"
  then have "evidence_inv (fenceWorker w st)" by (rule fence_evidence)
  then show ?thesis by (rule evidence_frame) (simp add: fence_connection_def Some)
qed (simp add: fence_connection_def)

lemma start_evidence: "evidence_inv (start_coordinator ws b file)"
proof -
  have load: "co_workers (fold load_record rs st) = co_workers st \<and> co_snap (fold load_record rs st) = co_snap st" for rs st
    by (induction rs arbitrary: st) (simp_all add: load_record_def)
  have "sn_endpoints (co_snap (start_coordinator ws b file)) = [] \<and> sn_links (co_snap (start_coordinator ws b file)) = [] \<and>
      sn_reservations (co_snap (start_coordinator ws b file)) = [] \<and>
      sn_resourceCapacities (co_snap (start_coordinator ws b file)) = []"
    by (simp add: start_coordinator_def loadStoreIfAny_def new_coordinator_def initial_snapshot_def
        default_EvidenceSnapshot_def Let_def load split: option.split sum.split)
  then show ?thesis by (simp add: evidence_inv_def evidence_wf_def)
qed

lemma coordinator_step_evidence:
  assumes "coordinator_step y out y'" and "coordinator_inv (sy_co y)" and "evidence_inv (sy_co y)"
  shows "evidence_inv (sy_co y')"
  using assms
proof (induction rule: coordinator_step.induct)
  case (connect s y out st')
  then have "evidence_of st' = evidence_of (sy_co y)" by (auto simp: accept_connection_def)
  from evidence_frame [OF connect(3) this] show ?case by simp
next
  case (message f s y out st')
  then show ?case by (auto simp: receive_frame_def split: sum.splits intro: handleMessage_evidence)
next
  case (refuse_commit payload m s y out st')
  then have "evidence_of st' = evidence_of (sy_co y)" using phases_keep_evidence(1) [of s m "sy_co y"] by simp
  from evidence_frame [OF refuse_commit(4) this] show ?case by simp
next
  case (begin_commit payload m s y out c st')
  then have "evidence_of st' = evidence_of (sy_co y)" using phases_keep_evidence(1) [of s m "sy_co y"] by simp
  from evidence_frame [OF begin_commit(4) this] show ?case by simp
next
  case (acquire_commit y xs c zs err st')
  then have "evidence_of st' = evidence_of (sy_co y)" using phases_keep_evidence(2) [of c "sy_co y"] by simp
  from evidence_frame [OF acquire_commit(4) this] show ?case by simp
next
  case (finish_commit y xs c err zs out st')
  then have "evidence_of st' = evidence_of (sy_co y)" using phases_keep_evidence(3) [of c err "sy_co y"] by simp
  from evidence_frame [OF finish_commit(4) this] show ?case by simp
next
  case (hangup y s)
  have "evidence_inv (disconnect s (sy_co y))"
    by (rule evidence_frame [OF fence_connection_evidence [OF hangup(2), of s]])
      (simp add: disconnect_def end_connection_def)
  then show ?case by simp
next
  case (stopped y)
  from evidence_frame [OF stopped(2), of "stop (sy_co y)"] show ?case by (simp add: stop_def)
next
  case (drained y s)
  from evidence_frame [OF drained(3), of "end_connection s (sy_co y)"] show ?case by (simp add: end_connection_def)
qed simp

lemma reachable_evidence: "reachable_system y \<Longrightarrow> evidence_inv (sy_co y)"
  by (induction rule: reachable_system.induct)
    (auto simp: start_evidence intro: coordinator_step_evidence reachable_inv)

end
