(* ===== verification/Evidence_Theorems.thy ===== *)
theory Evidence_Theorems
  imports Evidence_Invariants Coordinator_Theorems
begin

text \<open>
  The theorems about evidence: it is well-formed in every reachable state, what a lost worker published
  is never used again, and news about congestion or capacity sends every earlier plan back to
  revalidation.
\<close>

section \<open>Evidence of a lost worker\<close>

lemma distinct_endpointMap:
  assumes "distinct (map ep_id (sn_endpoints s))" and "e \<in> set (sn_endpoints s)"
  shows "map_find (endpointMap s) (ep_id e) = Some e"
proof (cases "map_find (endpointMap s) (ep_id e)")
  case None
  then show ?thesis using assms(2) by (auto simp: endpointMap_None_iff)
next
  case (Some e')
  then have "ep_id e' = ep_id e" "e' \<in> set (sn_endpoints s)" using endpointMap_SomeD by blast+
  with assms have "e' = e" by (auto simp: distinct_map dest: inj_onD)
  with Some show ?thesis by simp
qed

text \<open>An endpoint whose boot is not the live boot of its worker is not live.\<close>

lemma stale_endpoint_dead:
  assumes "coordinator_inv st" and "evidence_inv st" and "e \<in> set (sn_endpoints (co_snap st))"
    and "live_boot st (ep_worker e) \<noteq> Some (ep_workerBoot e)"
  shows "\<not> endpoint_live (co_snap st) (ep_id e)" and "\<not> endpoint_current (co_snap st) (ep_id e, g)"
proof -
  have find: "map_find (endpointMap (co_snap st)) (ep_id e) = Some e"
    using assms(2,3) by (intro distinct_endpointMap) (simp_all add: evidence_inv_def evidence_wf_def)
  have "ep_workerBoot e \<noteq> 0" using assms(2,3) by (simp add: evidence_inv_def evidence_wf_def)
  moreover have "map_find (sn_workerBoots (co_snap st)) = live_boot st"
    using assms(1) by (simp add: coordinator_inv_def registry_inv_def)
  ultimately have "\<not> endpointFresh e (co_snap st)" using assms(4) by (simp add: endpointFresh_def isNull_def)
  then show "\<not> endpoint_live (co_snap st) (ep_id e)" "\<not> endpoint_current (co_snap st) (ep_id e, g)"
    by (simp_all add: endpoint_live_def endpoint_current_def find)
qed

definition endpoints_used :: "CommunicationPlan \<Rightarrow> EndpointId set" where
  "endpoints_used p = st_source ` set (plan_stages p) \<union> st_destination ` set (plan_stages p)"

lemma revalidation_refused:
  assumes "map_find (co_plans st) (ms_planId m) = Some r" and "\<not> rv_ok (revalidatePlan (pr_plan r) (co_snap st))"
  shows "handle_revalidate s m st =
      (send_result s False (ms_planId m), set_plan_state (ms_planId m) PlanState.REVALIDATION_REQUIRED st)"
    and "handle_handoff s m st =
      (send_result s False (ms_planId m), set_plan_state (ms_planId m) PlanState.REVALIDATION_REQUIRED st)"
  using assms by (simp_all add: handle_revalidate_def handle_handoff_def)

text \<open>A worker that publishes an endpoint and is lost.\<close>

definition sample_publish :: Message where
  "sample_publish = default_Message\<lparr>ms_type := PUBLISH_ENDPOINT, ms_worker := 7, ms_boot := 9,
     ms_endpoint := default_Endpoint\<lparr>ep_id := 4\<rparr>\<rparr>"

definition sample_published :: System where
  "sample_published = \<lparr>sy_co = snd (handle_publish_endpoint 1 (wire_message sample_publish) sample_registered), sy_pending = []\<rparr>"

definition sample_lost :: System where
  "sample_lost = sample_published\<lparr>sy_co := disconnect 1 (sy_co sample_published)\<rparr>"

lemma sample_published_endpoint:
  "\<exists>e. sn_endpoints (co_snap (sy_co sample_published)) = [e] \<and> ep_id e = 4 \<and> ep_worker e = 7 \<and> ep_workerBoot e = 9 \<and>
     map_find (co_workers (sy_co sample_published)) 7 \<noteq> None \<and> map_find (co_socketToWorker (sy_co sample_published)) 1 = Some 7 \<and>
     live_boot (sy_co sample_published) 7 = Some 9"
  by (simp add: sample_published_def sample_publish_def wire_message_def wire_endpoint_def default_Message_def
      handle_publish_endpoint_def publisher_def sample_registered_def handle_register_def start_empty
      new_coordinator_def initial_snapshot_def default_EvidenceSnapshot_def sample_register_def isNull_def
      map_find_def publishEndpoint_def live_boot_def Let_def)

lemma sample_published_reachable: "reachable_system sample_published"
proof -
  have ok: "message_ok sample_publish"
    by (simp add: message_ok_def sample_publish_def endpoint_ok_def default_Endpoint_def default_Capability_def
        str_ok_def set_ok_def kMaxCount_def default_TopologyLocation_def)
  have "handleMessage 1 (wire_message sample_publish) sample_registered =
      Inr (fst (handle_publish_endpoint 1 (wire_message sample_publish) sample_registered), sy_co sample_published)"
    by (simp add: handleMessage_def sample_published_def) (simp add: wire_message_def sample_publish_def)
  moreover have "ms_type sample_publish \<noteq> COMMIT_REQUEST" by (simp add: sample_publish_def)
  ultimately show ?thesis
    using sent_message_reachable [OF sample_registered_reachable ok, of 1]
    by (cases "handle_publish_endpoint 1 (wire_message sample_publish) sample_registered")
      (simp add: sample_published_def)
qed

lemma sample_lost_endpoint:
  "\<exists>e. sn_endpoints (co_snap (sy_co sample_lost)) = [e] \<and> ep_id e = 4 \<and>
     (ep_worker e, ep_workerBoot e) \<in> set (co_fenced (sy_co sample_lost))"
proof -
  obtain e i where "sn_endpoints (co_snap (sy_co sample_published)) = [e]" "ep_id e = 4" "ep_worker e = 7" "ep_workerBoot e = 9"
    "map_find (co_workers (sy_co sample_published)) 7 = Some i" "map_find (co_socketToWorker (sy_co sample_published)) 1 = Some 7"
    "wi_boot i = 9"
    using sample_published_endpoint by (auto simp: live_boot_def split: if_splits)
  then show ?thesis by (simp add: sample_lost_def disconnect_defs fenceWorker_def unready_endpoints_def Let_def)
qed

text \<open>C17: what a lost worker published is useless for good. Once its boot is fenced, and whatever happens
  afterwards, no plan that is made uses an endpoint published under that boot, and a plan bound to
  such an endpoint is refused at revalidation and at handoff, without an order to execute.\<close>

theorem fenced_evidence_unusable:
  assumes "reachable_system y" and "(ep_worker e, ep_workerBoot e) \<in> set (co_fenced (sy_co y))"
    and "system_moves\<^sup>*\<^sup>* y y'" and "e \<in> set (sn_endpoints (co_snap (sy_co y')))"
  shows "(\<forall>r ws b ct out ct' p. planCommunication r (co_snap (sy_co y')) ws b ct = (Inr out, ct') \<and>
        po_success out \<and> po_plan out = Some p \<longrightarrow> ep_id e \<notin> endpoints_used p) \<and>
    (\<forall>s m r. map_find (co_plans (sy_co y')) (ms_planId m) = Some r \<and>
        ep_id e \<in> fst ` set (pl_endpointGenerations (pr_plan r)) \<longrightarrow>
      handle_revalidate s m (sy_co y') =
        (send_result s False (ms_planId m), set_plan_state (ms_planId m) PlanState.REVALIDATION_REQUIRED (sy_co y')) \<and>
      handle_handoff s m (sy_co y') =
        (send_result s False (ms_planId m), set_plan_state (ms_planId m) PlanState.REVALIDATION_REQUIRED (sy_co y')))"
proof -
  let ?st = "sy_co y'"
  have "reachable_system y'"
    using assms(3,1) by (induction rule: rtranclp_induct) (auto simp: system_moves_def intro: reachable_system.stepped)
  then have inv: "coordinator_inv ?st" "evidence_inv ?st" by (simp_all add: reachable_inv reachable_evidence)
  have "live_boot ?st (ep_worker e) \<noteq> Some (ep_workerBoot e)"
    using worker_authority.never_live_again [OF assms(3) reachable_inv [OF assms(1)] assms(2)] by simp
  note dead = stale_endpoint_dead [OF inv assms(4) this]
  have "ep_id e \<notin> endpoints_used p"
    if "planCommunication r (co_snap ?st) ws b ct = (Inr out, ct')" "po_success out" "po_plan out = Some p"
    for r ws b ct out ct' p
    using planned_live [OF that] dead(1) by (auto simp: endpoints_used_def stage_live_def)
  moreover have "\<not> rv_ok (revalidatePlan p (co_snap ?st))" if "ep_id e \<in> fst ` set (pl_endpointGenerations p)" for p
    using that dead(2) by (force simp: revalidatePlan_iff plan_current_def)
  ultimately show ?thesis using revalidation_refused by blast
qed

theorem fenced_evidence_unusable_witness:
  "reachable_system sample_lost \<and> (\<exists>e. e \<in> set (sn_endpoints (co_snap (sy_co sample_lost))) \<and> ep_id e = 4) \<and>
   (\<nexists>r ws b ct out ct' p. planCommunication r (co_snap (sy_co sample_lost)) ws b ct = (Inr out, ct') \<and>
      po_success out \<and> po_plan out = Some p \<and> 4 \<in> endpoints_used p)"
proof -
  have y: "reachable_system sample_lost"
    unfolding sample_lost_def by (rule hangup_reachable [OF sample_published_reachable])
  obtain e where e: "e \<in> set (sn_endpoints (co_snap (sy_co sample_lost)))" "ep_id e = 4"
    "(ep_worker e, ep_workerBoot e) \<in> set (co_fenced (sy_co sample_lost))"
    using sample_lost_endpoint by auto
  from fenced_evidence_unusable [OF y e(3) rtranclp.rtrancl_refl e(1), THEN conjunct1, unfolded e(2)]
  have "\<forall>r ws b ct out ct' p. planCommunication r (co_snap (sy_co sample_lost)) ws b ct = (Inr out, ct') \<and>
      po_success out \<and> po_plan out = Some p \<longrightarrow> 4 \<notin> endpoints_used p" .
  with y e(1,2) show ?thesis by blast
qed

section \<open>News\<close>

text \<open>news is not ignored. After congestion or capacity of any link is published, every plan made
  from the evidence before, whatever its route, is refused at revalidation.\<close>

lemma news_invalidates_plans:
  assumes "planCommunication r (co_snap st) ws b ct = (Inr out, ct')" and "po_success out" and "po_plan out = Some p"
    and "sn_congestionGeneration (co_snap st) \<noteq> 0" and "sn_capacityGeneration (co_snap st) \<noteq> 0"
    and "isNull (ms_worker m) \<or> publisher m st \<noteq> None"
  shows "\<not> rv_ok (revalidatePlan p (co_snap (snd (handle_publish_congestion s m st)))) \<and>
    \<not> rv_ok (revalidatePlan p (co_snap (snd (handle_publish_capacity s m st))))"
proof -
  have bound: "pl_congestionGeneration p = sn_congestionGeneration (co_snap st)"
    "pl_capacityGeneration p = sn_capacityGeneration (co_snap st)"
    using planned_live [OF assms(1-3)] by (simp_all add: plan_bound_def)
  have "sn_congestionGeneration (co_snap (snd (handle_publish_congestion s m st))) = sn_congestionGeneration (co_snap st) + 1"
    "sn_capacityGeneration (co_snap (snd (handle_publish_capacity s m st))) = sn_capacityGeneration (co_snap st) + 1"
    using assms(6) by (auto simp: handle_publish_congestion_def handle_publish_capacity_def gen_next_def)
  then show ?thesis
    using assms(4,5) by (simp add: revalidatePlan_iff plan_current_def bound isNull_def)
qed

section \<open>The snapshot\<close>

text \<open>C25: in every reachable state the snapshot is well-formed: one endpoint per endpoint identity and one
  link per link identity, each endpoint under a known worker and a boot; so the order in which the
  evidence arrived makes no difference to planning.\<close>

theorem reachable_evidence_well_formed:
  assumes "reachable_system y"
  shows "evidence_wf (known_worker (sy_co y)) (co_snap (sy_co y)) \<and>
    (\<forall>es ls r ws b ct. mset es = mset (sn_endpoints (co_snap (sy_co y))) \<and> mset ls = mset (sn_links (co_snap (sy_co y))) \<longrightarrow>
      planCommunication r ((co_snap (sy_co y))\<lparr>sn_endpoints := es, sn_links := ls\<rparr>) ws b ct =
      planCommunication r (co_snap (sy_co y)) ws b ct)"
proof -
  have wf: "evidence_wf (known_worker (sy_co y)) (co_snap (sy_co y))"
    using reachable_evidence [OF assms] by (simp add: evidence_inv_def)
  then have "distinct (map ep_id (sn_endpoints (co_snap (sy_co y))))" "distinct (map ln_id (sn_links (co_snap (sy_co y))))"
    by (simp_all add: evidence_wf_def)
  then show ?thesis using wf agrees_planner evidence_agrees_perm by blast
qed

theorem reachable_evidence_well_formed_witness:
  "reachable_system sample_published \<and> sn_endpoints (co_snap (sy_co sample_published)) \<noteq> [] \<and>
   evidence_wf (known_worker (sy_co sample_published)) (co_snap (sy_co sample_published))"
  using reachable_evidence_well_formed [OF sample_published_reachable] sample_published_reachable
    sample_published_endpoint by auto

text \<open>Nothing ever enters the staging capacities of the snapshot, so that a staged plan never revalidates.\<close>

lemma staged_plans_never_revalidate:
  assumes "reachable_system y" and "pl_requiredStagingResources p \<noteq> []"
  shows "\<not> rv_ok (revalidatePlan p (co_snap (sy_co y)))"
proof -
  have "sn_resourceCapacities (co_snap (sy_co y)) = []"
    using reachable_evidence [OF assms(1)] by (simp add: evidence_inv_def evidence_wf_def)
  moreover obtain rid where "rid \<in> set (pl_requiredStagingResources p)" using assms(2) by (meson last_in_set)
  ultimately show ?thesis by (auto simp: revalidatePlan_iff plan_current_def resource_committed_def)
qed

text \<open>A result settles a plan and leaves its claims with the broker.\<close>

lemma results_keep_claims: "co_broker (snd (handle_execution_result s m st)) = co_broker st"
  by (simp add: handle_execution_result_def split: option.split)

end
