(* ===== verification/Sockets.thy ===== *)
theory Sockets
  imports Coordinator_Client
begin

text \<open>
  The sockets of \<open>src/transport/tcp.hpp\<close>: connecting, listening, accepting and closing, with the
  connection of the \<open>CoordinatorClient\<close>, the start of the \<open>CoordinatorServer\<close> and the two helpers of
  \<open>apps/proof_main.cpp\<close> on top of them. The calls of the operating system are parameters over its
  state, collected in a record; \<open>INVALID_SOCKET\<close> is their failure.
\<close>

section \<open>The calls of the operating system\<close>

record AddrInfo =
  ai_family :: int
  ai_socktype :: int
  ai_protocol :: int
  ai_addr :: bytes

record SockAddrIn =
  sin_family :: int
  sin_addr :: u32
  sin_port :: u16

record 'o Winsock =
  os_startup :: "'o \<Rightarrow> bool \<times> 'o"
  os_cleanup :: "'o \<Rightarrow> 'o"
  os_getaddrinfo :: "string \<Rightarrow> string \<Rightarrow> 'o \<Rightarrow> AddrInfo list option \<times> 'o"
  os_socket :: "int \<Rightarrow> int \<Rightarrow> int \<Rightarrow> 'o \<Rightarrow> SOCKET \<times> 'o"
  os_connect :: "SOCKET \<Rightarrow> bytes \<Rightarrow> 'o \<Rightarrow> bool \<times> 'o"
  os_reuse :: "SOCKET \<Rightarrow> 'o \<Rightarrow> 'o"
  os_bind :: "SOCKET \<Rightarrow> SockAddrIn \<Rightarrow> 'o \<Rightarrow> bool \<times> 'o"
  os_listen :: "SOCKET \<Rightarrow> nat \<Rightarrow> 'o \<Rightarrow> bool \<times> 'o"
  os_accept :: "SOCKET \<Rightarrow> 'o \<Rightarrow> SOCKET \<times> 'o"
  os_getsockname :: "SOCKET \<Rightarrow> 'o \<Rightarrow> SockAddrIn option"
  os_closesocket :: "SOCKET \<Rightarrow> 'o \<Rightarrow> 'o"
  os_error :: "'o \<Rightarrow> string"

definition AF_INET :: int where
  "AF_INET = 2"

definition SOCK_STREAM :: int where
  "SOCK_STREAM = 1"

definition IPPROTO_TCP :: int where
  "IPPROTO_TCP = 6"

definition INADDR_LOOPBACK :: u32 where
  "INADDR_LOOPBACK = 0x7F000001"

text \<open>Network byte order, on a little-endian machine.\<close>

definition htons :: "u16 \<Rightarrow> u16" where
  "htons v = push_bit 8 v OR drop_bit 8 v"

definition htonl :: "u32 \<Rightarrow> u32" where
  "htonl v = push_bit 24 v OR (push_bit 8 v AND 0xFF0000) OR (drop_bit 8 v AND 0xFF00) OR drop_bit 24 v"

lemma htons_twice: "htons (htons v) = v"
  by (rule bit_word_eqI) (auto simp: htons_def bit_simps)

text \<open>\<open>lastErrorHint\<close> stores the text of the last error.\<close>

definition lastErrorHint :: "'o Winsock \<Rightarrow> 'o \<Rightarrow> string" where
  "lastErrorHint w os = os_error w os"

definition libraryInit :: "'o Winsock \<Rightarrow> 'o \<Rightarrow> bool \<times> 'o" where
  "libraryInit w os = os_startup w os"

definition libraryCleanup :: "'o Winsock \<Rightarrow> 'o \<Rightarrow> 'o" where
  "libraryCleanup w os = os_cleanup w os"

definition closeSock :: "'o Winsock \<Rightarrow> SOCKET \<Rightarrow> 'o \<Rightarrow> SOCKET \<times> 'o" where
  "closeSock w s os = (if s \<noteq> INVALID_SOCKET then (INVALID_SOCKET, os_closesocket w s os) else (s, os))"

section \<open>Connecting\<close>

text \<open>The loop over the addresses, with the socket of the last attempt.\<close>

fun try_addresses :: "'o Winsock \<Rightarrow> AddrInfo list \<Rightarrow> SOCKET \<Rightarrow> 'o \<Rightarrow> SOCKET \<times> 'o" where
  "try_addresses w [] s os = (s, os)"
| "try_addresses w (p # ps) s os =
     (case os_socket w (ai_family p) (ai_socktype p) (ai_protocol p) os of
        (s1, os1) \<Rightarrow>
          if s1 = INVALID_SOCKET then try_addresses w ps s1 os1
          else
            (case os_connect w s1 (ai_addr p) os1 of
               (True, os2) \<Rightarrow> (s1, os2)
             | (False, os2) \<Rightarrow> try_addresses w ps INVALID_SOCKET (os_closesocket w s1 os2)))"

definition connectTo :: "'o Winsock \<Rightarrow> string \<Rightarrow> u16 \<Rightarrow> string \<Rightarrow> 'o \<Rightarrow> SOCKET \<times> string \<times> 'o" where
  "connectTo w host port err os =
     (case os_getaddrinfo w host (nat_str (unat port)) os of
        (None, os1) \<Rightarrow> (INVALID_SOCKET, ''getaddrinfo failed'', os1)
      | (Some res, os1) \<Rightarrow>
          (case try_addresses w res INVALID_SOCKET os1 of
             (s, os2) \<Rightarrow> (s, if s = INVALID_SOCKET then lastErrorHint w os2 else err, os2)))"

section \<open>Listening\<close>

record Listener =
  li_sock :: SOCKET

definition new_Listener :: Listener where
  "new_Listener = \<lparr>li_sock = INVALID_SOCKET\<rparr>"

definition listener_valid :: "Listener \<Rightarrow> bool" where
  "listener_valid l \<longleftrightarrow> li_sock l \<noteq> INVALID_SOCKET"

definition listener_drop :: "'o Winsock \<Rightarrow> SOCKET \<Rightarrow> 'o \<Rightarrow> bool \<times> string \<times> Listener \<times> 'o" where
  "listener_drop w s os = (False, lastErrorHint w os, \<lparr>li_sock = INVALID_SOCKET\<rparr>, os_closesocket w s os)"

definition listenOn :: "'o Winsock \<Rightarrow> u16 \<Rightarrow> string \<Rightarrow> Listener \<Rightarrow> 'o \<Rightarrow> bool \<times> string \<times> Listener \<times> 'o" where
  "listenOn w port err l os =
     (case os_socket w AF_INET SOCK_STREAM IPPROTO_TCP os of
        (s, os1) \<Rightarrow>
          if s = INVALID_SOCKET then (False, lastErrorHint w os1, l\<lparr>li_sock := s\<rparr>, os1)
          else
            (case os_bind w s \<lparr>sin_family = AF_INET, sin_addr = htonl INADDR_LOOPBACK, sin_port = htons port\<rparr>
                    (os_reuse w s os1) of
               (False, os2) \<Rightarrow> listener_drop w s os2
             | (True, os2) \<Rightarrow>
                 (case os_listen w s 16 os2 of
                    (False, os3) \<Rightarrow> listener_drop w s os3
                  | (True, os3) \<Rightarrow> (True, err, l\<lparr>li_sock := s\<rparr>, os3))))"

definition listener_port :: "'o Winsock \<Rightarrow> Listener \<Rightarrow> 'o \<Rightarrow> u16" where
  "listener_port w l os = (case os_getsockname w (li_sock l) os of None \<Rightarrow> 0 | Some a \<Rightarrow> htons (sin_port a))"

definition listener_accept :: "'o Winsock \<Rightarrow> Listener \<Rightarrow> string \<Rightarrow> 'o \<Rightarrow> SOCKET \<times> string \<times> 'o" where
  "listener_accept w l err os =
     (case os_accept w (li_sock l) os of
        (s, os1) \<Rightarrow> (s, if s = INVALID_SOCKET then lastErrorHint w os1 else err, os1))"

definition listener_close :: "'o Winsock \<Rightarrow> Listener \<Rightarrow> 'o \<Rightarrow> Listener \<times> 'o" where
  "listener_close w l os =
     (if li_sock l \<noteq> INVALID_SOCKET then (l\<lparr>li_sock := INVALID_SOCKET\<rparr>, os_closesocket w (li_sock l) os)
      else (l, os))"

section \<open>The server's and the client's use\<close>

text \<open>\<open>CoordinatorServer::start\<close> up to the start of the accepting thread, and \<open>boundPort\<close>.\<close>

definition server_start ::
  "'o Winsock \<Rightarrow> u16 \<Rightarrow> string \<Rightarrow> Listener \<Rightarrow> Coordinator \<Rightarrow> 'o \<Rightarrow> bool \<times> string \<times> Listener \<times> Coordinator \<times> 'o" where
  "server_start w port err l st os =
     (case libraryInit w os of
        (_, os1) \<Rightarrow>
          (case listenOn w port err l os1 of
             (ok, err', l', os2) \<Rightarrow> (ok, err', l', loadStoreIfAny st, os2)))"

definition boundPort :: "'o Winsock \<Rightarrow> Listener \<Rightarrow> 'o \<Rightarrow> u16" where
  "boundPort w l os = listener_port w l os"

text \<open>
  \<open>CoordinatorClient::disconnect\<close> and \<open>connect\<close>, the second with the greeting. A client that is still
  connected is replaced as it is: its \<open>Impl\<close> is deleted, which closes nothing.
\<close>

definition client_close :: "'o Winsock \<Rightarrow> Client option \<Rightarrow> 'o \<Rightarrow> Client option \<times> 'o" where
  "client_close w impl os =
     (client_disconnect impl,
      case impl of
        Some c \<Rightarrow> if cl_connected c then snd (closeSock w (cl_sock c) os) else os
      | None \<Rightarrow> os)"

definition client_open ::
  "'o Winsock \<Rightarrow> (SOCKET \<Rightarrow> 'o receiver) \<Rightarrow> string \<Rightarrow> u16 \<Rightarrow> string \<Rightarrow> Client option \<Rightarrow> 'o \<Rightarrow>
     bool \<times> string \<times> Client option \<times> 'o" where
  "client_open w get host port err impl os =
     (case connectTo w host port err (snd (libraryInit w os)) of
        (s, err1, os1) \<Rightarrow>
          if s = INVALID_SOCKET then (False, err1, Some \<lparr>cl_sock = s, cl_connected = False\<rparr>, os1)
          else
            (case recvFrame (get s) os1 of
               (Inl e, os2) \<Rightarrow>
                 (case client_close w (Some \<lparr>cl_sock = s, cl_connected = True\<rparr>) os2 of
                    (impl', os3) \<Rightarrow> (False, e, impl', os3))
             | (Inr f, os2) \<Rightarrow> (True, err1, Some \<lparr>cl_sock = s, cl_connected = True\<rparr>, os2)))"

text \<open>\<open>waitConnect\<close>: at most \<open>tries\<close> attempts; \<open>nap\<close> is what happens while the thread sleeps.\<close>

fun waitConnect ::
  "'o Winsock \<Rightarrow> (SOCKET \<Rightarrow> 'o receiver) \<Rightarrow> ('o \<Rightarrow> 'o) \<Rightarrow> u16 \<Rightarrow> nat \<Rightarrow> Client option \<Rightarrow> 'o \<Rightarrow>
     bool \<times> Client option \<times> 'o" where
  "waitConnect w get nap port 0 c os = (False, c, os)"
| "waitConnect w get nap port (Suc n) c os =
     (case client_open w get ''127.0.0.1'' port [] c os of
        (True, _, c1, os1) \<Rightarrow> (True, c1, os1)
      | (False, _, c1, os1) \<Rightarrow>
          (case client_close w c1 os1 of (c2, os2) \<Rightarrow> waitConnect w get nap port n c2 (nap os2)))"

text \<open>\<open>freePort\<close>: a port the system considers free.\<close>

definition freePort :: "'o Winsock \<Rightarrow> 'o \<Rightarrow> u16 \<times> 'o" where
  "freePort w os =
     (case os_socket w AF_INET SOCK_STREAM IPPROTO_TCP (snd (os_startup w os)) of
        (s, os1) \<Rightarrow>
          if s = INVALID_SOCKET then (0, os1)
          else
            (case os_bind w s \<lparr>sin_family = AF_INET, sin_addr = htonl INADDR_LOOPBACK, sin_port = htons 0\<rparr> os1 of
               (False, os2) \<Rightarrow> (0, os_closesocket w s os2)
             | (True, os2) \<Rightarrow>
                 (case os_getsockname w s os2 of None \<Rightarrow> 0 | Some b \<Rightarrow> htons (sin_port b),
                  os_cleanup w (os_closesocket w s os2))))"

section \<open>The sockets in use\<close>

text \<open>
  What the calls do to the set \<open>opn\<close> of sockets this process holds: \<open>socket\<close> and \<open>accept\<close> add a fresh one
  or fail, \<open>closesocket\<close> removes one, everything else leaves the set alone.
\<close>

definition socket_opened :: "('o \<Rightarrow> SOCKET set) \<Rightarrow> 'o \<Rightarrow> SOCKET \<times> 'o \<Rightarrow> bool" where
  "socket_opened opn os r \<longleftrightarrow>
     (if fst r = INVALID_SOCKET then opn (snd r) = opn os
      else fst r \<notin> opn os \<and> opn (snd r) = insert (fst r) (opn os))"

definition socket_laws :: "('o \<Rightarrow> SOCKET set) \<Rightarrow> 'o Winsock \<Rightarrow> (SOCKET \<Rightarrow> 'o receiver) \<Rightarrow> bool" where
  "socket_laws opn w get \<longleftrightarrow>
     (\<forall>f t p os. socket_opened opn os (os_socket w f t p os)) \<and>
     (\<forall>l os. socket_opened opn os (os_accept w l os)) \<and>
     (\<forall>s os. opn (os_closesocket w s os) = opn os - {s}) \<and>
     (\<forall>os. opn (snd (os_startup w os)) = opn os) \<and> (\<forall>os. opn (os_cleanup w os) = opn os) \<and>
     (\<forall>h p os. opn (snd (os_getaddrinfo w h p os)) = opn os) \<and>
     (\<forall>s a os. opn (snd (os_connect w s a os)) = opn os) \<and> (\<forall>s os. opn (os_reuse w s os) = opn os) \<and>
     (\<forall>s a os. opn (snd (os_bind w s a os)) = opn os) \<and> (\<forall>s n os. opn (snd (os_listen w s n os)) = opn os) \<and>
     (\<forall>s n os. opn (snd (get s n os)) = opn os)"

lemma socket_lawsD:
  assumes "socket_laws opn w get"
  shows "socket_opened opn os (os_socket w f t p os)" "socket_opened opn os (os_accept w l os)"
    and "opn (os_closesocket w s os) = opn os - {s}" "opn (snd (os_startup w os)) = opn os"
    and "opn (os_cleanup w os) = opn os" "opn (snd (os_getaddrinfo w h q os)) = opn os"
    and "opn (snd (os_connect w s a os)) = opn os" "opn (os_reuse w s os) = opn os"
    and "opn (snd (os_bind w s b os)) = opn os" "opn (snd (os_listen w s n os)) = opn os"
    and "opn (snd (get s n os)) = opn os"
  using assms unfolding socket_laws_def by simp_all

lemma opened_closed:
  assumes "socket_laws opn w get" and "socket_opened opn os (s, os')"
  shows "opn (snd (closeSock w s os')) = opn os"
  using assms(2) by (auto simp: closeSock_def socket_opened_def socket_lawsD [OF assms(1)] split: if_splits)

lemma readExact_opn:
  assumes "\<And>n os. opn (snd (get n os)) = opn os"
  shows "opn (snd (readExact get n os)) = opn os"
proof (induction n arbitrary: os rule: less_induct)
  case (less n)
  obtain r os1 where g: "get n os = (r, os1)" "opn os1 = opn os" using assms [of n os] by (cases "get n os") auto
  have rec: "opn os2 = opn os" if "readExact get (n - length c) os1 = (x, os2)" "c \<noteq> []" "n \<noteq> 0"
    for c :: bytes and x os2
    using less.IH [of "n - length c" os1] that g(2) by simp
  show ?case
    using g by (subst readExact.simps) (auto intro: rec split: prod.split option.split)
qed

lemma recvFrame_opn:
  assumes "\<And>n os. opn (snd (get n os)) = opn os"
  shows "opn (snd (recvFrame get os)) = opn os"
proof -
  have "opn os' = opn os" if "readExact get n os = (x, os')" for n x os os'
    using readExact_opn [of opn get n os] assms that by simp
  then show ?thesis
    unfolding recvFrame_def Let_def by (auto split: prod.split option.split)
qed

lemma socket_opened_from: "socket_opened opn os1 r \<Longrightarrow> opn os1 = opn os \<Longrightarrow> socket_opened opn os r"
  by (auto simp: socket_opened_def split: if_splits)

lemma try_addresses_opened:
  assumes "socket_laws opn w get"
  shows "socket_opened opn os (try_addresses w ps INVALID_SOCKET os)"
proof (induction ps arbitrary: os)
  case Nil
  then show ?case by (simp add: socket_opened_def)
next
  case (Cons p ps)
  obtain s os1 where s: "os_socket w (ai_family p) (ai_socktype p) (ai_protocol p) os = (s, os1)" by force
  have opened: "socket_opened opn os (s, os1)"
    using socket_lawsD(1) [OF assms, of os "ai_family p" "ai_socktype p" "ai_protocol p"] s by simp
  show ?case
  proof (cases "s = INVALID_SOCKET")
    case True
    with opened have "opn os1 = opn os" by (simp add: socket_opened_def)
    with socket_opened_from [OF Cons.IH [of os1], of os] s True show ?thesis by simp
  next
    case False
    obtain ok os2 where c: "os_connect w s (ai_addr p) os1 = (ok, os2)" by force
    have "opn os2 = opn os1" using socket_lawsD(7) [OF assms, of s "ai_addr p" os1] c by simp
    then have "opn (os_closesocket w s os2) = opn os"
      using opened False by (simp add: socket_lawsD(3) [OF assms] socket_opened_def)
    from socket_opened_from [OF Cons.IH this] have "socket_opened opn os (try_addresses w ps INVALID_SOCKET (os_closesocket w s os2))" .
    with \<open>opn os2 = opn os1\<close> show ?thesis
      using opened False s c by (cases ok) (simp_all add: socket_opened_def)
  qed
qed

lemma connectTo_opened:
  assumes "socket_laws opn w get" and "connectTo w host port err os = (s, err', os')"
  shows "socket_opened opn os (s, os')"
proof -
  obtain res os1 where r: "os_getaddrinfo w host (nat_str (unat port)) os = (res, os1)" by force
  have "opn os1 = opn os" using socket_lawsD(6) [OF assms(1), of host "nat_str (unat port)" os] r by simp
  with socket_opened_from [OF try_addresses_opened [OF assms(1), of os1]]
  have tried: "socket_opened opn os (try_addresses w ps INVALID_SOCKET os1)" for ps by blast
  show ?thesis
  proof (cases res)
    case None
    then show ?thesis using assms(2) r \<open>opn os1 = opn os\<close> by (simp add: connectTo_def socket_opened_def)
  next
    case (Some ps)
    then show ?thesis using assms(2) r tried [of ps] by (auto simp: connectTo_def split: prod.splits)
  qed
qed

lemma listenOn_opened:
  assumes "socket_laws opn w get" and "listenOn w port err l os = (ok, err', l', os')"
  shows "ok = listener_valid l' \<and> socket_opened opn os (li_sock l', os')"
proof -
  obtain s os1 where s: "os_socket w AF_INET SOCK_STREAM IPPROTO_TCP os = (s, os1)" by force
  let ?a = "\<lparr>sin_family = AF_INET, sin_addr = htonl INADDR_LOOPBACK, sin_port = htons port\<rparr>"
  obtain b os2 where binds: "os_bind w s ?a (os_reuse w s os1) = (b, os2)" by force
  obtain c os3 where listens: "os_listen w s 16 os2 = (c, os3)" by force
  have opened: "socket_opened opn os (s, os1)"
    using socket_lawsD(1) [OF assms(1), of os AF_INET SOCK_STREAM IPPROTO_TCP] s by simp
  have "opn os2 = opn os1"
    using socket_lawsD(9) [OF assms(1), of s ?a "os_reuse w s os1"] binds by (simp add: socket_lawsD(8) [OF assms(1)])
  moreover from this have "opn os3 = opn os1" using socket_lawsD(10) [OF assms(1), of s 16 os2] listens by simp
  ultimately have dropped: "opn (os_closesocket w s os2) = opn os" "opn (os_closesocket w s os3) = opn os"
    and kept: "socket_opened opn os (s, os3)" if "s \<noteq> INVALID_SOCKET"
    using opened that by (simp_all add: socket_opened_def socket_lawsD(3) [OF assms(1)])
  show ?thesis
  proof (cases "s = INVALID_SOCKET")
    case True
    then show ?thesis using assms(2) s opened by (auto simp: listenOn_def listener_valid_def)
  next
    case False
    then show ?thesis
      using assms(2) s dropped kept
      by (cases b; cases c) (auto simp: listenOn_def listener_drop_def listener_valid_def binds listens
        socket_opened_def [of _ _ "(INVALID_SOCKET, _)"])
  qed
qed

text \<open>A client that holds no socket.\<close>

definition client_idle :: "Client option \<Rightarrow> bool" where
  "client_idle impl \<longleftrightarrow> (case impl of None \<Rightarrow> True | Some c \<Rightarrow> \<not> cl_connected c)"

lemma client_close_idle: "client_idle impl \<Longrightarrow> client_close w impl os = (impl, os)"
  by (cases impl) (simp_all add: client_close_def client_idle_def client_disconnect_def)

lemma client_close_leaves_idle: "client_idle (fst (client_close w impl os))"
  by (cases impl) (simp_all add: client_close_def client_idle_def client_disconnect_def)

lemma client_open_accounts:
  assumes "socket_laws opn w get" and "client_open w get host port err impl os = (ok, err', impl', os')"
  shows "opn (snd (client_close w impl' os')) = opn os \<and> (if ok then opn os' \<noteq> opn os else client_idle impl')"
proof -
  obtain s e1 os1 where c: "connectTo w host port err (snd (libraryInit w os)) = (s, e1, os1)"
    by (metis prod_cases3)
  have "socket_opened opn os (s, os1)"
    using connectTo_opened [OF assms(1) c] socket_lawsD(4) [OF assms(1), of os]
    by (auto simp: libraryInit_def intro: socket_opened_from)
  moreover obtain f os2 where f: "recvFrame (get s) os1 = (f, os2)" by force
  moreover have "opn os2 = opn os1"
    using recvFrame_opn [of opn "get s" os1] socket_lawsD(11) [OF assms(1)] f by simp
  ultimately show ?thesis
    using assms(2) c
    by (cases f) (auto simp: client_open_def client_close_def client_disconnect_def client_idle_def closeSock_def
        socket_opened_def socket_lawsD(3) [OF assms(1)] split: if_splits)
qed

lemma waitConnect_accounts:
  assumes "socket_laws opn w get" and "\<And>os. opn (nap os) = opn os"
  shows "client_idle c \<Longrightarrow> waitConnect w get nap port n c os = (ok, c', os') \<Longrightarrow>
    opn (snd (client_close w c' os')) = opn os \<and> (if ok then opn os' \<noteq> opn os else opn os' = opn os)"
proof (induction n arbitrary: c os)
  case 0
  then show ?case by (auto simp: client_close_idle)
next
  case (Suc n)
  obtain ok1 e1 c1 os1 where o: "client_open w get ''127.0.0.1'' port [] c os = (ok1, e1, c1, os1)"
    by (metis prod_cases4)
  note opened = client_open_accounts [OF assms(1) o]
  show ?case
  proof (cases ok1)
    case True
    then show ?thesis using Suc.prems(2) o opened by simp
  next
    case False
    obtain c2 os2 where c2: "client_close w c1 os1 = (c2, os2)" by force
    with client_close_leaves_idle [of w c1 os1] have "client_idle c2" by simp
    moreover have "waitConnect w get nap port n c2 (nap os2) = (ok, c', os')"
      using Suc.prems(2) o c2 False by simp
    moreover have "opn (nap os2) = opn os" using opened c2 assms(2) by simp
    ultimately show ?thesis using Suc.IH [of c2 "nap os2"] by (auto split: if_splits)
  qed
qed

lemma freePort_accounts:
  assumes "socket_laws opn w get"
  shows "opn (snd (freePort w os)) = opn os"
proof -
  obtain s os1 where s: "os_socket w AF_INET SOCK_STREAM IPPROTO_TCP (snd (os_startup w os)) = (s, os1)" by force
  let ?a = "\<lparr>sin_family = AF_INET, sin_addr = htonl INADDR_LOOPBACK, sin_port = htons 0\<rparr>"
  obtain b os2 where b: "os_bind w s ?a os1 = (b, os2)" by force
  have "socket_opened opn (snd (os_startup w os)) (s, os1)"
    using socket_lawsD(1) [OF assms, of "snd (os_startup w os)" AF_INET SOCK_STREAM IPPROTO_TCP] s by simp
  then have "socket_opened opn os (s, os1)"
    by (rule socket_opened_from) (rule socket_lawsD(4) [OF assms])
  moreover have "opn os2 = opn os1" using socket_lawsD(9) [OF assms, of s ?a os1] b by simp
  ultimately have "s \<noteq> INVALID_SOCKET \<Longrightarrow> opn (os_closesocket w s os2) = opn os" "s = INVALID_SOCKET \<Longrightarrow> opn os1 = opn os"
    by (simp_all add: socket_opened_def socket_lawsD(3) [OF assms])
  then show ?thesis using s b by (cases b) (simp_all add: freePort_def socket_lawsD(5) [OF assms])
qed

text \<open>A system that allows one socket, on which every connection succeeds and ends at once.\<close>

definition one_socket :: "bool Winsock" where
  "one_socket =
     \<lparr>os_startup = Pair True, os_cleanup = id, os_getaddrinfo = (\<lambda>_ _ os. (Some [\<lparr>ai_family = 2, ai_socktype = 1, ai_protocol = 6, ai_addr = []\<rparr>], os)),
      os_socket = (\<lambda>_ _ _ os. if os then (INVALID_SOCKET, os) else (1, True)), os_connect = (\<lambda>_ _ os. (True, os)),
      os_reuse = (\<lambda>_. id), os_bind = (\<lambda>_ _ os. (True, os)), os_listen = (\<lambda>_ _ os. (True, os)),
      os_accept = (\<lambda>_ os. (INVALID_SOCKET, os)), os_getsockname = (\<lambda>_ _. None),
      os_closesocket = (\<lambda>s os. os \<and> s \<noteq> 1), os_error = (\<lambda>_. [])\<rparr>"

lemma one_socket_laws: "socket_laws (\<lambda>os. if os then {1} else {}) one_socket (\<lambda>_ _ os. (None, os))"
  by (simp add: socket_laws_def one_socket_def socket_opened_def INVALID_SOCKET_def)

text \<open>C27: sockets are accounted for on every path. A failed \<open>connectTo\<close> or \<open>listenOn\<close> leaves the sockets of
  the process as they were, whatever attempts it made; a successful one adds exactly the socket it
  returns or keeps, and closing that restores the state before; however often \<open>waitConnect\<close> tries, it
  ends with nothing more open than the one connection it reports; \<open>freePort\<close> leaves nothing open.\<close>

theorem sockets_accounted:
  assumes "socket_laws opn w get" and "\<forall>os. opn (nap os) = opn os"
  shows "(case connectTo w host port err os of (s, _, os') \<Rightarrow>
      if s = INVALID_SOCKET then opn os' = opn os
      else s \<notin> opn os \<and> opn os' = insert s (opn os) \<and> opn (snd (closeSock w s os')) = opn os) \<and>
    (case listenOn w port err l os of (ok, _, l', os') \<Rightarrow>
      if ok then listener_valid l' \<and> opn os' = insert (li_sock l') (opn os) \<and>
        opn (snd (listener_close w l' os')) = opn os
      else \<not> listener_valid l' \<and> opn os' = opn os) \<and>
    (case waitConnect w get nap port n None os of (ok, c, os') \<Rightarrow>
      opn (snd (client_close w c os')) = opn os \<and> (\<not> ok \<longrightarrow> opn os' = opn os)) \<and>
    opn (snd (freePort w os)) = opn os"
proof -
  obtain s e os1 where c: "connectTo w host port err os = (s, e, os1)" by (metis prod_cases3)
  note connected = connectTo_opened [OF assms(1) c]
  note closed = opened_closed [OF assms(1) connected]
  obtain ok e l' os' where l: "listenOn w port err l os = (ok, e, l', os')" by (metis prod_cases4)
  note listening = listenOn_opened [OF assms(1) l]
  have stopped: "opn (snd (listener_close w l' os')) = opn os"
    using opened_closed [OF assms(1), of os "li_sock l'" os'] listening
    by (simp add: listener_close_def closeSock_def split: if_splits)
  obtain ok' i os2 where i: "waitConnect w get nap port n None os = (ok', i, os2)" by (metis prod_cases3)
  have "opn (snd (client_close w i os2)) = opn os \<and> (\<not> ok' \<longrightarrow> opn os2 = opn os)"
    using waitConnect_accounts [OF assms(1), of nap None port n os ok' i os2] assms(2) i
    by (auto simp: client_idle_def)
  with connected closed listening stopped freePort_accounts [OF assms(1)] show ?thesis
    by (auto simp: c l i socket_opened_def listener_valid_def)
qed

theorem sockets_accounted_witness:
  "connectTo one_socket ''127.0.0.1'' 80 [] False = (1, [], True) \<and>
   (let opn = (\<lambda>os. if os then {1} else {}) in
    socket_laws opn one_socket (\<lambda>_ _ os. (None, os)) \<and> opn (snd (closeSock one_socket 1 True)) = {} \<and>
    (case waitConnect one_socket (\<lambda>_ _ os. (None, os)) id 80 60 None False of (ok, c, os) \<Rightarrow>
      opn (snd (client_close one_socket c os)) = {}))"
proof -
  have c: "connectTo one_socket ''127.0.0.1'' 80 [] False = (1, [], True)"
    by (simp add: connectTo_def one_socket_def INVALID_SOCKET_def)
  then show ?thesis
    using one_socket_laws sockets_accounted [OF one_socket_laws, where nap = id and host = "''127.0.0.1''" and port = 80
        and err = "[]" and os = False and n = 60]
    by (auto simp: Let_def INVALID_SOCKET_def split: prod.splits)
qed

text \<open>A client that connects again without disconnecting keeps its first socket open for good: nothing
  refers to it any more.\<close>

lemma reconnect_keeps_old_socket:
  assumes "socket_laws opn w get" and "cl_connected c" and "cl_sock c \<in> opn os"
    and "client_open w get host port err (Some c) os = (ok, err', impl, os')"
  shows "cl_sock c \<in> opn (snd (client_close w impl os'))"
  using client_open_accounts [OF assms(1,4)] assms(3) by simp

end
