(* ===== verification/Network.thy ===== *)
theory Network
  imports Sockets
begin

text \<open>
  A coordinator and its clients on one network: what a connection promises to the client at its end, and
  a network of byte queues that keeps the promise, with the framing, the decoding and the handlers of
  the coordinator at the other end.
\<close>

section \<open>A connection to the coordinator\<close>

text \<open>
  A connection on socket \<open>k\<close>: in the states \<open>ok\<close>, a request the client sends reaches the coordinator, whose
  state is \<open>co\<close>, and the reply comes back; nobody else's message comes in between.
\<close>

definition attached :: "('s \<Rightarrow> bool) \<Rightarrow> ('s \<Rightarrow> Coordinator) \<Rightarrow> 's sender \<Rightarrow> 's receiver \<Rightarrow> SOCKET \<Rightarrow> bool" where
  "attached ok co put get k \<longleftrightarrow>
     (\<forall>c m s rf st'.
        ok s \<and> cl_connected c \<and> message_ok m \<and> length (encodeMessage m) + 25 \<le> kMaxFramePayload \<and>
        receive_frame k \<lparr>fr_type = ms_type m, fr_payload = encodeMessage m\<rparr> (co s) = Inr ([(k, rf)], st') \<and>
        receivable rf \<longrightarrow>
        (\<exists>s'. exchanged put get c m rf s s' \<and> co s' = st' \<and> ok s'))"

lemma attached_exchange:
  assumes "attached ok co put get k" and "ok s" and "cl_connected c" and "message_ok m"
    and "length (encodeMessage m) + 25 \<le> kMaxFramePayload"
    and "handleMessage k (wire_message m) (co s) = Inr ([(k, rf)], st')" and "receivable rf"
  obtains s' where "exchanged put get c m rf s s'" and "co s' = st'" and "ok s'"
  using assms unfolding attached_def by (metis request_received)

lemma attached_result:
  assumes "attached ok co put get k" and "ok s" and "cl_connected c" and "message_ok m"
    and "length (encodeMessage m) + 25 \<le> kMaxFramePayload"
    and "handleMessage k (wire_message m) (co s) = Inr (send_result k x i, st')"
  obtains s' where "client_call put get (Some c) m s =
      Some (Inr (default_Message\<lparr>ms_type := COMMIT_RESULT, ms_ok := x, ms_planId := i\<rparr>), s')"
    and "co s' = st'" and "ok s'"
proof -
  obtain rf where rf: "send_result k x i = [(k, rf)]" "receivable rf"
    by (simp add: send_result_def send_message_def receivable_def encodeMessage_def kMaxFramePayload_def)
  obtain s' where s': "exchanged put get c m rf s s'" "co s' = st'" "ok s'"
    using attached_exchange [OF assms(1-5) assms(6) [unfolded rf(1)] rf(2)] .
  from that [OF result_read [OF s'(1) rf(1)] s'(2,3)] show thesis .
qed

lemma attached_error:
  assumes "attached ok co put get k" and "ok s" and "cl_connected c" and "message_ok m"
    and "length (encodeMessage m) + 25 \<le> kMaxFramePayload"
    and "handleMessage k (wire_message m) (co s) = Inr (sendError k e, st')" and "length e \<le> 1000"
  obtains s' where "client_call put get (Some c) m s = Some (Inl e, s')" and "co s' = st'" and "ok s'"
proof -
  obtain rf where rf: "sendError k e = [(k, rf)]" "receivable rf"
    using assms(7) by (simp add: sendError_def send_message_def receivable_def encodeMessage_def kMaxFramePayload_def)
  have "str_ok e" using assms(7) by (simp add: str_ok_def kMaxCount_def)
  obtain s' where s': "exchanged put get c m rf s s'" "co s' = st'" "ok s'"
    using attached_exchange [OF assms(1-5) assms(6) [unfolded rf(1)] rf(2)] .
  from that [OF error_read [OF s'(1) rf(1) \<open>str_ok e\<close>] s'(2,3)] show thesis .
qed

section \<open>A network of byte queues\<close>

text \<open>For each socket the bytes on their way to the client and to the coordinator.\<close>

record Network =
  nw_co :: Coordinator
  nw_in :: "SOCKET \<Rightarrow> bytes"
  nw_out :: "SOCKET \<Rightarrow> bytes"

definition net_frame :: "Frame \<Rightarrow> bytes" where
  "net_frame f = (case encodeFrame f of Inl _ \<Rightarrow> [] | Inr bytes \<Rightarrow> w_u32 (of_nat (length bytes)) @ bytes)"

definition net_deliver :: "sent \<Rightarrow> (SOCKET \<Rightarrow> bytes) \<Rightarrow> SOCKET \<Rightarrow> bytes" where
  "net_deliver = fold (\<lambda>(s, f) q. q(s := q s @ net_frame f))"

text \<open>The thread of a connection takes a frame as soon as it is complete.\<close>

definition net_serve :: "SOCKET \<Rightarrow> Network \<Rightarrow> Network" where
  "net_serve k w =
     (case recvFrame line_recv ([], nw_out w k) of
        (Inl e, _) \<Rightarrow> w
      | (Inr f, rest) \<Rightarrow>
          (case receive_frame k f (nw_co w) of
             Inl ex \<Rightarrow> w
           | Inr (out, st') \<Rightarrow>
               w\<lparr>nw_co := st', nw_in := net_deliver out (nw_in w), nw_out := (nw_out w)(k := snd rest)\<rparr>))"

definition net_send :: "SOCKET \<Rightarrow> Network sender" where
  "net_send k b w = (Some (length b), net_serve k (w\<lparr>nw_out := (nw_out w)(k := nw_out w k @ b)\<rparr>))"

definition net_recv :: "SOCKET \<Rightarrow> Network receiver" where
  "net_recv k n w = (Some (take n (nw_in w k)), w\<lparr>nw_in := (nw_in w)(k := drop n (nw_in w k))\<rparr>)"

definition net_quiet :: "Network \<Rightarrow> bool" where
  "net_quiet w \<longleftrightarrow> (\<forall>k. nw_in w k = [] \<and> nw_out w k = [])"

lemma net_frame_stream:
  assumes "length (fr_payload f) \<le> kMaxFramePayload"
  shows "net_frame f = stream_frame f"
  using assms by (simp add: net_frame_def encodeFrame_def stream_frame_def)

lemma line_receives: "stream_receives snd line_recv"
  by (simp add: stream_receives_def line_recv_def)

lemma net_receives: "stream_receives (\<lambda>w. nw_in w k) (net_recv k)"
  by (simp add: stream_receives_def net_recv_def)

lemma length_pending: "length hdr = 4 \<Longrightarrow> \<exists>e w. recvFrame line_recv ([], hdr) = (Inl e, w)"
proof -
  assume "length hdr = 4"
  then have "readExact line_recv 4 ([], hdr) = (Some hdr, ([], []))"
    by (cases hdr) (simp_all add: readExact.simps [of _ 4] readExact.simps [of _ 0] line_recv_def)
  moreover have "readExact line_recv n ([], []) = (None, ([], []))" if "n \<noteq> 0" for n
    using that by (simp add: readExact.simps [of _ n] line_recv_def)
  ultimately show ?thesis by (simp add: recvFrame_def Let_def)
qed

lemma net_write:
  assumes "b \<noteq> []"
  shows "writeAll (net_send k) b w = Some (True, net_serve k (w\<lparr>nw_out := (nw_out w)(k := nw_out w k @ b)\<rparr>))"
  using assms by (simp add: writeAll.simps [of _ b] writeAll.simps [of _ "[]"] net_send_def)

lemma net_sendFrame:
  assumes "receivable f" and "nw_out w k = []" and "receive_frame k f (nw_co w) = Inr (out, st')"
  shows "sendFrame (net_send k) f w =
    Some (Inr (), w\<lparr>nw_co := st', nw_in := net_deliver out (nw_in w), nw_out := (nw_out w)(k := [])\<rparr>)"
proof -
  let ?hdr = "w_u32 (of_nat (length (frame_body f) + 8))"
  let ?b = "frame_body f @ w_u64 (fnv1a (frame_body f))"
  have enc: "encodeFrame f = Inr ?b" using assms(1) by (simp add: encodeFrame_def receivable_def)
  have "net_serve k (w\<lparr>nw_out := (nw_out w)(k := ?hdr)\<rparr>) = w\<lparr>nw_out := (nw_out w)(k := ?hdr)\<rparr>"
    using length_pending [of ?hdr] by (auto simp: net_serve_def)
  then have first: "writeAll (net_send k) ?hdr w = Some (True, w\<lparr>nw_out := (nw_out w)(k := ?hdr)\<rparr>)"
    using net_write [of ?hdr k w] assms(2) by (simp flip: length_greater_0_conv)
  obtain l where l: "recvFrame line_recv ([], ?hdr @ ?b) = (Inr f, l)" "snd l = []"
    using recvFrame_delivers [OF line_receives assms(1), of "([], ?hdr @ ?b)" "[]"] by (auto simp: stream_frame_def)
  then have "writeAll (net_send k) ?b (w\<lparr>nw_out := (nw_out w)(k := ?hdr)\<rparr>) =
      Some (True, w\<lparr>nw_co := st', nw_in := net_deliver out (nw_in w), nw_out := (nw_out w)(k := [])\<rparr>)"
    using assms(3) by (subst net_write) (simp_all add: net_serve_def flip: length_greater_0_conv)
  with first enc show ?thesis by (simp add: sendFrame_def)
qed

text \<open>Receiving takes the first frame of the socket and touches nothing else.\<close>

lemma net_recvFrame:
  assumes "receivable f" and "nw_in w k = stream_frame f @ rest"
  shows "recvFrame (net_recv k) w = (Inr f, w\<lparr>nw_in := (nw_in w)(k := rest)\<rparr>)"
proof -
  obtain w' where w': "recvFrame (net_recv k) w = (Inr f, w')" "nw_in w' k = rest"
    using recvFrame_delivers [OF net_receives assms(1)] assms(2) by blast
  define others where "others v = (nw_co v, (nw_in v)(k := []), nw_out v)" for v :: Network
  have "others w' = others w"
    using recvFrame_opn [of others "net_recv k" w] w'(1) by (simp add: others_def net_recv_def)
  then have same: "nw_co w' = nw_co w" "nw_out w' = nw_out w" "(nw_in w')(k := []) = (nw_in w)(k := [])"
    unfolding others_def by auto
  from arg_cong [OF same(3), of "\<lambda>q. q(k := rest)"]
  have "(nw_in w')(k := rest) = (nw_in w)(k := rest)" by simp
  with same(1,2) have "w' = w\<lparr>nw_in := (nw_in w)(k := rest)\<rparr>" using w'(2) by (cases w, cases w') (auto simp: fun_upd_idem_iff)
  with w'(1) show ?thesis by simp
qed

lemma net_attached: "attached net_quiet nw_co (net_send k) (net_recv k) k"
  unfolding attached_def
proof (intro allI impI, elim conjE)
  fix c :: Client and m w rf st'
  let ?f = "\<lparr>fr_type = ms_type m, fr_payload = encodeMessage m\<rparr>"
  assume a: "net_quiet w" "cl_connected c" "length (encodeMessage m) + 25 \<le> kMaxFramePayload"
    "receive_frame k ?f (nw_co w) = Inr ([(k, rf)], st')" "receivable rf"
  let ?w1 = "w\<lparr>nw_co := st', nw_in := (nw_in w)(k := stream_frame rf)\<rparr>"
  have q: "nw_in w j = []" "nw_out w j = []" for j using a(1) by (simp_all add: net_quiet_def)
  have "net_deliver [(k, rf)] (nw_in w) = (nw_in w)(k := stream_frame rf)"
    using a(5) by (simp add: net_deliver_def net_frame_stream receivable_def q)
  then have "sendFrame (net_send k) ?f w = Some (Inr (), ?w1)"
    using net_sendFrame [of ?f w k "[(k, rf)]" st'] a(3,4) q by (simp add: receivable_def fun_upd_idem)
  moreover have "recvFrame (net_recv k) ?w1 = (Inr rf, w\<lparr>nw_co := st'\<rparr>)"
    using net_recvFrame [OF a(5), of ?w1 k "[]"] q by (simp add: fun_upd_idem)
  ultimately have "exchanged (net_send k) (net_recv k) c m rf w (w\<lparr>nw_co := st'\<rparr>)"
    using a(2) by (simp add: exchanged_def)
  then show "\<exists>w'. exchanged (net_send k) (net_recv k) c m rf w w' \<and> nw_co w' = st' \<and> net_quiet w'"
    using a(1) by (intro exI [of _ "w\<lparr>nw_co := st'\<rparr>"]) (simp add: net_quiet_def)
qed

end
