(* ===== verification/Workers.thy ===== *)
theory Workers
  imports Network Evidence_Theorems
begin

text \<open>
  The worker process of \<open>apps/worker_main.cpp\<close>, through the methods of the client, and what becomes of
  its session at the coordinator: the evidence it publishes, the plans this evidence allows, its
  loss and its return under another boot.
\<close>

section \<open>The worker process\<close>

definition mkEp :: "EndpointId \<Rightarrow> EndpointKind \<Rightarrow> NodeId \<Rightarrow> Transport list \<Rightarrow> Endpoint" where
  "mkEp i kind node caps =
     default_Endpoint\<lparr>ep_id := i, ep_generation := 1, ep_kind := kind, ep_node := node, ep_ready := True,
       ep_reachable := True, ep_health := default_Health\<lparr>he_healthy := True, he_generation := 1\<rparr>,
       ep_capability := default_Capability\<lparr>cap_generation := 1, cap_transports := fold set_insert caps [],
         cap_provenance := Provenance.MEASURED\<rparr>,
       ep_provenance := Provenance.MEASURED\<rparr>"

definition mkLk :: "LinkId \<Rightarrow> EndpointId \<Rightarrow> EndpointId \<Rightarrow> Transport \<Rightarrow> u64 \<Rightarrow> Link" where
  "mkLk i src dst t capacity =
     default_Link\<lparr>ln_id := i, ln_generation := 1, ln_source := src, ln_destination := dst, ln_transport := t,
       ln_directed := True, ln_kind := LinkKind.COMPOSITE, ln_capacity := capacity, ln_effectiveBandwidth := capacity,
       ln_latency := 1000, ln_health := default_Health\<lparr>he_healthy := True, he_generation := 1\<rparr>,
       ln_congestion := default_Congestion\<lparr>cg_generation := 1, cg_provenance := Provenance.REPORTED\<rparr>,
       ln_capacityEvidence := default_Capacity\<lparr>cy_generation := 1, cy_usable := capacity, cy_headroom := capacity,
         cy_provenance := Provenance.REPORTED\<rparr>,
       ln_topologyGeneration := 1, ln_capabilityGeneration := 1, ln_provenance := Provenance.MEASURED\<rparr>"

definition gpu_transports :: "Transport list" where
  "gpu_transports = [Transport.CUDA, Transport.HOST_MEMORY, Transport.PCIE]"

text \<open>A call whose failure ends the process with exit code 1.\<close>

definition or_exit :: "('s, bool) call \<Rightarrow> ('s \<Rightarrow> (int option \<times> 's) option) \<Rightarrow> (int option \<times> 's) option" where
  "or_exit r k =
     (case r of
        None \<Rightarrow> None
      | Some (Inr True, s) \<Rightarrow> k s
      | Some (_, s) \<Rightarrow> Some (Some 1, s))"

text \<open>
  The session after the connection: registration, then the publications of the role. The result is
  the exit code of an early return, or \<open>None\<close> when the process has printed \<open>WORKER_READY\<close> and sleeps
  from then on, keeping the connection.
\<close>

definition worker_session ::
  "'s sender \<Rightarrow> 's receiver \<Rightarrow> Client option \<Rightarrow> string \<Rightarrow> Generation \<Rightarrow> 's \<Rightarrow> (int option \<times> 's) option" where
  "worker_session put get c role boot s0 =
     (let wid = (if role = ''A'' then 1 else 2);
          owned = (\<lambda>e. e\<lparr>ep_worker := wid, ep_workerBoot := boot\<rparr>);
          pubE = (\<lambda>e. client_publishEndpoint put get c wid boot (owned e));
          pubL = (\<lambda>l. client_publishLink put get c wid boot (l\<lparr>ln_workerBoot := boot\<rparr>))
      in or_exit (client_registerWorker put get c wid boot role s0) (\<lambda>s1.
         if role = ''A'' then
           or_exit (pubE (mkEp 100 EndpointKind.GPU_DEVICE 1 gpu_transports) s1) (\<lambda>s2.
           or_exit (pubL (mkLk 10 100 200 Transport.HOST_MEMORY 3000000) s2) (\<lambda>s3.
           Some (None, s3)))
         else
           or_exit (pubE (mkEp 200 EndpointKind.GPU_DEVICE 2 gpu_transports) s1) (\<lambda>s2.
           or_exit (pubE (mkEp 300 EndpointKind.PINNED_HOST_MEMORY 1 [Transport.HOST_MEMORY, Transport.PCIE]) s2) (\<lambda>s3.
           or_exit (pubL (mkLk 11 100 300 Transport.PCIE 2000000) s3) (\<lambda>s4.
           or_exit (pubL (mkLk 12 300 200 Transport.PCIE 2000000) s4) (\<lambda>s5.
           Some (None, s5)))))))"

text \<open>\<open>std::strtoull\<close> with base 10 and \<open>std::atoi\<close>: spaces, a sign, digits up to the first other character.
  (\<open>atoi\<close> has no defined result beyond the range of \<open>int\<close>.)\<close>

definition space_char :: "char \<Rightarrow> bool" where
  "space_char c \<longleftrightarrow> (of_char c :: nat) \<in> {9, 10, 11, 12, 13, 32}"

definition decimal_prefix :: "string \<Rightarrow> bool \<times> nat" where
  "decimal_prefix s =
     (let t = dropWhile space_char s;
          neg = (t \<noteq> [] \<and> List.hd t = CHR ''-'');
          u = (if t \<noteq> [] \<and> (List.hd t = CHR ''-'' \<or> List.hd t = CHR ''+'') then tl t else t)
      in (neg, digits_value 0 (takeWhile (\<lambda>c. 48 \<le> (of_char c :: nat) \<and> (of_char c :: nat) \<le> 57) u)))"

definition strtoull :: "string \<Rightarrow> u64" where
  "strtoull s =
     (case decimal_prefix s of
        (neg, n) \<Rightarrow> if 2 ^ 64 \<le> n then u64_max else if neg then - of_nat n else of_nat n)"

definition atoi :: "string \<Rightarrow> int" where
  "atoi s = (case decimal_prefix s of (neg, n) \<Rightarrow> if neg then - int n else int n)"

definition client_sock :: "Client option \<Rightarrow> SOCKET" where
  "client_sock c = (case c of None \<Rightarrow> INVALID_SOCKET | Some c \<Rightarrow> cl_sock c)"

text \<open>The process: the arguments, the connection, the session.\<close>

definition worker_main ::
  "'o Winsock \<Rightarrow> (SOCKET \<Rightarrow> 'o sender) \<Rightarrow> (SOCKET \<Rightarrow> 'o receiver) \<Rightarrow>
     string list \<Rightarrow> 'o \<Rightarrow> (int option \<times> 'o) option" where
  "worker_main w put get argv os =
     (if length argv < 4 then Some (Some 2, os)
      else
        (case client_open w get ''127.0.0.1'' (of_int (atoi (argv ! 1))) [] None os of
           (False, _, _, os1) \<Rightarrow> Some (Some 1, os1)
         | (True, _, c, os1) \<Rightarrow>
             worker_session (put (client_sock c)) (get (client_sock c)) c (argv ! 2) (strtoull (argv ! 3)) os1))"

section \<open>What a session leaves at the coordinator\<close>

text \<open>The state after a worker has registered and published endpoints \<open>es\<close> and links \<open>ls\<close>.\<close>

definition session_result ::
  "SOCKET \<Rightarrow> WorkerId \<Rightarrow> Generation \<Rightarrow> string \<Rightarrow> Endpoint list \<Rightarrow> Link list \<Rightarrow> Coordinator \<Rightarrow> Coordinator" where
  "session_result k w boot name es ls st =
     st\<lparr>co_workers := map_assign w
          \<lparr>wi_id = w, wi_boot = boot, wi_name = name, wi_sock = k, wi_endpoints = map ep_id es,
           wi_links = map ln_id ls, wi_alive = True\<rparr> (co_workers st),
        co_socketToWorker := map_assign k w (co_socketToWorker st),
        co_snap := fold publishLink ls (fold publishEndpoint es ((co_snap st)
          \<lparr>sn_workerBoots := map_assign w boot (sn_workerBoots (co_snap st)),
           sn_sourceBoots := map_assign w boot (sn_sourceBoots (co_snap st))\<rparr>))\<rparr>"

lemma assign_twice: "map_assign i v (map_assign i u m) = map_assign i v m"
  by (induction m) auto

lemma session_result_publisher:
  "map_find (co_workers (session_result k w boot name es ls st)) w =
     Some \<lparr>wi_id = w, wi_boot = boot, wi_name = name, wi_sock = k, wi_endpoints = map ep_id es,
           wi_links = map ln_id ls, wi_alive = True\<rparr>"
  by (simp add: session_result_def map_find_assign)

lemma session_registers:
  assumes "attached ok co put get k" and "ok s" and "cl_connected c" and "length name \<le> 1000"
    and "w \<noteq> 0" and "boot \<noteq> 0" and "(w, boot) \<notin> set (co_fenced (co s))"
  obtains s' where "client_registerWorker put get (Some c) w boot name s = Some (Inr True, s')"
    and "co s' = session_result k w boot name [] [] (co s)" and "ok s'"
proof -
  let ?m = "default_Message\<lparr>ms_type := REGISTER, ms_worker := w, ms_boot := boot, ms_name := name\<rparr>"
  have "handleMessage k (wire_message ?m) (co s) =
      Inr (send_result k True w, session_result k w boot name [] [] (co s))"
    using assms(5-7)
    by (simp add: handleMessage_def wire_message_def default_Message_def handle_register_def isNull_def sendOk_def
        session_result_def)
  moreover have "message_ok ?m" "length (encodeMessage ?m) + 25 \<le> kMaxFramePayload"
    using assms(4) by (simp_all add: message_ok_def str_ok_def kMaxCount_def encodeMessage_def kMaxFramePayload_def)
  ultimately obtain s' where "client_call put get (Some c) ?m s =
      Some (Inr (default_Message\<lparr>ms_type := COMMIT_RESULT, ms_ok := True, ms_planId := w\<rparr>), s')"
    "co s' = session_result k w boot name [] [] (co s)" "ok s'"
    using attached_result [OF assms(1-3)] by metis
  then show thesis using that by (simp add: client_registerWorker_def on_reply_def)
qed

lemma session_publishes_endpoint:
  assumes "attached ok co put get k" and "ok s" and "cl_connected c"
    and "endpoint_ok e" and "length (encEndpoint e) \<le> 1000" and "co s = session_result k w boot name es [] st"
  obtains s' where "client_publishEndpoint put get (Some c) w boot e s = Some (Inr True, s')"
    and "co s' = session_result k w boot name (es @ [(wire_endpoint e)\<lparr>ep_worker := w, ep_workerBoot := boot\<rparr>]) [] st"
    and "ok s'"
proof -
  let ?m = "default_Message\<lparr>ms_type := PUBLISH_ENDPOINT, ms_worker := w, ms_boot := boot, ms_endpoint := e\<rparr>"
  let ?e = "(wire_endpoint e)\<lparr>ep_worker := w, ep_workerBoot := boot\<rparr>"
  let ?st' = "session_result k w boot name (es @ [?e]) [] st"
  have "handleMessage k (wire_message ?m) (co s) = Inr (send_result k True (ep_id ?e), ?st')"
    by (simp add: assms(6) handleMessage_def wire_message_def default_Message_def handle_publish_endpoint_def
        publisher_def session_result_publisher sendOk_def)
      (simp add: session_result_def assign_twice)
  moreover have "message_ok ?m" "length (encodeMessage ?m) + 25 \<le> kMaxFramePayload"
    using assms(4,5) by (simp_all add: message_ok_def encodeMessage_def kMaxFramePayload_def)
  ultimately obtain s' where "client_call put get (Some c) ?m s =
      Some (Inr (default_Message\<lparr>ms_type := COMMIT_RESULT, ms_ok := True, ms_planId := ep_id ?e\<rparr>), s')"
    "co s' = ?st'" "ok s'"
    using attached_result [OF assms(1-3)] by metis
  then show thesis using that by (simp add: client_publishEndpoint_def on_reply_def)
qed

lemma session_publishes_link:
  assumes "attached ok co put get k" and "ok s" and "cl_connected c"
    and "length (ln_failureDomain l) \<le> 1000" and "co s = session_result k w boot name es ls st"
  obtains s' where "client_publishLink put get (Some c) w boot l s = Some (Inr True, s')"
    and "co s' = session_result k w boot name es (ls @ [(wire_link l)\<lparr>ln_workerBoot := boot\<rparr>]) st" and "ok s'"
proof -
  let ?m = "default_Message\<lparr>ms_type := PUBLISH_LINK, ms_worker := w, ms_boot := boot, ms_link := l\<rparr>"
  let ?l = "(wire_link l)\<lparr>ln_workerBoot := boot\<rparr>"
  let ?st' = "session_result k w boot name es (ls @ [?l]) st"
  have "handleMessage k (wire_message ?m) (co s) = Inr (send_result k True (ln_id ?l), ?st')"
    by (simp add: assms(5) handleMessage_def wire_message_def default_Message_def handle_publish_link_def
        publisher_def session_result_publisher sendOk_def)
      (simp add: session_result_def assign_twice)
  moreover have "message_ok ?m" "length (encodeMessage ?m) + 25 \<le> kMaxFramePayload"
    using assms(4) by (simp_all add: message_ok_def str_ok_def kMaxCount_def encodeMessage_def encLink_def
        kMaxFramePayload_def)
  ultimately obtain s' where "client_call put get (Some c) ?m s =
      Some (Inr (default_Message\<lparr>ms_type := COMMIT_RESULT, ms_ok := True, ms_planId := ln_id ?l\<rparr>), s')"
    "co s' = ?st'" "ok s'"
    using attached_result [OF assms(1-3)] by metis
  then show thesis using that by (simp add: client_publishLink_def on_reply_def)
qed

text \<open>What the two roles publish, as it arrives.\<close>

definition worker_endpoints :: "string \<Rightarrow> Generation \<Rightarrow> Endpoint list" where
  "worker_endpoints role boot =
     (let own = (\<lambda>e. (wire_endpoint e)\<lparr>ep_worker := if role = ''A'' then 1 else 2, ep_workerBoot := boot\<rparr>)
      in if role = ''A'' then [own (mkEp 100 EndpointKind.GPU_DEVICE 1 gpu_transports)]
         else [own (mkEp 200 EndpointKind.GPU_DEVICE 2 gpu_transports),
               own (mkEp 300 EndpointKind.PINNED_HOST_MEMORY 1 [Transport.HOST_MEMORY, Transport.PCIE])])"

definition worker_links :: "string \<Rightarrow> Generation \<Rightarrow> Link list" where
  "worker_links role boot =
     (let own = (\<lambda>l. (wire_link l)\<lparr>ln_workerBoot := boot\<rparr>)
      in if role = ''A'' then [own (mkLk 10 100 200 Transport.HOST_MEMORY 3000000)]
         else [own (mkLk 11 100 300 Transport.PCIE 2000000), own (mkLk 12 300 200 Transport.PCIE 2000000)])"

lemma length_bytewise: "length (w_all (w_enum xs) ys) = length ys" "length (w_all w_u8 zs) = length zs"
  by (induction ys, simp_all) (induction zs, simp_all add: w_u8_def)

lemma length_fold_insert: "length (fold set_insert xs ys) \<le> length xs + length ys"
proof (induction xs arbitrary: ys)
  case (Cons x xs)
  have "length (set_insert x ys) \<le> Suc (length ys)" by (induction ys) auto
  with Cons [of "set_insert x ys"] show ?case by simp
qed simp

lemma mkEp_wire:
  assumes "length caps \<le> 10"
  shows "endpoint_ok ((mkEp i kind node caps)\<lparr>ep_worker := w, ep_workerBoot := b\<rparr>)"
    and "length (encEndpoint ((mkEp i kind node caps)\<lparr>ep_worker := w, ep_workerBoot := b\<rparr>)) \<le> 1000"
    and "(wire_endpoint ((mkEp i kind node caps)\<lparr>ep_worker := w, ep_workerBoot := b\<rparr>))
      \<lparr>ep_worker := w, ep_workerBoot := b\<rparr> = (wire_endpoint (mkEp i kind node caps))\<lparr>ep_worker := w, ep_workerBoot := b\<rparr>"
proof -
  have "set_ok ys \<Longrightarrow> set_ok (fold set_insert caps ys)" for ys :: "Transport list"
    by (induction caps arbitrary: ys) (simp_all add: set_ok_insert)
  then have ok: "set_ok (fold set_insert caps [])" by (simp add: set_ok_def)
  then show "endpoint_ok ((mkEp i kind node caps)\<lparr>ep_worker := w, ep_workerBoot := b\<rparr>)"
    by (simp add: endpoint_ok_def mkEp_def default_Endpoint_def default_Capability_def default_TopologyLocation_def
        str_ok_def kMaxCount_def)
  have "length (fold set_insert caps [] :: Transport list) \<le> length caps"
    using length_fold_insert [of caps "[]"] by simp
  then show "length (encEndpoint ((mkEp i kind node caps)\<lparr>ep_worker := w, ep_workerBoot := b\<rparr>)) \<le> 1000"
    using assms
    by (simp add: encEndpoint_def w_transports_def length_bytewise mkEp_def default_Endpoint_def
        default_TopologyLocation_def)
qed (simp add: wire_endpoint_def)

lemma or_exit_simps [simp]:
  "or_exit (Some (Inr True, s)) f = f s" "or_exit (Some (Inr False, s)) f = Some (Some 1, s)"
  "or_exit (Some (Inl e, s)) f = Some (Some 1, s)"
  by (simp_all add: or_exit_def)

text \<open>Role A publishes one endpoint and one link; every other role is B, with two of each.\<close>

lemma session_of_A:
  assumes "attached ok co put get k" and "ok s" and "cl_connected c" and "boot \<noteq> 0"
    and "(1, boot) \<notin> set (co_fenced (co s))"
  obtains s' where "worker_session put get (Some c) ''A'' boot s = Some (None, s')" and "ok s'"
    and "co s' = session_result k 1 boot ''A'' (worker_endpoints ''A'' boot) (worker_links ''A'' boot) (co s)"
proof -
  let ?o = "\<lambda>e. e\<lparr>ep_worker := 1, ep_workerBoot := boot\<rparr>"
  let ?e = "mkEp 100 EndpointKind.GPU_DEVICE 1 gpu_transports"
  let ?l = "(mkLk 10 100 200 Transport.HOST_MEMORY 3000000)\<lparr>ln_workerBoot := boot\<rparr>"
  have "length gpu_transports \<le> 10" by (simp add: gpu_transports_def)
  note e = mkEp_wire [OF this, where i = 100 and kind = EndpointKind.GPU_DEVICE and node = 1 and w = 1 and b = boot]
  obtain s1 where s1: "client_registerWorker put get (Some c) 1 boot ''A'' s = Some (Inr True, s1)"
    "co s1 = session_result k 1 boot ''A'' [] [] (co s)" "ok s1"
    using session_registers [OF assms(1-3), of "''A''" 1 boot] assms(4,5) by auto
  obtain s2 where s2: "client_publishEndpoint put get (Some c) 1 boot (?o ?e) s1 = Some (Inr True, s2)"
    "co s2 = session_result k 1 boot ''A'' (worker_endpoints ''A'' boot) [] (co s)" "ok s2"
    using session_publishes_endpoint [OF assms(1) s1(3) assms(3) e(1,2) s1(2)]
    by (auto simp: worker_endpoints_def e(3))
  obtain s3 where "client_publishLink put get (Some c) 1 boot ?l s2 = Some (Inr True, s3)"
    "co s3 = session_result k 1 boot ''A'' (worker_endpoints ''A'' boot) (worker_links ''A'' boot) (co s)" "ok s3"
    using session_publishes_link [OF assms(1) s2(3) assms(3) _ s2(2), of ?l]
    by (auto simp: worker_links_def mkLk_def default_Link_def wire_link_def)
  with s1(1) s2(1) that show thesis by (simp add: worker_session_def Let_def)
qed

lemma session_of_B:
  assumes "attached ok co put get k" and "ok s" and "cl_connected c" and "boot \<noteq> 0"
    and "(2, boot) \<notin> set (co_fenced (co s))" and "role \<noteq> ''A''" and "length role \<le> 1000"
  obtains s' where "worker_session put get (Some c) role boot s = Some (None, s')" and "ok s'"
    and "co s' = session_result k 2 boot role (worker_endpoints role boot) (worker_links role boot) (co s)"
proof -
  let ?o = "\<lambda>e. e\<lparr>ep_worker := 2, ep_workerBoot := boot\<rparr>"
  let ?host = "[Transport.HOST_MEMORY, Transport.PCIE]"
  let ?w = "\<lambda>e. (wire_endpoint e)\<lparr>ep_worker := 2, ep_workerBoot := boot\<rparr>"
  let ?l1 = "(mkLk 11 100 300 Transport.PCIE 2000000)\<lparr>ln_workerBoot := boot\<rparr>"
  let ?l2 = "(mkLk 12 300 200 Transport.PCIE 2000000)\<lparr>ln_workerBoot := boot\<rparr>"
  have "length gpu_transports \<le> 10" "length ?host \<le> 10" by (simp_all add: gpu_transports_def)
  note e = mkEp_wire [OF this(1), where i = 200 and kind = EndpointKind.GPU_DEVICE and node = 2 and w = 2 and b = boot]
    mkEp_wire [OF this(2), where i = 300 and kind = EndpointKind.PINNED_HOST_MEMORY and node = 1 and w = 2 and b = boot]
  obtain s1 where s1: "client_registerWorker put get (Some c) 2 boot role s = Some (Inr True, s1)"
    "co s1 = session_result k 2 boot role [] [] (co s)" "ok s1"
    using session_registers [OF assms(1-3,7), of 2 boot] assms(4,5) by auto
  obtain s2 where s2: "client_publishEndpoint put get (Some c) 2 boot (?o (mkEp 200 EndpointKind.GPU_DEVICE 2 gpu_transports)) s1 =
      Some (Inr True, s2)"
    "co s2 = session_result k 2 boot role ([] @ [?w (mkEp 200 EndpointKind.GPU_DEVICE 2 gpu_transports)]) [] (co s)" "ok s2"
    using session_publishes_endpoint [OF assms(1) s1(3) assms(3) e(1,2) s1(2), unfolded e(3)] .
  obtain s3 where s3: "client_publishEndpoint put get (Some c) 2 boot (?o (mkEp 300 EndpointKind.PINNED_HOST_MEMORY 1 ?host)) s2 =
      Some (Inr True, s3)"
    "co s3 = session_result k 2 boot role (worker_endpoints role boot) [] (co s)" "ok s3"
    using session_publishes_endpoint [OF assms(1) s2(3) assms(3) e(4,5) s2(2), unfolded e(6)] assms(6)
    by (auto simp: worker_endpoints_def)
  obtain s4 where s4: "client_publishLink put get (Some c) 2 boot ?l1 s3 = Some (Inr True, s4)"
    "co s4 = session_result k 2 boot role (worker_endpoints role boot) ([] @ [(wire_link ?l1)\<lparr>ln_workerBoot := boot\<rparr>]) (co s)" "ok s4"
    using session_publishes_link [OF assms(1) s3(3) assms(3) _ s3(2), of ?l1]
    by (auto simp: mkLk_def default_Link_def)
  obtain s5 where "client_publishLink put get (Some c) 2 boot ?l2 s4 = Some (Inr True, s5)"
    "co s5 = session_result k 2 boot role (worker_endpoints role boot) (worker_links role boot) (co s)" "ok s5"
    using session_publishes_link [OF assms(1) s4(3) assms(3) _ s4(2), of ?l2] assms(6)
    by (auto simp: worker_links_def mkLk_def default_Link_def wire_link_def)
  with s1(1) s2(1) s3(1) s4(1) assms(6) that show thesis by (simp add: worker_session_def Let_def)
qed

section \<open>Planning over the workers' evidence\<close>

text \<open>\<open>apps/coordinator_main.cpp\<close>: the bounds it sets, and the process up to the announcement of its port.\<close>

definition coordinator_bounds :: Bounds where
  "coordinator_bounds = default_Bounds\<lparr>bd_maxPathDepth := 8, bd_maxCandidates := 512, bd_maxFallbacks := 8\<rparr>"

definition coordinator_main ::
  "'o Winsock \<Rightarrow> string list \<Rightarrow> bytes option \<Rightarrow> 'o \<Rightarrow> int + (u16 \<times> Listener \<times> Coordinator \<times> 'o)" where
  "coordinator_main w argv file os =
     (if length argv < 3 then Inl 2
      else
        (case server_start w (of_int (atoi (argv ! 1))) [] new_Listener (new_coordinator [] coordinator_bounds file) os of
           (False, _) \<Rightarrow> Inl 1
         | (True, _, l, st, os1) \<Rightarrow> Inr (boundPort w l os1, l, st, os1)))"

text \<open>The request of \<open>apps/proof_main.cpp\<close>.\<close>

definition mkReq :: "CommunicationRequestId \<Rightarrow> EndpointId \<Rightarrow> EndpointId \<Rightarrow> u64 \<Rightarrow> CommunicationRequest" where
  "mkReq i src dst payload =
     default_CommunicationRequest\<lparr>rq_id := i, rq_generation := 1, rq_shape := RequestShape.POINT_TO_POINT,
       rq_source := src, rq_payloadSize := payload, rq_destinations := [dst], rq_allowStaging := True,
       rq_allowHostStaging := True, rq_allowStorageStaging := True, rq_allowRelay := True\<rparr>"

definition hop10 :: Hop where
  "hop10 = \<lparr>hop_link = 10, hop_from = 100, hop_to = 200\<rparr>"

lemmas worker_evidence_defs = worker_links_def worker_endpoints_def mkLk_def mkEp_def gpu_transports_def
  wire_link_def wire_endpoint_def default_Link_def default_Endpoint_def default_Capability_def default_Health_def
  default_Congestion_def default_Capacity_def default_TopologyLocation_def

lemma worker_enumeration:
  assumes "mset (sn_links s) = mset (worker_links ''A'' a @ worker_links ''B'' b)"
  shows "\<lparr>cp_source = 100, cp_destination = 200, cp_hops = [hop10]\<rparr> \<in>
    set (enumerateCandidatePaths s 100 200 coordinator_bounds)"
proof -
  let ?s = "default_EvidenceSnapshot\<lparr>sn_links := worker_links ''A'' a @ worker_links ''B'' b\<rparr>"
  have "map_find (adjacency ?s) 100 = Some [\<lparr>adj_to = 200, adj_link = 10\<rparr>, \<lparr>adj_to = 300, adj_link = 11\<rparr>]"
    by (simp add: find_adjacency out_edges_def worker_evidence_defs adjLess_def)
  moreover have "map_find (adjacency ?s) 300 = Some [\<lparr>adj_to = 200, adj_link = 12\<rparr>]"
    by (simp add: find_adjacency out_edges_def worker_evidence_defs adjLess_def)
  moreover have "(8::nat) = Suc (Suc 6)" by simp
  ultimately have "routes (adjacency ?s) 200 8 [100] 100 =
      [[hop10], [\<lparr>hop_link = 11, hop_from = 100, hop_to = 300\<rparr>, \<lparr>hop_link = 12, hop_from = 300, hop_to = 200\<rparr>]]"
    by (simp only: routes.simps) (simp add: adj_hop_def hop10_def)
  then have "\<lparr>cp_source = 100, cp_destination = 200, cp_hops = [hop10]\<rparr> \<in>
      set (enumerateCandidatePaths ?s 100 200 coordinator_bounds)"
    by (simp add: enumerate_take all_candidates_def coordinator_bounds_def default_Bounds_def route_hits_def
        dfs_hit_def dfs_ctx_def)
  with enumerate_perm [of s ?s 100 200 coordinator_bounds] assms show ?thesis by simp
qed

text \<open>The evidence of both workers, in any order, under their live boots.\<close>

definition both_published :: "Generation \<Rightarrow> Generation \<Rightarrow> EvidenceSnapshot \<Rightarrow> bool" where
  "both_published a b s \<longleftrightarrow>
     mset (sn_endpoints s) = mset (worker_endpoints ''A'' a @ worker_endpoints ''B'' b) \<and>
     mset (sn_links s) = mset (worker_links ''A'' a @ worker_links ''B'' b) \<and>
     map_find (sn_workerBoots s) 1 = Some a \<and> map_find (sn_workerBoots s) 2 = Some b \<and> sn_reservations s = []"

lemma mkReq_wire:
  "rq_source (wire_request (mkReq i src dst payload)) = src" "rq_destinations (wire_request (mkReq i src dst payload)) = [dst]"
  "rq_id (wire_request (mkReq i src dst payload)) = i" "\<not> rq_allowMulticast (wire_request (mkReq i src dst payload))"
  "rq_shape (wire_request (mkReq i src dst payload)) = RequestShape.POINT_TO_POINT"
  by (simp_all add: wire_request_def mkReq_def default_CommunicationRequest_def)

lemma mkReq_valid:
  assumes "i \<noteq> 0" and "payload \<noteq> 0" and "src \<noteq> 0"
  shows "validate (wire_request (mkReq i src dst payload)) = None"
  using assms by (simp add: wire_request_def mkReq_def default_CommunicationRequest_def validate_def
      validate_collective_def validate_shape_def validate_transports_def isNull_def)

lemma both_published_usable:
  assumes "both_published a b s" and "a \<noteq> 0" and "b \<noteq> 0"
  shows "hop_usable (wire_request (mkReq i 100 200 payload)) s hop10"
proof -
  let ?es = "worker_endpoints ''A'' a @ worker_endpoints ''B'' b"
  let ?ls = "worker_links ''A'' a @ worker_links ''B'' b"
  have "distinct (map ep_id ?es)" "distinct (map ln_id ?ls)" by (simp_all add: worker_evidence_defs)
  moreover have "mset ?es = mset (sn_endpoints s)" "mset ?ls = mset (sn_links s)"
    using assms(1) by (simp_all add: both_published_def)
  ultimately have find: "map_find (endpointMap s) k = List.find (\<lambda>e. ep_id e = k) (rev ?es)"
    "map_find (linkMap s) k = List.find (\<lambda>l. ln_id l = k) (rev ?ls)" for k
    unfolding find_endpointMap find_linkMap by (metis find_by_key_perm)+
  have boots: "map_find (sn_workerBoots s) 1 = Some a" "map_find (sn_workerBoots s) 2 = Some b" "sn_reservations s = []"
    using assms(1) by (simp_all add: both_published_def)
  show ?thesis
    unfolding hop_usable_def endpoint_usable_def link_usable_def find
    using assms(2,3)
    by (simp add: worker_evidence_defs hop10_def)
      (simp add: boots endpointFresh_def isNull_def supports_def reserved_on_def mkReq_def wire_request_def
        default_CommunicationRequest_def)
qed

lemma both_published_feasible:
  assumes "both_published a b s" and "a \<noteq> 0" and "b \<noteq> 0"
  shows "destination_feasible (wire_request (mkReq i 100 200 payload)) s coordinator_bounds 100 200"
proof -
  have "path_feasible (wire_request (mkReq i 100 200 payload)) s coordinator_bounds [hop10]"
    using both_published_usable [OF assms]
    by (simp add: path_feasible_def coordinator_bounds_def default_Bounds_def isNull_def)
      (simp add: mkReq_def wire_request_def default_CommunicationRequest_def)
  moreover have "\<lparr>cp_source = 100, cp_destination = 200, cp_hops = [hop10]\<rparr> \<in>
      set (enumerateCandidatePaths s 100 200 coordinator_bounds)"
    using assms(1) worker_enumeration unfolding both_published_def by blast
  ultimately show ?thesis unfolding destination_feasible_def by force
qed

text \<open>A source that is not ready leaves no feasible route.\<close>

lemma dead_source_infeasible:
  assumes "\<And>e. map_find (endpointMap s) src = Some e \<Longrightarrow> \<not> ep_ready e"
  shows "\<not> destination_feasible r s b src dst"
proof
  assume "destination_feasible r s b src dst"
  then obtain c where c: "c \<in> set (enumerateCandidatePaths s src dst b)" "path_feasible r s b (cp_hops c)"
    unfolding destination_feasible_def by blast
  then have "simple_route s src dst (cp_hops c)" using enumerate_sound by blast
  then obtain h hs where "cp_hops c = h # hs" "hop_from h = src"
    by (cases "cp_hops c") (auto simp: simple_route_def)
  with c(2) have "hop_usable r s h" "hop_from h = src" by (simp_all add: path_feasible_def)
  then show False using assms unfolding hop_usable_def endpoint_usable_def by auto
qed

text \<open>How the coordinator answers the request from endpoint 100 to endpoint 200.\<close>

definition plan_answer :: "CommunicationRequestId \<Rightarrow> u64 \<Rightarrow> bool \<Rightarrow> Coordinator \<Rightarrow> bool" where
  "plan_answer i payload x st \<longleftrightarrow>
     (\<forall>k. \<exists>p st'. handleMessage k (wire_message
        (default_Message\<lparr>ms_type := SUBMIT_REQUEST, ms_request := mkReq i 100 200 payload\<rparr>)) st =
        Inr (send_plan_result k x p, st'))"

lemma plan_answer_feasible:
  assumes "i \<noteq> 0" and "payload \<noteq> 0" and "co_cancelled st = []"
    and "x = destination_feasible (wire_request (mkReq i 100 200 payload)) (co_snap st) (co_bounds st) 100 200"
  shows "plan_answer i payload x st"
proof -
  let ?r = "wire_request (mkReq i 100 200 payload)"
  let ?plan = "planCommunication ?r (co_snap st) (co_weights st) (co_bounds st) (co_counters st)"
  have eq: "?plan = planPointToPoint ?r (co_snap st) (co_weights st) (co_bounds st) 200 (co_counters st)"
    by (rule planCommunication_p2p [OF mkReq_valid]) (simp_all add: mkReq_wire assms(1,2))
  have "\<exists>out ct'. ?plan = (Inr out, ct') \<and> po_success out = x \<and> (x \<longrightarrow> po_plan out \<noteq> None)"
  proof (cases x)
    case True
    with assms(4) have "destination_feasible ?r (co_snap st) (co_bounds st) (rq_source ?r) 200" by (simp add: mkReq_wire)
    from planPointToPoint_feasible [OF this] True show ?thesis by (fastforce simp: eq p2p_result_def Let_def)
  next
    case False
    with assms(4) have "\<not> destination_feasible ?r (co_snap st) (co_bounds st) (rq_source ?r) 200" by (simp add: mkReq_wire)
    from planPointToPoint_infeasible [OF this] False show ?thesis by (simp add: eq)
  qed
  then obtain out ct' where plan: "?plan = (Inr out, ct')" "po_success out = x" "x \<longrightarrow> po_plan out \<noteq> None" by blast
  have "handleMessage k (wire_message (default_Message\<lparr>ms_type := SUBMIT_REQUEST, ms_request := mkReq i 100 200 payload\<rparr>)) st =
      handle_submit k (default_Message\<lparr>ms_type := SUBMIT_REQUEST, ms_request := ?r\<rparr>) st" for k
    by (simp add: handleMessage_def wire_message_def default_Message_def)
  moreover have "\<exists>p st'. handle_submit k (default_Message\<lparr>ms_type := SUBMIT_REQUEST, ms_request := ?r\<rparr>) st =
      Inr (send_plan_result k x p, st')" for k
    using plan assms(1,3) by (cases x) (auto simp: handle_submit_def Let_def mkReq_wire isNull_def split: option.split)
  ultimately show ?thesis unfolding plan_answer_def by simp
qed

text \<open>The coordinator after both sessions, and after the loss of the first.\<close>

definition both_sessions :: "SOCKET \<Rightarrow> Generation \<Rightarrow> SOCKET \<Rightarrow> Generation \<Rightarrow> Coordinator" where
  "both_sessions ka a kb b =
     session_result kb 2 b ''B'' (worker_endpoints ''B'' b) (worker_links ''B'' b)
       (session_result ka 1 a ''A'' (worker_endpoints ''A'' a) (worker_links ''A'' a)
         (start_coordinator [] coordinator_bounds None))"

lemmas session_defs = both_sessions_def session_result_def start_empty new_coordinator_def initial_snapshot_def
  default_EvidenceSnapshot_def publishEndpoint_def publishLink_def

lemma both_sessions_frame:
  "co_cancelled (both_sessions ka a kb b) = []" "co_bounds (both_sessions ka a kb b) = coordinator_bounds"
  "co_fenced (both_sessions ka a kb b) = []"
  by (simp_all add: session_defs)

lemma both_sessions_published: "both_published a b (co_snap (both_sessions ka a kb b))"
  by (simp add: both_published_def session_defs worker_evidence_defs map_find_def)

lemma both_sessions_evidence:
  "sn_endpoints (co_snap (both_sessions ka a kb b)) = worker_endpoints ''A'' a @ worker_endpoints ''B'' b"
  "sn_links (co_snap (both_sessions ka a kb b)) = worker_links ''A'' a @ worker_links ''B'' b"
  "sn_workerBoots (co_snap (both_sessions ka a kb b)) = [(1, a), (2, b)]"
  "sn_reservations (co_snap (both_sessions ka a kb b)) = []"
  "\<exists>w. map_find (co_workers (both_sessions ka a kb b)) 1 = Some w \<and> wi_boot w = a \<and>
     wi_endpoints w = [100] \<and> wi_links w = [10]"
  by (simp_all add: session_defs worker_evidence_defs map_find_def)

lemma both_sessions_disconnect:
  fixes a b :: Generation
  assumes "ka \<noteq> kb"
  defines "st \<equiv> disconnect ka (both_sessions ka a kb b)"
  shows "co_cancelled st = []" "co_bounds st = coordinator_bounds" "co_fenced st = [(1, a)]"
    and "map_find (endpointMap (co_snap st)) 100 = Some e \<Longrightarrow> \<not> ep_ready e"
    and "both_published a' b (co_snap (session_result ka' 1 a' ''A'' (worker_endpoints ''A'' a') (worker_links ''A'' a') st))"
proof -
  obtain w where w: "map_find (co_workers (both_sessions ka a kb b)) 1 = Some w" "wi_boot w = a"
    "wi_endpoints w = [100]" "wi_links w = [10]"
    using both_sessions_evidence(5) by blast
  have find: "map_find (co_socketToWorker (both_sessions ka a kb b)) ka = Some 1"
    using assms(1) by (simp add: both_sessions_def session_result_def map_find_assign)
  have st: "st = end_connection ka ((fenceWorker 1 (both_sessions ka a kb b))
      \<lparr>co_socketToWorker := map_erase ka (co_socketToWorker (both_sessions ka a kb b))\<rparr>)"
    by (simp add: st_def disconnect_def fence_connection_def find)
  show "co_cancelled st = []" "co_bounds st = coordinator_bounds" "co_fenced st = [(1, a)]"
    by (simp_all add: st end_connection_def fenceWorker_def w both_sessions_frame Let_def)
  have snap: "sn_endpoints (co_snap st) = unready_endpoints [100] (worker_endpoints ''A'' a @ worker_endpoints ''B'' b)"
    "sn_links (co_snap st) = worker_links ''B'' b" "map_find (sn_workerBoots (co_snap st)) 2 = Some b"
    "sn_reservations (co_snap st) = []"
    by (simp_all add: st end_connection_def fenceWorker_def w both_sessions_evidence map_find_erase Let_def)
      (simp_all add: worker_evidence_defs map_find_def)
  then show "map_find (endpointMap (co_snap st)) 100 = Some e \<Longrightarrow> \<not> ep_ready e"
    by (simp add: find_endpointMap unready_endpoints_def worker_evidence_defs) auto
  show "both_published a' b (co_snap (session_result ka' 1 a' ''A'' (worker_endpoints ''A'' a') (worker_links ''A'' a') st))"
    using snap by (simp add: both_published_def session_result_def unready_endpoints_def worker_evidence_defs)
      (simp add: publishEndpoint_def publishLink_def map_find_assign)
qed

lemma session_refused:
  assumes "attached ok co put get k" and "ok s" and "cl_connected c" and "length role \<le> 1000" and "boot \<noteq> 0"
    and "(if role = ''A'' then 1 else 2, boot) \<in> set (co_fenced (co s))"
  obtains s' where "worker_session put get (Some c) role boot s = Some (Some 1, s')" and "co s' = co s"
proof -
  let ?w = "if role = ''A'' then 1 else 2 :: WorkerId"
  let ?m = "default_Message\<lparr>ms_type := REGISTER, ms_worker := ?w, ms_boot := boot, ms_name := role\<rparr>"
  have refused: "handleMessage k (wire_message ?m) (co s) = Inr (sendError k ''fenced boot authority'', co s)"
    using assms(5,6) by (simp add: handleMessage_def wire_message_def default_Message_def handle_register_def isNull_def)
  have ok: "message_ok ?m" "length (encodeMessage ?m) + 25 \<le> kMaxFramePayload"
    using assms(4) by (simp_all add: message_ok_def str_ok_def kMaxCount_def encodeMessage_def kMaxFramePayload_def)
  obtain s' where "client_call put get (Some c) ?m s = Some (Inl ''fenced boot authority'', s')" "co s' = co s"
    using attached_error [OF assms(1-3) ok refused] by auto
  then show thesis using that by (simp add: worker_session_def client_registerWorker_def on_reply_def Let_def)
qed

text \<open>C18: workers come and go. Over connections that deliver, the sessions of workers A and B with a fresh
  coordinator become ready under any boots, and every valid request from endpoint 100 to endpoint 200 is then answered
  by a plan; once the connection of A is lost it is answered by a refusal; a session under the lost
  boot is turned away without effect, and one under any other boot makes the request feasible again.\<close>

theorem worker_loss_and_return:
  assumes "attached ok co puta geta ka" and "attached ok co putb getb kb" and "attached ok co putr getr kr"
    and "cl_connected ca" and "cl_connected cb" and "cl_connected cr" and "ka \<noteq> kb"
    and "ok s" and "co s = start_coordinator [] coordinator_bounds None"
    and "a \<noteq> 0" and "b \<noteq> 0" and "a' \<noteq> 0" and "a' \<noteq> a" and "i \<noteq> 0" and "payload \<noteq> 0"
  shows "\<exists>s1 s2. worker_session puta geta (Some ca) ''A'' a s = Some (None, s1) \<and>
    worker_session putb getb (Some cb) ''B'' b s1 = Some (None, s2) \<and> plan_answer i payload True (co s2) \<and>
    (\<forall>s3. ok s3 \<and> co s3 = disconnect ka (co s2) \<longrightarrow> plan_answer i payload False (co s3) \<and>
       (\<exists>s4. worker_session putr getr (Some cr) ''A'' a s3 = Some (Some 1, s4) \<and> co s4 = co s3) \<and>
       (\<exists>s4. worker_session putr getr (Some cr) ''A'' a' s3 = Some (None, s4) \<and> plan_answer i payload True (co s4)))"
proof -
  have "co_fenced (co s) = []" by (simp add: assms(9) start_empty new_coordinator_def)
  with session_of_A [OF assms(1,8,4,10)] obtain s1 where
    s1: "worker_session puta geta (Some ca) ''A'' a s = Some (None, s1)" "ok s1"
    "co s1 = session_result ka 1 a ''A'' (worker_endpoints ''A'' a) (worker_links ''A'' a) (co s)" by auto
  have "co_fenced (co s1) = []" by (simp add: s1(3) session_result_def \<open>co_fenced (co s) = []\<close>)
  with session_of_B [OF assms(2) s1(2) assms(5,11), of "''B''"] obtain s2 where
    s2: "worker_session putb getb (Some cb) ''B'' b s1 = Some (None, s2)" "ok s2" "co s2 = both_sessions ka a kb b"
    by (auto simp: both_sessions_def s1(3) assms(9))
  have "plan_answer i payload True (co s2)"
    using both_published_feasible [OF both_sessions_published assms(10,11)]
    by (intro plan_answer_feasible [OF assms(14,15)]) (simp_all add: s2(3) both_sessions_frame)
  moreover have "plan_answer i payload False (co s3) \<and>
       (\<exists>s4. worker_session putr getr (Some cr) ''A'' a s3 = Some (Some 1, s4) \<and> co s4 = co s3) \<and>
       (\<exists>s4. worker_session putr getr (Some cr) ''A'' a' s3 = Some (None, s4) \<and> plan_answer i payload True (co s4))"
    if s3: "ok s3" "co s3 = disconnect ka (co s2)" for s3
  proof -
    note lost = both_sessions_disconnect [OF assms(7), where a = a and b = b, folded s2(3) s3(2)]
    have "plan_answer i payload False (co s3)"
      using dead_source_infeasible [of "co_snap (co s3)" 100] lost(4)
      by (intro plan_answer_feasible [OF assms(14,15) lost(1)]) simp
    moreover obtain s4 where "worker_session putr getr (Some cr) ''A'' a s3 = Some (Some 1, s4)" "co s4 = co s3"
      using session_refused [OF assms(3) s3(1) assms(6), of "''A''" a] lost(3) assms(10) by auto
    moreover obtain s5 where s5: "worker_session putr getr (Some cr) ''A'' a' s3 = Some (None, s5)"
      "co s5 = session_result kr 1 a' ''A'' (worker_endpoints ''A'' a') (worker_links ''A'' a') (co s3)"
      using session_of_A [OF assms(3) s3(1) assms(6,12)] lost(3) assms(13) by auto
    moreover have "plan_answer i payload True (co s5)"
      using both_published_feasible [OF lost(5) assms(12,11)] lost(1,2)
      by (intro plan_answer_feasible [OF assms(14,15)]) (simp_all add: s5(2), simp_all add: session_result_def)
    ultimately show ?thesis by blast
  qed
  ultimately show ?thesis using s1(1) s2(1) by blast
qed

theorem worker_loss_and_return_witness:
  "\<exists>s1 s2. worker_session (net_send 1) (net_recv 1) (Some \<lparr>cl_sock = 1, cl_connected = True\<rparr>) ''A'' 1000
       \<lparr>nw_co = start_coordinator [] coordinator_bounds None, nw_in = (\<lambda>_. []), nw_out = (\<lambda>_. [])\<rparr> = Some (None, s1) \<and>
     worker_session (net_send 2) (net_recv 2) (Some \<lparr>cl_sock = 2, cl_connected = True\<rparr>) ''B'' 2000 s1 = Some (None, s2) \<and>
     plan_answer 1 4096 True (nw_co s2) \<and>
     (\<exists>s3. nw_co s3 = disconnect 1 (nw_co s2) \<and> plan_answer 1 4096 False (nw_co s3) \<and>
        (\<exists>s4. worker_session (net_send 3) (net_recv 3) (Some \<lparr>cl_sock = 3, cl_connected = True\<rparr>) ''A'' 3000 s3 =
           Some (None, s4) \<and> plan_answer 1 4096 True (nw_co s4)))"
proof -
  let ?c = "\<lambda>k. \<lparr>cl_sock = k, cl_connected = True\<rparr>"
  let ?s = "\<lparr>nw_co = start_coordinator [] coordinator_bounds None, nw_in = (\<lambda>_. []), nw_out = (\<lambda>_. [])\<rparr>"
  obtain s1 s2 where s2: "worker_session (net_send 1) (net_recv 1) (Some (?c 1)) ''A'' 1000 ?s = Some (None, s1)"
    "worker_session (net_send 2) (net_recv 2) (Some (?c 2)) ''B'' 2000 s1 = Some (None, s2)" "plan_answer 1 4096 True (nw_co s2)"
    "\<And>s3. net_quiet s3 \<and> nw_co s3 = disconnect 1 (nw_co s2) \<Longrightarrow> plan_answer 1 4096 False (nw_co s3) \<and>
       (\<exists>s4. worker_session (net_send 3) (net_recv 3) (Some (?c 3)) ''A'' 3000 s3 = Some (None, s4) \<and> plan_answer 1 4096 True (nw_co s4))"
    using worker_loss_and_return [OF net_attached [of 1] net_attached [of 2] net_attached [of 3], of "?c 1" "?c 2" "?c 3" ?s
        1000 2000 3000 1 4096]
    by (auto simp: net_quiet_def)
  moreover have "net_quiet (?s\<lparr>nw_co := disconnect 1 (nw_co s2)\<rparr>)" by (simp add: net_quiet_def)
  ultimately show ?thesis
    by (metis Network.select_convs(1) Network.update_convs(1))
qed

end
