(* ===== verification/Cuda_Worker.thy ===== *)
theory Cuda_Worker
  imports Workers
begin

text \<open>
  The CUDA worker of \<open>cuda/cuda_worker_main.cu\<close>: the kernel and its launch, the execution of one order on
  the device, the loop over the frames of the coordinator, and the session that publishes the
  evidence. The CUDA runtime is a parameter, a record of its calls over a state of the device.
\<close>

section \<open>The kernel\<close>

text \<open>One thread of \<open>cuda_add_one_kernel\<close>; no entry is near the limit of \<open>int\<close>.\<close>

definition cuda_add_one_kernel :: "int list \<Rightarrow> nat \<Rightarrow> nat \<Rightarrow> nat \<times> nat \<Rightarrow> int list \<Rightarrow> int list" where
  "cuda_add_one_kernel inp n blockDim bt out =
     (let i = fst bt * blockDim + snd bt in if i < n then out[i := inp ! i + 1] else out)"

text \<open>The block and thread indices of a launch; the device runs them in an order of its own.\<close>

definition grid_threads :: "nat \<Rightarrow> nat \<Rightarrow> (nat \<times> nat) list" where
  "grid_threads blocks threads = List.product [0..<blocks] [0..<threads]"

definition run_grid :: "(nat \<times> nat) list \<Rightarrow> nat \<Rightarrow> nat \<Rightarrow> int list \<Rightarrow> int list \<Rightarrow> int list" where
  "run_grid order n blockDim inp out = fold (cuda_add_one_kernel inp n blockDim) order out"

definition launch_blocks :: "nat \<Rightarrow> nat" where
  "launch_blocks n = (n + 255) div 256"

lemma length_run_grid: "length (run_grid order n d inp out) = length out"
  by (induction order arbitrary: out) (simp_all add: run_grid_def cuda_add_one_kernel_def Let_def)

lemma run_grid_nth:
  assumes "length out = n" and "j < n"
  shows "run_grid order n d inp out ! j =
    (if \<exists>bt\<in>set order. fst bt * d + snd bt = j then inp ! j + 1 else out ! j)"
  using assms
  by (induction order arbitrary: out) (auto simp: run_grid_def cuda_add_one_kernel_def Let_def nth_list_update)

lemma run_grid_exact:
  assumes "mset order = mset (grid_threads (launch_blocks n) 256)" and "length inp = n" and "length out = n"
  shows "run_grid order n 256 inp out = map (\<lambda>x. x + 1) inp"
proof (rule nth_equalityI)
  have set: "set order = {..<launch_blocks n} \<times> {..<256}"
    using assms(1) by (metis atLeast_upt grid_threads_def set_mset_mset set_product)
  show "length (run_grid order n 256 inp out) = length (map (\<lambda>x. x + 1) inp)"
    using assms(2,3) by (simp add: length_run_grid)
  fix j assume "j < length (run_grid order n 256 inp out)"
  then have j: "j < n" using assms(3) by (simp add: length_run_grid)
  then have "j div 256 < launch_blocks n" unfolding launch_blocks_def by linarith
  then have "(j div 256, j mod 256) \<in> set order" using set by simp
  moreover have "j div 256 * 256 + j mod 256 = j" by simp
  ultimately have "\<exists>bt\<in>set order. fst bt * 256 + snd bt = j" by (metis fst_conv snd_conv)
  then show "run_grid order n 256 inp out ! j = map (\<lambda>x. x + 1) inp ! j"
    using run_grid_nth [OF assms(3) j] j assms(2) by simp
qed

section \<open>One order\<close>

text \<open>
  The calls of the runtime. Pointers are numbers, null is 0; \<open>cu_lastError\<close> returns whether there was no
  error and clears it; \<open>cu_fromDevice\<close> returns what it copied, or \<open>None\<close> when it failed.
\<close>

record 'd Cuda =
  cu_deviceCount :: "'d \<Rightarrow> int"
  cu_major :: "'d \<Rightarrow> int"
  cu_freeMemory :: "'d \<Rightarrow> u64"
  cu_malloc :: "nat \<Rightarrow> 'd \<Rightarrow> nat \<times> 'd"
  cu_mallocHost :: "nat \<Rightarrow> 'd \<Rightarrow> nat \<times> 'd"
  cu_lastError :: "'d \<Rightarrow> bool \<times> 'd"
  cu_toDevice :: "nat \<Rightarrow> int list \<Rightarrow> 'd \<Rightarrow> bool \<times> 'd"
  cu_launch :: "nat \<Rightarrow> nat \<Rightarrow> nat \<Rightarrow> nat \<Rightarrow> nat \<Rightarrow> 'd \<Rightarrow> 'd"
  cu_synchronize :: "'d \<Rightarrow> 'd"
  cu_fromDevice :: "nat \<Rightarrow> nat \<Rightarrow> 'd \<Rightarrow> int list option \<times> 'd"
  cu_free :: "nat \<Rightarrow> 'd \<Rightarrow> bool \<times> 'd"
  cu_freeHost :: "nat \<Rightarrow> 'd \<Rightarrow> bool \<times> 'd"

definition hostInput :: "nat \<Rightarrow> int list" where
  "hostInput n = map (\<lambda>i. int (i mod 128)) [0..<n]"

text \<open>The copies, the launch and the comparison; a failed call leaves out the later ones of its chain.\<close>

definition cuda_move :: "'d Cuda \<Rightarrow> nat \<Rightarrow> nat \<Rightarrow> nat \<Rightarrow> 'd \<Rightarrow> bool \<times> 'd" where
  "cuda_move cu n dIn dOut d0 =
     (let (ok1, d1) = cu_toDevice cu dIn (hostInput n) d0;
          d2 = cu_launch cu (launch_blocks n) 256 dOut dIn n d1;
          (ok2, d3) = (if ok1 then cu_lastError cu d2 else (False, d2));
          d4 = cu_synchronize cu d3;
          (back, d5) = (if ok2 then cu_fromDevice cu dOut n d4 else (None, d4));
          d6 = cu_synchronize cu d5
      in (back = Some (map (\<lambda>x. x + 1) (hostInput n)), d6))"

definition cuda_clean :: "'d Cuda \<Rightarrow> nat \<Rightarrow> nat \<Rightarrow> nat \<Rightarrow> 'd \<Rightarrow> bool \<times> 'd" where
  "cuda_clean cu dIn dOut pinned d0 =
     (let (ok1, d1) = cu_free cu dIn d0;
          (ok2, d2) = (if ok1 then cu_free cu dOut d1 else (False, d1))
      in if ok2 then cu_freeHost cu pinned d2 else (False, d2))"

record ExecutionReport =
  xr_ok :: bool
  xr_clean :: bool
  xr_baseline :: bool

text \<open>\<open>None\<close> when an allocation failed.\<close>

definition cuda_execute :: "'d Cuda \<Rightarrow> u64 \<Rightarrow> nat \<Rightarrow> 'd \<Rightarrow> ExecutionReport option \<times> 'd" where
  "cuda_execute cu freeBefore n d0 =
     (let (dIn, d1) = cu_malloc cu (4 * n) d0; (dOut, d2) = cu_malloc cu (4 * n) d1;
          (pinned, d3) = cu_mallocHost cu (4 * n) d2; (alloc, d4) = cu_lastError cu d3
      in if \<not> alloc then (None, d4)
         else
           let (moved, d5) = cuda_move cu n dIn dOut d4; (clean, d6) = cuda_clean cu dIn dOut pinned d5;
               baseline = (freeBefore \<le> cu_freeMemory cu d6)
           in (Some \<lparr>xr_ok = moved \<and> clean \<and> baseline, xr_clean = clean, xr_baseline = baseline\<rparr>, d6))"

section \<open>The loop over frames\<close>

text \<open>The number of integers in an order: the conversion to \<open>int\<close> keeps 32 bits.\<close>

definition order_count :: "u64 \<Rightarrow> int" where
  "order_count bytes = to_int32 (bytes div 4)"

text \<open>What a frame makes the worker do: whether it stops, and the result it sends, if any.\<close>

definition cuda_serve ::
  "'d Cuda \<Rightarrow> WorkerId \<Rightarrow> Generation \<Rightarrow> u64 \<Rightarrow> Frame \<Rightarrow> 'd \<Rightarrow> bool \<times> Message option \<times> 'd" where
  "cuda_serve cu wid boot freeBefore f d =
     (case decodeMessage (fr_type f) (fr_payload f) of
        Inl e \<Rightarrow> (False, None, d)
      | Inr m \<Rightarrow>
          if fr_type f = SHUTDOWN then (True, None, d)
          else if fr_type f = EXECUTE then
            if ms_boot m \<noteq> boot then (False, None, d)
            else if order_count (ms_bytes m) \<le> 0 then (False, None, d)
            else
              (case cuda_execute cu freeBefore (nat (order_count (ms_bytes m))) d of
                 (None, d') \<Rightarrow> (False, None, d')
               | (Some r, d') \<Rightarrow>
                   (False,
                    Some (default_Message\<lparr>ms_type := EXECUTION_RESULT, ms_planId := ms_planId m, ms_ok := xr_ok r,
                       ms_bytes := ms_bytes m, ms_worker := wid, ms_boot := boot\<rparr>), d'))
          else (False, None, d))"

text \<open>One iteration: whether the loop goes on. The result of sending is ignored.\<close>

definition cuda_iteration ::
  "'s sender \<Rightarrow> 's receiver \<Rightarrow> 'd Cuda \<Rightarrow> WorkerId \<Rightarrow> Generation \<Rightarrow> u64 \<Rightarrow> 's \<times> 'd \<Rightarrow> (bool \<times> 's \<times> 'd) option" where
  "cuda_iteration put get cu wid boot freeBefore sd =
     (case recvFrame get (fst sd) of
        (Inl e, s1) \<Rightarrow> Some (False, s1, snd sd)
      | (Inr f, s1) \<Rightarrow>
          (case cuda_serve cu wid boot freeBefore f (snd sd) of
             (True, _, d1) \<Rightarrow> Some (False, s1, d1)
           | (False, None, d1) \<Rightarrow> Some (True, s1, d1)
           | (False, Some r, d1) \<Rightarrow>
               (case sendFrame put \<lparr>fr_type = EXECUTION_RESULT, fr_payload = encodeMessage r\<rparr> s1 of
                  None \<Rightarrow> None
                | Some (_, s2) \<Rightarrow> Some (True, s2, d1))))"

text \<open>Until the connection fails or the coordinator asks for the end.\<close>

partial_function (option) cuda_loop ::
  "'s sender \<Rightarrow> 's receiver \<Rightarrow> 'd Cuda \<Rightarrow> WorkerId \<Rightarrow> Generation \<Rightarrow> u64 \<Rightarrow> 's \<times> 'd \<Rightarrow> ('s \<times> 'd) option" where
  "cuda_loop put get cu wid boot freeBefore sd =
     (case cuda_iteration put get cu wid boot freeBefore sd of
        None \<Rightarrow> None
      | Some r \<Rightarrow> if fst r then cuda_loop put get cu wid boot freeBefore (snd r) else Some (snd r))"

section \<open>The session\<close>

definition cuda_mkEp :: "WorkerId \<Rightarrow> Generation \<Rightarrow> EndpointId \<Rightarrow> EndpointKind \<Rightarrow> NodeId \<Rightarrow> Endpoint" where
  "cuda_mkEp wid boot i kind node =
     default_Endpoint\<lparr>ep_id := i, ep_generation := 1, ep_kind := kind, ep_node := node, ep_ready := True,
       ep_reachable := True, ep_health := default_Health\<lparr>he_healthy := True, he_generation := 1\<rparr>,
       ep_capability := default_Capability
         \<lparr>cap_transports := set_insert Transport.HOST_MEMORY (set_insert Transport.CUDA []),
          cap_provenance := Provenance.MEASURED, cap_generation := 1\<rparr>,
       ep_worker := wid, ep_workerBoot := boot, ep_provenance := Provenance.MEASURED\<rparr>"

definition thirty_gib :: u64 where
  "thirty_gib = push_bit 30 30"

definition cuda_capacity :: Capacity where
  "cuda_capacity = \<lparr>cy_generation = 1, cy_usable = thirty_gib, cy_headroom = thirty_gib, cy_provenance = Provenance.REPORTED\<rparr>"

definition cuda_congestion :: Congestion where
  "cuda_congestion = \<lparr>cg_generation = 1, cg_load = dzero, cg_penalty = dzero, cg_hardLimitExceeded = False,
     cg_provenance = Provenance.REPORTED\<rparr>"

definition cuda_link :: "Generation \<Rightarrow> Link" where
  "cuda_link boot =
     default_Link\<lparr>ln_id := 1, ln_generation := 1, ln_source := 1, ln_destination := 2, ln_transport := Transport.CUDA,
       ln_directed := True, ln_kind := LinkKind.GPU_HOST_PATH, ln_capacity := thirty_gib,
       ln_effectiveBandwidth := thirty_gib, ln_latency := 5000,
       ln_health := default_Health\<lparr>he_healthy := True, he_generation := 1\<rparr>,
       ln_congestion := default_Congestion\<lparr>cg_generation := 1, cg_provenance := Provenance.REPORTED\<rparr>,
       ln_capacityEvidence := cuda_capacity, ln_topologyGeneration := 1, ln_capabilityGeneration := 1,
       ln_workerBoot := boot, ln_provenance := Provenance.MEASURED\<rparr>"

definition gpu_arch :: "u8 list" where
  "gpu_arch = map of_char ''sm_120''"

definition cuda_register :: "WorkerId \<Rightarrow> Generation \<Rightarrow> string \<Rightarrow> Message" where
  "cuda_register wid boot role = default_Message\<lparr>ms_type := REGISTER, ms_worker := wid, ms_boot := boot, ms_name := role\<rparr>"

text \<open>What it publishes, in order.\<close>

definition cuda_publications :: "WorkerId \<Rightarrow> Generation \<Rightarrow> Message list" where
  "cuda_publications wid boot =
     (let own = default_Message\<lparr>ms_worker := wid, ms_boot := boot\<rparr>
      in [own\<lparr>ms_type := PUBLISH_ENDPOINT, ms_endpoint := cuda_mkEp wid boot 1 EndpointKind.CPU_MEMORY 1\<rparr>,
          own\<lparr>ms_type := PUBLISH_ENDPOINT,
              ms_endpoint := setArch gpu_arch (cuda_mkEp wid boot 2 EndpointKind.GPU_DEVICE 2)\<rparr>,
          own\<lparr>ms_type := PUBLISH_LINK, ms_link := cuda_link boot\<rparr>,
          own\<lparr>ms_type := PUBLISH_CAPACITY, ms_linkId := 1, ms_capacity := cuda_capacity\<rparr>,
          own\<lparr>ms_type := PUBLISH_CONGESTION, ms_linkId := 1, ms_congestion := cuda_congestion\<rparr>])"

text \<open>One message and the frame that answers it. Only the transport can fail: what the answer says is not read.\<close>

definition cuda_tell :: "'s sender \<Rightarrow> 's receiver \<Rightarrow> Message \<Rightarrow> 's \<Rightarrow> ((string + unit) \<times> 's) option" where
  "cuda_tell put get m s =
     (case sendFrame put \<lparr>fr_type = ms_type m, fr_payload = encodeMessage m\<rparr> s of
        None \<Rightarrow> None
      | Some (Inl e, s1) \<Rightarrow> Some (Inl e, s1)
      | Some (Inr _, s1) \<Rightarrow> (case recvFrame get s1 of (Inl e, s2) \<Rightarrow> Some (Inl e, s2) | (Inr f, s2) \<Rightarrow> Some (Inr (), s2)))"

text \<open>\<open>pub\<close> ignores even that, and waits for the answer in any case.\<close>

definition cuda_pub :: "'s sender \<Rightarrow> 's receiver \<Rightarrow> Message \<Rightarrow> 's \<Rightarrow> 's option" where
  "cuda_pub put get m s =
     (case sendFrame put \<lparr>fr_type = ms_type m, fr_payload = encodeMessage m\<rparr> s of
        None \<Rightarrow> None
      | Some (_, s1) \<Rightarrow> Some (snd (recvFrame get s1)))"

fun cuda_pubs :: "'s sender \<Rightarrow> 's receiver \<Rightarrow> Message list \<Rightarrow> 's \<Rightarrow> 's option" where
  "cuda_pubs put get [] s = Some s"
| "cuda_pubs put get (m # ms) s = (case cuda_pub put get m s of None \<Rightarrow> None | Some s1 \<Rightarrow> cuda_pubs put get ms s1)"

text \<open>From the greeting to \<open>CUDA WORKER READY\<close>: the exit code of an early return, or the baseline.\<close>

definition cuda_session ::
  "'s sender \<Rightarrow> 's receiver \<Rightarrow> 'd Cuda \<Rightarrow> string \<Rightarrow> Generation \<Rightarrow> 's \<Rightarrow> 'd \<Rightarrow> ((int + u64) \<times> 's) option" where
  "cuda_session put get cu role boot s d =
     (case recvFrame get s of
        (Inl e, s1) \<Rightarrow> Some (Inl 1, s1)
      | (Inr hello, s1) \<Rightarrow>
          if cu_deviceCount cu d < 1 then Some (Inl 1, s1)
          else if cu_major cu d \<noteq> 12 then Some (Inl 1, s1)
          else
            (case cuda_tell put get (cuda_register 1 boot role) s1 of
               None \<Rightarrow> None
             | Some (Inl e, s2) \<Rightarrow> Some (Inl 1, s2)
             | Some (Inr _, s2) \<Rightarrow>
                 (case cuda_pubs put get (cuda_publications 1 boot) s2 of
                    None \<Rightarrow> None
                  | Some s3 \<Rightarrow> Some (Inr (cu_freeMemory cu d), s3))))"

definition cuda_worker_main ::
  "'s Winsock \<Rightarrow> (SOCKET \<Rightarrow> 's sender) \<Rightarrow> (SOCKET \<Rightarrow> 's receiver) \<Rightarrow> 'd Cuda \<Rightarrow> string list \<Rightarrow> 's \<Rightarrow> 'd \<Rightarrow>
     (int \<times> 's \<times> 'd) option" where
  "cuda_worker_main w put get cu argv os d =
     (if length argv < 4 then Some (2, os, d)
      else
        (case connectTo w ''127.0.0.1'' (of_int (atoi (argv ! 1))) [] (snd (libraryInit w os)) of
           (s, _, os1) \<Rightarrow>
             if s = INVALID_SOCKET then Some (1, os1, d)
             else
               (case cuda_session (put s) (get s) cu (argv ! 2) (strtoull (argv ! 3)) os1 d of
                  None \<Rightarrow> None
                | Some (Inl code, os2) \<Rightarrow> Some (code, os2, d)
                | Some (Inr freeBefore, os2) \<Rightarrow>
                    (case cuda_loop (put s) (get s) cu 1 (strtoull (argv ! 3)) freeBefore (os2, d) of
                       None \<Rightarrow> None
                     | Some (os3, d') \<Rightarrow> Some (0, libraryCleanup w (snd (closeSock w s os3)), d')))))"

section \<open>A device that works\<close>

text \<open>
  What the calls do on a device with memory enough: with \<open>blk d\<close> the blocks allocated on the device and
  their contents, every call succeeds and does what it is for; the threads of a launch run in some
  order; the free memory depends on the blocks alone.
\<close>

definition device_allocates :: "'d Cuda \<Rightarrow> ('d \<Rightarrow> nat \<Rightarrow> int list option) \<Rightarrow> bool" where
  "device_allocates cu blk \<longleftrightarrow>
     (\<forall>n d. \<exists>p d' ys. cu_malloc cu (4 * n) d = (p, d') \<and> blk d p = None \<and> length ys = n \<and> blk d' = (blk d)(p \<mapsto> ys)) \<and>
     (\<forall>n d. \<exists>p d'. cu_mallocHost cu n d = (p, d') \<and> blk d' = blk d) \<and>
     (\<forall>d. \<exists>d'. cu_lastError cu d = (True, d') \<and> blk d' = blk d)"

definition device_moves :: "'d Cuda \<Rightarrow> ('d \<Rightarrow> nat \<Rightarrow> int list option) \<Rightarrow> bool" where
  "device_moves cu blk \<longleftrightarrow>
     (\<forall>p xs ys d. blk d p = Some ys \<and> length ys = length xs \<longrightarrow>
        (\<exists>d'. cu_toDevice cu p xs d = (True, d') \<and> blk d' = (blk d)(p \<mapsto> xs))) \<and>
     (\<forall>b t q p n xs ys d. blk d p = Some xs \<and> blk d q = Some ys \<and> p \<noteq> q \<longrightarrow>
        (\<exists>order. mset order = mset (grid_threads b t) \<and>
           blk (cu_launch cu b t q p n d) = (blk d)(q \<mapsto> run_grid order n t xs ys))) \<and>
     (\<forall>d. blk (cu_synchronize cu d) = blk d) \<and>
     (\<forall>p ys d. blk d p = Some ys \<longrightarrow> (\<exists>d'. cu_fromDevice cu p (length ys) d = (Some ys, d') \<and> blk d' = blk d))"

definition device_releases :: "'d Cuda \<Rightarrow> ('d \<Rightarrow> nat \<Rightarrow> int list option) \<Rightarrow> bool" where
  "device_releases cu blk \<longleftrightarrow>
     (\<forall>p d. blk d p \<noteq> None \<longrightarrow> (\<exists>d'. cu_free cu p d = (True, d') \<and> blk d' = (blk d)(p := None))) \<and>
     (\<forall>p d. \<exists>d'. cu_freeHost cu p d = (True, d') \<and> blk d' = blk d) \<and>
     (\<forall>d d'. blk d' = blk d \<longrightarrow> cu_freeMemory cu d' = cu_freeMemory cu d)"

definition device_works :: "'d Cuda \<Rightarrow> ('d \<Rightarrow> nat \<Rightarrow> int list option) \<Rightarrow> bool" where
  "device_works cu blk \<longleftrightarrow> device_allocates cu blk \<and> device_moves cu blk \<and> device_releases cu blk"

lemma length_hostInput [simp]: "length (hostInput n) = n"
  by (simp add: hostInput_def)

lemma cuda_move_works:
  assumes "device_works cu blk" and "blk d p = Some xs" and "blk d q = Some ys" and "p \<noteq> q" and "length xs = n" and "length ys = n"
  shows "\<exists>d'. cuda_move cu n p q d = (True, d') \<and>
    blk d' = (blk d)(p \<mapsto> hostInput n, q \<mapsto> map (\<lambda>x. x + 1) (hostInput n))"
proof -
  have moves: "device_moves cu blk" and alloc: "device_allocates cu blk" using assms(1) by (simp_all add: device_works_def)
  obtain d1 where d1: "cu_toDevice cu p (hostInput n) d = (True, d1)" "blk d1 = (blk d)(p \<mapsto> hostInput n)"
    using moves assms(2,5) unfolding device_moves_def by (metis length_hostInput)
  let ?d2 = "cu_launch cu (launch_blocks n) 256 q p n d1"
  obtain order where order: "mset order = mset (grid_threads (launch_blocks n) 256)"
    "blk ?d2 = (blk d1)(q \<mapsto> run_grid order n 256 (hostInput n) ys)"
    using moves assms(3,4) d1(2) unfolding device_moves_def by (metis fun_upd_apply)
  then have d2: "blk ?d2 = (blk d1)(q \<mapsto> map (\<lambda>x. x + 1) (hostInput n))"
    using run_grid_exact [OF order(1) length_hostInput assms(6)] by simp
  obtain d3 where d3: "cu_lastError cu ?d2 = (True, d3)" "blk d3 = blk ?d2"
    using alloc unfolding device_allocates_def by blast
  have sync: "blk (cu_synchronize cu e) = blk e" for e using moves unfolding device_moves_def by blast
  obtain d5 where d5: "cu_fromDevice cu q n (cu_synchronize cu d3) = (Some (map (\<lambda>x. x + 1) (hostInput n)), d5)"
    "blk d5 = blk d3"
  proof -
    have "blk (cu_synchronize cu d3) q = Some (map (\<lambda>x. x + 1) (hostInput n))" by (simp add: sync d3(2) d2)
    then show thesis using moves that unfolding device_moves_def by (metis length_hostInput length_map sync)
  qed
  show ?thesis
    using d1 d3 d5 by (simp add: cuda_move_def sync d2)
qed

lemma cuda_clean_works:
  assumes "device_works cu blk" and "blk d p = Some xs" and "blk d q = Some ys" and "p \<noteq> q"
  shows "\<exists>d'. cuda_clean cu p q h d = (True, d') \<and> blk d' = (blk d)(p := None, q := None)"
proof -
  have rel: "device_releases cu blk" using assms(1) by (simp add: device_works_def)
  obtain d1 where d1: "cu_free cu p d = (True, d1)" "blk d1 = (blk d)(p := None)"
    using rel assms(2) unfolding device_releases_def by (metis option.distinct(1))
  then have "blk d1 q \<noteq> None" using assms(3,4) by simp
  then obtain d2 where d2: "cu_free cu q d1 = (True, d2)" "blk d2 = (blk d1)(q := None)"
    using rel unfolding device_releases_def by blast
  obtain d3 where "cu_freeHost cu h d2 = (True, d3)" "blk d3 = blk d2"
    using rel unfolding device_releases_def by blast
  then show ?thesis using d1 d2 by (simp add: cuda_clean_def)
qed

lemma cuda_execute_works:
  assumes "device_works cu blk"
  shows "\<exists>d'. cuda_execute cu (cu_freeMemory cu d) n d = (Some \<lparr>xr_ok = True, xr_clean = True, xr_baseline = True\<rparr>, d') \<and>
    blk d' = blk d"
proof -
  have alloc: "device_allocates cu blk" and rel: "device_releases cu blk" using assms by (simp_all add: device_works_def)
  obtain p d1 xs where p: "cu_malloc cu (4 * n) d = (p, d1)" "blk d p = None" "length xs = n" "blk d1 = (blk d)(p \<mapsto> xs)"
    using alloc unfolding device_allocates_def by blast
  obtain q d2 ys where q: "cu_malloc cu (4 * n) d1 = (q, d2)" "blk d1 q = None" "length ys = n" "blk d2 = (blk d1)(q \<mapsto> ys)"
    using alloc unfolding device_allocates_def by blast
  obtain h d3 where h: "cu_mallocHost cu (4 * n) d2 = (h, d3)" "blk d3 = blk d2"
    using alloc unfolding device_allocates_def by blast
  obtain d4 where d4: "cu_lastError cu d3 = (True, d4)" "blk d4 = blk d3"
    using alloc unfolding device_allocates_def by blast
  have pq: "p \<noteq> q" "blk d q = None" using p(4) q(2) by (auto split: if_splits)
  then have "blk d4 p = Some xs" "blk d4 q = Some ys" using p(4) q(4) h(2) d4(2) by simp_all
  from cuda_move_works [OF assms this pq(1) p(3) q(3)] obtain d5 where
    d5: "cuda_move cu n p q d4 = (True, d5)" "blk d5 = (blk d4)(p \<mapsto> hostInput n, q \<mapsto> map (\<lambda>x. x + 1) (hostInput n))" by auto
  then have "blk d5 p = Some (hostInput n)" "blk d5 q = Some (map (\<lambda>x. x + 1) (hostInput n))" using pq(1) by simp_all
  from cuda_clean_works [OF assms this pq(1)] obtain d6 where
    d6: "cuda_clean cu p q h d5 = (True, d6)" "blk d6 = (blk d5)(p := None, q := None)" by auto
  have restored: "blk d6 = blk d"
  proof
    fix x
    show "blk d6 x = blk d x"
      unfolding d6(2) d5(2) d4(2) h(2) q(4) p(4) using p(2) pq(2) by (cases "x = p"; cases "x = q") simp_all
  qed
  then have "cu_freeMemory cu d6 = cu_freeMemory cu d" using rel unfolding device_releases_def by blast
  then show ?thesis using restored p(1) q(1) h(1) d4(1) d5(1) d6(1) by (simp add: cuda_execute_def)
qed

text \<open>A device that keeps its blocks in a list.\<close>

definition sample_cuda :: "(nat \<times> int list) list Cuda" where
  "sample_cuda =
     \<lparr>cu_deviceCount = (\<lambda>_. 1), cu_major = (\<lambda>_. 12), cu_freeMemory = (\<lambda>d. 1000 - of_nat (card (fst ` set d))),
      cu_malloc = (\<lambda>n d. let p = Suc (foldr max (map fst d) 0) in (p, (p, replicate (n div 4) 0) # d)),
      cu_mallocHost = (\<lambda>n. Pair 1), cu_lastError = Pair True, cu_toDevice = (\<lambda>p xs d. (True, (p, xs) # d)),
      cu_launch = (\<lambda>b t q p n d. (q, run_grid (grid_threads b t) n t (the (map_of d p)) (the (map_of d q))) # d),
      cu_synchronize = id, cu_fromDevice = (\<lambda>p n d. (map_of d p, d)),
      cu_free = (\<lambda>p d. (True, filter (\<lambda>b. fst b \<noteq> p) d)), cu_freeHost = (\<lambda>p. Pair True)\<rparr>"

lemma sample_cuda_works: "device_works sample_cuda map_of"
proof -
  have fresh: "map_of d (Suc (foldr max (map fst d) 0)) = None" for d :: "(nat \<times> int list) list"
  proof -
    have "k \<le> foldr max (map fst d) 0" if "k \<in> fst ` set d" for k using that by (induction d) force+
    then have "Suc (foldr max (map fst d) 0) \<notin> fst ` set d" using Suc_n_not_le_n by blast
    then show ?thesis by (simp add: map_of_eq_None_iff)
  qed
  have filt: "map_of (filter (\<lambda>b. fst b \<noteq> p) d) = (map_of d)(p := None)" for p and d :: "(nat \<times> int list) list"
    by (induction d) (auto simp: fun_eq_iff)
  have "device_releases sample_cuda map_of"
    unfolding device_releases_def
  proof (intro conjI allI impI)
    fix d d' :: "(nat \<times> int list) list" assume "map_of d' = map_of d"
    then have "fst ` set d' = fst ` set d" by (metis dom_map_of_conv_image_fst)
    then show "cu_freeMemory sample_cuda d' = cu_freeMemory sample_cuda d" by (simp add: sample_cuda_def)
  qed (simp_all add: sample_cuda_def filt)
  moreover have "device_allocates sample_cuda map_of"
    using fresh by (simp add: device_allocates_def sample_cuda_def Let_def) (metis length_replicate)
  moreover have "device_moves sample_cuda map_of" by (auto simp: device_moves_def sample_cuda_def)
  ultimately show ?thesis by (simp add: device_works_def)
qed

end
