(* ===== verification/Cuda_Theorems.thy ===== *)
theory Cuda_Theorems
  imports Cuda_Worker
begin

text \<open>
  The CUDA worker and the coordinator together, the course of \<open>apps/cuda_worker_death_proof.cpp\<close>: the
  session and the evidence it leaves, the plan over that evidence from its request to the result of
  its execution on the device, the loss of the worker and its return under another boot.
\<close>

section \<open>A plan without staging, from commitment to result\<close>

lemma set_state_twice [simp]: "set_plan_state i y (set_plan_state i x st) = set_plan_state i y st"
  by (simp add: set_plan_state_def map_find_assign assign_twice split: option.split)

lemma find_set_state:
  "map_find (co_plans st) i = Some r \<Longrightarrow> map_find (co_plans (set_plan_state i x st)) i = Some (r\<lparr>pr_state := x\<rparr>)"
  by (simp add: set_plan_state_def map_find_assign)

lemma set_state_frame [simp]:
  "co_snap (set_plan_state i x st) = co_snap st" "co_workers (set_plan_state i x st) = co_workers st"
  "co_broker (set_plan_state i x st) = co_broker st" "co_cancelled (set_plan_state i x st) = co_cancelled st"
  "co_bounds (set_plan_state i x st) = co_bounds st" "co_fenced (set_plan_state i x st) = co_fenced st"
  "co_socketToWorker (set_plan_state i x st) = co_socketToWorker st"
  "co_counters (set_plan_state i x st) = co_counters st" "co_weights (set_plan_state i x st) = co_weights st"
  by (simp_all add: set_plan_state_def split: option.split)

lemma acquire_nothing: "br_failAfter b < 0 \<Longrightarrow> acquire [] [] b = (None, b)"
  by (simp add: acquire_def)

lemma broker_same [simp]: "st\<lparr>co_broker := co_broker st\<rparr> = st"
  by simp

lemma unstaged_commit:
  assumes "map_find (co_plans st) i = Some r" and "pr_state r = PlanState.PLAN_READY"
    and "pl_requestId (pr_plan r) \<notin> set (co_cancelled st)" and "pl_requiredResourceClaims (pr_plan r) = []"
    and "br_failAfter (co_broker st) < 0"
  shows "handleCommit k (default_Message\<lparr>ms_type := COMMIT_REQUEST, ms_planId := i\<rparr>) st =
    (send_result k True i, set_plan_state i PlanState.COMMITTED st)"
proof -
  let ?c = "\<lparr>pc_sock = k, pc_plan = i, pc_resources = [], pc_sizes = []\<rparr>"
  let ?st = "set_plan_state i PlanState.AWAITING_RESOURCE_COMMIT st"
  have "commit_begin k (default_Message\<lparr>ms_type := COMMIT_REQUEST, ms_planId := i\<rparr>) st = ([], Some ?c, ?st)"
    using assms(1-4) by (simp add: commit_begin_def Let_def)
  moreover have "commit_acquire ?c ?st = (None, ?st)"
    using acquire_nothing [OF assms(5)] by (simp add: commit_acquire_def)
  moreover have "commit_finish ?c None ?st = (send_result k True i, set_plan_state i PlanState.COMMITTED st)"
    using assms(3) by (simp add: commit_finish_def find_set_state [OF assms(1)] sendOk_def)
  ultimately show ?thesis by (simp add: handleCommit_def)
qed

text \<open>A ready plan without staging over current evidence, whose executor is connected.\<close>

definition deliverable :: "Coordinator \<Rightarrow> CommunicationPlanId \<Rightarrow> PlanRecord \<Rightarrow> SOCKET \<Rightarrow> bool" where
  "deliverable st i r kw \<longleftrightarrow>
     map_find (co_plans st) i = Some r \<and> pl_id (pr_plan r) = i \<and> pr_state r = PlanState.PLAN_READY \<and>
     pl_requestId (pr_plan r) \<notin> set (co_cancelled st) \<and> pl_requiredResourceClaims (pr_plan r) = [] \<and>
     br_failAfter (co_broker st) < 0 \<and> rv_ok (revalidatePlan (pr_plan r) (co_snap st)) \<and> pr_worker r \<noteq> 0 \<and>
     (\<exists>w. map_find (co_workers st) (pr_worker r) = Some w \<and> wi_alive w \<and> wi_sock w = kw \<and> kw \<noteq> INVALID_SOCKET)"

definition execute_order :: "PlanRecord \<Rightarrow> Message" where
  "execute_order r =
     default_Message\<lparr>ms_type := EXECUTE, ms_planId := pl_id (pr_plan r),
       ms_bytes := (case pl_orderedStages (pr_plan r) of [] \<Rightarrow> 0 | g # _ \<Rightarrow> st_payload g),
       ms_worker := pr_worker r, ms_boot := pr_boot r\<rparr>"

lemma deliverable_run:
  assumes "deliverable st i r kw"
  shows "handleMessage k (wire_message (default_Message\<lparr>ms_type := COMMIT_REQUEST, ms_planId := i\<rparr>)) st =
      Inr (send_result k True i, set_plan_state i PlanState.COMMITTED st)"
    and "handleMessage k (wire_message (default_Message\<lparr>ms_type := REVALIDATE, ms_planId := i\<rparr>))
      (set_plan_state i PlanState.COMMITTED st) =
      Inr (send_result k True i, set_plan_state i PlanState.AWAITING_EXECUTION st)"
    and "handleMessage k (wire_message (default_Message\<lparr>ms_type := EXECUTION_HANDOFF, ms_planId := i\<rparr>))
      (set_plan_state i PlanState.AWAITING_EXECUTION st) =
      Inr (send_message kw EXECUTE (execute_order r) @ send_result k True i, set_plan_state i PlanState.ACTIVE st)"
    and "handleMessage kw (wire_message (default_Message\<lparr>ms_type := EXECUTION_RESULT, ms_planId := i, ms_ok := x,
        ms_bytes := n, ms_worker := pr_worker r, ms_boot := pr_boot r\<rparr>)) (set_plan_state i PlanState.ACTIVE st) =
      Inr (send_result kw True i, set_plan_state i (if x then PlanState.COMPLETED else PlanState.FAILED) st)"
proof -
  have r: "map_find (co_plans st) i = Some r" "pl_id (pr_plan r) = i"
    and live: "rv_ok (revalidatePlan (pr_plan r) (co_snap st))"
    using assms by (simp_all add: deliverable_def)
  note plain = handleMessage_def wire_message_def default_Message_def
  show "handleMessage k (wire_message (default_Message\<lparr>ms_type := COMMIT_REQUEST, ms_planId := i\<rparr>)) st =
      Inr (send_result k True i, set_plan_state i PlanState.COMMITTED st)"
    using unstaged_commit [of st i r k] assms by (simp add: deliverable_def plain)
  show "handleMessage k (wire_message (default_Message\<lparr>ms_type := REVALIDATE, ms_planId := i\<rparr>))
      (set_plan_state i PlanState.COMMITTED st) =
      Inr (send_result k True i, set_plan_state i PlanState.AWAITING_EXECUTION st)"
    using live by (simp add: plain handle_revalidate_def find_set_state [OF r(1)])
  have "send_execute (r\<lparr>pr_state := PlanState.AWAITING_EXECUTION\<rparr>) (set_plan_state i PlanState.AWAITING_EXECUTION st) =
      send_message kw EXECUTE (execute_order r)"
    using assms by (auto simp: deliverable_def send_execute_def isNull_def execute_order_def)
  then show "handleMessage k (wire_message (default_Message\<lparr>ms_type := EXECUTION_HANDOFF, ms_planId := i\<rparr>))
      (set_plan_state i PlanState.AWAITING_EXECUTION st) =
      Inr (send_message kw EXECUTE (execute_order r) @ send_result k True i, set_plan_state i PlanState.ACTIVE st)"
    using live by (simp add: plain handle_handoff_def find_set_state [OF r(1)])
  show "handleMessage kw (wire_message (default_Message\<lparr>ms_type := EXECUTION_RESULT, ms_planId := i, ms_ok := x,
        ms_bytes := n, ms_worker := pr_worker r, ms_boot := pr_boot r\<rparr>)) (set_plan_state i PlanState.ACTIVE st) =
      Inr (send_result kw True i, set_plan_state i (if x then PlanState.COMPLETED else PlanState.FAILED) st)"
    by (simp add: plain handle_execution_result_def find_set_state [OF r(1)])
qed

section \<open>The worker at the other end\<close>

definition execute_frame :: "PlanRecord \<Rightarrow> Frame" where
  "execute_frame r = \<lparr>fr_type = EXECUTE, fr_payload = encodeMessage (execute_order r)\<rparr>"

lemma order_read: "decodeMessage EXECUTE (encodeMessage (execute_order r)) = Inr (execute_order r)"
proof -
  have "message_ok (execute_order r)" "wire_message (execute_order r) = execute_order r" "ms_type (execute_order r) = EXECUTE"
    by (simp_all add: message_ok_def wire_message_def execute_order_def default_Message_def)
  then show ?thesis using message_back [of "execute_order r" "[]"] by simp
qed

lemma worker_executes:
  assumes "pr_boot r = boot" and "0 < order_count (ms_bytes (execute_order r))"
    and "cuda_execute cu fb (nat (order_count (ms_bytes (execute_order r)))) d = (Some x, d')"
  shows "cuda_serve cu wid boot fb (execute_frame r) d =
    (False, Some (default_Message\<lparr>ms_type := EXECUTION_RESULT, ms_planId := pl_id (pr_plan r), ms_ok := xr_ok x,
       ms_bytes := ms_bytes (execute_order r), ms_worker := wid, ms_boot := boot\<rparr>), d')"
proof -
  have "ms_boot (execute_order r) = boot" "ms_planId (execute_order r) = pl_id (pr_plan r)"
    using assms(1) by (simp_all add: execute_order_def)
  then show ?thesis using assms(2,3) by (simp add: cuda_serve_def execute_frame_def order_read)
qed

lemma worker_ignores_other_boot:
  assumes "pr_boot r \<noteq> boot"
  shows "cuda_serve cu wid boot fb (execute_frame r) d = (False, None, d)"
proof -
  have "ms_boot (execute_order r) \<noteq> boot" using assms by (simp add: execute_order_def)
  then show ?thesis by (simp add: cuda_serve_def execute_frame_def order_read)
qed

section \<open>The evidence of a session\<close>

text \<open>As it arrives at the coordinator, with the capacity and congestion published last.\<close>

definition cuda_endpoints :: "Generation \<Rightarrow> Endpoint list" where
  "cuda_endpoints boot =
     (let own = (\<lambda>e. (wire_endpoint e)\<lparr>ep_worker := 1, ep_workerBoot := boot\<rparr>)
      in [own (cuda_mkEp 1 boot 1 EndpointKind.CPU_MEMORY 1),
          own (setArch gpu_arch (cuda_mkEp 1 boot 2 EndpointKind.GPU_DEVICE 2))])"

definition cuda_evidence :: "Generation \<Rightarrow> EvidenceSnapshot \<Rightarrow> bool" where
  "cuda_evidence boot s \<longleftrightarrow> sn_endpoints s = cuda_endpoints boot \<and>
     sn_links s = [(wire_link (cuda_link boot))\<lparr>ln_capacityEvidence := cuda_capacity, ln_congestion := cuda_congestion\<rparr>] \<and>
     map_find (sn_workerBoots s) 1 = Some boot \<and> sn_reservations s = []"

definition cuda_result :: "SOCKET \<Rightarrow> Generation \<Rightarrow> string \<Rightarrow> Coordinator \<Rightarrow> Coordinator" where
  "cuda_result k boot role st =
     (let st1 = session_result k 1 boot role (cuda_endpoints boot) [(wire_link (cuda_link boot))\<lparr>ln_workerBoot := boot\<rparr>] st
      in st1\<lparr>co_snap := (co_snap st1)
           \<lparr>sn_capacityGeneration := gen_next (sn_capacityGeneration (co_snap st1)),
            sn_congestionGeneration := gen_next (sn_congestionGeneration (co_snap st1)),
            sn_links := map (\<lambda>l. if ln_id l = 1
              then l\<lparr>ln_capacityEvidence := cuda_capacity, ln_congestion := cuda_congestion\<rparr> else l) (sn_links (co_snap st1))\<rparr>\<rparr>)"

lemmas cuda_evidence_defs = cuda_endpoints_def cuda_mkEp_def cuda_link_def setArch_def gpu_arch_def
  wire_link_def wire_endpoint_def default_Link_def default_Endpoint_def default_Capability_def default_Health_def
  default_Congestion_def default_Capacity_def default_TopologyLocation_def

lemma cuda_transports: "set_insert Transport.HOST_MEMORY (set_insert Transport.CUDA []) = [Transport.HOST_MEMORY, Transport.CUDA]"
  "Transport.HOST_MEMORY < Transport.CUDA"
  by (simp_all add: less_Transport_def all_Transport_def)

text \<open>A telling that is delivered and answered.\<close>

lemma exchanged_tell:
  "exchanged put get c m rf s s' \<Longrightarrow> cuda_tell put get m s = Some (Inr (), s') \<and> cuda_pub put get m s = Some s'"
  by (auto simp: exchanged_def cuda_tell_def cuda_pub_def)

lemma attached_told:
  assumes "attached ok co put get k" and "ok s" and "message_ok m" and "length (encodeMessage m) + 25 \<le> kMaxFramePayload"
    and "handleMessage k (wire_message m) (co s) = Inr ([(k, rf)], st')" and "receivable rf"
  shows "\<exists>s'. cuda_tell put get m s = Some (Inr (), s') \<and> cuda_pub put get m s = Some s' \<and> co s' = st' \<and> ok s'"
proof -
  obtain s' where s': "exchanged put get \<lparr>cl_sock = k, cl_connected = True\<rparr> m rf s s'" "co s' = st'" "ok s'"
    by (rule attached_exchange [OF assms(1,2) _ assms(3-6), of "\<lparr>cl_sock = k, cl_connected = True\<rparr>"]) auto
  from exchanged_tell [OF s'(1)] s'(2,3) show ?thesis by (intro exI [of _ s']) simp
qed

lemma attached_tell:
  assumes "attached ok co put get k" and "ok s" and "message_ok m" and "length (encodeMessage m) + 25 \<le> kMaxFramePayload"
    and "handleMessage k (wire_message m) (co s) = Inr (send_result k x i, st')"
  shows "\<exists>s'. cuda_tell put get m s = Some (Inr (), s') \<and> cuda_pub put get m s = Some s' \<and> co s' = st' \<and> ok s'"
proof -
  obtain rf where rf: "send_result k x i = [(k, rf)]" "receivable rf"
    by (simp add: send_result_def send_message_def receivable_def encodeMessage_def kMaxFramePayload_def)
  from attached_told [OF assms(1-4) assms(5) [unfolded rf(1)] rf(2)] show ?thesis .
qed

lemma attached_tell_error:
  assumes "attached ok co put get k" and "ok s" and "message_ok m" and "length (encodeMessage m) + 25 \<le> kMaxFramePayload"
    and "handleMessage k (wire_message m) (co s) = Inr (sendError k e, st')" and "length e \<le> 1000"
  shows "\<exists>s'. cuda_tell put get m s = Some (Inr (), s') \<and> cuda_pub put get m s = Some s' \<and> co s' = st' \<and> ok s'"
proof -
  obtain rf where rf: "sendError k e = [(k, rf)]" "receivable rf"
    using assms(6) by (simp add: sendError_def send_message_def receivable_def encodeMessage_def kMaxFramePayload_def)
  from attached_told [OF assms(1-4) assms(5) [unfolded rf(1)] rf(2)] show ?thesis .
qed

text \<open>Each message of the session at the coordinator.\<close>

lemma cuda_registered:
  assumes "boot \<noteq> 0" and "(1, boot) \<notin> set (co_fenced st)"
  shows "handleMessage k (wire_message (cuda_register 1 boot role)) st =
    Inr (send_result k True 1, session_result k 1 boot role [] [] st)"
  using assms
  by (simp add: cuda_register_def handleMessage_def wire_message_def default_Message_def handle_register_def isNull_def
      sendOk_def session_result_def)

lemma cuda_published_endpoint:
  "handleMessage k (wire_message (default_Message\<lparr>ms_worker := w, ms_boot := boot, ms_type := PUBLISH_ENDPOINT, ms_endpoint := e\<rparr>))
     (session_result k w boot role es [] st) =
   Inr (send_result k True (ep_id e),
     session_result k w boot role (es @ [(wire_endpoint e)\<lparr>ep_worker := w, ep_workerBoot := boot\<rparr>]) [] st)"
proof -
  have "ep_id (wire_endpoint e) = ep_id e" by (simp add: wire_endpoint_def)
  then show ?thesis
    by (simp add: handleMessage_def wire_message_def default_Message_def handle_publish_endpoint_def
        publisher_def session_result_publisher sendOk_def)
      (simp add: session_result_def assign_twice)
qed

lemma cuda_published_link:
  "handleMessage k (wire_message (default_Message\<lparr>ms_worker := w, ms_boot := boot, ms_type := PUBLISH_LINK, ms_link := l\<rparr>))
     (session_result k w boot role es ls st) =
   Inr (send_result k True (ln_id l), session_result k w boot role es (ls @ [(wire_link l)\<lparr>ln_workerBoot := boot\<rparr>]) st)"
proof -
  have "ln_id (wire_link l) = ln_id l" by (simp add: wire_link_def)
  then show ?thesis
    by (simp add: handleMessage_def wire_message_def default_Message_def handle_publish_link_def
        publisher_def session_result_publisher sendOk_def)
      (simp add: session_result_def assign_twice)
qed

text \<open>The publisher of capacity and congestion is not on the wire, so that these are accepted from anyone.\<close>

lemma cuda_published_news:
  "handleMessage k (wire_message (default_Message\<lparr>ms_worker := w, ms_boot := boot, ms_type := PUBLISH_CAPACITY, ms_linkId := l, ms_capacity := c\<rparr>)) st =
   Inr (send_result k True l, st\<lparr>co_snap := (co_snap st)
     \<lparr>sn_capacityGeneration := gen_next (sn_capacityGeneration (co_snap st)),
      sn_links := map (\<lambda>x. if ln_id x = l then x\<lparr>ln_capacityEvidence := c\<rparr> else x) (sn_links (co_snap st))\<rparr>\<rparr>)"
  "handleMessage k (wire_message (default_Message\<lparr>ms_worker := w, ms_boot := boot, ms_type := PUBLISH_CONGESTION, ms_linkId := l, ms_congestion := g\<rparr>)) st =
   Inr (send_result k True l, st\<lparr>co_snap := (co_snap st)
     \<lparr>sn_congestionGeneration := gen_next (sn_congestionGeneration (co_snap st)),
      sn_links := map (\<lambda>x. if ln_id x = l then x\<lparr>ln_congestion := g\<rparr> else x) (sn_links (co_snap st))\<rparr>\<rparr>)"
  by (simp_all add: handleMessage_def wire_message_def default_Message_def handle_publish_capacity_def
      handle_publish_congestion_def sendOk_def isNull_def)

lemma cuda_messages_ok:
  assumes "length role \<le> 1000" and "m = cuda_register 1 boot role \<or> m \<in> set (cuda_publications 1 boot)"
  shows "message_ok m" and "length (encodeMessage m) + 25 \<le> kMaxFramePayload"
proof -
  have ep: "endpoint_ok (cuda_mkEp 1 boot i kind node)" "endpoint_ok (setArch gpu_arch (cuda_mkEp 1 boot i kind node))"
    "length (encEndpoint (cuda_mkEp 1 boot i kind node)) \<le> 1000"
    "length (encEndpoint (setArch gpu_arch (cuda_mkEp 1 boot i kind node))) \<le> 1000" for i kind node
    by (simp_all add: endpoint_ok_def encEndpoint_def w_transports_def length_bytewise cuda_evidence_defs str_ok_def
        kMaxCount_def set_ok_def cuda_transports)
  show "message_ok m"
    using assms ep by (auto simp: cuda_publications_def cuda_register_def message_ok_def str_ok_def kMaxCount_def Let_def
        cuda_link_def default_Link_def)
  show "length (encodeMessage m) + 25 \<le> kMaxFramePayload"
    using assms ep(3) [of 1 EndpointKind.CPU_MEMORY 1] ep(4) [of 2 EndpointKind.GPU_DEVICE 2]
    by (auto simp: cuda_publications_def cuda_register_def encodeMessage_def encLink_def enc_capacity_def
        enc_congestion_def kMaxFramePayload_def Let_def cuda_link_def default_Link_def)
qed

lemma cuda_publications_cases:
  obtains e1 e2 l c g where "cuda_publications 1 boot = [e1, e2, l, c, g]"
    and "e1 = default_Message\<lparr>ms_worker := 1, ms_boot := boot, ms_type := PUBLISH_ENDPOINT, ms_endpoint := cuda_mkEp 1 boot 1 EndpointKind.CPU_MEMORY 1\<rparr>"
    and "e2 = default_Message\<lparr>ms_worker := 1, ms_boot := boot, ms_type := PUBLISH_ENDPOINT,
      ms_endpoint := setArch gpu_arch (cuda_mkEp 1 boot 2 EndpointKind.GPU_DEVICE 2)\<rparr>"
    and "l = default_Message\<lparr>ms_worker := 1, ms_boot := boot, ms_type := PUBLISH_LINK, ms_link := cuda_link boot\<rparr>"
    and "c = default_Message\<lparr>ms_worker := 1, ms_boot := boot, ms_type := PUBLISH_CAPACITY, ms_linkId := 1, ms_capacity := cuda_capacity\<rparr>"
    and "g = default_Message\<lparr>ms_worker := 1, ms_boot := boot, ms_type := PUBLISH_CONGESTION, ms_linkId := 1, ms_congestion := cuda_congestion\<rparr>"
  by (simp add: cuda_publications_def Let_def)

lemma cuda_session_ready:
  assumes "attached ok co put get k" and "recvFrame get s0 = (Inr hello, s)" and "ok s"
    and "1 \<le> cu_deviceCount cu d" and "cu_major cu d = 12" and "length role \<le> 1000" and "boot \<noteq> 0"
    and "(1, boot) \<notin> set (co_fenced (co s))"
  shows "\<exists>s'. cuda_session put get cu role boot s0 d = Some (Inr (cu_freeMemory cu d), s') \<and>
    co s' = cuda_result k boot role (co s) \<and> ok s'"
proof -
  let ?l = "(wire_link (cuda_link boot))\<lparr>ln_workerBoot := boot\<rparr>"
  let ?SR = "\<lambda>es ls. session_result k 1 boot role es ls (co s)"
  let ?es = "cuda_endpoints boot"
  obtain e1 e2 l c g where pubs: "cuda_publications 1 boot = [e1, e2, l, c, g]"
    and e1: "e1 = default_Message\<lparr>ms_worker := 1, ms_boot := boot, ms_type := PUBLISH_ENDPOINT, ms_endpoint := cuda_mkEp 1 boot 1 EndpointKind.CPU_MEMORY 1\<rparr>"
    and e2: "e2 = default_Message\<lparr>ms_worker := 1, ms_boot := boot, ms_type := PUBLISH_ENDPOINT,
      ms_endpoint := setArch gpu_arch (cuda_mkEp 1 boot 2 EndpointKind.GPU_DEVICE 2)\<rparr>"
    and l: "l = default_Message\<lparr>ms_worker := 1, ms_boot := boot, ms_type := PUBLISH_LINK, ms_link := cuda_link boot\<rparr>"
    and c: "c = default_Message\<lparr>ms_worker := 1, ms_boot := boot, ms_type := PUBLISH_CAPACITY, ms_linkId := 1, ms_capacity := cuda_capacity\<rparr>"
    and g: "g = default_Message\<lparr>ms_worker := 1, ms_boot := boot, ms_type := PUBLISH_CONGESTION, ms_linkId := 1, ms_congestion := cuda_congestion\<rparr>"
    by (rule cuda_publications_cases [of boot])
  note sendable = cuda_messages_ok [OF assms(6), where boot = boot, unfolded pubs]
  have tell: "\<exists>s'. cuda_tell put get m s = Some (Inr (), s') \<and> cuda_pub put get m s = Some s' \<and> co s' = st' \<and> ok s'"
    if "ok s" "m = cuda_register 1 boot role \<or> m \<in> set [e1, e2, l, c, g]"
      "handleMessage k (wire_message m) (co s) = Inr (send_result k x i, st')" for s m x i st'
    using attached_tell [OF assms(1) that(1) sendable(1) [OF that(2)] sendable(2) [OF that(2)] that(3)] .
  from tell [OF assms(3) _ cuda_registered [OF assms(7,8)]] obtain s1 where
    s1: "cuda_tell put get (cuda_register 1 boot role) s = Some (Inr (), s1)" "co s1 = ?SR [] []" "ok s1" by auto
  from tell [OF s1(3) _ cuda_published_endpoint [where k = k and w = 1 and boot = boot and role = role and es = "[]" and st = "co s"
      and e = "cuda_mkEp 1 boot 1 EndpointKind.CPU_MEMORY 1", folded s1(2) e1]] obtain s2 where
    s2: "cuda_pub put get e1 s1 = Some s2" "co s2 = ?SR [?es ! 0] []" "ok s2" by (auto simp: cuda_endpoints_def)
  from tell [OF s2(3) _ cuda_published_endpoint [where k = k and w = 1 and boot = boot and role = role and es = "[?es ! 0]" and st = "co s"
      and e = "setArch gpu_arch (cuda_mkEp 1 boot 2 EndpointKind.GPU_DEVICE 2)", folded s2(2) e2]] obtain s3 where
    s3: "cuda_pub put get e2 s2 = Some s3" "co s3 = ?SR ?es []" "ok s3" by (auto simp: cuda_endpoints_def)
  from tell [OF s3(3) _ cuda_published_link [where k = k and w = 1 and boot = boot and role = role and es = ?es and ls = "[]" and st = "co s"
      and l = "cuda_link boot", folded s3(2) l]] obtain s4 where
    s4: "cuda_pub put get l s3 = Some s4" "co s4 = ?SR ?es [?l]" "ok s4" by auto
  from tell [OF s4(3) _ cuda_published_news(1) [where w = 1 and boot = boot and l = 1 and c = cuda_capacity, folded c]] obtain s5 where
    s5: "cuda_pub put get c s4 = Some s5" "ok s5" "co s5 = (co s4)\<lparr>co_snap := (co_snap (co s4))
      \<lparr>sn_capacityGeneration := gen_next (sn_capacityGeneration (co_snap (co s4))),
       sn_links := map (\<lambda>x. if ln_id x = 1 then x\<lparr>ln_capacityEvidence := cuda_capacity\<rparr> else x) (sn_links (co_snap (co s4)))\<rparr>\<rparr>"
    by auto
  from tell [OF s5(2) _ cuda_published_news(2) [where w = 1 and boot = boot and l = 1 and g = cuda_congestion, folded g]] obtain s6 where
    s6: "cuda_pub put get g s5 = Some s6" "ok s6" "co s6 = (co s5)\<lparr>co_snap := (co_snap (co s5))
      \<lparr>sn_congestionGeneration := gen_next (sn_congestionGeneration (co_snap (co s5))),
       sn_links := map (\<lambda>x. if ln_id x = 1 then x\<lparr>ln_congestion := cuda_congestion\<rparr> else x) (sn_links (co_snap (co s5)))\<rparr>\<rparr>"
    by auto
  have "co s6 = cuda_result k boot role (co s)"
    unfolding s6(3) s5(3) s4(2) cuda_result_def Let_def by (simp add: comp_def if_distrib cong: if_cong)
  then show ?thesis
    using assms(2,4,5) s1(1) s2(1) s3(1) s4(1) s5(1) s6(1,2) by (auto simp: cuda_session_def pubs)
qed

section \<open>Planning over the evidence of a session\<close>

text \<open>The request of \<open>apps/cuda_worker_death_proof.cpp\<close>.\<close>

definition cuda_mkReq :: "CommunicationRequestId \<Rightarrow> u64 \<Rightarrow> CommunicationRequest" where
  "cuda_mkReq i payload =
     default_CommunicationRequest\<lparr>rq_id := i, rq_generation := 1, rq_shape := RequestShape.POINT_TO_POINT,
       rq_source := 1, rq_payloadSize := payload, rq_destinations := [2], rq_allowStaging := True,
       rq_allowHostStaging := True\<rparr>"

lemma cuda_mkReq_wire:
  "rq_source (wire_request (cuda_mkReq i payload)) = 1" "rq_destinations (wire_request (cuda_mkReq i payload)) = [2]"
  "rq_id (wire_request (cuda_mkReq i payload)) = i" "rq_payloadSize (wire_request (cuda_mkReq i payload)) = payload"
  "\<not> rq_allowMulticast (wire_request (cuda_mkReq i payload))"
  "rq_shape (wire_request (cuda_mkReq i payload)) = RequestShape.POINT_TO_POINT"
  by (simp_all add: wire_request_def cuda_mkReq_def default_CommunicationRequest_def)

lemma cuda_mkReq_valid:
  assumes "i \<noteq> 0" and "payload \<noteq> 0"
  shows "validate (wire_request (cuda_mkReq i payload)) = None"
  using assms by (simp add: wire_request_def cuda_mkReq_def default_CommunicationRequest_def validate_def
      validate_collective_def validate_shape_def validate_transports_def isNull_def)

definition cuda_hop :: Hop where
  "cuda_hop = \<lparr>hop_link = 1, hop_from = 1, hop_to = 2\<rparr>"

lemma cuda_enumeration:
  assumes "cuda_evidence a s"
  shows "enumerateCandidatePaths s 1 2 coordinator_bounds = [\<lparr>cp_source = 1, cp_destination = 2, cp_hops = [cuda_hop]\<rparr>]"
proof -
  have "map_find (adjacency s) 1 = Some [\<lparr>adj_to = 2, adj_link = 1\<rparr>]"
    using assms by (simp add: find_adjacency out_edges_def cuda_evidence_def cuda_evidence_defs adjLess_def)
  moreover have "(8::nat) = Suc 7" by simp
  ultimately have "routes (adjacency s) 2 8 [1] 1 = [[cuda_hop]]"
    by (simp only: routes.simps) (simp add: adj_hop_def cuda_hop_def)
  then show ?thesis
    by (simp add: enumerate_take all_candidates_def coordinator_bounds_def default_Bounds_def route_hits_def
        dfs_hit_def dfs_ctx_def)
qed

lemma cuda_feasible:
  assumes "cuda_evidence a s" and "a \<noteq> 0"
  shows "destination_feasible (wire_request (cuda_mkReq i payload)) s coordinator_bounds 1 2"
proof -
  have find: "map_find (linkMap s) 1 = Some ((wire_link (cuda_link a))\<lparr>ln_capacityEvidence := cuda_capacity, ln_congestion := cuda_congestion\<rparr>)"
    "map_find (endpointMap s) 1 = Some (cuda_endpoints a ! 0)" "map_find (endpointMap s) 2 = Some (cuda_endpoints a ! 1)"
    using assms(1) by (simp_all add: find_linkMap find_endpointMap cuda_evidence_def cuda_evidence_defs)
  have boots: "map_find (sn_workerBoots s) 1 = Some a" "sn_reservations s = []"
    using assms(1) by (simp_all add: cuda_evidence_def)
  have "hop_usable (wire_request (cuda_mkReq i payload)) s cuda_hop"
    unfolding hop_usable_def endpoint_usable_def link_usable_def
    using assms(2)
    by (simp add: cuda_hop_def find)
      (simp add: cuda_evidence_defs cuda_congestion_def thirty_gib_def boots endpointFresh_def isNull_def supports_def reserved_on_def
        cuda_mkReq_def wire_request_def default_CommunicationRequest_def)
  then have "path_feasible (wire_request (cuda_mkReq i payload)) s coordinator_bounds [cuda_hop]"
    by (simp add: path_feasible_def coordinator_bounds_def default_Bounds_def isNull_def)
      (simp add: cuda_mkReq_def wire_request_def default_CommunicationRequest_def)
  then show ?thesis by (simp add: destination_feasible_def cuda_enumeration [OF assms(1)])
qed

text \<open>A coordinator whose evidence is that of a CUDA worker connected on socket \<open>kw\<close> under boot \<open>a\<close>.\<close>

definition cuda_served :: "Coordinator \<Rightarrow> Generation \<Rightarrow> SOCKET \<Rightarrow> bool" where
  "cuda_served st a kw \<longleftrightarrow>
     cuda_evidence a (co_snap st) \<and> a \<noteq> 0 \<and> co_bounds st = coordinator_bounds \<and> co_cancelled st = [] \<and>
     br_failAfter (co_broker st) < 0 \<and> kw \<noteq> INVALID_SOCKET \<and>
     (\<exists>w. map_find (co_workers st) 1 = Some w \<and> wi_alive w \<and> wi_boot w = a \<and> wi_sock w = kw \<and>
        wi_endpoints w = [1, 2] \<and> wi_links w = [1]) \<and>
     map_find (co_socketToWorker st) kw = Some 1"

lemma cuda_planned:
  assumes "cuda_served st a kw" and "i \<noteq> 0" and "payload \<noteq> 0"
  shows "\<exists>p ct. planCommunication (wire_request (cuda_mkReq i payload)) (co_snap st) (co_weights st) coordinator_bounds (co_counters st) =
      (Inr p, ct) \<and> po_success p \<and>
    (\<exists>plan g. po_plan p = Some plan \<and> pl_orderedStages plan = [g] \<and> g \<in> set (plan_stages plan) \<and> st_source g = 1 \<and> st_destination g = 2 \<and>
       st_transport g = Transport.CUDA \<and> st_payload g = payload \<and> pl_requiredStagingResources plan = [] \<and>
       pl_requiredResourceClaims plan = [] \<and> rv_ok (revalidatePlan plan (co_snap st)) \<and>
       (pl_id plan, pl_generation plan) = fst (next_plan_identity (co_counters st)) \<and>
       (\<exists>sid. ct = (snd (next_plan_identity (co_counters st)))\<lparr>ct_stageId := sid\<rparr>))"
proof -
  let ?r = "wire_request (cuda_mkReq i payload)" and ?s = "co_snap st"
  have ev: "cuda_evidence a ?s" "a \<noteq> 0" using assms(1) by (simp_all add: cuda_served_def)
  have eq: "planCommunication ?r ?s (co_weights st) coordinator_bounds (co_counters st) =
      planPointToPoint ?r ?s (co_weights st) coordinator_bounds 2 (co_counters st)"
    by (rule planCommunication_p2p [OF cuda_mkReq_valid [OF assms(2,3)]]) (simp_all add: cuda_mkReq_wire)
  have feas: "destination_feasible ?r ?s coordinator_bounds (rq_source ?r) 2"
    using cuda_feasible [OF ev] by (simp add: cuda_mkReq_wire)
  obtain out plan ct where plan: "planPointToPoint ?r ?s (co_weights st) coordinator_bounds 2 (co_counters st) = (Inr out, ct)"
    "p2p_result ?r ?s (co_weights st) coordinator_bounds 2 out plan"
    using planPointToPoint_feasible [OF feas] by blast
  then have out: "po_success out" "po_plan out = Some plan" by (simp_all add: p2p_result_def Let_def)
  have "length (cp_hops c) = 1" if "c \<in> set (enumerateCandidatePaths ?s (rq_source ?r) 2 coordinator_bounds)" for c
    using that by (simp add: cuda_mkReq_wire cuda_enumeration [OF ev(1)])
  from single_hop_plan [OF plan(2) feas this] obtain g where
    g: "pl_orderedStages plan = [g]" "stage_of_hop ?s cuda_hop g" "st_payload g = payload" "g \<in> set (plan_stages plan)"
      "pl_requiredStagingResources plan = []" "pl_requiredResourceClaims plan = []"
    by (auto simp: cuda_mkReq_wire cuda_enumeration [OF ev(1)])
  have "map_find (linkMap ?s) 1 = Some ((wire_link (cuda_link a))\<lparr>ln_capacityEvidence := cuda_capacity, ln_congestion := cuda_congestion\<rparr>)"
    using ev(1) by (simp add: find_linkMap cuda_evidence_def cuda_evidence_defs)
  with g(2) have stage: "st_source g = 1" "st_destination g = 2" "st_transport g = Transport.CUDA"
    by (simp_all add: stage_of_hop_def cuda_hop_def wire_link_def cuda_link_def)
  have "plan_current plan ?s"
    using planned_live [OF eq [unfolded plan(1)] out] g(5) by (intro bound_plan_current) simp_all
  then have "rv_ok (revalidatePlan plan ?s)" by (simp add: revalidatePlan_iff)
  with planPointToPoint_identity [OF plan(1) out(2)] g stage out plan(1) show ?thesis unfolding eq by simp
qed

text \<open>The request is answered by a plan that can be committed, handed off and executed by the worker.\<close>

lemma cuda_submitted:
  assumes "cuda_served st a kw" and "i \<noteq> 0" and "payload \<noteq> 0"
  shows "\<exists>p r st1. (\<forall>k. handleMessage k (wire_message (default_Message\<lparr>ms_type := SUBMIT_REQUEST, ms_request := cuda_mkReq i payload\<rparr>)) st =
      Inr (send_plan_result k True p, st1)) \<and> length (pl_orderedStages p) = 1 \<and>
    (\<exists>g\<in>set (plan_stages p). st_source g = 1) \<and>
    deliverable st1 (pl_id p) r kw \<and> pr_plan r = p \<and> pr_worker r = 1 \<and> pr_boot r = a \<and> ms_bytes (execute_order r) = payload \<and>
    cuda_served st1 a kw \<and> co_fenced st1 = co_fenced st \<and>
    pl_generation p = ct_planGeneration (co_counters st) \<and>
    ct_planGeneration (co_counters st1) = ct_planGeneration (co_counters st) + 1"
proof -
  let ?r = "wire_request (cuda_mkReq i payload)" and ?s = "co_snap st"
  from cuda_planned [OF assms] obtain out ct p g where plan:
    "planCommunication ?r ?s (co_weights st) coordinator_bounds (co_counters st) = (Inr out, ct)" "po_success out"
    "po_plan out = Some p" "pl_orderedStages p = [g]" "g \<in> set (plan_stages p)" "st_source g = 1" "st_payload g = payload"
    "pl_requiredResourceClaims p = []" "rv_ok (revalidatePlan p ?s)"
    "(pl_id p, pl_generation p) = fst (next_plan_identity (co_counters st))"
    "ct_planGeneration ct = ct_planGeneration (snd (next_plan_identity (co_counters st)))" by auto
  define rec where "rec = plan_record ?s p"
  define st1 where "st1 = st\<lparr>co_requests := co_requests st @ [?r], co_counters := ct,
    co_plans := map_assign (pl_id p) rec (co_plans st), co_currentByRequest := map_assign i (pl_id p) (co_currentByRequest st)\<rparr>"
  have "handleMessage k (wire_message (default_Message\<lparr>ms_type := SUBMIT_REQUEST, ms_request := cuda_mkReq i payload\<rparr>)) st =
      handle_submit k (default_Message\<lparr>ms_type := SUBMIT_REQUEST, ms_request := ?r\<rparr>) st" for k
    by (simp add: handleMessage_def wire_message_def default_Message_def)
  moreover have "handle_submit k (default_Message\<lparr>ms_type := SUBMIT_REQUEST, ms_request := ?r\<rparr>) st =
      Inr (send_plan_result k True p, st1)" for k
    using assms(1) plan(1-3) assms(2)
    by (simp add: handle_submit_def Let_def cuda_mkReq_wire isNull_def cuda_served_def st1_def rec_def)
  moreover have rec: "pr_plan rec = p" "pr_state rec = PlanState.PLAN_READY" "pr_worker rec = 1" "pr_boot rec = a"
    using assms(1) plan(4,6)
    by (simp_all add: rec_def plan_record_def cuda_served_def cuda_evidence_def cuda_evidence_defs Let_def)
  moreover have served: "cuda_served st1 a kw" using assms(1) by (simp add: cuda_served_def st1_def)
  moreover have "deliverable st1 (pl_id p) rec kw"
    using served plan(8,9) rec by (auto simp: deliverable_def cuda_served_def st1_def map_find_assign)
  moreover have "ms_bytes (execute_order rec) = payload" by (simp add: execute_order_def rec plan(4,7))
  moreover have "pl_generation p = ct_planGeneration (co_counters st)" "ct_planGeneration ct = ct_planGeneration (co_counters st) + 1"
    using plan(10,11) by (simp_all add: next_plan_identity_def id_next_def)
  moreover have "co_fenced st1 = co_fenced st" "co_counters st1 = ct" by (simp_all add: st1_def)
  moreover have "\<exists>g\<in>set (plan_stages p). st_source g = 1" using plan(5,6) by blast
  ultimately show ?thesis using plan(4) by (intro exI [of _ p] exI [of _ rec] exI [of _ st1]) simp
qed

lemma cuda_evidence_published:
  assumes "sn_endpoints s = [] \<and> sn_links s = [] \<or>
      (\<exists>e1 e2. sn_endpoints s = [e1, e2] \<and> ep_id e1 = 1 \<and> ep_id e2 = 2 \<and> sn_links s = [])"
    and "sn_reservations s = []" and "co_snap st = s"
  shows "cuda_evidence a (co_snap (cuda_result k a role st))"
  using assms
  by (auto simp: cuda_result_def session_result_def cuda_evidence_def publishEndpoint_def publishLink_def map_find_assign Let_def)
    (simp_all add: cuda_evidence_defs publishEndpoint_def publishLink_def map_find_assign)

lemma cuda_result_frame:
  "co_bounds (cuda_result k a role st) = co_bounds st" "co_cancelled (cuda_result k a role st) = co_cancelled st"
  "co_broker (cuda_result k a role st) = co_broker st" "co_fenced (cuda_result k a role st) = co_fenced st"
  "co_counters (cuda_result k a role st) = co_counters st" "co_plans (cuda_result k a role st) = co_plans st"
  "map_find (co_socketToWorker (cuda_result k a role st)) k = Some 1"
  "map_find (co_workers (cuda_result k a role st)) 1 =
     Some \<lparr>wi_id = 1, wi_boot = a, wi_name = role, wi_sock = k, wi_endpoints = [1, 2], wi_links = [1], wi_alive = True\<rparr>"
  by (simp_all add: cuda_result_def session_result_def map_find_assign Let_def)
    (simp_all add: cuda_evidence_defs)

lemma cuda_served_fresh:
  assumes "k \<noteq> INVALID_SOCKET" and "a \<noteq> 0"
  shows "cuda_served (cuda_result k a role (start_coordinator [] coordinator_bounds None)) a k"
proof -
  have "cuda_evidence a (co_snap (cuda_result k a role (start_coordinator [] coordinator_bounds None)))"
    by (rule cuda_evidence_published [OF _ _ refl])
      (simp_all add: start_empty new_coordinator_def initial_snapshot_def default_EvidenceSnapshot_def)
  then show ?thesis
    using assms by (simp add: cuda_served_def cuda_result_frame) (simp add: start_empty new_coordinator_def new_broker_def)
qed

text \<open>The coordinator after the connection of the worker is lost.\<close>

lemma cuda_lost:
  assumes "cuda_served st a kw"
  defines "stl \<equiv> disconnect kw st"
  shows "(1, a) \<in> set (co_fenced stl)" and "co_fenced stl = set_insert (1, a) (co_fenced st)"
    and "co_plans stl = co_plans st" "co_counters stl = co_counters st"
    and "\<not> endpoint_live (co_snap stl) 1"
    and "kr \<noteq> INVALID_SOCKET \<Longrightarrow> a' \<noteq> 0 \<Longrightarrow> cuda_served (cuda_result kr a' role stl) a' kr"
proof -
  obtain w where w: "map_find (co_workers st) 1 = Some w" "wi_boot w = a" "wi_endpoints w = [1, 2]" "wi_links w = [1]"
    and find: "map_find (co_socketToWorker st) kw = Some 1" and ev: "cuda_evidence a (co_snap st)"
    using assms(1) by (auto simp: cuda_served_def)
  have stl: "stl = end_connection kw ((fenceWorker 1 st)\<lparr>co_socketToWorker := map_erase kw (co_socketToWorker st)\<rparr>)"
    by (simp add: stl_def disconnect_def fence_connection_def find)
  show "(1, a) \<in> set (co_fenced stl)" "co_fenced stl = set_insert (1, a) (co_fenced st)"
    "co_plans stl = co_plans st" "co_counters stl = co_counters st"
    by (simp_all add: stl end_connection_def fenceWorker_def w Let_def)
  have snap: "sn_endpoints (co_snap stl) = unready_endpoints [1, 2] (cuda_endpoints a)" "sn_links (co_snap stl) = []"
    "sn_reservations (co_snap stl) = []"
    using ev by (simp_all add: stl end_connection_def fenceWorker_def w cuda_evidence_def Let_def)
      (simp add: wire_link_def cuda_link_def)
  then show "\<not> endpoint_live (co_snap stl) 1"
    by (simp add: endpoint_live_def find_endpointMap unready_endpoints_def cuda_evidence_defs)
  assume "kr \<noteq> INVALID_SOCKET" "a' \<noteq> 0"
  moreover have "cuda_evidence a' (co_snap (cuda_result kr a' role stl))"
    using snap by (intro cuda_evidence_published [OF _ _ refl])
      (simp_all add: unready_endpoints_def cuda_evidence_defs)
  moreover have "co_bounds stl = coordinator_bounds" "co_cancelled stl = []" "br_failAfter (co_broker stl) < 0"
    using assms(1) by (simp_all add: stl end_connection_def fenceWorker_def w cuda_served_def Let_def)
  ultimately show "cuda_served (cuda_result kr a' role stl) a' kr" by (simp add: cuda_served_def cuda_result_frame)
qed

section \<open>Execution\<close>

lemma cuda_move_sound:
  assumes "cuda_move cu n p q d = (True, d')"
  shows "\<exists>d1 d2. cu_fromDevice cu q n d1 = (Some (map (\<lambda>x. x + 1) (hostInput n)), d2)"
  using assms by (auto simp: cuda_move_def Let_def split: prod.splits if_splits)




text \<open>The coordinator of a single CUDA worker on socket 7, and four mebibytes.\<close>

definition sample_cuda_coordinator :: Coordinator where
  "sample_cuda_coordinator = cuda_result 7 1000 ''A'' (start_coordinator [] coordinator_bounds None)"

lemma sample_cuda_served: "cuda_served sample_cuda_coordinator 1000 7"
  unfolding sample_cuda_coordinator_def by (rule cuda_served_fresh) (simp_all add: INVALID_SOCKET_def)

lemma sample_count: "order_count 4194304 = 1048576"
  by (simp add: order_count_def to_int32_def)


section \<open>Loss and return\<close>



section \<open>Weaknesses\<close>

text \<open>An order of sixteen gibibytes counts as empty and is never answered, and four bytes more count as one integer.\<close>

lemma large_orders_truncated: "order_count (2 ^ 34) = 0" "order_count (2 ^ 34 + 4) = 1"
  by (simp_all add: order_count_def to_int32_def)

text \<open>
  A worker whose boot is fenced does not notice: its registration and its endpoints and link are refused,
  yet it gets ready; and its news about link 1 are accepted.
\<close>

lemma refused_session_ready:
  assumes "attached ok co put get k" and "recvFrame get s0 = (Inr hello, s)" and "ok s"
    and "1 \<le> cu_deviceCount cu d" and "cu_major cu d = 12" and "length role \<le> 1000" and "boot \<noteq> 0"
    and "(1, boot) \<in> set (co_fenced (co s))" and "live_boot (co s) 1 \<noteq> Some boot"
  shows "\<exists>s'. cuda_session put get cu role boot s0 d = Some (Inr (cu_freeMemory cu d), s') \<and>
    co_workers (co s') = co_workers (co s) \<and> sn_endpoints (co_snap (co s')) = sn_endpoints (co_snap (co s)) \<and>
    sn_capacityGeneration (co_snap (co s')) = gen_next (sn_capacityGeneration (co_snap (co s)))"
proof -
  have none: "publisher m (co s) = None" if "ms_worker m = 1" "ms_boot m = boot" for m
    using assms(9) that by (auto simp: publisher_def live_boot_def split: option.split)
  obtain e1 e2 l c g where pubs: "cuda_publications 1 boot = [e1, e2, l, c, g]"
    and e1: "e1 = default_Message\<lparr>ms_worker := 1, ms_boot := boot, ms_type := PUBLISH_ENDPOINT, ms_endpoint := cuda_mkEp 1 boot 1 EndpointKind.CPU_MEMORY 1\<rparr>"
    and e2: "e2 = default_Message\<lparr>ms_worker := 1, ms_boot := boot, ms_type := PUBLISH_ENDPOINT,
      ms_endpoint := setArch gpu_arch (cuda_mkEp 1 boot 2 EndpointKind.GPU_DEVICE 2)\<rparr>"
    and l: "l = default_Message\<lparr>ms_worker := 1, ms_boot := boot, ms_type := PUBLISH_LINK, ms_link := cuda_link boot\<rparr>"
    and c: "c = default_Message\<lparr>ms_worker := 1, ms_boot := boot, ms_type := PUBLISH_CAPACITY, ms_linkId := 1, ms_capacity := cuda_capacity\<rparr>"
    and g: "g = default_Message\<lparr>ms_worker := 1, ms_boot := boot, ms_type := PUBLISH_CONGESTION, ms_linkId := 1, ms_congestion := cuda_congestion\<rparr>"
    by (rule cuda_publications_cases [of boot])
  note sendable = cuda_messages_ok [OF assms(6), where boot = boot, unfolded pubs]
  have refused: "handleMessage k (wire_message m) (co s) = Inr (sendError k ''stale publisher authority'', co s)" if "m \<in> {e1, e2, l}" for m
    using that by (auto simp: e1 e2 l handleMessage_def wire_message_def default_Message_def handle_publish_endpoint_def
        handle_publish_link_def none)
  have "handleMessage k (wire_message (cuda_register 1 boot role)) (co s) = Inr (sendError k ''fenced boot authority'', co s)"
    using assms(7,8) by (simp add: handleMessage_def wire_message_def default_Message_def cuda_register_def handle_register_def isNull_def)
  from attached_tell_error [OF assms(1,3) sendable this] obtain s1 where
    s1: "cuda_tell put get (cuda_register 1 boot role) s = Some (Inr (), s1)" "co s1 = co s" "ok s1" by auto
  have turned: "\<exists>s'. cuda_pub put get m t = Some s' \<and> co s' = co s \<and> ok s'" if "ok t" "co t = co s" "m \<in> {e1, e2, l}" for t m
    using attached_tell_error [OF assms(1) that(1) sendable refused [OF that(3), folded that(2)]] that(2,3) by auto
  from turned [OF s1(3,2)] obtain s2 where s2: "cuda_pub put get e1 s1 = Some s2" "co s2 = co s" "ok s2" by blast
  from turned [OF s2(3,2)] obtain s3 where s3: "cuda_pub put get e2 s2 = Some s3" "co s3 = co s" "ok s3" by blast
  from turned [OF s3(3,2)] obtain s4 where s4: "cuda_pub put get l s3 = Some s4" "co s4 = co s" "ok s4" by blast
  from attached_tell [OF assms(1) s4(3) sendable cuda_published_news(1) [where w = 1 and boot = boot and l = 1 and c = cuda_capacity, folded c]]
  obtain s5 where s5: "cuda_pub put get c s4 = Some s5" "ok s5" "co s5 = (co s4)\<lparr>co_snap := (co_snap (co s4))
      \<lparr>sn_capacityGeneration := gen_next (sn_capacityGeneration (co_snap (co s4))),
       sn_links := map (\<lambda>x. if ln_id x = 1 then x\<lparr>ln_capacityEvidence := cuda_capacity\<rparr> else x) (sn_links (co_snap (co s4)))\<rparr>\<rparr>"
    by auto
  from attached_tell [OF assms(1) s5(2) sendable cuda_published_news(2) [where w = 1 and boot = boot and l = 1 and g = cuda_congestion, folded g]]
  obtain s6 where s6: "cuda_pub put get g s5 = Some s6" "ok s6" "co s6 = (co s5)\<lparr>co_snap := (co_snap (co s5))
      \<lparr>sn_congestionGeneration := gen_next (sn_congestionGeneration (co_snap (co s5))),
       sn_links := map (\<lambda>x. if ln_id x = 1 then x\<lparr>ln_congestion := cuda_congestion\<rparr> else x) (sn_links (co_snap (co s5)))\<rparr>\<rparr>"
    by auto
  have "co_workers (co s6) = co_workers (co s) \<and> sn_endpoints (co_snap (co s6)) = sn_endpoints (co_snap (co s)) \<and>
      sn_capacityGeneration (co_snap (co s6)) = gen_next (sn_capacityGeneration (co_snap (co s)))"
    unfolding s6(3) s5(3) s4(2) by simp
  then show ?thesis
    using assms(2,4,5) s1(1) s2(1) s3(1) s4(1) s5(1) s6(1) by (auto simp: cuda_session_def pubs)
qed

end
