(* ===== verification/Worker_Log.thy ===== *)
theory Worker_Log
  imports Cuda_Worker
begin

text \<open>
  The evidence file of the CUDA worker: \<open>cuda/cuda_worker_main.cu\<close> writes it after each execution, and
  \<open>workerLogOk\<close> of \<open>apps/cuda_worker_death_proof.cpp\<close> reads it with \<open>fscanf\<close>. Files are a map from names to
  contents.
\<close>

section \<open>Writing\<close>

definition worker_log_path :: "u64 \<Rightarrow> string" where
  "worker_log_path boot = ''cuda_worker_log_'' @ u64_str boot @ ''.txt''"

definition flag_str :: "bool \<Rightarrow> string" where
  "flag_str b = nat_str (if b then 1 else 0)"

definition worker_log_text :: "u64 \<Rightarrow> u64 \<Rightarrow> ExecutionReport \<Rightarrow> string" where
  "worker_log_text freeBefore freeAfter r =
     ''freeBefore='' @ u64_str freeBefore @ '' freeAfter='' @ u64_str freeAfter @ '' parity='' @ flag_str (xr_ok r) @
     '' clean='' @ flag_str (xr_clean r) @ '' baseline='' @ flag_str (xr_baseline r) @ [CHR 0x0A]"

text \<open>What an order leaves in the files; \<open>opens\<close> tells whether the file can be opened for writing.\<close>

definition cuda_log ::
  "(string \<Rightarrow> bool) \<Rightarrow> 'd Cuda \<Rightarrow> Generation \<Rightarrow> u64 \<Rightarrow> Message \<Rightarrow> 'd \<Rightarrow> (string \<Rightarrow> string option) \<Rightarrow> string \<Rightarrow> string option" where
  "cuda_log opens cu boot freeBefore m d files =
     (if ms_boot m \<noteq> boot \<or> order_count (ms_bytes m) \<le> 0 then files
      else
        (case cuda_execute cu freeBefore (nat (order_count (ms_bytes m))) d of
           (None, _) \<Rightarrow> files
         | (Some r, d') \<Rightarrow>
             if opens (worker_log_path boot)
             then files(worker_log_path boot \<mapsto> worker_log_text freeBefore (cu_freeMemory cu d') r)
             else files))"

section \<open>Reading\<close>

text \<open>
  The directives of a format of \<open>fscanf\<close>: a character, white space, and the conversions \<open>%llu\<close> and \<open>%d\<close>. The
  values assigned are those before the first directive that does not match.
\<close>

datatype directive = Literal char | Blank | Unsigned | Signed

definition digit_char_p :: "char \<Rightarrow> bool" where
  "digit_char_p c \<longleftrightarrow> 48 \<le> (of_char c :: nat) \<and> (of_char c :: nat) \<le> 57"

definition scan_number :: "string \<Rightarrow> (bool \<times> nat \<times> string) option" where
  "scan_number s =
     (let t = dropWhile space_char s; neg = (t \<noteq> [] \<and> List.hd t = CHR ''-'');
          u = (if t \<noteq> [] \<and> (List.hd t = CHR ''-'' \<or> List.hd t = CHR ''+'') then tl t else t);
          ds = takeWhile digit_char_p u
      in if ds = [] then None else Some (neg, digits_value 0 ds, dropWhile digit_char_p u))"

definition unsigned_value :: "bool \<Rightarrow> nat \<Rightarrow> u64" where
  "unsigned_value neg n = (if 2 ^ 64 \<le> n then u64_max else if neg then - of_nat n else of_nat n)"

fun fscanf :: "directive list \<Rightarrow> string \<Rightarrow> int list" where
  "fscanf [] s = []"
| "fscanf (Literal c # ds) s = (case s of [] \<Rightarrow> [] | x # xs \<Rightarrow> if x = c then fscanf ds xs else [])"
| "fscanf (Blank # ds) s = fscanf ds (dropWhile space_char s)"
| "fscanf (Unsigned # ds) s =
     (case scan_number s of None \<Rightarrow> [] | Some (neg, n, rest) \<Rightarrow> uint (unsigned_value neg n) # fscanf ds rest)"
| "fscanf (Signed # ds) s =
     (case scan_number s of None \<Rightarrow> [] | Some (neg, n, rest) \<Rightarrow> (if neg then - int n else int n) # fscanf ds rest)"

definition log_format :: "directive list" where
  "log_format =
     map Literal ''freeBefore='' @ [Unsigned, Blank] @ map Literal ''freeAfter='' @ [Unsigned, Blank] @
     map Literal ''parity='' @ [Signed, Blank] @ map Literal ''clean='' @ [Signed, Blank] @
     map Literal ''baseline='' @ [Signed]"

text \<open>The result, \<open>freeAfter\<close> and \<open>parity\<close>; the last two keep their values when the file cannot be opened.\<close>

definition workerLogOk :: "(string \<Rightarrow> string option) \<Rightarrow> u64 \<Rightarrow> u64 \<times> int \<Rightarrow> bool \<times> u64 \<times> int" where
  "workerLogOk files boot old =
     (case files (worker_log_path boot) of
        None \<Rightarrow> (False, old)
      | Some text \<Rightarrow>
          let vs = fscanf log_format text; v = (\<lambda>i. if i < length vs then vs ! i else 0)
          in (length vs = 5 \<and> v 3 = 1 \<and> v 4 = 1, of_int (v 1), v 2))"

section \<open>What was written is what is read\<close>

lemma fscanf_literals: "fscanf (map Literal cs @ ds) (cs @ s) = fscanf ds s"
  by (induction cs) simp_all

lemma nat_str_scan:
  assumes "s = [] \<or> \<not> digit_char_p (List.hd s)"
  shows "scan_number (nat_str n @ s) = Some (False, n, s)"
proof -
  have digits: "\<forall>c\<in>set (nat_str n). digit_char_p c" and number: "digits_value 0 (nat_str n) = n"
    using nat_str_digits [of n] by (simp_all add: all_digits_def digit_char_p_def)
  obtain c cs where c: "nat_str n = c # cs" using nat_str_nonempty [of n] by (cases "nat_str n") auto
  have "digit_char_p c" using digits by (simp add: c)
  then have "\<not> space_char c" "c \<noteq> CHR ''-''" "c \<noteq> CHR ''+''"
    by (auto simp: digit_char_p_def space_char_def)
  then have "dropWhile space_char (nat_str n @ s) = nat_str n @ s" by (simp add: c)
  moreover have "takeWhile digit_char_p (nat_str n @ s) = nat_str n" "dropWhile digit_char_p (nat_str n @ s) = s"
    using digits assms by (cases s; simp)+
  ultimately show ?thesis
    using number \<open>c \<noteq> CHR ''-''\<close> \<open>c \<noteq> CHR ''+''\<close> nat_str_nonempty [of n] by (simp add: scan_number_def Let_def c)
qed

lemma fscanf_unsigned:
  assumes "s = [] \<or> \<not> digit_char_p (List.hd s)"
  shows "fscanf (Unsigned # ds) (u64_str v @ s) = uint v # fscanf ds s"
proof -
  have "unat v < 2 ^ 64" by (rule unat_u64_less)
  then show ?thesis using nat_str_scan [OF assms, of "unat v"] by (simp add: u64_str_def unsigned_value_def)
qed

lemma fscanf_flag:
  assumes "s = [] \<or> \<not> digit_char_p (List.hd s)"
  shows "fscanf (Signed # ds) (flag_str b @ s) = (if b then 1 else 0) # fscanf ds s"
  using nat_str_scan [OF assms, of "if b then 1 else 0"] by (simp add: flag_str_def)

lemma log_scanned:
  "fscanf log_format (worker_log_text fb fa r) =
     [uint fb, uint fa, if xr_ok r then 1 else 0, if xr_clean r then 1 else 0, if xr_baseline r then 1 else 0]"
  by (simp add: log_format_def worker_log_text_def fscanf_unsigned fscanf_flag digit_char_p_def space_char_def
      del: fscanf.simps(4,5))

lemma worker_log_path_inj: "worker_log_path a = worker_log_path b \<Longrightarrow> a = b"
proof -
  assume "worker_log_path a = worker_log_path b"
  then have "nat_str (unat a) = nat_str (unat b)" by (simp add: worker_log_path_def u64_str_def)
  then have "unat a = unat b" using nat_str_digits by metis
  then show ?thesis by (simp add: word_unat_eq_iff)
qed

lemma log_read:
  "workerLogOk (files(worker_log_path boot \<mapsto> worker_log_text fb fa r)) boot old =
     (xr_clean r \<and> xr_baseline r, fa, if xr_ok r then 1 else 0)"
  by (simp add: workerLogOk_def log_scanned Let_def)

lemma log_of_others: "boot' \<noteq> boot \<Longrightarrow> workerLogOk (cuda_log opens cu boot fb m d files) boot' old = workerLogOk files boot' old"
  using worker_log_path_inj [of boot' boot]
  by (auto simp: workerLogOk_def cuda_log_def split: prod.split option.split)

text \<open>the evidence of an execution survives its file. After a worker has served an order, the proof reads from the
  worker's file that the buffers were released and the memory is at its baseline exactly when the
  report of the execution says so, with the free memory measured and the outcome sent to the
  coordinator; the files of workers under other boots are as before.\<close>

lemma worker_log_exact:
  assumes "decodeMessage EXECUTE (fr_payload f) = Inr m" and "fr_type f = EXECUTE"
    and "cuda_serve cu wid boot fb f d = (ends, answer, d')" and "opens (worker_log_path boot)"
  shows "(case answer of
        None \<Rightarrow> cuda_log opens cu boot fb m d files = files
      | Some res \<Rightarrow> \<exists>r. cuda_execute cu fb (nat (order_count (ms_bytes m))) d = (Some r, d') \<and> ms_ok res = xr_ok r \<and>
          workerLogOk (cuda_log opens cu boot fb m d files) boot old =
            (xr_clean r \<and> xr_baseline r, cu_freeMemory cu d', if ms_ok res then 1 else 0)) \<and>
    (boot' \<noteq> boot \<longrightarrow> workerLogOk (cuda_log opens cu boot fb m d files) boot' old = workerLogOk files boot' old)"
proof -
  have "case answer of None \<Rightarrow> cuda_log opens cu boot fb m d files = files
      | Some res \<Rightarrow> \<exists>r. cuda_execute cu fb (nat (order_count (ms_bytes m))) d = (Some r, d') \<and> ms_ok res = xr_ok r \<and>
          cuda_log opens cu boot fb m d files = files(worker_log_path boot \<mapsto> worker_log_text fb (cu_freeMemory cu d') r)"
    using assms by (auto simp: cuda_serve_def cuda_log_def split: if_splits prod.splits option.splits)
  then show ?thesis by (intro conjI impI log_of_others) (auto simp: log_read split: option.splits)
qed

end
