(* ===== verification/Chosen_Route.thy ===== *)
theory Chosen_Route
  imports Planning_Theorems
begin

text \<open>
  Which route a plan takes on concrete evidence: the one whose cost is lower than that of every other
  feasible candidate, or the only feasible one.
\<close>

lemma cheaper_tuple:
  assumes "path_feasible r s b (cp_hops c)" and "path_feasible r s b (cp_hops c')"
    and "dlt (cs_total (evaluateCandidateCost r s c ws)) (cs_total (evaluateCandidateCost r s c' ws))"
    and "totalValid (evaluateCandidateCost r s c ws)" and "totalValid (evaluateCandidateCost r s c' ws)"
  shows "candidate_tuple r s ws b c < candidate_tuple r s ws b c'"
proof -
  have cost: "cr_cost (candidate_report r s ws b x) = evaluateCandidateCost r s x ws" if "path_feasible r s b (cp_hops x)" for x
    using that by (simp add: candidate_report_def Let_def feasibility_iff)
  have "dkey (cs_total (evaluateCandidateCost r s c ws)) < dkey (cs_total (evaluateCandidateCost r s c' ws))"
    using assms(3) by (simp add: dlt_def)
  then show ?thesis
    by (simp add: candidate_tuple_def rank_tuple_def rankKey_def report_rankable_def cost assms)
qed

text \<open>A feasible route that beats every other feasible candidate is the route of the plan.\<close>

definition route_candidate :: "CommunicationRequest \<Rightarrow> EndpointId \<Rightarrow> Hop list \<Rightarrow> CandidatePath" where
  "route_candidate r dst hs = \<lparr>cp_source = rq_source r, cp_destination = dst, cp_hops = hs\<rparr>"

lemma best_route_plan:
  assumes "validate r = None" and "rq_shape r = RequestShape.POINT_TO_POINT" and "\<not> rq_allowMulticast r"
    and "rq_destinations r = [dst]" and "path_feasible r s b hs"
    and "\<exists>c\<in>set (enumerateCandidatePaths s (rq_source r) dst b). cp_hops c = hs"
    and "\<forall>c\<in>set (enumerateCandidatePaths s (rq_source r) dst b). path_feasible r s b (cp_hops c) \<longrightarrow>
      cp_hops c = hs \<or> candidate_tuple r s ws b (route_candidate r dst hs) < candidate_tuple r s ws b c"
  shows "\<exists>out plan ct' p ps. planCommunication r s ws b ct = (Inr out, ct') \<and> po_success out \<and> po_plan out = Some plan \<and>
    pl_candidatePaths plan = p # ps \<and> pl_orderedStages plan = pa_stages p \<and> list_all2 (stage_of_hop s) hs (pa_stages p) \<and>
    plan_bound s plan \<and> pl_primaryPath plan = 1 \<and> pl_cost plan = evaluateCandidateCost r s (route_candidate r dst hs) ws"
proof -
  let ?cands = "enumerateCandidatePaths s (rq_source r) dst b"
  define ranked where "ranked = ranked_positions (map (candidate_report r s ws b) ?cands)"
  have route: "c = route_candidate r dst (cp_hops c)" if "c \<in> set ?cands" for c
    using enumerate_sound [OF that] by (cases c) (simp add: route_candidate_def)
  have feas: "destination_feasible r s b (rq_source r) dst"
    using assms(5,6) by (auto simp: destination_feasible_def)
  obtain out plan ct' where plan: "planPointToPoint r s ws b dst ct = (Inr out, ct')" "p2p_result r s ws b dst out plan"
    using planPointToPoint_feasible [OF feas] by blast
  obtain best rest where best: "ranked = best # rest"
    using ranked_Nil_iff [of r s ws b "rq_source r" dst] feas by (auto simp: ranked_def neq_Nil_conv)
  have "best_candidate r s ws b (rq_source r) dst (?cands ! best)"
    using ranked_head_best [OF best [unfolded ranked_def] refl] .
  then have winner: "?cands ! best \<in> set ?cands" "path_feasible r s b (cp_hops (?cands ! best))"
    "candidate_tuple r s ws b (?cands ! best) \<le> candidate_tuple r s ws b (route_candidate r dst hs)"
    using assms(5,6) route by (auto simp: best_candidate_def)
  then have "cp_hops (?cands ! best) = hs" using assms(7) by (meson leD)
  then have c: "?cands ! best = route_candidate r dst hs" using route [OF winner(1)] by simp
  have res: "po_success out" "po_plan out = Some plan" "plan_bound s plan" "pl_primaryPath plan = 1"
    "pl_orderedStages plan = pa_stages (List.hd (pl_candidatePaths plan))" "pl_cost plan = pa_cost (List.hd (pl_candidatePaths plan))"
    "list_all2 (path_of_candidate r s ws) (map (\<lambda>i. ?cands ! i) (take (p2p_total b ranked) ranked)) (pl_candidatePaths plan)"
    using plan(2) unfolding p2p_result_def Let_def ranked_def by blast+
  then obtain p ps where p: "pl_candidatePaths plan = p # ps" "path_of_candidate r s ws (?cands ! best) p"
    by (auto simp: best p2p_total_def list_all2_Cons1)
  have "planCommunication r s ws b ct = planPointToPoint r s ws b dst ct"
    using assms(1-4) by (intro planCommunication_p2p) auto
  moreover have "list_all2 (stage_of_hop s) hs (pa_stages p)" "pa_cost p = evaluateCandidateCost r s (route_candidate r dst hs) ws"
    using p(2) by (simp_all add: c path_of_candidate_def route_candidate_def)
  ultimately show ?thesis using plan(1) res(1-6) p(1) by auto
qed

lemma only_route_plan:
  assumes "validate r = None" and "rq_shape r = RequestShape.POINT_TO_POINT" and "\<not> rq_allowMulticast r"
    and "rq_destinations r = [dst]" and "path_feasible r s b hs"
    and "\<exists>c\<in>set (enumerateCandidatePaths s (rq_source r) dst b). cp_hops c = hs"
    and "\<forall>c\<in>set (enumerateCandidatePaths s (rq_source r) dst b). path_feasible r s b (cp_hops c) \<longrightarrow> cp_hops c = hs"
  shows "\<exists>out plan ct' p ps. planCommunication r s ws b ct = (Inr out, ct') \<and> po_success out \<and> po_plan out = Some plan \<and>
    pl_candidatePaths plan = p # ps \<and> pl_orderedStages plan = pa_stages p \<and> list_all2 (stage_of_hop s) hs (pa_stages p) \<and>
    plan_bound s plan \<and> pl_primaryPath plan = 1 \<and> pl_cost plan = evaluateCandidateCost r s (route_candidate r dst hs) ws"
  using assms(7) by (intro best_route_plan [OF assms(1-6)]) blast

end
