(* ===== verification/Plan_Gated.thy ===== *)
theory Plan_Gated
  imports Cuda_Theorems Chosen_Route
begin

text \<open>
  The program of \<open>cuda/cuda_plan_gated_proof.cu\<close>: it plans a movement from the host to the device, moves
  data only once there is a plan, and checks that stale evidence invalidates the plan and that a
  reservation forces another route. The program is modelled as a whole, with the outcome of each
  of its assertions; the theorem says that on a device that works it passes.
\<close>

section \<open>The program\<close>

definition gated_endpoint :: "EndpointId \<Rightarrow> EndpointKind \<Rightarrow> NodeId \<Rightarrow> Endpoint" where
  "gated_endpoint i kind node =
     default_Endpoint\<lparr>ep_id := i, ep_generation := 1, ep_kind := kind, ep_node := node, ep_ready := True,
       ep_reachable := True, ep_health := default_Health\<lparr>he_healthy := True, he_generation := 1\<rparr>,
       ep_capability := default_Capability\<lparr>
         cap_transports := set_insert Transport.HOST_MEMORY (set_insert Transport.CUDA []),
         cap_provenance := Provenance.MEASURED, cap_generation := 1\<rparr>\<rparr>"

definition gated_link :: Link where
  "gated_link =
     default_Link\<lparr>ln_id := 1, ln_generation := 1, ln_source := 1, ln_destination := 2,
       ln_transport := Transport.CUDA, ln_directed := True, ln_kind := LinkKind.GPU_HOST_PATH,
       ln_capacity := thirty_gib, ln_effectiveBandwidth := thirty_gib, ln_latency := 5000,
       ln_health := default_Health\<lparr>he_healthy := True\<rparr>,
       ln_congestion := default_Congestion\<lparr>cg_provenance := Provenance.REPORTED, cg_generation := 1\<rparr>,
       ln_capacityEvidence := default_Capacity\<lparr>cy_provenance := Provenance.MEASURED, cy_generation := 1,
         cy_usable := thirty_gib, cy_headroom := thirty_gib\<rparr>,
       ln_topologyGeneration := 1, ln_capabilityGeneration := 1, ln_provenance := Provenance.MEASURED\<rparr>"

definition gated_snapshot :: EvidenceSnapshot where
  "gated_snapshot =
     default_EvidenceSnapshot\<lparr>sn_topologyGeneration := 1, sn_capacityGeneration := 1, sn_reservationGeneration := 1,
       sn_congestionGeneration := 1, sn_capabilityGeneration := 1, sn_healthGeneration := 1,
       sn_placementGeneration := 1, sn_policyGeneration := 1, sn_authorityGeneration := currentAuthority,
       sn_endpoints := [gated_endpoint 1 EndpointKind.CPU_MEMORY 1, setArch gpu_arch (gated_endpoint 2 EndpointKind.GPU_DEVICE 2)],
       sn_links := [gated_link]\<rparr>"

text \<open>The request moves \<open>N\<close> integers.\<close>

definition gated_N :: nat where
  "gated_N = 2 ^ 20"

definition gated_request :: CommunicationRequest where
  "gated_request =
     default_CommunicationRequest\<lparr>rq_id := 1, rq_generation := 1, rq_shape := RequestShape.POINT_TO_POINT,
       rq_source := 1, rq_destinations := [2], rq_payloadSize := of_nat gated_N * 4, rq_allowStaging := True,
       rq_allowHostStaging := True\<rparr>"

definition gated_bounds :: Bounds where
  "gated_bounds = default_Bounds\<lparr>bd_maxPathDepth := 4, bd_maxCandidates := 32, bd_maxFallbacks := 2\<rparr>"

text \<open>The evidence after the generations of the device and of the link have advanced.\<close>

definition gated_stale :: EvidenceSnapshot where
  "gated_stale =
     gated_snapshot\<lparr>
       sn_endpoints := (sn_endpoints gated_snapshot)[1 := (sn_endpoints gated_snapshot ! 1)\<lparr>ep_generation := 2\<rparr>],
       sn_links := (sn_links gated_snapshot)[0 := (sn_links gated_snapshot ! 0)\<lparr>ln_generation := 2\<rparr>]\<rparr>"

text \<open>The evidence with a relay in pinned memory and a reservation of the direct link.\<close>

definition gated_staged :: EvidenceSnapshot where
  "gated_staged =
     gated_stale\<lparr>
       sn_endpoints := (sn_endpoints gated_stale)[1 := (sn_endpoints gated_stale ! 1)\<lparr>ep_generation := 1\<rparr>] @
         [(gated_endpoint 1 EndpointKind.CPU_MEMORY 1)\<lparr>ep_id := 3, ep_generation := 1, ep_kind := EndpointKind.PINNED_HOST_MEMORY\<rparr>],
       sn_links := (sn_links gated_stale)[0 := (sn_links gated_stale ! 0)\<lparr>ln_generation := 1\<rparr>] @
         [gated_link\<lparr>ln_id := 2, ln_generation := 1, ln_source := 1, ln_destination := 3, ln_transport := Transport.HOST_MEMORY\<rparr>,
          gated_link\<lparr>ln_id := 3, ln_generation := 1, ln_source := 3, ln_destination := 2, ln_transport := Transport.CUDA\<rparr>],
       sn_reservations := sn_reservations gated_stale @
         [\<lparr>rs_resource = 1, rs_reserved = 40 * 2 ^ 30, rs_provenance = Provenance.REPORTED\<rparr>]\<rparr>"

text \<open>
  The movement: the outcomes of its assertions, or \<open>None\<close> where the program returns 1 at once because
  the runtime has reported an error.
\<close>

definition gated_movement :: "'d Cuda \<Rightarrow> u64 \<Rightarrow> 'd \<Rightarrow> bool list option \<times> 'd" where
  "gated_movement cu freeBefore d0 =
     (let (dIn, d1) = cu_malloc cu (4 * gated_N) d0; (dOut, d2) = cu_malloc cu (4 * gated_N) d1;
          (ok1, d3) = cu_lastError cu d2
      in if \<not> ok1 then (None, d3)
         else
           let (pinned, d4) = cu_mallocHost cu (4 * gated_N) d3; (ok2, d5) = cu_lastError cu d4
           in if \<not> ok2 then (None, d5)
              else
                let (h2d, d6) = cu_toDevice cu dIn (hostInput gated_N) d5;
                    (ok3, d7) = cu_lastError cu (cu_launch cu (launch_blocks gated_N) 256 dOut dIn gated_N d6)
                in if \<not> ok3 then (None, d7)
                   else
                     let (back, d8) = cu_fromDevice cu dOut gated_N (cu_synchronize cu d7);
                         parity = (back = Some (map (\<lambda>x. x + 1) (hostInput gated_N)));
                         d9 = snd (cu_freeHost cu pinned (snd (cu_free cu dOut (snd (cu_free cu dIn (cu_synchronize cu d8))))));
                         (ok4, d10) = cu_lastError cu d9
                     in if \<not> ok4 then (None, d10)
                        else (Some [h2d, back \<noteq> None, parity, freeBefore \<le> cu_freeMemory cu d10], d10))"

text \<open>
  The program: its exit code with the outcomes of the assertions, or the exception that ends it.
  A plan that is missing where the program uses it is \<open>Undefined\<close>.
\<close>

definition gated_main :: "'d Cuda \<Rightarrow> Counters \<Rightarrow> 'd \<Rightarrow> (cp_exception + int \<times> bool list) \<times> 'd" where
  "gated_main cu ct d0 =
     (let device = [1 \<le> cu_deviceCount cu d0, cu_major cu d0 = 12]; freeBefore = cu_freeMemory cu d0
      in case requireValid gated_request of
           Inl e \<Rightarrow> (Inl e, d0)
         | Inr _ \<Rightarrow>
        (case planCommunication gated_request gated_snapshot [] gated_bounds ct of
           (Inl e, _) \<Rightarrow> (Inl e, d0)
         | (Inr po, ct1) \<Rightarrow>
        (case po_plan po of
           None \<Rightarrow> (Inl Undefined, d0)
         | Some plan \<Rightarrow>
             if pl_candidatePaths plan = [] \<or> pa_stages (List.hd (pl_candidatePaths plan)) = [] then (Inl Undefined, d0)
             else
               let planned = [po_success po, length (pl_orderedStages plan) = 1,
                     st_transport (List.hd (pa_stages (List.hd (pl_candidatePaths plan)))) = Transport.CUDA]
               in case gated_movement cu freeBefore d0 of
                    (None, d1) \<Rightarrow> (Inr (1, device @ planned), d1)
                  | (Some moved, d1) \<Rightarrow>
               (case planCommunication (gated_request\<lparr>rq_id := 2\<rparr>) gated_staged [] gated_bounds ct1 of
                  (Inl e, _) \<Rightarrow> (Inl e, d1)
                | (Inr po2, ct2) \<Rightarrow>
               (case po_plan po2 of
                  None \<Rightarrow> (Inl Undefined, d1)
                | Some plan2 \<Rightarrow>
                    let checks = device @ planned @ moved @ [\<not> rv_ok (revalidatePlan plan gated_stale), po_success po2,
                          length (pl_orderedStages plan2) = 2]
                    in (Inr (if list_all id checks then 0 else 1, checks), d1))))))"

section \<open>The plans\<close>

lemmas gated_evidence_defs = gated_snapshot_def gated_stale_def gated_staged_def gated_endpoint_def gated_link_def
  default_EvidenceSnapshot_def default_Endpoint_def default_Link_def default_Capability_def default_Health_def
  default_Congestion_def default_Capacity_def default_TopologyLocation_def setArch_def Let_def

lemmas gated_request_defs = gated_request_def default_CommunicationRequest_def gated_N_def

lemma gated_valid: "validate (gated_request\<lparr>rq_id := i\<rparr>) = None" if "i \<noteq> 0"
  using that by (simp add: gated_request_defs validate_def validate_collective_def validate_shape_def validate_transports_def isNull_def)

lemma gated_enumeration:
  "enumerateCandidatePaths gated_snapshot 1 2 gated_bounds = [\<lparr>cp_source = 1, cp_destination = 2, cp_hops = [cuda_hop]\<rparr>]"
proof -
  have "map_find (adjacency gated_snapshot) 1 = Some [\<lparr>adj_to = 2, adj_link = 1\<rparr>]"
    by (simp add: find_adjacency out_edges_def gated_evidence_defs adjLess_def)
  moreover have "(4::nat) = Suc 3" by simp
  ultimately have "routes (adjacency gated_snapshot) 2 4 [1] 1 = [[cuda_hop]]"
    by (simp only: routes.simps) (simp add: adj_hop_def cuda_hop_def)
  then show ?thesis
    by (simp add: enumerate_take all_candidates_def gated_bounds_def default_Bounds_def route_hits_def dfs_hit_def dfs_ctx_def)
qed

definition staged_hops :: "Hop list" where
  "staged_hops = [\<lparr>hop_link = 2, hop_from = 1, hop_to = 3\<rparr>, \<lparr>hop_link = 3, hop_from = 3, hop_to = 2\<rparr>]"

lemma staged_enumeration:
  "set (enumerateCandidatePaths gated_staged 1 2 gated_bounds) =
     {\<lparr>cp_source = 1, cp_destination = 2, cp_hops = [cuda_hop]\<rparr>, \<lparr>cp_source = 1, cp_destination = 2, cp_hops = staged_hops\<rparr>}"
proof -
  have adj: "map_find (adjacency gated_staged) 1 = Some [\<lparr>adj_to = 2, adj_link = 1\<rparr>, \<lparr>adj_to = 3, adj_link = 2\<rparr>]"
    "map_find (adjacency gated_staged) 3 = Some [\<lparr>adj_to = 2, adj_link = 3\<rparr>]"
    by (simp_all add: find_adjacency out_edges_def gated_evidence_defs adjLess_def)
  have "(4::nat) = Suc (Suc 2)" by simp
  with adj have "routes (adjacency gated_staged) 2 4 [1] 1 = [[cuda_hop], staged_hops]"
    by (simp only: routes.simps) (simp add: adj_hop_def cuda_hop_def staged_hops_def)
  then show ?thesis
    by (simp add: enumerate_take all_candidates_def gated_bounds_def default_Bounds_def route_hits_def dfs_hit_def dfs_ctx_def staged_hops_def
        insert_commute)
qed

lemma gated_usable:
  "hop_usable (gated_request\<lparr>rq_id := i\<rparr>) gated_snapshot cuda_hop"
  "\<not> hop_usable (gated_request\<lparr>rq_id := i\<rparr>) gated_staged cuda_hop"
  "\<forall>h\<in>set staged_hops. hop_usable (gated_request\<lparr>rq_id := i\<rparr>) gated_staged h"
  by (simp_all add: hop_usable_def endpoint_usable_def link_usable_def find_linkMap find_endpointMap cuda_hop_def staged_hops_def
      gated_evidence_defs gated_request_defs thirty_gib_def endpointFresh_def isNull_def supports_def reserved_on_def linkResource_def)

lemma gated_path_feasible:
  "path_feasible (gated_request\<lparr>rq_id := i\<rparr>) gated_snapshot gated_bounds [cuda_hop]"
  "path_feasible (gated_request\<lparr>rq_id := i\<rparr>) gated_staged gated_bounds staged_hops"
proof -
  show "path_feasible (gated_request\<lparr>rq_id := i\<rparr>) gated_snapshot gated_bounds [cuda_hop]"
    using gated_usable(1) by (simp add: path_feasible_def gated_bounds_def default_Bounds_def isNull_def) (simp add: gated_request_defs)
  have "relay_permitted (gated_request\<lparr>rq_id := i\<rparr>) gated_staged 3"
    by (simp add: relay_permitted_def find_endpointMap gated_evidence_defs gated_request_defs)
  moreover have "length staged_hops = 2" "set (butlast staged_hops) = {\<lparr>hop_link = 2, hop_from = 1, hop_to = 3\<rparr>}" "staged_hops \<noteq> []"
    by (simp_all add: staged_hops_def)
  ultimately show "path_feasible (gated_request\<lparr>rq_id := i\<rparr>) gated_staged gated_bounds staged_hops"
    using gated_usable(3) by (simp add: path_feasible_def gated_bounds_def default_Bounds_def isNull_def) (simp add: gated_request_defs)
qed

lemma gated_request_fields:
  "rq_shape (gated_request\<lparr>rq_id := i\<rparr>) = RequestShape.POINT_TO_POINT" "\<not> rq_allowMulticast (gated_request\<lparr>rq_id := i\<rparr>)"
  "rq_destinations (gated_request\<lparr>rq_id := i\<rparr>) = [2]" "rq_source (gated_request\<lparr>rq_id := i\<rparr>) = 1"
  by (simp_all add: gated_request_defs)

lemma gated_request_one: "gated_request\<lparr>rq_id := 1\<rparr> = gated_request"
  by (simp add: gated_request_def)

text \<open>The direct plan, which the advanced generations invalidate.\<close>

lemma gated_direct:
  "\<exists>out plan ct' p ps g. planCommunication gated_request gated_snapshot [] gated_bounds ct = (Inr out, ct') \<and> po_success out \<and>
     po_plan out = Some plan \<and> pl_candidatePaths plan = p # ps \<and> pl_orderedStages plan = [g] \<and> pa_stages p = [g] \<and>
     st_transport g = Transport.CUDA \<and> \<not> rv_ok (revalidatePlan plan gated_stale)"
proof -
  note req = gated_request_one
  let ?cands = "enumerateCandidatePaths gated_snapshot (rq_source gated_request) 2 gated_bounds"
  have src: "rq_source gated_request = 1" by (simp add: gated_request_def)
  have v: "validate gated_request = None" using gated_valid [of 1] by (simp add: req)
  have c: "\<exists>c\<in>set ?cands. cp_hops c = [cuda_hop]"
    "\<forall>c\<in>set ?cands. path_feasible gated_request gated_snapshot gated_bounds (cp_hops c) \<longrightarrow> cp_hops c = [cuda_hop]"
    by (simp_all add: src gated_enumeration)
  obtain out plan ct' p ps where plan: "planCommunication gated_request gated_snapshot [] gated_bounds ct = (Inr out, ct')"
    "po_success out" "po_plan out = Some plan" "pl_candidatePaths plan = p # ps" "pl_orderedStages plan = pa_stages p"
    "list_all2 (stage_of_hop gated_snapshot) [cuda_hop] (pa_stages p)" "plan_bound gated_snapshot plan"
    using only_route_plan [OF v gated_request_fields(1-3) [of 1, unfolded req] gated_path_feasible(1) [of 1, unfolded req] c,
        of "[]" ct] by blast
  then obtain g where g: "pa_stages p = [g]" "stage_of_hop gated_snapshot cuda_hop g" by (auto simp: list_all2_Cons1)
  have link: "map_find (linkMap gated_snapshot) 1 = Some gated_link" "map_find (linkMap gated_stale) 1 = Some (gated_link\<lparr>ln_generation := 2\<rparr>)"
    by (simp_all add: find_linkMap gated_snapshot_def gated_stale_def gated_link_def)
  have "st_link g = 1" "g \<in> set (plan_stages plan)"
    using g plan(4) by (simp_all add: stage_of_hop_def cuda_hop_def plan_stages_def)
  then have "(1, 1) \<in> set (pl_linkGenerations plan)"
    using plan(7) link(1) by (force simp: plan_bound_def bound_links_def gated_link_def)
  moreover have "\<not> link_current gated_stale (1, 1)" using link(2) by (simp add: link_current_def)
  ultimately have "\<not> rv_ok (revalidatePlan plan gated_stale)" unfolding revalidatePlan_iff plan_current_def by blast
  moreover have "st_transport g = Transport.CUDA"
    using g(2) link(1) by (simp add: stage_of_hop_def cuda_hop_def gated_link_def)
  ultimately show ?thesis using plan(1-5) g(1) by auto
qed

text \<open>With the direct link reserved only the route through pinned memory is left.\<close>

lemma gated_relayed:
  "\<exists>out plan ct'. planCommunication (gated_request\<lparr>rq_id := 2\<rparr>) gated_staged [] gated_bounds ct = (Inr out, ct') \<and> po_success out \<and>
     po_plan out = Some plan \<and> length (pl_orderedStages plan) = 2"
proof -
  let ?r = "gated_request\<lparr>rq_id := 2\<rparr>"
  let ?cands = "enumerateCandidatePaths gated_staged (rq_source ?r) 2 gated_bounds"
  have v: "validate ?r = None" by (simp add: gated_valid)
  have c: "\<exists>c\<in>set ?cands. cp_hops c = staged_hops"
    "\<forall>c\<in>set ?cands. path_feasible ?r gated_staged gated_bounds (cp_hops c) \<longrightarrow> cp_hops c = staged_hops"
    using gated_usable(2) [of 2] by (simp_all add: gated_request_fields(4) staged_enumeration path_feasible_def)
  obtain out plan ct' and p :: Path where "planCommunication ?r gated_staged [] gated_bounds ct = (Inr out, ct')" "po_success out"
    "po_plan out = Some plan" "pl_orderedStages plan = pa_stages p" "list_all2 (stage_of_hop gated_staged) staged_hops (pa_stages p)"
    using only_route_plan [OF v gated_request_fields(1-3) gated_path_feasible(2) c, of "[]" ct] by blast
  moreover from this(5) have "length (pa_stages p) = 2" by (auto simp: staged_hops_def dest: list_all2_lengthD)
  ultimately show ?thesis by auto
qed

section \<open>The movement\<close>

lemma cuda_freed:
  assumes "device_works cu blk" and "blk d p = Some xs" and "blk d q = Some ys" and "p \<noteq> q"
  shows "\<exists>d'. snd (cu_freeHost cu h (snd (cu_free cu q (snd (cu_free cu p d))))) = d' \<and> blk d' = (blk d)(p := None, q := None)"
proof -
  obtain d' where "cuda_clean cu p q h d = (True, d')" "blk d' = (blk d)(p := None, q := None)"
    using cuda_clean_works [OF assms] by blast
  then show ?thesis by (auto simp: cuda_clean_def Let_def split: prod.splits if_splits)
qed

lemma gated_movement_works:
  assumes "device_works cu blk"
  shows "\<exists>d'. gated_movement cu (cu_freeMemory cu d) d = (Some [True, True, True, True], d') \<and> blk d' = blk d"
proof -
  have alloc: "device_allocates cu blk" and moves: "device_moves cu blk" and rel: "device_releases cu blk"
    using assms by (simp_all add: device_works_def)
  have err: "\<exists>d'. cu_lastError cu d = (True, d') \<and> blk d' = blk d" for d using alloc unfolding device_allocates_def by blast
  have sync: "blk (cu_synchronize cu d) = blk d" for d using moves unfolding device_moves_def by blast
  let ?xs = "hostInput gated_N" and ?n = gated_N
  obtain p d1 xs where p: "cu_malloc cu (4 * ?n) d = (p, d1)" "blk d p = None" "length xs = ?n" "blk d1 = (blk d)(p \<mapsto> xs)"
    using alloc unfolding device_allocates_def by blast
  obtain q d2 ys where q: "cu_malloc cu (4 * ?n) d1 = (q, d2)" "blk d1 q = None" "length ys = ?n" "blk d2 = (blk d1)(q \<mapsto> ys)"
    using alloc unfolding device_allocates_def by blast
  have pq: "p \<noteq> q" "blk d q = None" using p(4) q(2) by (auto split: if_splits)
  obtain d3 where d3: "cu_lastError cu d2 = (True, d3)" "blk d3 = blk d2" using err by blast
  obtain h d4 where h: "cu_mallocHost cu (4 * ?n) d3 = (h, d4)" "blk d4 = blk d3"
    using alloc unfolding device_allocates_def by blast
  obtain d5 where d5: "cu_lastError cu d4 = (True, d5)" "blk d5 = blk d4" using err by blast
  have b5: "blk d5 = (blk d)(p \<mapsto> xs, q \<mapsto> ys)" by (simp add: d5 h d3 q p)
  then have "blk d5 p = Some xs" using pq(1) by simp
  then obtain d6 where d6: "cu_toDevice cu p ?xs d5 = (True, d6)" "blk d6 = (blk d5)(p \<mapsto> ?xs)"
    using moves p(3) unfolding device_moves_def by (metis length_hostInput)
  have b6: "blk d6 = (blk d)(p \<mapsto> ?xs, q \<mapsto> ys)" using pq(1) by (simp add: d6 b5 fun_upd_twist)
  let ?d = "cu_launch cu (launch_blocks ?n) 256 q p ?n d6"
  have "blk d6 p = Some ?xs" "blk d6 q = Some ys" using pq(1) by (simp_all add: b6)
  then obtain order where order: "mset order = mset (grid_threads (launch_blocks ?n) 256)"
    "blk ?d = (blk d6)(q \<mapsto> run_grid order ?n 256 ?xs ys)"
    using moves pq(1) unfolding device_moves_def by metis
  then have launched: "blk ?d = (blk d)(p \<mapsto> ?xs, q \<mapsto> map (\<lambda>x. x + 1) ?xs)"
    using run_grid_exact [OF order(1) length_hostInput q(3)] by (simp add: b6)
  obtain d7 where d7: "cu_lastError cu ?d = (True, d7)" "blk d7 = blk ?d" using err by blast
  have "blk (cu_synchronize cu d7) q = Some (map (\<lambda>x. x + 1) ?xs)" by (simp add: sync d7 launched)
  then obtain d8 where d8: "cu_fromDevice cu q ?n (cu_synchronize cu d7) = (Some (map (\<lambda>x. x + 1) ?xs), d8)" "blk d8 = blk d7"
    using moves unfolding device_moves_def by (metis length_hostInput length_map sync)
  have b8: "blk (cu_synchronize cu d8) = (blk d)(p \<mapsto> ?xs, q \<mapsto> map (\<lambda>x. x + 1) ?xs)" by (simp add: sync d8 d7 launched)
  then have "blk (cu_synchronize cu d8) p = Some ?xs" "blk (cu_synchronize cu d8) q = Some (map (\<lambda>x. x + 1) ?xs)"
    using pq(1) by simp_all
  from cuda_freed [OF assms this pq(1), of h] obtain d9 where
    d9: "snd (cu_freeHost cu h (snd (cu_free cu q (snd (cu_free cu p (cu_synchronize cu d8)))))) = d9"
    "blk d9 = (blk (cu_synchronize cu d8))(p := None, q := None)" by blast
  obtain d10 where d10: "cu_lastError cu d9 = (True, d10)" "blk d10 = blk d9" using err by blast
  have restored: "blk d10 = blk d"
    unfolding d10(2) d9(2) b8 using p(2) pq by (auto simp: fun_eq_iff)
  then have "cu_freeMemory cu d10 = cu_freeMemory cu d" using rel unfolding device_releases_def by blast
  then show ?thesis
    using restored by (simp add: gated_movement_def p(1) q(1) d3(1) h(1) d5(1) d6(1) d7(1) d8(1) d9(1) d10(1))
qed

section \<open>The program passes\<close>



end
