(* ===== verification/Cost_Bounds.thy ===== *)
theory Cost_Bounds
  imports Cost_Model
begin

text \<open>
  Overflow in the cost model: how far the exponent of a double can grow in an addition and in a
  multiplication, rounding included, and that the sum of \<open>CostSummary::of\<close> therefore stays finite for
  every choice of weights up to \<open>2 ^ 900\<close>, the default weights among them.
\<close>

section \<open>Growth of the exponent\<close>

text \<open>The biased exponent field of a double is at most \<open>n\<close>: its magnitude is below \<open>2 ^ (n - 1022)\<close>.\<close>

definition level_le :: "double \<Rightarrow> nat \<Rightarrow> bool" where
  "level_le d n \<longleftrightarrow> magnitude d < Suc n * 2 ^ 52"

lemma level_le_mono: "level_le d m \<Longrightarrow> m \<le> n \<Longrightarrow> level_le d n"
  unfolding level_le_def by (erule order_less_le_trans) (simp add: mult_le_mono1)

lemma level_finite: "level_le d n \<Longrightarrow> n \<le> 2046 \<Longrightarrow> isfinite d"
  using level_le_mono [of d n 2046] by (simp add: level_le_def isfinite_def inf_mag_def)

lemma level_parts:
  assumes "level_le d n" and "1 \<le> n"
  shows "significand d < 2 ^ 53" and "exponent d \<le> int n - 1075"
proof -
  have "magnitude d div 2 ^ 52 \<le> n"
    using assms(1) by (simp add: level_le_def less_mult_imp_div_less flip: less_Suc_eq_le)
  then show "exponent d \<le> int n - 1075" using assms(2) by (simp add: exponent_def)
  have "magnitude d mod 2 ^ 52 < 2 ^ 52" by (rule mod_less_divisor) simp
  moreover have "(2 :: nat) ^ 53 = 2 ^ 52 + 2 ^ 52" by simp
  ultimately have "magnitude d mod 2 ^ 52 < 2 ^ 53" "2 ^ 52 + magnitude d mod 2 ^ 52 < 2 ^ 53" by linarith+
  then show "significand d < 2 ^ 53" by (simp only: significand_def Let_def split: if_split) blast
qed

lemma bitlen_le: "n < 2 ^ b \<Longrightarrow> bitlen n \<le> b"
proof (induction n arbitrary: b rule: bitlen.induct)
  case (1 n)
  show ?case
  proof (cases "n = 0")
    case False
    with 1(2) obtain c where b: "b = Suc c" by (cases b) auto
    with 1(2) have "n div 2 < 2 ^ c" by (simp add: less_mult_imp_div_less mult.commute)
    with 1(1) [OF False] show ?thesis by (subst bitlen.simps) (simp add: b)
  qed (simp add: bitlen.simps)
qed

lemma less_bitlen: "n < 2 ^ bitlen n"
proof (induction n rule: bitlen.induct)
  case (1 n)
  show ?case
  proof (cases "n = 0")
    case False
    from 1 [OF False] have "n div 2 < 2 ^ bitlen (n div 2)" .
    then have "n < 2 * 2 ^ bitlen (n div 2)" by simp
    with False show ?thesis by (subst bitlen.simps) simp
  qed (simp add: bitlen.simps)
qed

lemma half_even_le: "n div d < q \<Longrightarrow> half_even n d \<le> q"
  by (simp add: half_even_def Let_def)

text \<open>The rounded significand has at most 54 bits.\<close>

lemma rounded_significand:
  assumes "N < 2 ^ 54 * D" and "wide = (2 ^ 53 \<le> N div D)" and "D' = (if wide then 2 * D else D)"
  shows "half_even N D' \<le> (2 :: nat) ^ 53"
proof (rule half_even_le)
  have "N div (2 * D) < 2 ^ 53" using assms(1) by (intro less_mult_imp_div_less) (simp add: mult.commute mult.left_commute)
  then show "N div D' < 2 ^ 53" using assms(2,3) by auto
qed

lemma round_mag_level:
  assumes "n < 2 ^ b"
  shows "round_mag n 1 e \<le> nat (max (- 1074) (e + int b - 54) + 1075) * 2 ^ 52 + 2 ^ 53"
proof (cases "n = 0")
  case False
  define u where "u = max (- 1074) (e + int (bitlen n) - int (bitlen 1) - 53)"
  define x where "x = e - u"
  define N where "N = (if 0 \<le> x then n * 2 ^ nat x else n)"
  define D where "D = (if 0 \<le> x then 1 else 1 * 2 ^ nat (- x) :: nat)"
  define wide where "wide = (2 ^ 53 \<le> N div D)"
  define t where "t = (if wide then u + 1 else u)"
  define D' where "D' = (if wide then 2 * D else D)"
  have eq: "round_mag n 1 e = min inf_mag (nat (t + 1074) * 2 ^ 52 + half_even N D')"
    by (rule round_mag_eval [OF False u_def x_def N_def D_def wide_def t_def D'_def refl])
  have x: "x \<le> 54 - int (bitlen n)" by (simp add: x_def u_def bitlen_numeral)
  have "N < 2 ^ 54 * D"
  proof (cases "0 \<le> x")
    case True
    then have "bitlen n + nat x \<le> 54" using x by linarith
    then have "(2 :: nat) ^ (bitlen n + nat x) \<le> 2 ^ 54" by (intro power_increasing) simp_all
    moreover have "n * 2 ^ nat x < 2 ^ bitlen n * 2 ^ nat x" using less_bitlen by (rule mult_less_mono1) simp
    ultimately have "n * 2 ^ nat x < 2 ^ 54" unfolding power_add by (rule less_le_trans [rotated])
    then show ?thesis using True by (simp add: N_def D_def)
  next
    case neg: False
    then have "bitlen n \<le> 54 + nat (- x)" using x by linarith
    then have "(2 :: nat) ^ bitlen n \<le> 2 ^ (54 + nat (- x))" by (intro power_increasing) simp_all
    with less_bitlen [of n] neg show ?thesis by (simp add: N_def D_def power_add)
  qed
  from rounded_significand [OF this wide_def D'_def] have h: "half_even N D' \<le> 2 ^ 53" .
  have "t \<le> max (- 1074) (e + int b - 54) + 1"
    using bitlen_le [OF assms] by (auto simp: t_def u_def bitlen_numeral max_def)
  then have "nat (t + 1074) \<le> nat (max (- 1074) (e + int b - 54) + 1075)" by (intro nat_mono) simp
  then have "nat (t + 1074) * 2 ^ 52 \<le> nat (max (- 1074) (e + int b - 54) + 1075) * 2 ^ 52" by (rule mult_le_mono1)
  with h show ?thesis unfolding eq by (intro min.coboundedI2 add_mono)
qed simp

lemma level_le_round:
  assumes "n < 2 ^ b" and "max (- 1074) (e + int b - 54) + 1075 \<le> int k"
  shows "level_le (make_double s (round_mag n 1 e)) (k + 2)"
proof -
  have "nat (max (- 1074) (e + int b - 54) + 1075) \<le> k" using assms(2) by linarith
  then have "nat (max (- 1074) (e + int b - 54) + 1075) * 2 ^ 52 \<le> k * 2 ^ 52" by (rule mult_le_mono1)
  with round_mag_level [OF assms(1), of e] have "round_mag n 1 e \<le> k * 2 ^ 52 + 2 ^ 53" by linarith
  then show ?thesis by (simp add: level_le_def)
qed

lemma level_dadd:
  assumes "dnonneg a" and "dnonneg b" and "level_le a n" and "level_le b n" and "1 \<le> n" and "n \<le> 2046"
  shows "level_le (dadd a b) (n + 2)"
proof -
  define e where "e = min (exponent a) (exponent b)"
  define w where "w = nat (int n - 1075 - e)"
  note pa = level_parts [OF assms(3,5)] and pb = level_parts [OF assms(4,5)]
  have fin: "\<not> isinf a" "\<not> isinf b" "\<not> isnan a" "\<not> isnan b"
    using level_finite [OF assms(3,6)] level_finite [OF assms(4,6)] assms(1,2)
    by (auto simp: isinf_def isfinite_def dnonneg_def)
  have e: "e \<le> int n - 1075" using pa(2) by (simp add: e_def)
  have part: "significand d * 2 ^ nat (exponent d - e) < 2 ^ (53 + w)" if "level_le d n" for d
  proof -
    note p = level_parts [OF that assms(5)]
    have "(2 :: nat) ^ nat (exponent d - e) \<le> 2 ^ w" using p(2) by (intro power_increasing) (simp_all add: w_def)
    moreover have "significand d * 2 ^ w < 2 ^ 53 * 2 ^ w" using p(1) by (intro mult_less_mono1) simp_all
    ultimately show ?thesis unfolding power_add by (meson le_less_trans mult_le_mono2)
  qed
  define va where "va = int (significand a * 2 ^ nat (exponent a - e)) * (if sign_bit a then - 1 else 1)"
  define vb where "vb = int (significand b * 2 ^ nat (exponent b - e)) * (if sign_bit b then - 1 else 1)"
  have abs: "nat \<bar>int x * (if g then - 1 else 1)\<bar> = x" for x g by simp
  have "nat \<bar>va\<bar> < 2 ^ (53 + w)" "nat \<bar>vb\<bar> < 2 ^ (53 + w)"
    using part [OF assms(3)] part [OF assms(4)] unfolding va_def vb_def abs .
  moreover have "(2 :: nat) ^ (54 + w) = 2 ^ (53 + w) + 2 ^ (53 + w)" by (simp add: power_add)
  moreover have "nat \<bar>va + vb\<bar> \<le> nat \<bar>va\<bar> + nat \<bar>vb\<bar>" by linarith
  ultimately have small: "nat \<bar>va + vb\<bar> < 2 ^ (54 + w)" by linarith
  have "e + int (54 + w) - 54 = int n - 1075" using e by (simp add: w_def)
  then have "level_le (make_double s (round_mag (nat \<bar>va + vb\<bar>) 1 e)) (n + 2)" for s
    using level_le_round [OF small, of e n] assms(5) by simp
  moreover have "dadd a b = (if va + vb = 0 then make_double (sign_bit a \<and> sign_bit b) 0
      else make_double (va + vb < 0) (round_mag (nat \<bar>va + vb\<bar>) 1 e))"
    using fin by (simp add: dadd_def Let_def va_def vb_def e_def)
  moreover have "level_le (make_double s 0) (n + 2)" for s by (simp add: level_le_def)
  ultimately show ?thesis by simp
qed

lemma level_dmul:
  assumes "isfinite a" and "isfinite b" and "level_le a m" and "level_le b n" and "1 \<le> m" and "1 \<le> n" and "m + n \<le> k + 1023" and "1 \<le> k"
  shows "level_le (dmul a b) (k + 2)"
proof -
  note pa = level_parts [OF assms(3,5)] and pb = level_parts [OF assms(4,6)]
  have fin: "\<not> isinf a" "\<not> isinf b" "\<not> isnan a" "\<not> isnan b"
    using assms(1,2) by (auto simp: isinf_def isfinite_def isnan_def)
  have "significand a * significand b < 2 ^ 53 * 2 ^ 53" using pa(1) pb(1) by (intro mult_strict_mono) simp_all
  then have small: "significand a * significand b < 2 ^ 106" by simp
  have "max (- 1074) (exponent a + exponent b + int 106 - 54) + 1075 \<le> int k" using pa(2) pb(2) assms(7,8) by simp
  from level_le_round [OF small this] show ?thesis using fin by (simp add: dmul_def Let_def)
qed

section \<open>The total of a cost stays finite\<close>

lemma cost_total_level:
  assumes "\<forall>c\<in>set cs. cc_isValid c \<and> level_le (cc_weight c) w \<and> level_le (cc_value c) 1083"
    and "1 \<le> w" and "w + 62 \<le> n" and "dnonneg t" and "level_le t n" and "n + 2 * length cs \<le> 2046"
  shows "dnonneg (cost_total t cs) \<and> isfinite (cost_total t cs)"
  using assms
proof (induction cs arbitrary: t n)
  case Nil
  then show ?case using level_finite [of t n] by simp
next
  case (Cons c cs)
  let ?t = "dadd t (dmul (cc_weight c) (cc_value c))"
  have c: "cc_isValid c" "level_le (cc_weight c) w" "level_le (cc_value c) 1083" using Cons.prems(1) by simp_all
  have parts: "dnonneg (cc_weight c)" "dnonneg (cc_value c)" "isfinite (cc_weight c)" "isfinite (cc_value c)"
    using c(1) by (auto simp: cc_isValid_def dnonneg_iff isfinite_def isinf_def isnan_def)
  have "level_le (dmul (cc_weight c) (cc_value c)) (w + 60 + 2)"
    using Cons.prems(2) by (intro level_dmul [OF parts(3,4) c(2,3)]) simp_all
  then have prod: "level_le (dmul (cc_weight c) (cc_value c)) n" using Cons.prems(3) by (elim level_le_mono) simp
  have nonneg: "dnonneg (dmul (cc_weight c) (cc_value c))" using parts by (rule dnonneg_dmul)
  have t: "level_le ?t (n + 2)"
    using Cons.prems(2,3,6) by (intro level_dadd [OF Cons.prems(4) nonneg Cons.prems(5) prod]) simp_all
  have "dnonneg (cost_total ?t cs) \<and> isfinite (cost_total ?t cs)"
    using Cons.prems t by (intro Cons.IH [where n = "n + 2"] dnonneg_dadd [OF Cons.prems(4) nonneg]) simp_all
  moreover have "isfinite ?t" using level_finite [OF t] Cons.prems(6) by simp
  ultimately show ?case using c(1) by (simp add: Let_def isfinite_def isinf_def isnan_def)
qed

lemma nonneg_magnitude: "dnonneg a \<Longrightarrow> dle a b \<Longrightarrow> level_le b n \<Longrightarrow> level_le a n"
  by (auto simp: dle_def dkey_def dnonneg_def level_le_def split: if_splits)

lemma level_double_lit:
  assumes "n < 2 ^ b" and "54 \<le> b"
  shows "level_le (double_lit n 1) (b + 1023)"
  using level_le_round [OF assms(1), of 0 "b + 1021" False] assms(2) by (simp add: double_lit_def add.commute)

lemma level_kMaxCost: "level_le kMaxCost 1083"
  unfolding kMaxCost_def using level_double_lit [of "10 ^ 18" 60] by simp

text \<open>Weights from 0 to \<open>2 ^ 900\<close>.\<close>

definition weights_moderate :: "RankingWeights \<Rightarrow> bool" where
  "weights_moderate ws \<longleftrightarrow> (\<forall>f. dle dzero (weightOf ws f) \<and> dle (weightOf ws f) (double_lit (2 ^ 900) 1))"

lemma default_weights_moderate: "weights_moderate []"
proof -
  have "round_mag 1 1 0 = min inf_mag (nat (- 52 + 1074) * 2 ^ 52 + 2 ^ 52)"
    by (rule round_mag_eval [where u = "- 53" and x = 53 and N = "2 ^ 53" and D = 1 and wide = True and t = "- 52" and D' = 2 and h = "2 ^ 52"])
      (simp_all add: bitlen_numeral half_even_def)
  then have one: "magnitude (double_lit 1 1) = 1023 * 2 ^ 52" by (simp add: double_lit_def inf_mag_def)
  have "round_mag 1 2 0 = min inf_mag (nat (- 53 + 1074) * 2 ^ 52 + 2 ^ 52)"
    by (rule round_mag_eval [where u = "- 54" and x = 54 and N = "2 ^ 54" and D = 2 and wide = True and t = "- 53" and D' = 4 and h = "2 ^ 52"])
      (simp_all add: bitlen_numeral half_even_def)
  then have half: "magnitude (double_lit 1 2) = 1022 * 2 ^ 52" by (simp add: double_lit_def inf_mag_def)
  have "round_mag (2 ^ 900) 1 0 = min inf_mag (nat (848 + 1074) * 2 ^ 52 + 2 ^ 52)"
    by (rule round_mag_eval [where u = 847 and x = "- 847" and N = "2 ^ 900" and D = "2 ^ 847" and wide = True and t = 848
          and D' = "2 ^ 848" and h = "2 ^ 52"]) (simp_all add: bitlen_numeral half_even_def)
  then have top: "magnitude (double_lit (2 ^ 900) 1) = 1923 * 2 ^ 52" by (simp add: double_lit_def inf_mag_def)
  have "\<not> sign_bit (double_lit n d)" for n d by (simp add: double_lit_def)
  then have "dle dzero (default_weight f) \<and> dle (default_weight f) (double_lit (2 ^ 900) 1)" for f
    using one half top by (cases f) (simp_all add: default_weight_def dle_def dkey_def isnan_def dzero_def inf_mag_def)
  then show ?thesis by (simp add: weights_moderate_def weightOf_def map_find_def)
qed

lemma moderate_total:
  assumes "weights_moderate ws"
  shows "dnonneg (cs_total (evaluateCandidateCost r s cand ws)) \<and> isfinite (cs_total (evaluateCandidateCost r s cand ws)) \<and>
    list_all cc_isValid (cs_components (evaluateCandidateCost r s cand ws))"
proof -
  have "level_le (double_lit (2 ^ 900) 1) (901 + 1023)" by (rule level_double_lit) simp_all
  then have weight: "dnonneg (weightOf ws f)" "level_le (weightOf ws f) 1924" for f
    using assms nonneg_magnitude by (auto simp: weights_moderate_def dnonneg_iff)
  have comps: "cc_isValid (cost_comp ws f v prov) \<and> level_le (cc_weight (cost_comp ws f v prov)) 1924 \<and>
      level_le (cc_value (cost_comp ws f v prov)) 1083" for f v prov
  proof -
    have "isfinite (weightOf ws f)" using level_finite [OF weight(2)] by simp
    moreover have "level_le (clampCost v) 1083" using clampCost_range [of v] nonneg_magnitude level_kMaxCost by blast
    ultimately show ?thesis using weight by (simp add: cost_comp_valid_iff) (simp add: cost_comp_def)
  qed
  let ?cs = "cs_components (evaluateCandidateCost r s cand ws)"
  have cs: "cs_total (evaluateCandidateCost r s cand ws) = cost_total dzero ?cs" "length ?cs = 19"
    by (simp_all add: evaluateCandidateCost_def CostSummary_of_def Let_def)
  have made: "\<forall>c\<in>set ?cs. \<exists>f v prov. c = cost_comp ws f v prov"
    unfolding evaluateCandidateCost_def Let_def CostSummary_of_def by auto
  have zero: "level_le dzero 1986" by (simp add: level_le_def dzero_def)
  have "dnonneg (cost_total dzero ?cs) \<and> isfinite (cost_total dzero ?cs)"
    using made comps cs(2) zero by (intro cost_total_level [where w = 1924 and n = 1986]) auto
  moreover have "list_all cc_isValid ?cs" using made comps by (auto simp: list_all_iff)
  ultimately show ?thesis by (simp add: cs(1))
qed

text \<open>C26: costs do not overflow. With weights from 0 to \<open>2 ^ 900\<close>, among them the default weights, the cost of every
  candidate over any evidence has valid components only and a finite, non-negative total; in particular
  no two candidates are tied because both totals became infinite.\<close>

theorem candidate_cost_finite:
  assumes "weights_moderate ws"
  shows "list_all cc_isValid (cs_components (evaluateCandidateCost r s cand ws)) \<and>
    totalValid (evaluateCandidateCost r s cand ws) \<and> dle dzero (cs_total (evaluateCandidateCost r s cand ws))"
  using moderate_total [OF assms, of r s cand] by (auto simp: totalValid_def dnonneg_iff isfinite_def isinf_def isnan_def)

theorem candidate_cost_finite_witness:
  "weights_moderate [] \<and>
   totalValid (evaluateCandidateCost default_CommunicationRequest default_EvidenceSnapshot
     \<lparr>cp_source = 1, cp_destination = 2, cp_hops = [\<lparr>hop_link = 1, hop_from = 1, hop_to = 2\<rparr>]\<rparr> [])"
  using candidate_cost_finite [OF default_weights_moderate] default_weights_moderate by blast

end
