(* ===== verification/Planned_Stores.thy ===== *)
theory Planned_Stores
  imports Planning_Theorems Persistence Cost_Bounds
begin

text \<open>
  Planner and store together: what \<open>planCommunication\<close> makes of a point-to-point request is what
  \<open>validateStore\<close> accepts, but for two reasons.
\<close>

text \<open>A total that is not infinite was summed over valid components.\<close>

lemma finite_total_components: "cost_total t cs \<noteq> pos_inf \<Longrightarrow> list_all cc_isValid cs"
  by (induction t cs rule: cost_total.induct) (auto simp: Let_def split: if_splits)

lemma candidate_cost_valid:
  "totalValid (evaluateCandidateCost r s c ws) \<and> list_all cc_isValid (cs_components (evaluateCandidateCost r s c ws)) \<longleftrightarrow>
     cs_total (evaluateCandidateCost r s c ws) \<noteq> pos_inf"
proof -
  have inf: "isinf pos_inf" by (simp add: isinf_def pos_inf_def)
  have "\<exists>cs. evaluateCandidateCost r s c ws = CostSummary_of cs" unfolding evaluateCandidateCost_def Let_def by blast
  then show ?thesis
    using inf cost_total_shape [of r s c ws] finite_total_components
    by (auto simp: totalValid_def CostSummary_of_def isfinite_def isinf_def isnan_def)
qed

text \<open>The stages of an enumerated candidate chain from its source to its destination without a cycle.\<close>

lemma hop_stages:
  assumes "list_all2 (stage_of_hop s) hops sts"
  shows "map st_source sts = map hop_from hops" and "map st_destination sts = map hop_to hops"
  using assms by (induction rule: list_all2_induct) (auto simp: stage_of_hop_def)

lemma hop_chain_sources: "hop_chain s src hops \<Longrightarrow> hops \<noteq> [] \<Longrightarrow> map hop_from hops @ [hop_to (last hops)] = src # map hop_to hops"
  by (induction hops arbitrary: src) auto

lemma chained_acyclic: "chained a ss b \<Longrightarrow> distinct (a # map st_destination ss) \<Longrightarrow> \<forall>st\<in>set ss. st_source st \<noteq> st_destination st"
proof (induction ss arbitrary: a)
  case (Cons st ss)
  then have "st_source st = a" "chained (st_destination st) ss b" by (simp_all add: chained_def)
  with Cons show ?case by auto
qed simp

lemma candidate_path_wf:
  assumes "path_of_candidate r s ws c path" and "c \<in> set (enumerateCandidatePaths s src dst b)" and "path_feasible r s b (cp_hops c)"
    and "plan_bound s plan" and "set (pa_stages path) \<subseteq> set (plan_stages plan)"
  shows "path_wf plan path"
proof -
  let ?ss = "pa_stages path"
  have sts: "list_all2 (stage_of_hop s) (cp_hops c) ?ss" and pay: "\<forall>st\<in>set ?ss. st_payload st = pa_totalPayload path"
    and ends: "pa_source path = cp_source c" "pa_destination path = cp_destination c"
    using assms(1) by (auto simp: path_of_candidate_def list_all_iff)
  have route: "simple_route s (pa_source path) (pa_destination path) (cp_hops c)"
    using enumerate_sound [OF assms(2)] by (simp add: ends)
  have chain: "chained (pa_source path) ?ss (pa_destination path)"
    using route hop_chain_sources [of s "pa_source path" "cp_hops c"]
    by (auto simp: chained_def simple_route_def hop_stages [OF sts])
  have dist: "distinct (pa_source path # map st_destination ?ss)"
    using route by (simp add: simple_route_def hop_stages(2) [OF sts])
  have "\<exists>e. map_find (endpointMap s) k = Some e" if "k \<in> st_source ` set ?ss \<union> st_destination ` set ?ss" for k
  proof -
    have "k \<in> set (map hop_from (cp_hops c)) \<union> set (map hop_to (cp_hops c))"
      using that by (simp add: hop_stages [OF sts, symmetric])
    then show ?thesis using assms(3) by (auto simp: path_feasible_def hop_usable_def endpoint_usable_def)
  qed
  then have "st_source ` set ?ss \<union> st_destination ` set ?ss \<subseteq> fst ` set (pl_endpointGenerations plan)"
    using assms(4,5) by (force simp: plan_bound_def bound_endpoints_def image_iff)
  then show ?thesis using pay chain dist chained_acyclic [OF chain dist] by (auto simp: path_wf_def Let_def)
qed

text \<open>The identities of the paths are the numbers from 1 on; there are fewer of them than \<open>2 ^ 64\<close>.\<close>

lemma numbered_distinct: "n < 2 ^ 64 \<Longrightarrow> distinct (map (\<lambda>i. of_nat (Suc i) :: u64) [0..<n])"
  by (auto simp: distinct_map inj_on_def word_unat_eq_iff unat_of_nat simp del: of_nat_Suc)

lemma p2p_record_wf:
  assumes "p2p_result r s ws b dst out plan" and "destination_feasible r s b (rq_source r) dst"
  shows "record_wf \<lparr>sr_plan = plan, sr_state = st\<rparr> \<longleftrightarrow>
    cs_total (pl_cost plan) \<noteq> pos_inf \<and> (committed_state st \<longrightarrow> 1 < length (pl_orderedStages plan))"
    and "weights_moderate ws \<Longrightarrow> cs_total (pl_cost plan) \<noteq> pos_inf"
proof -
  let ?cands = "enumerateCandidatePaths s (rq_source r) dst b"
  define ranked where "ranked = ranked_positions (map (candidate_report r s ws b) ?cands)"
  define chosen where "chosen = map (\<lambda>i. ?cands ! i) (take (p2p_total b ranked) ranked)"
  have res: "list_all2 (path_of_candidate r s ws) chosen (pl_candidatePaths plan)"
    "map pa_id (pl_candidatePaths plan) = map (\<lambda>i. of_nat (Suc i)) [0..<length chosen]"
    "pl_primaryPath plan = 1" "pl_orderedStages plan = pa_stages (List.hd (pl_candidatePaths plan))"
    "pl_cost plan = pa_cost (List.hd (pl_candidatePaths plan))"
    "set (pl_requiredResourceClaims plan) = {stagingResourceFor (hop_to h) |h. h \<in> set (butlast (cp_hops (List.hd chosen)))}"
    "plan_bound s plan"
    using assms(1) unfolding p2p_result_def Let_def ranked_def chosen_def by blast+
  have member: "c \<in> set ?cands" "path_feasible r s b (cp_hops c)" if "c \<in> set chosen" for c
    using that ranked_member(1,2) [of _ r s ws b ?cands] by (auto simp: chosen_def ranked_def dest!: in_set_takeD)
  have "ranked \<noteq> []" using assms(2) ranked_Nil_iff [of r s ws b "rq_source r" dst] by (simp add: ranked_def)
  then obtain c cs where chosen: "chosen = c # cs"
    by (cases chosen) (auto simp: chosen_def p2p_total_def)
  with res(1) obtain p ps where p: "pl_candidatePaths plan = p # ps" "path_of_candidate r s ws c p" by (auto simp: list_all2_Cons1)
  have cap: "unat (bd_maxCandidates b) < 2 ^ LENGTH(64)" by (rule unsigned_less)
  have "length chosen \<le> length ranked" by (simp add: chosen_def)
  also have "length ranked = card (set ranked)" by (simp add: ranked_def distinct_card [OF ranked_positions_distinct])
  also have "\<dots> \<le> length ?cands"
    using card_mono [of "{..<length ?cands}" "set ranked"] by (auto simp: ranked_def ranked_positions_set)
  also have "\<dots> < 2 ^ 64" using enumerate_length [of s "rq_source r" dst b] cap by simp
  finally have ids: "distinct (map pa_id (pl_candidatePaths plan))" unfolding res(2) by (rule numbered_distinct)
  have paths: "path_wf plan q" if q: "q \<in> set (pl_candidatePaths plan)" for q
  proof -
    obtain i where "i < length (pl_candidatePaths plan)" "q = pl_candidatePaths plan ! i" using q by (auto simp: in_set_conv_nth)
    then have "chosen ! i \<in> set chosen" "path_of_candidate r s ws (chosen ! i) q"
      using list_all2_nthD2 [OF res(1), of i] list_all2_lengthD [OF res(1)] by simp_all
    then obtain c where c: "c \<in> set chosen" "path_of_candidate r s ws c q" by blast
    have "set (pa_stages q) \<subseteq> set (plan_stages plan)" using that by (auto simp: plan_stages_def)
    then show ?thesis by (rule candidate_path_wf [OF c(2) member(1) [OF c(1)] member(2) [OF c(1)] res(7)])
  qed
  have "pa_id p = 1" using res(2) by (simp add: p chosen upt_conv_Cons del: upt_Suc)
  then have primary: "pl_primaryPath plan \<in> pa_id ` set (pl_candidatePaths plan)" by (simp add: res(3) p)
  have "length (pl_orderedStages plan) = length (cp_hops c)"
    using p(2) by (auto simp: res(4) p path_of_candidate_def dest: list_all2_lengthD)
  then have claims: "pl_requiredResourceClaims plan \<noteq> [] \<longleftrightarrow> 1 < length (pl_orderedStages plan)"
    using res(6) by (cases "cp_hops c" rule: rev_cases) (auto simp: chosen simp flip: set_empty)
  have cost: "pl_cost plan = evaluateCandidateCost r s c ws" using p(2) by (simp add: res(5) p path_of_candidate_def)
  show "cs_total (pl_cost plan) \<noteq> pos_inf" if "weights_moderate ws"
    using moderate_total [OF that, of r s c] by (auto simp: cost pos_inf_def isfinite_def)
  show "record_wf \<lparr>sr_plan = plan, sr_state = st\<rparr> \<longleftrightarrow>
      cs_total (pl_cost plan) \<noteq> pos_inf \<and> (committed_state st \<longrightarrow> 1 < length (pl_orderedStages plan))"
    using cost candidate_cost_valid [of r s c ws] ids paths primary claims by (auto simp: record_wf_def Let_def list_all_iff)
qed

text \<open>what the planner makes, the store accepts. The plan of a point-to-point or staged request passes the
  validation of a store in any state of the plan, exactly when its cost is not infinite and, in a
  state from commitment to execution, it has more than one stage; and with weights up to \<open>2 ^ 900\<close> the cost
  is never infinite.\<close>

lemma planned_plans_storable:
  assumes "planCommunication r s ws b ct = (Inr out, ct')" and "po_plan out = Some plan"
    and "effectiveShape r \<noteq> RequestShape.MULTICAST" and "effectiveShape r \<noteq> RequestShape.COLLECTIVE"
  shows "(pe_ok (validateStore (default_StoreState\<lparr>ss_epoch := e, ss_plans := [\<lparr>sr_plan = plan, sr_state = st\<rparr>]\<rparr>)) \<longleftrightarrow>
      cs_total (pl_cost plan) \<noteq> pos_inf \<and> (committed_state st \<longrightarrow> 1 < length (pl_orderedStages plan))) \<and>
    (weights_moderate ws \<longrightarrow> cs_total (pl_cost plan) \<noteq> pos_inf)"
proof -
  obtain dst rest where dst: "rq_destinations r = dst # rest" "planPointToPoint r s ws b dst ct = (Inr out, ct')"
    using assms(1,3,4) by (auto simp: planCommunication_def split: sum.splits list.splits)
  then have feas: "destination_feasible r s b (rq_source r) dst"
    using planPointToPoint_infeasible [of r s b dst ws ct] assms(2) by fastforce
  with planPointToPoint_feasible [OF feas, of ws ct] dst(2) assms(2) have "p2p_result r s ws b dst out plan"
    by (auto simp: p2p_result_def Let_def)
  from p2p_record_wf(1) [OF this feas, of st] p2p_record_wf(2) [OF this feas] show ?thesis
    by (simp add: validateStore_ok store_wf_def default_StoreState_def)
qed

end
