(* ===== verification/Stored_Plans.thy ===== *)
theory Stored_Plans
  imports Planned_Stores
begin

text \<open>
  What \<open>planCommunication\<close> makes of a point-to-point request fits the format of the store: the counts and
  strings of the plan are within \<open>kMaxCount\<close>, so that a saved plan is read back as it was.
\<close>

section \<open>Lengths\<close>

lemma length_nat_str: "n < 10 ^ Suc k \<Longrightarrow> length (nat_str n) \<le> Suc k"
proof (induction k arbitrary: n)
  case 0
  then show ?case by (subst nat_str.simps) simp
next
  case (Suc k)
  then have "n div 10 < 10 ^ Suc k" by (simp add: div_less_iff_less_mult)
  from Suc.IH [OF this] show ?case by (subst nat_str.simps) simp
qed

lemma length_u64_str: "length (u64_str v) \<le> 20"
proof -
  have "unat v < 2 ^ LENGTH(64)" by (rule unsigned_less)
  then have "unat v < 10 ^ Suc 19" by simp
  then show ?thesis using length_nat_str [of "unat v" 19] by (simp add: u64_str_def)
qed

lemma length_set_insert: "length (set_insert x xs) \<le> Suc (length xs)"
  by (induction xs) auto

lemma length_fold_le:
  assumes "\<And>x acc. length (f x acc) \<le> length acc + k"
  shows "length (fold f xs acc) \<le> length acc + k * length xs"
proof (induction xs arbitrary: acc)
  case (Cons x xs)
  show ?case using Cons.IH [of "f x acc"] assms [of x acc] by simp
qed simp

lemma length_bind_link: "length (bind_link lmap k ls) \<le> length ls + 1"
  using length_set_insert [of _ ls] by (auto simp: bind_link_def split: option.split)

lemma length_bind_endpoint: "length (bind_endpoint emap k es) \<le> length es + 1"
  using length_set_insert [of _ es] by (auto simp: bind_endpoint_def split: option.split)

lemma length_bind_ends: "length (bind_ends emap k k' es) \<le> length es + 2"
  using length_bind_endpoint [of emap k' "bind_endpoint emap k es"] length_bind_endpoint [of emap k es]
  by (simp add: bind_ends_def)

lemma length_w_all_le: "\<forall>x\<in>set xs. length (w x) \<le> k \<Longrightarrow> length (w_all w xs) \<le> k * length xs"
  by (induction xs) auto

section \<open>Stages and paths of a candidate\<close>

definition stage_small :: "Stage \<Rightarrow> bool" where
  "stage_small st \<longleftrightarrow> length (st_description st) \<le> 100"

lemma length_toString_Transport: "length (toString_Transport t) \<le> 30"
  by (cases t) simp_all

lemma length_toString_Provenance: "length (toString_Provenance p) \<le> 30"
  by (cases p) simp_all

lemma build_stage_small: "stage_small (build_stage r l h i sid)"
  using length_toString_Transport [of "ln_transport l"] length_u64_str [of "hop_from h"] length_u64_str [of "hop_to h"]
  by (simp add: stage_small_def build_stage_def)

lemma buildStages_small: "buildStages_loop r lmap hs sid = (Inr sts, sid') \<Longrightarrow> list_all stage_small sts \<and> length sts = length hs"
  by (induction hs arbitrary: sid sts)
    (auto simp: Let_def id_next_def build_stage_small split: option.splits prod.splits sum.splits)

definition path_small :: "nat \<Rightarrow> Path \<Rightarrow> bool" where
  "path_small d p \<longleftrightarrow> list_all stage_small (pa_stages p) \<and> length (pa_stages p) \<le> d \<and>
     length (cs_components (pa_cost p)) \<le> 19 \<and> pa_failureDomain p = [] \<and> pa_reason p = []"

lemma length_cost_components: "length (cs_components (evaluateCandidateCost r s c ws)) = 19"
  by (simp add: evaluateCandidateCost_def CostSummary_of_def Let_def)

lemma makePath_small:
  assumes "makePath i c s r cost sid = (Inr p, sid')" and "length (cs_components cost) \<le> 19" and "length (cp_hops c) \<le> d"
  shows "path_small d p"
  using assms buildStages_small [of r "linkMap s" "cp_hops c" sid]
  by (auto simp: makePath_def buildStages_def path_small_def split: prod.splits sum.splits)

lemma make_paths_small:
  assumes "make_paths s r k cs sid = (Inr ps, sid')"
    and "\<forall>(c, cost)\<in>set cs. length (cs_components cost) \<le> 19 \<and> length (cp_hops c) \<le> d"
  shows "list_all (path_small d) ps \<and> length ps = length cs"
  using assms
proof (induction s r k cs sid arbitrary: ps sid' rule: make_paths.induct)
  case (2 s r k c cost xs sid)
  from "2.prems"(1) obtain p sid1 ps' where p: "makePath (of_nat (k + 1)) c s r cost sid = (Inr p, sid1)"
    "make_paths s r (Suc k) xs sid1 = (Inr ps', sid')" "ps = p # ps'"
    by (auto split: prod.splits sum.splits)
  have "path_small d p" using makePath_small [OF p(1)] "2.prems"(2) by simp
  moreover have "list_all (path_small d) ps' \<and> length ps' = length xs"
    using "2.IH" [OF p(1) [symmetric] refl p(2)] "2.prems"(2) by simp
  ultimately show ?case by (simp add: p(3))
qed simp

lemma component_bytes: "length (writeComponent c) = 18"
  by (simp add: writeComponent_def)

lemma cost_bytes: "length (cs_components c) \<le> 19 \<Longrightarrow> length (writeCost c) \<le> 400"
  using length_w_all_le [of "cs_components c" writeComponent 18] by (simp add: writeCost_def component_bytes)

lemma stage_bytes: "stage_small s \<Longrightarrow> length (writeStage s) \<le> 200"
  by (simp add: writeStage_def stage_small_def)

lemma stages_bytes: "list_all stage_small ss \<Longrightarrow> length (w_all writeStage ss) \<le> 200 * length ss"
  by (rule length_w_all_le) (simp add: list_all_iff stage_bytes)

lemma path_bytes: "path_small d p \<Longrightarrow> length (writePath p) \<le> 500 + 200 * d"
  using stages_bytes [of "pa_stages p"] cost_bytes [of "pa_cost p"] by (simp add: writePath_def path_small_def)

section \<open>Plans\<close>

text \<open>A plan of at most \<open>n\<close> paths with at most \<open>d\<close> stages each.\<close>

definition routes_small :: "nat \<Rightarrow> nat \<Rightarrow> CommunicationPlan \<Rightarrow> bool" where
  "routes_small n d p \<longleftrightarrow> list_all (path_small d) (pl_candidatePaths p) \<and> length (pl_candidatePaths p) \<le> n \<and>
     length (pl_fallbackPaths p) \<le> n \<and> list_all stage_small (pl_orderedStages p) \<and> length (pl_orderedStages p) \<le> d"

definition bindings_small :: "nat \<Rightarrow> CommunicationPlan \<Rightarrow> bool" where
  "bindings_small k p \<longleftrightarrow> length (pl_endpointGenerations p) \<le> k \<and> length (pl_linkGenerations p) \<le> k \<and>
     length (pl_requiredStagingResources p) \<le> k \<and> length (pl_requiredResourceClaims p) \<le> k"

definition account_small :: "CommunicationPlan \<Rightarrow> bool" where
  "account_small p \<longleftrightarrow> length (cs_components (pl_cost p)) \<le> 19 \<and> length (pl_explanations p) \<le> 5 \<and>
     (\<forall>x\<in>set (pl_explanations p). length x \<le> 100) \<and> length (pl_provenance p) \<le> 100 \<and> length (pl_handoffRequirement p) \<le> 100 \<and>
     pl_multicastDestinations p = [] \<and> pl_collectiveParticipants p = [] \<and> pl_description p = [] \<and> pl_createdProvenance p = []"

lemma small_record_ok:
  assumes "routes_small n d p" and "bindings_small k p" and "account_small p" and "pl_id p \<noteq> 0"
    and "n \<le> 2 ^ 20" and "d \<le> 2 ^ 20" and "k \<le> 2 ^ 20"
  shows "record_ok \<lparr>sr_plan = p, sr_state = st\<rparr>"
proof -
  have "stage_codec.list_ok ss" if "list_all stage_small ss" "length ss \<le> d" for ss
    using that assms(6) by (auto simp: stage_codec.list_ok_def stage_ok_def str_ok_def kMaxCount_def list_all_iff stage_small_def)
  moreover from this have "path_ok q" if "path_small d q" for q
    using that by (simp add: path_ok_def path_small_def cost_ok_def str_ok_def kMaxCount_def)
  ultimately have "routes_ok p"
    using assms(1,5) by (auto simp: routes_ok_def routes_small_def path_codec.list_ok_def list_all_iff u64s_ok_def kMaxCount_def)
  moreover have "bindings_ok p" using assms(2,7) by (simp add: bindings_ok_def bindings_small_def u64s_ok_def kMaxCount_def)
  moreover have "account_ok p" "targets_ok p"
    using assms(3) by (auto simp: account_ok_def targets_ok_def account_small_def cost_ok_def str_codec.list_ok_def str_ok_def u64s_ok_def kMaxCount_def)
  ultimately show ?thesis using assms(4) by (simp add: record_ok_def)
qed

lemma routes_bytes:
  assumes "routes_small n d p"
  shows "length (write_plan_routes p) \<le> n * (500 + 200 * d) + 8 * n + 200 * d + 12"
proof -
  have "length (w_all writePath (pl_candidatePaths p)) \<le> (500 + 200 * d) * length (pl_candidatePaths p)"
    using assms by (intro length_w_all_le) (simp add: routes_small_def list_all_iff path_bytes)
  also have "\<dots> \<le> (500 + 200 * d) * n" using assms by (intro mult_left_mono) (simp_all add: routes_small_def)
  finally have "length (w_all writePath (pl_candidatePaths p)) \<le> n * (500 + 200 * d)" by (simp only: mult.commute)
  moreover have "length (w_all w_u64 (pl_fallbackPaths p)) \<le> 8 * length (pl_fallbackPaths p)" by (rule length_w_all_le) simp
  moreover have "length (w_all writeStage (pl_orderedStages p)) \<le> 200 * length (pl_orderedStages p)"
    using assms by (intro stages_bytes) (simp add: routes_small_def)
  ultimately show ?thesis using assms by (simp add: write_plan_routes_def routes_small_def)
qed

lemma bindings_bytes: "bindings_small k p \<Longrightarrow> length (write_plan_bindings p) \<le> 48 * k + 16"
  using length_w_all_le [of "pl_endpointGenerations p" write_id_pair 16] length_w_all_le [of "pl_linkGenerations p" write_id_pair 16]
    length_w_all_le [of "pl_requiredStagingResources p" w_u64 8] length_w_all_le [of "pl_requiredResourceClaims p" w_u64 8]
  by (simp add: write_plan_bindings_def bindings_small_def write_id_pair_def)

lemma account_bytes: "account_small p \<Longrightarrow> length (write_plan_account p) + length (write_plan_targets p) \<le> 2000"
  using length_w_all_le [of "pl_explanations p" w_str 108] cost_bytes [of "pl_cost p"]
  by (simp add: write_plan_account_def write_plan_targets_def account_small_def)

lemma small_record_bytes:
  assumes "routes_small n d p" and "bindings_small k p" and "account_small p"
    and "n \<le> 2 ^ 20" and "d \<le> 2 ^ 20" and "k \<le> 2 ^ 20"
  shows "length (write_record \<lparr>sr_plan = p, sr_state = st\<rparr>) \<le> 2 ^ 60"
proof -
  have "n * (500 + 200 * d) \<le> 2 ^ 20 * (500 + 200 * 2 ^ 20)" using assms(4,5) by (intro mult_mono) simp_all
  with routes_bytes [OF assms(1)] assms(4,5) have "length (write_plan_routes p) \<le> 2 ^ 59" by simp
  moreover have "length (write_plan_bindings p) \<le> 2 ^ 30" using bindings_bytes [OF assms(2)] assms(6) by simp
  moreover have "length (write_plan_head \<lparr>sr_plan = p, sr_state = st\<rparr>) = 43" by (simp add: write_plan_head_def)
  moreover have "length (write_plan_generations p) = 64" by (simp add: write_plan_generations_def)
  ultimately show ?thesis using account_bytes [OF assms(3)] by (simp add: write_record_def)
qed

definition single_store :: "u64 \<Rightarrow> CommunicationPlan \<Rightarrow> PlanState \<Rightarrow> StoreState" where
  "single_store e p st = default_StoreState\<lparr>ss_epoch := e, ss_plans := [\<lparr>sr_plan = p, sr_state = st\<rparr>]\<rparr>"

lemma single_storable:
  assumes "record_ok \<lparr>sr_plan = p, sr_state = st\<rparr>" and "length (write_record \<lparr>sr_plan = p, sr_state = st\<rparr>) \<le> 2 ^ 60"
  shows "storable (single_store e p st)"
  using assms by (simp add: storable_def single_store_def default_StoreState_def store_body_def kMaxCount_def)

section \<open>The plan of a point-to-point request\<close>

lemma length_concat_hops:
  "(\<forall>c\<in>set cs. length (cp_hops c) \<le> d) \<Longrightarrow> length (concat (map cp_hops cs)) \<le> length cs * d"
  by (induction cs) auto

lemma p2p_plan_small:
  assumes "list_all (path_small d) paths" and "length paths = length cands" and "\<forall>c\<in>set cands. length (cp_hops c) \<le> d"
    and "m < 2 ^ 64" and "length cands \<le> n" and "0 < n" and "d < 2 ^ 64" and "n < 2 ^ 64"
  shows "routes_small n d (p2p_plan r s ident m cands paths)"
    and "bindings_small (2 * (n * d)) (p2p_plan r s ident m cands paths)"
    and "account_small (p2p_plan r s ident m cands paths)"
proof -
  let ?hops = "concat (map cp_hops cands)"
  have hops: "length ?hops \<le> n * d"
    using length_concat_hops [OF assms(3)] assms(5) by (meson le_trans mult_le_mono1)
  have ends: "length (fold (\<lambda>h. bind_ends emap (hop_from h) (hop_to h)) ?hops []) \<le> 2 * length ?hops" for emap
    using length_fold_le [of "\<lambda>h. bind_ends emap (hop_from h) (hop_to h)" 2 ?hops "[]"] length_bind_ends by simp
  have links: "length (fold (\<lambda>h. bind_link lmap (hop_link h)) ?hops []) \<le> 1 * length ?hops" for lmap
    using length_fold_le [of "\<lambda>h. bind_link lmap (hop_link h)" 1 ?hops "[]"] length_bind_link by simp
  have claims: "length (fold (\<lambda>h. set_insert (stagingResourceFor (hop_to h))) hs []) \<le> 1 * length hs" for hs
    using length_fold_le [of "\<lambda>h. set_insert (stagingResourceFor (hop_to h))" 1 hs "[]"] by (simp add: length_set_insert)
  have "length (case cands of [] \<Rightarrow> [] | c # _ \<Rightarrow> fold (\<lambda>h. set_insert (stagingResourceFor (hop_to h))) (butlast (cp_hops c)) []) \<le> d"
    using claims [of "butlast (cp_hops (List.hd cands))"] assms(3) by (cases cands) fastforce+
  also have "d \<le> 2 * (n * d)" using assms(6) by (cases n) simp_all
  finally show "bindings_small (2 * (n * d)) (p2p_plan r s ident m cands paths)"
    using hops ends [of "endpointMap s"] links [of "linkMap s"]
    by (simp add: bindings_small_def p2p_plan_def bind_snapshot_def Let_def)
  show "routes_small n d (p2p_plan r s ident m cands paths)"
    using assms(1,2,5) by (cases paths) (auto simp: routes_small_def p2p_plan_def bind_snapshot_def Let_def path_small_def)
  have num: "length (nat_str x) \<le> 20" if "x < 2 ^ 64" for x
    using that by (intro length_nat_str [of x 19, simplified]) simp
  have prov: "length (cost_provenance_name c) \<le> 30" for c
    using length_toString_Provenance [of "worstProvenance c"] by (simp add: cost_provenance_name_def provName_def)
  have "length (case paths of [] \<Rightarrow> [] | p # _ \<Rightarrow> pa_stages p) \<le> d"
    using assms(1) by (cases paths) (auto simp: path_small_def)
  then have "length (nat_str (length (case paths of [] \<Rightarrow> [] | p # _ \<Rightarrow> pa_stages p))) \<le> 20"
    using assms(7) by (intro num) simp
  moreover have "length (nat_str (length paths)) \<le> 20" "length (nat_str (m - length paths)) \<le> 20"
    using assms(2,4,5,8) by (auto intro!: num)
  moreover have "length (cs_components (case paths of [] \<Rightarrow> default_CostSummary | p # _ \<Rightarrow> pa_cost p)) \<le> 19"
    using assms(1) by (cases paths) (auto simp: path_small_def default_CostSummary_def)
  ultimately show "account_small (p2p_plan r s ident m cands paths)"
    using prov by (auto simp: account_small_def p2p_plan_def bind_snapshot_def Let_def default_CommunicationPlan_def intro: le_trans [OF prov])
qed

lemma zip_all: "\<forall>x\<in>set xs. P x \<Longrightarrow> \<forall>y\<in>set ys. Q y \<Longrightarrow> \<forall>(x, y)\<in>set (zip xs ys). Q y \<and> P x"
  by (auto dest: set_zip_leftD set_zip_rightD)

lemma p2p_planned:
  assumes "planPointToPoint r s ws b dst ct = (Inr out, ct')" and "po_plan out = Some plan"
  shows "\<exists>cands paths. plan = p2p_plan r s (fst (next_plan_identity ct)) (length (enumerateCandidatePaths s (rq_source r) dst b)) cands paths \<and>
    list_all (path_small (unat (bd_maxPathDepth b))) paths \<and> length paths = length cands \<and>
    (\<forall>c\<in>set cands. length (cp_hops c) \<le> unat (bd_maxPathDepth b)) \<and> length cands \<le> Suc (unat (bd_maxFallbacks b))"
proof -
  let ?cs = "enumerateCandidatePaths s (rq_source r) dst b" and ?d = "unat (bd_maxPathDepth b)"
  let ?reports = "map (candidate_report r s ws b) ?cs"
  let ?order = "rankFeasible (rankables_of ?reports)"
  let ?ranked = "map (\<lambda>idx. feasible_positions ?reports ! idx) ?order"
  let ?cands = "map (\<lambda>i. ?cs ! i) (take (p2p_total b ?ranked) ?ranked)"
  let ?costs = "map (\<lambda>idx. rk_cost (rankables_of ?reports ! idx)) (take (p2p_total b ?ranked) ?order)"
  obtain sid paths sid' where paths: "make_paths s r 0 (zip ?cands ?costs) sid = (Inr paths, sid')"
    and plan: "plan = p2p_plan r s (fst (next_plan_identity ct)) (length ?cs) ?cands paths"
    using assms by (auto simp: planPointToPoint_def Let_def split: if_splits prod.splits sum.splits)
  have pos: "i < length ?cs" if "i \<in> set ?ranked" for i
    using that ranked_positions_set [of r s ws b ?cs] by (simp add: ranked_positions_def)
  have hops: "length (cp_hops c) \<le> ?d" if c: "c \<in> set ?cands" for c
  proof -
    from c obtain i where "i \<in> set ?ranked" "c = ?cs ! i" by (auto dest: in_set_takeD)
    then have "c \<in> set ?cs" using pos nth_mem by blast
    then show ?thesis using enumerate_sound by blast
  qed
  have "length (cs_components cost) \<le> 19" if cost: "cost \<in> set ?costs" for cost
  proof -
    from cost obtain idx where "idx \<in> set ?order" "cost = rk_cost (rankables_of ?reports ! idx)" by (auto dest: in_set_takeD)
    with rankable_cost_at [OF this(1)] pos [of "feasible_positions ?reports ! idx"]
    have "\<exists>c. cost = cr_cost (candidate_report r s ws b c)" by auto
    then show ?thesis
      by (auto simp: candidate_report_def Let_def length_cost_components default_CostSummary_def split: if_splits)
  qed
  then have "\<forall>(c, cost)\<in>set (zip ?cands ?costs). length (cs_components cost) \<le> 19 \<and> length (cp_hops c) \<le> ?d"
    using hops by (intro zip_all) blast+
  from make_paths_small [OF paths this] have "list_all (path_small ?d) paths" "length paths = length ?cands" by simp_all
  moreover have "length ?cands \<le> Suc (unat (bd_maxFallbacks b))" by (simp add: p2p_total_def)
  ultimately show ?thesis using plan hops by blast
qed

text \<open>A plan takes its identity from the counter.\<close>

lemma planned_counter:
  assumes "planPointToPoint r s ws b dst ct = (Inr out, ct')" and "po_plan out = Some plan"
  shows "ct_planId ct' = ct_planId ct + 1"
  using assms by (auto simp: planPointToPoint_def next_plan_identity_def id_next_def Let_def split: if_splits prod.splits sum.splits)

lemma planned_small:
  assumes "planCommunication r s ws b ct = (Inr out, ct')" and "po_plan out = Some plan"
    and "effectiveShape r \<noteq> RequestShape.MULTICAST" and "effectiveShape r \<noteq> RequestShape.COLLECTIVE"
    and "Suc (unat (bd_maxFallbacks b)) * unat (bd_maxPathDepth b) \<le> 2 ^ 19"
  shows "routes_small (Suc (unat (bd_maxFallbacks b))) (unat (bd_maxPathDepth b)) plan"
    and "bindings_small (2 * (Suc (unat (bd_maxFallbacks b)) * unat (bd_maxPathDepth b))) plan" and "account_small plan"
    and "Suc (unat (bd_maxFallbacks b)) \<le> 2 ^ 19" and "unat (bd_maxPathDepth b) \<le> 2 ^ 19" and "pl_id plan = ct_planId ct"
proof -
  let ?n = "Suc (unat (bd_maxFallbacks b))" and ?d = "unat (bd_maxPathDepth b)"
  obtain dst where dst: "planPointToPoint r s ws b dst ct = (Inr out, ct')"
    using assms(1,3,4) by (auto simp: planCommunication_def split: sum.splits list.splits)
  then have feas: "destination_feasible r s b (rq_source r) dst"
    using planPointToPoint_infeasible [of r s b dst ws ct] assms(2) by fastforce
  obtain c where "c \<in> set (enumerateCandidatePaths s (rq_source r) dst b)" using feas by (auto simp: destination_feasible_def)
  from enumerate_sound [OF this] have "0 < ?d" by (cases "cp_hops c") (auto simp: simple_route_def)
  then have "?n * 1 \<le> ?n * ?d" by (intro mult_left_mono) simp_all
  with assms(5) show n: "?n \<le> 2 ^ 19" "?d \<le> 2 ^ 19" by simp_all
  have "length (enumerateCandidatePaths s (rq_source r) dst b) < 2 ^ 64"
    using enumerate_length [of s "rq_source r" dst b] unsigned_less [of "bd_maxCandidates b", where 'a = nat] by simp
  moreover obtain cands paths where plan: "plan = p2p_plan r s (fst (next_plan_identity ct)) (length (enumerateCandidatePaths s (rq_source r) dst b)) cands paths"
    "list_all (path_small ?d) paths" "length paths = length cands" "\<forall>c\<in>set cands. length (cp_hops c) \<le> ?d" "length cands \<le> ?n"
    using p2p_planned [OF dst assms(2)] by blast
  ultimately show "routes_small ?n ?d plan" "bindings_small (2 * (?n * ?d)) plan" "account_small plan"
    using p2p_plan_small [OF plan(2-4) _ plan(5)] n by simp_all
  show "pl_id plan = ct_planId ct" by (simp add: plan(1) p2p_plan_def bind_snapshot_def Let_def next_plan_identity_def id_next_def)
qed

lemma planned_record:
  assumes "planCommunication r s ws b ct = (Inr out, ct')" and "po_plan out = Some plan"
    and "effectiveShape r \<noteq> RequestShape.MULTICAST" and "effectiveShape r \<noteq> RequestShape.COLLECTIVE"
    and "ct_planId ct \<noteq> 0" and "Suc (unat (bd_maxFallbacks b)) * unat (bd_maxPathDepth b) \<le> 2 ^ 19"
  shows "record_ok \<lparr>sr_plan = plan, sr_state = st\<rparr>" and "length (write_record \<lparr>sr_plan = plan, sr_state = st\<rparr>) \<le> 2 ^ 60"
proof -
  note small = planned_small [OF assms(1-4,6)]
  show "record_ok \<lparr>sr_plan = plan, sr_state = st\<rparr>" "length (write_record \<lparr>sr_plan = plan, sr_state = st\<rparr>) \<le> 2 ^ 60"
    using small_record_ok [OF small(1-3)] small_record_bytes [OF small(1-3)] small(4-6) assms(5,6) by simp_all
qed

lemma planned_storable:
  assumes "planCommunication r s ws b ct = (Inr out, ct')" and "po_plan out = Some plan"
    and "effectiveShape r \<noteq> RequestShape.MULTICAST" and "effectiveShape r \<noteq> RequestShape.COLLECTIVE"
    and "ct_planId ct \<noteq> 0" and "Suc (unat (bd_maxFallbacks b)) * unat (bd_maxPathDepth b) \<le> 2 ^ 19"
  shows "storable (single_store e plan st)"
  using planned_record [OF assms] by (rule single_storable)

text \<open>The parser's verdict on a store within the limits of the format is that of the validation.\<close>

lemma stored_verdict:
  assumes "storable s"
  shows "parseStore (serializeStore s) default_StoreState =
    (if pe_ok (validateStore (persisted s)) then Inr (persisted s) else Inl (validateStore (persisted s)))"
proof -
  have "length (store_body s) < 2 ^ 64" using assms by (simp add: storable_def)
  from parse_store_written [OF this, of "[]"] body_back [OF assms, of "[]"]
  have "parse_store_bytes (serializeStore s) default_StoreState = Inr (persisted s)" by simp
  then show ?thesis by (simp add: parseStore_def)
qed

lemma planned_verdict:
  assumes "planCommunication r s ws b ct = (Inr out, ct')" and "po_plan out = Some plan"
    and "effectiveShape r \<noteq> RequestShape.MULTICAST" and "effectiveShape r \<noteq> RequestShape.COLLECTIVE"
    and "weights_moderate ws" and "ct_planId ct \<noteq> 0"
    and "Suc (unat (bd_maxFallbacks b)) * unat (bd_maxPathDepth b) \<le> 2 ^ 19"
  shows "parseStore (serializeStore (single_store e plan st)) default_StoreState =
    (if committed_state st \<and> length (pl_orderedStages plan) \<le> 1 then Inl (validateStore (single_store e plan st))
     else Inr (single_store e plan st))"
proof -
  have "pe_ok (validateStore (single_store e plan st)) \<longleftrightarrow> \<not> (committed_state st \<and> length (pl_orderedStages plan) \<le> 1)"
    using planned_plans_storable [OF assms(1-4), where e = e and st = st] assms(5) by (auto simp: single_store_def)
  moreover have "persisted (single_store e plan st) = single_store e plan st"
    by (simp add: persisted_def single_store_def default_StoreState_def)
  ultimately show ?thesis using stored_verdict [OF planned_storable [OF assms(1-4,6,7), where e = e and st = st]] by simp
qed

text \<open>C23: a plan survives its store, but for one case. What the planner makes of a point-to-point or staged request,
  saved in a store of its own, is read back with its state as it was exactly when it has more than one
  stage or its state is outside commitment and execution: a committed plan without staging cannot be
  read. The bounds may allow up to \<open>2 ^ 19\<close> stages over all paths, the weights are at most \<open>2 ^ 900\<close>, and the
  counter of plan identities has not wrapped to null.\<close>

theorem planned_plan_survives_store:
  assumes "planCommunication r s ws b ct = (Inr out, ct')" and "po_plan out = Some plan"
    and "effectiveShape r \<noteq> RequestShape.MULTICAST" and "effectiveShape r \<noteq> RequestShape.COLLECTIVE"
    and "weights_moderate ws" and "ct_planId ct \<noteq> 0"
    and "Suc (unat (bd_maxFallbacks b)) * unat (bd_maxPathDepth b) \<le> 2 ^ 19"
  shows "parseStore (serializeStore (single_store e plan st)) default_StoreState =
    (if committed_state st \<and> length (pl_orderedStages plan) \<le> 1 then Inl (validateStore (single_store e plan st))
     else Inr (single_store e plan st))"
  using assms by (rule planned_verdict)

theorem planned_plan_survives_store_witness:
  "\<exists>out plan ct'. planCommunication sample_request sample_snapshot [] default_Bounds initial_Counters = (Inr out, ct') \<and>
     po_plan out = Some plan \<and>
     parseStore (serializeStore (single_store 7 plan PlanState.PLAN_READY)) default_StoreState = Inr (single_store 7 plan PlanState.PLAN_READY) \<and>
     parseStore (serializeStore (single_store 7 plan PlanState.COMMITTED)) default_StoreState = Inl (validateStore (single_store 7 plan PlanState.COMMITTED))"
proof -
  obtain out plan ct' where plan: "planCommunication sample_request sample_snapshot [] default_Bounds initial_Counters = (Inr out, ct')"
    "p2p_result sample_request sample_snapshot [] default_Bounds 2 out plan" using sample_planned by blast
  then have some: "po_plan out = Some plan" by (simp add: p2p_result_def Let_def)
  have "rq_source sample_request = 1" by (simp add: sample_defs)
  then have "\<forall>c\<in>set (enumerateCandidatePaths sample_snapshot (rq_source sample_request) 2 default_Bounds). length (cp_hops c) = 1"
    by (simp add: sample_enumerated) (simp add: sample_candidate_def)
  then have one: "length (pl_orderedStages plan) = 1"
    using single_hop_plan [OF plan(2) sample_destination_feasible] by fastforce
  have "effectiveShape sample_request \<noteq> RequestShape.MULTICAST" "effectiveShape sample_request \<noteq> RequestShape.COLLECTIVE"
    by (simp_all add: effectiveShape_def sample_defs)
  moreover have "ct_planId initial_Counters \<noteq> 0" by (simp add: initial_Counters_def)
  moreover have "Suc (unat (bd_maxFallbacks default_Bounds)) * unat (bd_maxPathDepth default_Bounds) \<le> 2 ^ 19"
    by (simp add: default_Bounds_def)
  ultimately show ?thesis
    using planned_plan_survives_store [OF plan(1) some _ _ default_weights_moderate, where e = 7] plan(1) some one
    by (auto simp: committed_state_def)
qed

end
