(* ===== verification/Inspector.thy ===== *)
theory Inspector
  imports Persistence
begin

text \<open>
  \<open>tools/cp_inspect.cpp\<close>: the program that prints what a store file holds. A run is the lines it prints and
  its exit code; the files are a function from names to contents, \<open>None\<close> where the file cannot be opened.
\<close>

section \<open>Formats\<close>

text \<open>
  \<open>%.3f\<close>: the exact value times 1000, rounded to nearest even, with three digits after the point. Costs of
  accepted stores are finite.
\<close>

definition thousandths :: "double \<Rightarrow> nat" where
  "thousandths d =
     (let n = significand d * 1000; e = exponent d
      in if 0 \<le> e then n * 2 ^ nat e else half_even n (2 ^ nat (- e)))"

definition three_digits :: "nat \<Rightarrow> string" where
  "three_digits n = map (\<lambda>k. digit_char (n div k mod 10)) [100, 10, 1]"

definition fixed3 :: "double \<Rightarrow> string" where
  "fixed3 d =
     (if sign_bit d then ''-'' else []) @
     (if isnan d then ''nan'' else if isinf d then ''inf''
      else nat_str (thousandths d div 1000) @ ''.'' @ three_digits (thousandths d mod 1000))"

section \<open>The program\<close>

definition stage_line :: "Stage \<Rightarrow> string" where
  "stage_line g = ''    stage tr='' @ toString_Transport (st_transport g) @ '' '' @ u64_str (st_source g) @ ''->'' @
     u64_str (st_destination g) @ '' payload='' @ u64_str (st_payload g)"

definition plan_line :: "StoreRecord \<Rightarrow> string" where
  "plan_line rec =
     (let p = sr_plan rec
      in ''  plan '' @ u64_str (pl_id p) @ ''/'' @ u64_str (pl_generation p) @ '' req='' @ u64_str (pl_requestId p) @
         '' state='' @ toString_PlanState (sr_state rec) @ '' shape='' @ toString_RequestShape (pl_shape p) @
         '' stages='' @ nat_str (length (pl_orderedStages p)) @ '' primary='' @ u64_str (pl_primaryPath p) @
         '' cost='' @ fixed3 (cs_total (pl_cost p)))"

definition store_line :: "StoreState \<Rightarrow> string" where
  "store_line s = ''CommunicationPlanner store: epoch='' @ u64_str (ss_epoch s) @ '' plans='' @ nat_str (length (ss_plans s)) @
     '' requests='' @ nat_str (length (ss_requests s)) @ '' supersessions='' @ nat_str (length (ss_supersessions s))"

definition store_report :: "StoreState \<Rightarrow> string list" where
  "store_report s =
     store_line s # concat (map (\<lambda>rec. plan_line rec # map stage_line (pl_orderedStages (sr_plan rec))) (ss_plans s))"

definition cp_inspect_main :: "(string \<Rightarrow> bytes option) \<Rightarrow> string list \<Rightarrow> string list \<times> int" where
  "cp_inspect_main files argv =
     (case argv of
        _ # path # _ \<Rightarrow>
          (case files path of
             None \<Rightarrow> ([''cannot open store: '' @ path], 1)
           | Some data \<Rightarrow>
               (case parseStore data default_StoreState of
                  Inl e \<Rightarrow> ([''store parse error: '' @ toString_PersistErrorCode (pe_code e) @ '' ('' @ pe_detail e @ '')''], 1)
                | Inr s \<Rightarrow> (store_report s, 0)))
      | _ \<Rightarrow> ([''usage: cp_inspect <store-file>''], 2))"

section \<open>What it reports\<close>

lemma store_report_persisted: "store_report (persisted s) = store_report s"
  by (simp add: store_report_def store_line_def persisted_def)



end
