(* ===== verification/Double_Evaluation.thy ===== *)
theory Double_Evaluation
  imports Cost_Model
begin

text \<open>
  Rewrite rules that compute with non-negative doubles: a value is \<open>make_double False n\<close> for a numeral \<open>n\<close>,
  and every operation of the cost model on such values is simplified to such a value. Each step hands
  numerals to the next, so that nothing is computed twice.
\<close>

named_theorems double_eval "evaluation of doubles on numerals"

abbreviation fp :: "nat \<Rightarrow> double" where
  "fp n \<equiv> make_double False n"

section \<open>Rounding\<close>

definition round_half :: "nat \<Rightarrow> nat \<Rightarrow> nat \<Rightarrow> nat \<Rightarrow> nat" where
  "round_half q r d k = k + (if 2 * r < d then q else if d < 2 * r then Suc q else if even q then q else Suc q)"

definition round_wide :: "nat \<Rightarrow> nat \<Rightarrow> int \<Rightarrow> nat" where
  "round_wide n d t =
     min inf_mag (if 2 ^ 53 \<le> n div d then round_half (n div (2 * d)) (n mod (2 * d)) (2 * d) (nat (t + 1075) * 2 ^ 52)
       else round_half (n div d) (n mod d) d (nat (t + 1074) * 2 ^ 52))"

definition round_scale :: "nat \<Rightarrow> nat \<Rightarrow> int \<Rightarrow> int \<Rightarrow> nat" where
  "round_scale n d t x = (if 0 \<le> x then round_wide (n * 2 ^ nat x) d t else round_wide n (d * 2 ^ nat (- x)) t)"

definition round_unit :: "nat \<Rightarrow> nat \<Rightarrow> int \<Rightarrow> int \<Rightarrow> nat" where
  "round_unit n d e t = round_scale n d t (e - t)"

lemma round_mag_unit:
  "n \<noteq> 0 \<Longrightarrow> round_mag n d e = round_unit n d e (max (- 1074) (e + int (bitlen n) - int (bitlen d) - 53))"
proof -
  assume n: "n \<noteq> 0"
  define u where "u = max (- 1074) (e + int (bitlen n) - int (bitlen d) - 53)"
  define x where "x = e - u"
  define N where "N = (if 0 \<le> x then n * 2 ^ nat x else n)"
  define D where "D = (if 0 \<le> x then d else d * 2 ^ nat (- x))"
  define wide where "wide = (2 ^ 53 \<le> N div D)"
  have "round_mag n d e = min inf_mag (nat ((if wide then u + 1 else u) + 1074) * 2 ^ 52 + half_even N (if wide then 2 * D else D))"
    by (rule round_mag_eval [OF n u_def x_def N_def D_def wide_def refl refl refl])
  also have "\<dots> = round_wide N D u"
    by (cases wide) (simp_all only: round_wide_def wide_def [symmetric] round_half_def half_even_def Let_def if_True if_False add.assoc one_add_one
        numeral_plus_one one_plus_numeral add_num_simps)
  also have "\<dots> = round_unit n d e u"
    by (cases "0 \<le> x") (simp_all only: round_unit_def round_scale_def N_def D_def x_def [symmetric] if_True if_False)
  finally show ?thesis unfolding u_def .
qed

lemma round_mag_numerals [double_eval]:
  "round_mag (numeral n) (numeral d) e = round_unit (numeral n) (numeral d) e (max (- 1074) (e + int (bitlen (numeral n)) - int (bitlen (numeral d)) - 53))"
  "round_mag (numeral n) 1 e = round_unit (numeral n) 1 e (max (- 1074) (e + int (bitlen (numeral n)) - 54))"
  "round_mag 1 (numeral d) e = round_unit 1 (numeral d) e (max (- 1074) (e - int (bitlen (numeral d)) - 52))"
  "round_mag (Suc 0) (numeral d) e = round_unit 1 (numeral d) e (max (- 1074) (e - int (bitlen (numeral d)) - 52))"
  "round_mag (numeral n) (Suc 0) e = round_unit (numeral n) 1 e (max (- 1074) (e + int (bitlen (numeral n)) - 54))"
  "round_mag 1 1 e = round_unit 1 1 e (max (- 1074) (e - 53))"
  "round_mag (Suc 0) (Suc 0) e = round_unit 1 1 e (max (- 1074) (e - 53))"
  by (simp_all add: round_mag_unit bitlen_numeral)

lemmas [double_eval] = round_unit_def round_scale_def round_wide_def round_half_def bitlen_numeral

lemma inf_mag_numeral [double_eval]: "inf_mag = 9218868437227405312"
  by (simp add: inf_mag_def)

section \<open>Operations\<close>

definition split_significand :: "nat \<Rightarrow> nat \<Rightarrow> nat" where
  "split_significand e f = (if e = 0 then f else 2 ^ 52 + f)"

lemma significand_fp [double_eval]:
  "numeral n \<le> inf_mag \<Longrightarrow> significand (fp (numeral n)) = split_significand (numeral n div 2 ^ 52) (numeral n mod 2 ^ 52)"
  "significand (fp 0) = 0"
  by (simp_all add: significand_def split_significand_def Let_def)

lemma exponent_fp [double_eval]:
  "numeral n \<le> inf_mag \<Longrightarrow> exponent (fp (numeral n)) = int (max 1 (numeral n div 2 ^ 52)) - 1075"
  "exponent (fp 0) = - 1074"
  by (simp_all add: exponent_def)

definition add_scaled :: "nat \<Rightarrow> int \<Rightarrow> nat \<Rightarrow> int \<Rightarrow> int \<Rightarrow> double" where
  "add_scaled a x b y e = fp (round_mag (a * 2 ^ nat (x - e) + b * 2 ^ nat (y - e)) 1 e)"

lemma dadd_fp:
  assumes "n < inf_mag" and "m < inf_mag"
  shows "dadd (fp n) (fp m) =
    add_scaled (significand (fp n)) (exponent (fp n)) (significand (fp m)) (exponent (fp m)) (min (exponent (fp n)) (exponent (fp m)))"
proof -
  let ?e = "min (exponent (fp n)) (exponent (fp m))"
  let ?a = "significand (fp n) * 2 ^ nat (exponent (fp n) - ?e)" and ?b = "significand (fp m) * 2 ^ nat (exponent (fp m) - ?e)"
  have fin: "\<not> isnan (fp n)" "\<not> isnan (fp m)" "\<not> isinf (fp n)" "\<not> isinf (fp m)" "\<not> sign_bit (fp n)" "\<not> sign_bit (fp m)"
    using assms by (simp_all add: isinf_def)
  then have "dadd (fp n) (fp m) = (if int ?a + int ?b = 0 then fp 0 else make_double (int ?a + int ?b < 0) (round_mag (nat \<bar>int ?a + int ?b\<bar>) 1 ?e))"
    by (simp add: dadd_def Let_def)
  also have "\<dots> = fp (round_mag (?a + ?b) 1 ?e)"
  proof -
    have "nat \<bar>int x + int y\<bar> = x + y" "\<not> int x + int y < 0" "int x + int y = 0 \<longleftrightarrow> x + y = 0" for x y by linarith+
    then show ?thesis by (simp only: if_cancel round_mag_0 split: if_split) simp
  qed
  finally show ?thesis by (simp only: add_scaled_def)
qed

lemma dmul_fp [double_eval]:
  "n < inf_mag \<Longrightarrow> m < inf_mag \<Longrightarrow>
     dmul (fp n) (fp m) = fp (round_mag (significand (fp n) * significand (fp m)) 1 (exponent (fp n) + exponent (fp m)))"
  by (simp add: dmul_def isinf_def)

lemma ddiv_fp [double_eval]:
  "n < inf_mag \<Longrightarrow> m < inf_mag \<Longrightarrow> m \<noteq> 0 \<Longrightarrow>
     ddiv (fp n) (fp m) = fp (round_mag (significand (fp n)) (significand (fp m)) (exponent (fp n) - exponent (fp m)))"
  by (simp add: ddiv_def isinf_def)

lemma compare_fp [double_eval]:
  "n \<le> inf_mag \<Longrightarrow> m \<le> inf_mag \<Longrightarrow> dlt (fp n) (fp m) \<longleftrightarrow> n < m"
  "n \<le> inf_mag \<Longrightarrow> isinf (fp n) \<longleftrightarrow> n = inf_mag"
  by (simp_all add: dlt_def dkey_def isinf_def)

lemma dzero_fp [double_eval]: "dzero = fp 0"
  by (simp add: dzero_def)

text \<open>Rounding leaves a finite double as it is, so adding zero needs no arithmetic.\<close>

lemma bitlen_exact: "2 ^ k \<le> n \<Longrightarrow> n < 2 ^ Suc k \<Longrightarrow> bitlen n = Suc k"
proof (induction k arbitrary: n)
  case 0
  then have "n = 1" by simp
  then show ?case by (simp add: bitlen_numeral)
next
  case (Suc k)
  then have "bitlen (n div 2) = Suc k" by (intro Suc.IH) auto
  moreover have "n \<noteq> 0" using Suc.prems(1) by (metis not_numeral_le_zero power_le_zero_eq_numeral linorder_not_le zero_less_numeral zero_less_power)
  ultimately show ?case by (subst bitlen.simps) simp
qed

lemma round_normal:
  assumes "2 ^ 52 \<le> m" and "m < 2 ^ 53" and "k * 2 ^ 52 + m < inf_mag"
  shows "round_mag (m * 2 ^ k) 1 (- 1074) = k * 2 ^ 52 + m"
proof -
  have "2 ^ (52 + k) \<le> m * 2 ^ k" "m * 2 ^ k < 2 ^ Suc (52 + k)" using assms(1,2) by (simp_all add: power_add)
  then have len: "bitlen (m * 2 ^ k) = Suc (52 + k)" by (rule bitlen_exact)
  have half: "half_even (m * d) d = m" if "0 < d" for d using that by (simp add: half_even_def)
  have "m \<noteq> 0" using assms(1) by auto
  show ?thesis
  proof (cases k)
    case 0
    have "round_mag (m * 2 ^ k) 1 (- 1074) = min inf_mag (nat (- 1074 + 1074) * 2 ^ 52 + m)"
      by (rule round_mag_eval [where u = "- 1074" and x = 0 and N = m and D = 1 and wide = False and t = "- 1074" and D' = 1 and h = m])
        (use 0 \<open>m \<noteq> 0\<close> assms(2) len half [of 1] in \<open>simp_all add: bitlen_numeral\<close>)
    then show ?thesis using 0 assms(3) by simp
  next
    case (Suc j)
    have "(2::nat) ^ 53 \<le> m * 2" using assms(1) by simp
    moreover have "m * 2 ^ k div 2 ^ j = m * 2" by (simp add: Suc)
    moreover have "half_even (m * 2 ^ k) (2 * 2 ^ j) = m" using half [of "2 ^ k"] by (simp add: Suc)
    ultimately have "round_mag (m * 2 ^ k) 1 (- 1074) = min inf_mag (nat (int j - 1073 + 1074) * 2 ^ 52 + m)"
      by (intro round_mag_eval [where u = "int j - 1074" and x = "- int j" and N = "m * 2 ^ k" and D = "2 ^ j" and wide = True
            and t = "int j - 1073" and D' = "2 * 2 ^ j" and h = m])
        (use Suc \<open>m \<noteq> 0\<close> len in \<open>simp_all add: bitlen_numeral\<close>)
    then show ?thesis using Suc assms(3) by simp
  qed
qed

lemma round_subnormal:
  assumes "m < 2 ^ 52"
  shows "round_mag m 1 (- 1074) = m"
proof (cases "m = 0")
  case False
  then obtain k where k: "2 ^ k \<le> m" "m < 2 ^ Suc k" using ex_power_ivl1 [of 2 m] by auto
  have "(2::nat) ^ k < 2 ^ 52" using k(1) assms by (rule le_less_trans)
  then have "k < 52" by (rule power_less_imp_less_exp [rotated]) simp
  have "round_mag m 1 (- 1074) = min inf_mag (nat (- 1074 + 1074) * 2 ^ 52 + m)"
    by (rule round_mag_eval [where u = "- 1074" and x = 0 and N = m and D = 1 and wide = False and t = "- 1074" and D' = 1 and h = m])
      (use False assms bitlen_exact [OF k] \<open>k < 52\<close> in \<open>simp_all add: bitlen_numeral half_even_def\<close>)
  then show ?thesis using assms by (simp add: inf_mag_def)
qed simp

lemma round_scaled: "n < inf_mag \<Longrightarrow> round_mag (scaled_value (fp n)) 1 (- 1074) = n"
proof -
  assume n: "n < inf_mag"
  define e f where "e = n div 2 ^ 52" and "f = n mod 2 ^ 52"
  have nef: "n = e * 2 ^ 52 + f" "f < 2 ^ 52" by (simp_all add: e_def f_def)
  have "scaled_value (fp n) = (if e = 0 then f else (2 ^ 52 + f) * 2 ^ (e - 1))"
    using n by (simp only: scaled_value_eq magnitude_make [OF less_imp_le] Let_def e_def f_def)
  moreover have "round_mag ((2 ^ 52 + f) * 2 ^ (e - 1)) 1 (- 1074) = n" if "e \<noteq> 0"
  proof -
    have "(e - 1) * 2 ^ 52 + (2 ^ 52 + f) = n" using that nef(1) by (cases e) simp_all
    then show ?thesis using round_normal [of "2 ^ 52 + f" "e - 1"] n nef(2) by simp
  qed
  ultimately show ?thesis using round_subnormal [OF nef(2)] nef(1) by simp
qed

lemma exponent_min: "- 1074 \<le> exponent d"
  by (simp add: exponent_def)

lemma dadd_zero [double_eval]:
  assumes "n < inf_mag"
  shows "dadd (fp n) (fp 0) = fp n" and "dadd (fp 0) (fp n) = fp n"
proof -
  have e: "min (exponent (fp n)) (- 1074) = - 1074" "min (- 1074) (exponent (fp n)) = - 1074"
    using exponent_min [of "fp n"] by simp_all
  show "dadd (fp n) (fp 0) = fp n" "dadd (fp 0) (fp n) = fp n"
    using assms round_scaled [OF assms]
    by (simp_all add: dadd_fp add_scaled_def exponent_fp(2) significand_fp(2) scaled_value_def e)
qed

lemmas dadd_numerals [double_eval] =
  dadd_fp [of "numeral n" "numeral m" for n m]

lemmas [double_eval] = split_significand_def add_scaled_def double_lit_def double_of_nat_def double_of_u64_def dmin_def

lemma kMaxCost_fp [double_eval]: "kMaxCost = fp 4876203697187506176"
  by (simp add: kMaxCost_def double_eval)

lemma clampCost_fp [double_eval]: "n \<le> inf_mag \<Longrightarrow> clampCost (fp n) = fp (min n 4876203697187506176)"
  by (simp add: clampCost_def double_eval)

lemmas [double_eval] = toTransferNs_def scaled_payload_def

lemma dnonneg_fp [double_eval]: "n \<le> inf_mag \<Longrightarrow> dle (fp 0) (fp n)" "n \<le> inf_mag \<Longrightarrow> \<not> isnan (fp n)"
  by (simp_all add: dle_def dkey_def)


section \<open>Totals under the default weights\<close>

text \<open>The values of the components in their order, given the accumulators and the costs of staging.\<close>

definition component_values :: "nat \<Rightarrow> double \<Rightarrow> double \<Rightarrow> double \<Rightarrow> CostAcc \<Rightarrow> (CostFactor \<times> double) list" where
  "component_values n stageNs hostNs storageNs acc =
     [(CostFactor.PATH_LATENCY, ac_latNs acc), (CostFactor.EFFECTIVE_BANDWIDTH, ac_transferNs acc),
      (CostFactor.RESIDUAL_BANDWIDTH, ac_headroomNs acc), (CostFactor.CONGESTION_PENALTY, ac_congPenNs acc),
      (CostFactor.QUEUEING_ESTIMATE, ac_queueNs acc), (CostFactor.HOP_COUNT, double_of_nat n),
      (CostFactor.STAGE_COUNT, double_of_nat n), (CostFactor.STAGING_OVERHEAD, stageNs),
      (CostFactor.HOST_STAGING_COST, hostNs), (CostFactor.NUMA_DISTANCE, ac_numaLowNs acc),
      (CostFactor.PCIE_LOCALITY, ac_pcieNs acc), (CostFactor.NIC_LOCALITY, ac_nicNs acc),
      (CostFactor.STORAGE_LOCALITY, storageNs), (CostFactor.ENDPOINT_HEALTH, ac_healthRiskNs acc),
      (CostFactor.RESERVATION_FIT, dzero), (CostFactor.CAPACITY_HEADROOM, ac_headroomNs acc),
      (CostFactor.FAILURE_DOMAIN_RISK, dzero),
      (CostFactor.RELIABILITY, clampCost (dmul (double_of_nat n) (double_lit 1 1000))),
      (CostFactor.MOVEMENT_COST, clampCost (dadd (dadd (ac_transferNs acc) stageNs) hostNs))]"

fun value_total :: "double \<Rightarrow> (CostFactor \<times> double) list \<Rightarrow> double" where
  "value_total t [] = t"
| "value_total t ((f, v) # vs) = value_total (dadd t (dmul (default_weight f) (clampCost v))) vs"

lemma default_weight_fp:
  "default_weight f = fp (case f of CostFactor.HOP_COUNT \<Rightarrow> 4602678819172646912 | CostFactor.UNKNOWN \<Rightarrow> 0 | _ \<Rightarrow> 4607182418800017408)"
  by (cases f) (simp_all add: default_weight_def double_eval)

lemma weight_valid: "cc_isValid (cost_comp [] f v prov)"
proof -
  have "dnonneg (default_weight f) \<and> isfinite (default_weight f)"
    unfolding default_weight_fp by (cases f) (simp_all add: dnonneg_def isfinite_def inf_mag_numeral)
  then show ?thesis by (simp add: cost_comp_valid_iff weightOf_def map_find_def)
qed

text \<open>A total that stays finite is the plain sum; an infinite one stays infinite.\<close>

lemma isinf_dadd: "isinf t \<Longrightarrow> dnonneg t \<Longrightarrow> dnonneg v \<Longrightarrow> isinf (dadd t v)"
  by (auto simp: dadd_def dnonneg_def isinf_def)

lemma component_product: "dnonneg (dmul (default_weight f) (clampCost v))"
proof -
  have "dnonneg (default_weight f)" "isfinite (default_weight f)"
    using weight_valid [of f v Provenance.MEASURED] by (simp_all add: cost_comp_valid_iff weightOf_def map_find_def)
  then show ?thesis using clampCost_range [of v] by (intro dnonneg_dmul) simp_all
qed

lemma value_total_inf: "isinf t \<Longrightarrow> dnonneg t \<Longrightarrow> isinf (value_total t vs)"
proof (induction t vs rule: value_total.induct)
  case (2 t f v vs)
  then have "isinf (dadd t (dmul (default_weight f) (clampCost v)))" "dnonneg (dadd t (dmul (default_weight f) (clampCost v)))"
    using component_product [of f v] by (simp_all add: isinf_dadd dnonneg_dadd)
  from "2.IH" [OF this] show ?case by simp
qed simp

lemma cost_total_values:
  assumes "isfinite (value_total t vs)" and "dnonneg t" and "map (\<lambda>c. (cc_factor c, cc_value c)) cs = map (\<lambda>(f, v). (f, clampCost v)) vs"
    and "list_all (\<lambda>c. \<exists>f v prov. c = cost_comp [] f v prov) cs"
  shows "cost_total t cs = value_total t vs"
  using assms
proof (induction t vs arbitrary: cs rule: value_total.induct)
  case (2 t f v vs)
  let ?t = "dadd t (dmul (default_weight f) (clampCost v))"
  from "2.prems"(3) obtain c cs' where cs: "cs = c # cs'" "cc_factor c = f" "cc_value c = clampCost v"
    "map (\<lambda>c. (cc_factor c, cc_value c)) cs' = map (\<lambda>(f, v). (f, clampCost v)) vs" by auto
  have t: "dnonneg ?t" using "2.prems"(2) component_product [of f v] by (rule dnonneg_dadd)
  then have "\<not> isinf ?t" using "2.prems"(1) value_total_inf [of ?t vs] by (auto simp: isfinite_def isinf_def)
  moreover have "cc_isValid c" "cc_weight c = default_weight f"
    using "2.prems"(4) weight_valid cs(2) by (auto simp: cs(1) cost_comp_def weightOf_def map_find_def)
  moreover have "cost_total ?t cs' = value_total ?t vs"
    using "2.IH" [OF _ t cs(4)] "2.prems"(1,4) by (simp add: cs(1))
  ultimately show ?case using t by (simp add: cs(1,3) dnonneg_def)
qed simp

lemma candidate_total:
  assumes "fold (cost_hop (rq_payloadSize r) (linkMap s) (endpointMap s)) (cp_hops c) init_acc = acc"
    and "stageNs = (if 1 < length (cp_hops c) then dadd dzero (scaled_payload (rq_payloadSize r) 4) else dzero)"
    and "hostNs = (if hasKind hostStagingKind (endpointMap s) (cp_hops c) then dadd dzero (scaled_payload (rq_payloadSize r) 3) else dzero)"
    and "\<not> hasKind (\<lambda>k. k = EndpointKind.STORAGE) (endpointMap s) (cp_hops c)"
    and "value_total dzero (component_values (length (cp_hops c)) stageNs hostNs (ac_storageNs acc) acc) = t" and "isfinite t"
  shows "cs_total (evaluateCandidateCost r s c []) = t"
proof -
  let ?vs = "component_values (length (cp_hops c)) stageNs hostNs (ac_storageNs acc) acc"
  have "map (\<lambda>c. (cc_factor c, cc_value c)) (cs_components (evaluateCandidateCost r s c [])) = map (\<lambda>(f, v). (f, clampCost v)) ?vs"
    unfolding evaluateCandidateCost_def Let_def assms(1) CostSummary_of_def component_values_def
    by (simp add: cost_comp_def assms(2-4))
  moreover have "list_all (\<lambda>c. \<exists>f v prov. c = cost_comp [] f v prov) (cs_components (evaluateCandidateCost r s c []))"
    unfolding evaluateCandidateCost_def Let_def CostSummary_of_def by auto
  ultimately have "cost_total dzero (cs_components (evaluateCandidateCost r s c [])) = t"
    using cost_total_values [of dzero ?vs] assms(5,6) by simp
  moreover have "\<exists>cs. evaluateCandidateCost r s c [] = CostSummary_of cs" unfolding evaluateCandidateCost_def Let_def by blast
  ultimately show ?thesis by (auto simp: CostSummary_of_def)
qed

lemma fp_finite: "numeral n < inf_mag \<Longrightarrow> isfinite (fp (numeral n))"
  by (simp add: isfinite_def)

lemma finite_total: "cs_total c = fp n \<Longrightarrow> n < inf_mag \<Longrightarrow> totalValid c"
  by (simp add: totalValid_def isinf_def)

end
