(* ===== verification/Example_Programs.thy ===== *)
theory Example_Programs
  imports Plan_Gated Stored_Plans Inspector Double_Evaluation
begin

text \<open>
  The programs that use the library as a client would: \<open>examples/basic.cpp\<close> and \<open>downstream/main.cpp\<close>. A run is
  the lines it prints, with its exit code where it has more than one, or the exception that ends it.
\<close>

section \<open>Evidence\<close>

definition basic_ep :: "EndpointId \<Rightarrow> EndpointKind \<Rightarrow> NodeId \<Rightarrow> Transport list \<Rightarrow> Endpoint" where
  "basic_ep i kind node caps =
     default_Endpoint\<lparr>ep_id := i, ep_generation := 1, ep_kind := kind, ep_node := node, ep_ready := True,
       ep_reachable := True, ep_health := default_Health\<lparr>he_healthy := True\<rparr>,
       ep_capability := default_Capability\<lparr>cap_transports := fold set_insert caps [],
         cap_provenance := Provenance.MEASURED, cap_generation := 1\<rparr>\<rparr>"

definition basic_lk :: "LinkId \<Rightarrow> EndpointId \<Rightarrow> EndpointId \<Rightarrow> Transport \<Rightarrow> u64 \<Rightarrow> Link" where
  "basic_lk i src dst t cap =
     default_Link\<lparr>ln_id := i, ln_generation := 1, ln_source := src, ln_destination := dst, ln_transport := t,
       ln_directed := True, ln_capacity := cap, ln_effectiveBandwidth := cap, ln_latency := 1000,
       ln_health := default_Health\<lparr>he_healthy := True\<rparr>, ln_provenance := Provenance.MEASURED,
       ln_topologyGeneration := 1, ln_capabilityGeneration := 1,
       ln_capacityEvidence := default_Capacity\<lparr>cy_provenance := Provenance.REPORTED, cy_generation := 1,
         cy_usable := cap, cy_headroom := cap\<rparr>\<rparr>"

text \<open>The generations that both programs and the benchmark set.\<close>

definition first_generations :: EvidenceSnapshot where
  "first_generations =
     default_EvidenceSnapshot\<lparr>sn_topologyGeneration := 1, sn_congestionGeneration := 1, sn_capacityGeneration := 1,
       sn_capabilityGeneration := 1, sn_healthGeneration := 1, sn_placementGeneration := 1,
       sn_policyGeneration := 1, sn_authorityGeneration := currentAuthority\<rparr>"

definition basic_snapshot :: EvidenceSnapshot where
  "basic_snapshot =
     first_generations\<lparr>
       sn_endpoints :=
         [basic_ep 1 EndpointKind.GPU_DEVICE 1 [Transport.HOST_MEMORY, Transport.PCIE, Transport.CUDA],
          basic_ep 2 EndpointKind.GPU_DEVICE 2 [Transport.HOST_MEMORY, Transport.PCIE, Transport.CUDA],
          basic_ep 3 EndpointKind.PINNED_HOST_MEMORY 1 [Transport.HOST_MEMORY, Transport.PCIE]],
       sn_links :=
         [basic_lk 1 1 2 Transport.HOST_MEMORY 1000000, basic_lk 2 1 3 Transport.PCIE 2000000,
          basic_lk 3 3 2 Transport.PCIE 2000000]\<rparr>"

definition basic_bounds :: Bounds where
  "basic_bounds = default_Bounds\<lparr>bd_maxPathDepth := 6, bd_maxCandidates := 256, bd_maxFallbacks := 4\<rparr>"

text \<open>The request of all three programs.\<close>

definition client_request :: CommunicationRequest where
  "client_request =
     default_CommunicationRequest\<lparr>rq_id := 1, rq_generation := 1, rq_shape := RequestShape.POINT_TO_POINT,
       rq_source := 1, rq_destinations := [2], rq_payloadSize := 4096, rq_allowStaging := True,
       rq_allowHostStaging := True\<rparr>"

definition basic_request2 :: CommunicationRequest where
  "basic_request2 = client_request\<lparr>rq_id := 2, rq_forbidden := set_insert Transport.HOST_MEMORY (rq_forbidden client_request)\<rparr>"

section \<open>\<open>examples/basic.cpp\<close>\<close>

definition basic_stage_line :: "Stage \<Rightarrow> string" where
  "basic_stage_line st = ''  stage '' @ toString_Transport (st_transport st) @ '' '' @ u64_str (st_source st) @ ''->'' @ u64_str (st_destination st)"

text \<open>The plan of an outcome that reports success; to use a plan that is missing is undefined.\<close>

definition made_plan :: "PlanOutcome \<Rightarrow> cp_exception + CommunicationPlan option" where
  "made_plan po =
     (if \<not> po_success po then Inr None
      else case po_plan po of None \<Rightarrow> Inl Undefined | Some plan \<Rightarrow> Inr (Some plan))"

definition made_stages :: "CommunicationPlan option \<Rightarrow> Stage list" where
  "made_stages made = (case made of None \<Rightarrow> [] | Some plan \<Rightarrow> pl_orderedStages plan)"

definition outcome_line :: "string \<Rightarrow> CommunicationPlan option \<Rightarrow> string" where
  "outcome_line what made = ''Example: '' @ what @ '' success='' @ nat_str (of_bool (made \<noteq> None)) @ '' stages='' @
     nat_str (length (made_stages made))"

definition outcome_store :: "CommunicationPlan option \<Rightarrow> StoreState" where
  "outcome_store made =
     (case made of
        None \<Rightarrow> default_StoreState\<lparr>ss_epoch := 1\<rparr>
      | Some plan \<Rightarrow> single_store 1 plan PlanState.PLAN_READY)"

text \<open>
  The lines before the round trip, and the numbers of its line: whether the store was read back, and then
  the plans in it. Their number after a failed parse is left open.
\<close>

definition basic_main :: "Counters \<Rightarrow> cp_exception + string list \<times> bool \<times> nat option" where
  "basic_main ct =
     (case planCommunication client_request basic_snapshot [] basic_bounds ct of
        (Inl e, _) \<Rightarrow> Inl e
      | (Inr po, ct1) \<Rightarrow>
     (case made_plan po of
        Inl e \<Rightarrow> Inl e
      | Inr made \<Rightarrow>
     (case planCommunication basic_request2 basic_snapshot [] basic_bounds ct1 of
        (Inl e, _) \<Rightarrow> Inl e
      | (Inr po2, _) \<Rightarrow>
     (case made_plan po2 of
        Inl e \<Rightarrow> Inl e
      | Inr made2 \<Rightarrow>
          Inr (outcome_line ''host<->GPU plan'' made # map basic_stage_line (made_stages made) @
                 [outcome_line ''forbidden direct transport ->'' made2],
               case parseStore (serializeStore (outcome_store made)) default_StoreState of
                 Inl _ \<Rightarrow> (False, None)
               | Inr loaded \<Rightarrow> (True, Some (length (ss_plans loaded))))))))"

section \<open>\<open>downstream/main.cpp\<close>\<close>

definition downstream_snapshot :: EvidenceSnapshot where
  "downstream_snapshot =
     first_generations\<lparr>
       sn_endpoints := [basic_ep 1 EndpointKind.GPU_DEVICE 1 [Transport.HOST_MEMORY, Transport.CUDA],
         basic_ep 2 EndpointKind.GPU_DEVICE 2 [Transport.HOST_MEMORY, Transport.CUDA]],
       sn_links := [(basic_lk 1 1 2 Transport.HOST_MEMORY 1000000)\<lparr>ln_capacityEvidence := default_Capacity\<rparr>]\<rparr>"

definition downstream_bounds :: Bounds where
  "downstream_bounds = default_Bounds\<lparr>bd_maxPathDepth := 4, bd_maxCandidates := 64, bd_maxFallbacks := 2\<rparr>"

definition downstream_main :: "Counters \<Rightarrow> cp_exception + string list \<times> int" where
  "downstream_main ct =
     (case planCommunication client_request downstream_snapshot [] downstream_bounds ct of
        (Inl e, _) \<Rightarrow> Inl e
      | (Inr po, _) \<Rightarrow>
     (case made_plan po of
        Inl e \<Rightarrow> Inl e
      | Inr None \<Rightarrow> Inr ([''downstream: plan failed''], 1)
      | Inr (Some plan) \<Rightarrow>
          Inr ([''downstream: deterministic plan success, stages='' @ nat_str (length (pl_orderedStages plan)),
                ''downstream: primary path id='' @ u64_str (pl_primaryPath plan) @ '' cost='' @ fixed3 (cs_total (pl_cost plan)) @
                  '' provenance='' @ pl_provenance plan], 0)))"

section \<open>The plans\<close>

lemmas client_request_defs = client_request_def default_CommunicationRequest_def basic_request2_def

lemmas client_evidence_defs = basic_snapshot_def downstream_snapshot_def first_generations_def basic_ep_def basic_lk_def
  default_EvidenceSnapshot_def default_Endpoint_def default_Link_def default_Capability_def default_Health_def
  default_Congestion_def default_Capacity_def default_TopologyLocation_def

lemmas client_bounds_defs = basic_bounds_def downstream_bounds_def default_Bounds_def

lemma client_request_fields:
  "rq_shape client_request = RequestShape.POINT_TO_POINT" "\<not> rq_allowMulticast client_request"
  "rq_destinations client_request = [2]" "rq_source client_request = 1"
  "rq_shape basic_request2 = RequestShape.POINT_TO_POINT" "\<not> rq_allowMulticast basic_request2"
  "rq_destinations basic_request2 = [2]" "rq_source basic_request2 = 1"
  by (simp_all add: client_request_defs)

lemma client_shape:
  "effectiveShape client_request \<noteq> RequestShape.MULTICAST" "effectiveShape client_request \<noteq> RequestShape.COLLECTIVE"
  by (simp_all add: effectiveShape_def client_request_defs)

lemma client_valid: "validate client_request = None" "validate basic_request2 = None"
  by (simp_all add: client_request_defs validate_def validate_collective_def validate_shape_def validate_transports_def isNull_def)

definition direct_hop :: Hop where
  "direct_hop = \<lparr>hop_link = 1, hop_from = 1, hop_to = 2\<rparr>"

lemma basic_enumeration:
  "set (enumerateCandidatePaths basic_snapshot 1 2 basic_bounds) =
     {\<lparr>cp_source = 1, cp_destination = 2, cp_hops = [direct_hop]\<rparr>, \<lparr>cp_source = 1, cp_destination = 2, cp_hops = staged_hops\<rparr>}"
proof -
  have adj: "map_find (adjacency basic_snapshot) 1 = Some [\<lparr>adj_to = 2, adj_link = 1\<rparr>, \<lparr>adj_to = 3, adj_link = 2\<rparr>]"
    "map_find (adjacency basic_snapshot) 3 = Some [\<lparr>adj_to = 2, adj_link = 3\<rparr>]"
    by (simp_all add: find_adjacency out_edges_def client_evidence_defs adjLess_def)
  have "(6::nat) = Suc (Suc 4)" by simp
  with adj have "routes (adjacency basic_snapshot) 2 6 [1] 1 = [[direct_hop], staged_hops]"
    by (simp only: routes.simps) (simp add: adj_hop_def direct_hop_def staged_hops_def)
  then show ?thesis
    by (simp add: enumerate_take all_candidates_def client_bounds_defs route_hits_def dfs_hit_def dfs_ctx_def staged_hops_def
        insert_commute)
qed

lemma downstream_enumeration:
  "enumerateCandidatePaths downstream_snapshot 1 2 downstream_bounds = [\<lparr>cp_source = 1, cp_destination = 2, cp_hops = [direct_hop]\<rparr>]"
proof -
  have "map_find (adjacency downstream_snapshot) 1 = Some [\<lparr>adj_to = 2, adj_link = 1\<rparr>]"
    by (simp add: find_adjacency out_edges_def client_evidence_defs adjLess_def)
  moreover have "(4::nat) = Suc 3" by simp
  ultimately have "routes (adjacency downstream_snapshot) 2 4 [1] 1 = [[direct_hop]]"
    by (simp only: routes.simps) (simp add: adj_hop_def direct_hop_def)
  then show ?thesis
    by (simp add: enumerate_take all_candidates_def client_bounds_defs route_hits_def dfs_hit_def dfs_ctx_def)
qed

lemmas client_usable_defs = hop_usable_def endpoint_usable_def link_usable_def find_linkMap find_endpointMap direct_hop_def
  staged_hops_def client_evidence_defs client_request_defs endpointFresh_def isNull_def supports_def reserved_on_def linkResource_def

lemma client_usable:
  "hop_usable client_request basic_snapshot direct_hop" "hop_usable client_request downstream_snapshot direct_hop"
  "\<not> hop_usable basic_request2 basic_snapshot direct_hop" "\<forall>h\<in>set staged_hops. hop_usable basic_request2 basic_snapshot h"
  by (simp_all add: client_usable_defs)

lemma client_path_feasible:
  "path_feasible client_request basic_snapshot basic_bounds [direct_hop]"
  "path_feasible client_request downstream_snapshot downstream_bounds [direct_hop]"
  "path_feasible basic_request2 basic_snapshot basic_bounds staged_hops"
proof -
  show "path_feasible client_request basic_snapshot basic_bounds [direct_hop]"
    "path_feasible client_request downstream_snapshot downstream_bounds [direct_hop]"
    using client_usable(1,2) by (simp_all add: path_feasible_def client_bounds_defs isNull_def) (simp_all add: client_request_defs)
  have "relay_permitted basic_request2 basic_snapshot 3"
    by (simp add: relay_permitted_def find_endpointMap client_evidence_defs client_request_defs)
  moreover have "length staged_hops = 2" "set (butlast staged_hops) = {\<lparr>hop_link = 2, hop_from = 1, hop_to = 3\<rparr>}" "staged_hops \<noteq> []"
    by (simp_all add: staged_hops_def)
  ultimately show "path_feasible basic_request2 basic_snapshot basic_bounds staged_hops"
    using client_usable(4) by (simp add: path_feasible_def client_bounds_defs isNull_def) (simp add: client_request_defs)
qed

section \<open>The costs\<close>

lemmas cost_eval_defs = cost_hop_def find_linkMap find_endpointMap client_evidence_defs cost_link_terms_def cost_locality_terms_def
  cost_evidence_terms_def init_acc_def Let_def direct_hop_def staged_hops_def

definition client_acc :: "nat \<Rightarrow> nat \<Rightarrow> CostAcc" where
  "client_acc lat headroom =
     \<lparr>ac_latNs = fp lat, ac_transferNs = fp 4706050504369635328, ac_queueNs = fp 0, ac_congPenNs = fp 0, ac_numaLowNs = fp 0,
      ac_pcieNs = fp 0, ac_nicNs = fp 0, ac_storageNs = fp 0, ac_healthRiskNs = fp 0, ac_headroomNs = fp headroom,
      ac_worstProv = Provenance.MEASURED\<rparr>"

lemma client_accumulators:
  "fold (cost_hop 4096 (linkMap downstream_snapshot) (endpointMap downstream_snapshot)) [direct_hop] init_acc = client_acc 4652007308841189376 0"
  "fold (cost_hop 4096 (linkMap basic_snapshot) (endpointMap basic_snapshot)) [direct_hop] init_acc = client_acc 4652007308841189376 4706050495573551101"
  "fold (cost_hop 4096 (linkMap basic_snapshot) (endpointMap basic_snapshot)) staged_hops init_acc = client_acc 4656510908468559872 4706050499971591016"
  by (simp_all add: client_acc_def cost_eval_defs double_eval)

lemma client_staging:
  "\<not> hasKind P emap [direct_hop]" "hasKind hostStagingKind (endpointMap basic_snapshot) staged_hops"
  "\<not> hasKind (\<lambda>k. k = EndpointKind.STORAGE) (endpointMap basic_snapshot) staged_hops"
  by (simp_all add: hasKind_def staged_hops_def find_endpointMap client_evidence_defs hostStagingKind_def)

lemma client_payload: "rq_payloadSize client_request = 4096" "rq_payloadSize basic_request2 = 4096"
  by (simp_all add: client_request_defs)

lemma client_values:
  "value_total dzero (component_values 1 dzero dzero (fp 0) (client_acc 4652007308841189376 0)) = fp 4710555179350516302"
  "value_total dzero (component_values 1 dzero dzero (fp 0) (client_acc 4652007308841189376 4706050495573551101)) = fp 4715058236903089445"
  "value_total dzero (component_values 2 (dadd dzero (scaled_payload 4096 4)) (dadd dzero (scaled_payload 4096 3)) (fp 0)
     (client_acc 4656510908468559872 4706050499971591016)) = fp 4715058776809650968"
  by (simp_all add: client_acc_def component_values_def default_weight_fp double_eval)

lemma client_totals:
  "cs_total (evaluateCandidateCost client_request downstream_snapshot (route_candidate client_request 2 [direct_hop]) []) = fp 4710555179350516302"
  "cs_total (evaluateCandidateCost client_request basic_snapshot (route_candidate client_request 2 [direct_hop]) []) = fp 4715058236903089445"
  "cs_total (evaluateCandidateCost client_request basic_snapshot (route_candidate client_request 2 staged_hops) []) = fp 4715058776809650968"
proof -
  have two: "length staged_hops = 2" by (simp add: staged_hops_def)
  show "cs_total (evaluateCandidateCost client_request downstream_snapshot (route_candidate client_request 2 [direct_hop]) []) = fp 4710555179350516302"
    using client_values(1) by (intro candidate_total [where acc = "client_acc 4652007308841189376 0", OF _ refl refl])
      (simp_all add: route_candidate_def client_accumulators(1) [unfolded fold_simps] client_staging(1) client_payload fp_finite inf_mag_numeral, simp_all add: client_acc_def)
  show "cs_total (evaluateCandidateCost client_request basic_snapshot (route_candidate client_request 2 [direct_hop]) []) = fp 4715058236903089445"
    using client_values(2) by (intro candidate_total [where acc = "client_acc 4652007308841189376 4706050495573551101", OF _ refl refl])
      (simp_all add: route_candidate_def client_accumulators(2) [unfolded fold_simps] client_staging(1) client_payload fp_finite inf_mag_numeral, simp_all add: client_acc_def)
  show "cs_total (evaluateCandidateCost client_request basic_snapshot (route_candidate client_request 2 staged_hops) []) = fp 4715058776809650968"
    using client_values(3) by (intro candidate_total [where acc = "client_acc 4656510908468559872 4706050499971591016", OF _ refl refl])
      (simp_all add: route_candidate_def client_accumulators(3) client_staging two client_payload fp_finite inf_mag_numeral, simp_all add: client_acc_def)
qed

lemma cost_text: "fixed3 (fp 4710555179350516302) = ''8193001.501''"
  by (simp add: fixed3_def thousandths_def half_even_def double_eval nat_str.simps three_digits_def digit_char_def char_of_def bit_Suc_0_iff)

section \<open>The runs\<close>

text \<open>Evidence that is all measured makes a cost whose provenance is \<open>DERIVED\<close>.\<close>

lemma measured_provenance:
  assumes "ac_worstProv (fold (cost_hop (rq_payloadSize r) (linkMap s) (endpointMap s)) (cp_hops c) init_acc) = Provenance.MEASURED"
  shows "worstProvenance (evaluateCandidateCost r s c ws) = Provenance.DERIVED"
  unfolding worstProvenance_def evaluateCandidateCost_def Let_def assms CostSummary_of_def by (simp add: cost_comp_def)

lemma planned_provenance:
  assumes "planCommunication r s ws b ct = (Inr out, ct')" and "po_plan out = Some plan" and "rq_destinations r = [dst]"
    and "effectiveShape r \<noteq> RequestShape.MULTICAST" and "effectiveShape r \<noteq> RequestShape.COLLECTIVE"
  shows "pl_provenance plan = cost_provenance_name (pl_cost plan)"
proof -
  have "planPointToPoint r s ws b dst ct = (Inr out, ct')"
    using assms(1,3-5) by (auto simp: planCommunication_def split: sum.splits)
  from p2p_planned [OF this assms(2)] show ?thesis by (auto simp: p2p_plan_def bind_snapshot_def Let_def)
qed

lemma downstream_planned:
  "\<exists>out plan ct' g. planCommunication client_request downstream_snapshot [] downstream_bounds ct = (Inr out, ct') \<and> po_success out \<and>
     po_plan out = Some plan \<and> pl_orderedStages plan = [g] \<and> pl_primaryPath plan = 1 \<and>
     cs_total (pl_cost plan) = fp 4710555179350516302 \<and> pl_provenance plan = ''DERIVED''"
proof -
  let ?cands = "enumerateCandidatePaths downstream_snapshot (rq_source client_request) 2 downstream_bounds"
  have c: "\<exists>c\<in>set ?cands. cp_hops c = [direct_hop]"
    "\<forall>c\<in>set ?cands. path_feasible client_request downstream_snapshot downstream_bounds (cp_hops c) \<longrightarrow> cp_hops c = [direct_hop]"
    by (simp_all add: client_request_fields(4) downstream_enumeration)
  obtain out plan ct' and p :: Path where plan: "planCommunication client_request downstream_snapshot [] downstream_bounds ct = (Inr out, ct')"
    "po_success out" "po_plan out = Some plan" "pl_orderedStages plan = pa_stages p"
    "list_all2 (stage_of_hop downstream_snapshot) [direct_hop] (pa_stages p)" "pl_primaryPath plan = 1"
    "pl_cost plan = evaluateCandidateCost client_request downstream_snapshot (route_candidate client_request 2 [direct_hop]) []"
    using only_route_plan [OF client_valid(1) client_request_fields(1-3) client_path_feasible(2) c, of "[]" ct] by blast
  have "totalValid (pl_cost plan)" using client_totals(1) by (simp add: plan(7) finite_total inf_mag_numeral)
  moreover have "worstProvenance (pl_cost plan) = Provenance.DERIVED"
    using client_accumulators(1) by (simp add: plan(7) measured_provenance route_candidate_def client_payload client_acc_def)
  ultimately have "pl_provenance plan = ''DERIVED''"
    using planned_provenance [OF plan(1,3) client_request_fields(3) client_shape] by (simp add: cost_provenance_name_def provName_def)
  moreover obtain g where "pa_stages p = [g]" using plan(5) by (auto simp: list_all2_Cons1)
  ultimately show ?thesis using plan client_totals(1) by auto
qed

lemma stage_transport: "stage_of_hop s h g \<Longrightarrow> map_find (linkMap s) (hop_link h) = Some l \<Longrightarrow>
    basic_stage_line g = ''  stage '' @ toString_Transport (ln_transport l) @ '' '' @ u64_str (hop_from h) @ ''->'' @ u64_str (hop_to h)"
  by (simp add: stage_of_hop_def basic_stage_line_def)

lemma basic_direct:
  "\<exists>out plan ct' g. planCommunication client_request basic_snapshot [] basic_bounds ct = (Inr out, ct') \<and> po_success out \<and>
     po_plan out = Some plan \<and> pl_orderedStages plan = [g] \<and> stage_of_hop basic_snapshot direct_hop g"
proof -
  let ?cands = "enumerateCandidatePaths basic_snapshot (rq_source client_request) 2 basic_bounds"
  let ?direct = "route_candidate client_request 2 [direct_hop]" and ?staged = "route_candidate client_request 2 staged_hops"
  have c: "\<exists>c\<in>set ?cands. cp_hops c = [direct_hop]"
    by (simp add: client_request_fields(4) basic_enumeration)
  have "candidate_tuple client_request basic_snapshot [] basic_bounds ?direct < candidate_tuple client_request basic_snapshot [] basic_bounds ?staged"
    if "path_feasible client_request basic_snapshot basic_bounds staged_hops"
    using that client_path_feasible(1) client_totals(2,3)
    by (intro cheaper_tuple) (simp_all add: route_candidate_def finite_total inf_mag_numeral compare_fp)
  moreover have "c = ?direct \<or> c = ?staged" if "c \<in> set ?cands" for c
    using that by (simp add: client_request_fields(4) basic_enumeration route_candidate_def)
  moreover have "cp_hops ?direct = [direct_hop]" "cp_hops ?staged = staged_hops" by (simp_all add: route_candidate_def)
  ultimately have "\<forall>c\<in>set ?cands. path_feasible client_request basic_snapshot basic_bounds (cp_hops c) \<longrightarrow> cp_hops c = [direct_hop] \<or>
      candidate_tuple client_request basic_snapshot [] basic_bounds ?direct < candidate_tuple client_request basic_snapshot [] basic_bounds c"
    by metis
  from best_route_plan [OF client_valid(1) client_request_fields(1-3) client_path_feasible(1) c this, of ct] show ?thesis
    by (auto simp: list_all2_Cons1)
qed

lemma basic_staged:
  "\<exists>out plan ct'. planCommunication basic_request2 basic_snapshot [] basic_bounds ct = (Inr out, ct') \<and> po_success out \<and>
     po_plan out = Some plan \<and> length (pl_orderedStages plan) = 2"
proof -
  let ?cands = "enumerateCandidatePaths basic_snapshot (rq_source basic_request2) 2 basic_bounds"
  have c: "\<exists>c\<in>set ?cands. cp_hops c = staged_hops"
    "\<forall>c\<in>set ?cands. path_feasible basic_request2 basic_snapshot basic_bounds (cp_hops c) \<longrightarrow> cp_hops c = staged_hops"
    using client_usable(3) by (simp_all add: client_request_fields(8) basic_enumeration path_feasible_def)
  obtain out plan ct' and p :: Path where "planCommunication basic_request2 basic_snapshot [] basic_bounds ct = (Inr out, ct')" "po_success out"
    "po_plan out = Some plan" "pl_orderedStages plan = pa_stages p" "list_all2 (stage_of_hop basic_snapshot) staged_hops (pa_stages p)"
    using only_route_plan [OF client_valid(2) client_request_fields(5-7) client_path_feasible(3) c, of "[]" ct] by blast
  moreover from this(5) have "length (pa_stages p) = 2" by (auto simp: staged_hops_def dest: list_all2_lengthD)
  ultimately show ?thesis by auto
qed

text \<open>C37: the examples do what they announce. Started with fresh counters, \<open>examples/basic.cpp\<close> plans the direct stage
  over host memory, since its cost is below that of the route through pinned memory; with host memory
  forbidden it plans two stages; and the store with the first plan is read back with one plan.
  \<open>downstream/main.cpp\<close> exits with 0 after printing one stage, path 1, the cost \<open>8193001.501\<close> and its provenance.\<close>

theorem examples_succeed:
  "basic_main initial_Counters =
     Inr ([''Example: host<->GPU plan success=1 stages=1'', ''  stage HOST_MEMORY 1->2'',
           ''Example: forbidden direct transport -> success=1 stages=2''], True, Some 1) \<and>
   downstream_main initial_Counters =
     Inr ([''downstream: deterministic plan success, stages=1'',
           ''downstream: primary path id=1 cost=8193001.501 provenance=DERIVED''], 0)"
proof
  note text_defs = nat_str.simps u64_str_def digit_char_def char_of_def bit_Suc_0_iff
  obtain out plan ct1 g where direct: "planCommunication client_request basic_snapshot [] basic_bounds initial_Counters = (Inr out, ct1)"
    "po_success out" "po_plan out = Some plan" "pl_orderedStages plan = [g]" "stage_of_hop basic_snapshot direct_hop g"
    using basic_direct [of initial_Counters] by blast
  obtain out2 plan2 ct2 where staged: "planCommunication basic_request2 basic_snapshot [] basic_bounds ct1 = (Inr out2, ct2)"
    "po_success out2" "po_plan out2 = Some plan2" "length (pl_orderedStages plan2) = 2"
    using basic_staged [of ct1] by blast
  have link: "map_find (linkMap basic_snapshot) (hop_link direct_hop) = Some (basic_lk 1 1 2 Transport.HOST_MEMORY 1000000)"
    by (simp add: find_linkMap basic_snapshot_def direct_hop_def basic_lk_def)
  have "basic_stage_line g = ''  stage HOST_MEMORY 1->2''"
    using stage_transport [OF direct(5) link] by (simp add: basic_lk_def direct_hop_def text_defs)
  moreover have "parseStore (serializeStore (single_store 1 plan PlanState.PLAN_READY)) default_StoreState = Inr (single_store 1 plan PlanState.PLAN_READY)"
    using planned_verdict [OF direct(1,3) client_shape default_weights_moderate]
    by (simp add: initial_Counters_def committed_state_def client_bounds_defs)
  ultimately show "basic_main initial_Counters =
     Inr ([''Example: host<->GPU plan success=1 stages=1'', ''  stage HOST_MEMORY 1->2'',
           ''Example: forbidden direct transport -> success=1 stages=2''], True, Some 1)"
    using direct(1-4) staged
    by (simp add: basic_main_def made_plan_def outcome_store_def single_store_def outcome_line_def made_stages_def text_defs)
  obtain out plan ct' g where "planCommunication client_request downstream_snapshot [] downstream_bounds initial_Counters = (Inr out, ct')"
    "po_success out" "po_plan out = Some plan" "pl_orderedStages plan = [g]" "pl_primaryPath plan = 1"
    "cs_total (pl_cost plan) = fp 4710555179350516302" "pl_provenance plan = ''DERIVED''"
    using downstream_planned [of initial_Counters] by blast
  then show "downstream_main initial_Counters =
     Inr ([''downstream: deterministic plan success, stages=1'',
           ''downstream: primary path id=1 cost=8193001.501 provenance=DERIVED''], 0)"
    by (simp add: downstream_main_def made_plan_def cost_text text_defs)
qed

end
