(* ===== verification/Benchmark.thy ===== *)
theory Benchmark
  imports Example_Programs
begin

text \<open>
  \<open>benchmarks/bench.cpp\<close>: a ring of endpoints with chords, a plan from the first endpoint to the second, and the
  round trip of the plan through a store. Times are not modelled; the theorem says that what is timed is
  a plan that succeeds and a store that is read back, at every scale.
\<close>

section \<open>The program\<close>

definition bench_endpoint :: "nat \<Rightarrow> Endpoint" where
  "bench_endpoint i =
     default_Endpoint\<lparr>ep_id := of_nat i + 1, ep_generation := 1, ep_kind := EndpointKind.GPU_DEVICE,
       ep_node := of_nat i mod 4 + 1, ep_ready := True, ep_reachable := True, ep_health := default_Health\<lparr>he_healthy := True\<rparr>,
       ep_capability := default_Capability\<lparr>
         cap_transports := set_insert Transport.PCIE (set_insert Transport.HOST_MEMORY []),
         cap_provenance := Provenance.MEASURED, cap_generation := 1\<rparr>\<rparr>"

definition bench_link :: "LinkId \<Rightarrow> EndpointId \<Rightarrow> EndpointId \<Rightarrow> Transport \<Rightarrow> u64 \<Rightarrow> u64 \<Rightarrow> Link" where
  "bench_link i src dst t cap lat =
     default_Link\<lparr>ln_id := i, ln_generation := 1, ln_source := src, ln_destination := dst, ln_transport := t,
       ln_directed := True, ln_capacity := cap, ln_effectiveBandwidth := cap, ln_latency := lat,
       ln_health := default_Health\<lparr>he_healthy := True\<rparr>, ln_provenance := Provenance.MEASURED,
       ln_capacityEvidence := default_Capacity\<lparr>cy_generation := 1, cy_usable := cap, cy_provenance := Provenance.REPORTED\<rparr>,
       ln_topologyGeneration := 1, ln_capabilityGeneration := 1\<rparr>"

text \<open>The link of round \<open>i\<close> of the loop that closes the ring, and of the loop that adds chords.\<close>

definition bench_ring :: "nat \<Rightarrow> nat \<Rightarrow> Link" where
  "bench_ring n i = bench_link (of_nat i + 1) (of_nat i + 1) ((of_nat i + 1) mod of_nat n + 1) Transport.HOST_MEMORY 1000000 100"

definition chord_end :: "nat \<Rightarrow> u64 \<Rightarrow> u64 \<Rightarrow> u64" where
  "chord_end n a bb = (if a = bb then bb mod of_nat n + 1 else bb)"

definition bench_chord :: "nat \<Rightarrow> nat \<Rightarrow> Link" where
  "bench_chord n i =
     (let a = of_nat i * 7 mod of_nat n + 1; bb = of_nat i * 3 mod of_nat n + 1
      in bench_link (of_nat (n + i) + 1) a (chord_end n a bb) Transport.PCIE 2000000 200)"

definition bench_links :: "nat \<Rightarrow> nat \<Rightarrow> Link list" where
  "bench_links n l = map (bench_ring n) [0..<min n l] @ map (bench_chord n) [0..<l - n]"

definition bench_snapshot :: "nat \<Rightarrow> nat \<Rightarrow> EvidenceSnapshot" where
  "bench_snapshot n l = first_generations\<lparr>sn_endpoints := map bench_endpoint [0..<n], sn_links := bench_links n l\<rparr>"

definition bench_bounds :: Bounds where
  "bench_bounds = default_Bounds\<lparr>bd_maxPathDepth := 4, bd_maxCandidates := 64, bd_maxFallbacks := 4\<rparr>"

text \<open>What a scale prints besides the times: success, the number of candidates, and whether the store was read.\<close>

definition runScale :: "nat \<Rightarrow> nat \<Rightarrow> Counters \<Rightarrow> (cp_exception + bool \<times> nat \<times> bool) \<times> Counters" where
  "runScale n l ct =
     (case planCommunication client_request (bench_snapshot n l) [] bench_bounds ct of
        (Inl e, ct1) \<Rightarrow> (Inl e, ct1)
      | (Inr po, ct1) \<Rightarrow>
          (case made_plan po of
             Inl e \<Rightarrow> (Inl e, ct1)
           | Inr made \<Rightarrow>
               (Inr (po_success po, length (po_candidates po),
                  case parseStore (serializeStore (outcome_store made)) default_StoreState of Inl _ \<Rightarrow> False | Inr _ \<Rightarrow> True), ct1)))"

fun run_scales :: "(nat \<times> nat) list \<Rightarrow> Counters \<Rightarrow> cp_exception + (bool \<times> nat \<times> bool) list" where
  "run_scales [] ct = Inr []"
| "run_scales ((n, l) # scales) ct =
     (case runScale n l ct of
        (Inl e, _) \<Rightarrow> Inl e
      | (Inr res, ct1) \<Rightarrow> (case run_scales scales ct1 of Inl e \<Rightarrow> Inl e | Inr rs \<Rightarrow> Inr (res # rs)))"

definition bench_main :: "string list \<Rightarrow> Counters \<Rightarrow> cp_exception + (bool \<times> nat \<times> bool) list" where
  "bench_main argv ct =
     run_scales ([(100, 1000), (1000, 10000)] @
       (case argv of _ # arg # _ \<Rightarrow> if arg = ''big'' then [(10000, 100000)] else [] | _ \<Rightarrow> [])) ct"

section \<open>The topology\<close>

lemma small_word: "x < 2 ^ 33 \<Longrightarrow> unat (of_nat x + 1 :: u64) = Suc x"
proof -
  assume x: "x < 2 ^ 33"
  have "unat (of_nat (Suc x) :: u64) = Suc x" using x by (simp add: unat_of_nat del: of_nat_Suc)
  then show ?thesis by (simp add: add.commute)
qed

lemma mod_word: "0 < n \<Longrightarrow> n < 2 ^ 32 \<Longrightarrow> unat (w mod of_nat n + 1 :: u64) = unat w mod n + 1"
proof -
  assume n: "0 < n" "n < 2 ^ 32"
  have "unat (of_nat n :: u64) = n" using n by (simp add: unat_of_nat)
  then have m: "unat (w mod of_nat n :: u64) = unat w mod n" by (simp add: unat_mod)
  have "unat w mod n < 2 ^ 33" using mod_less_divisor [OF n(1), of "unat w"] n(2) by simp
  then have "unat (of_nat (unat w mod n) + 1 :: u64) = Suc (unat w mod n)" by (rule small_word)
  then show ?thesis by (simp flip: m)
qed

lemma bench_ring_0: "2 \<le> n \<Longrightarrow> n < 2 ^ 32 \<Longrightarrow> bench_ring n 0 = bench_link 1 1 2 Transport.HOST_MEMORY 1000000 100"
proof -
  assume n: "2 \<le> n" "n < 2 ^ 32"
  have "unat ((1::u64) mod of_nat n + 1) = unat (2::u64)" using mod_word [of n 1] n by simp
  then have "(1::u64) mod of_nat n + 1 = 2" by (rule word_unat_eq_iff [THEN iffD2])
  then show ?thesis by (simp add: bench_ring_def)
qed

text \<open>The links that leave endpoint 1 lead to other endpoints, and only the first has identity 1.\<close>

lemma bench_links_cases:
  assumes "lk \<in> set (bench_links n l)" and "2 \<le> n" and "n < 2 ^ 32" and "l < 2 ^ 32"
  shows "lk = bench_ring n 0 \<or> 1 < ln_id lk \<and> (ln_source lk = 1 \<longrightarrow> 2 \<le> ln_destination lk)"
proof -
  have big: "1 < w" "2 \<le> w" if "2 \<le> unat w" for w :: u64 using that by (simp_all add: word_less_nat_alt word_le_nat_alt)
  from assms(1) consider i where "i < n" "i < l" "lk = bench_ring n i" | i where "i < l - n" "lk = bench_chord n i"
    by (auto simp: bench_links_def)
  then show ?thesis
  proof cases
    case 1
    show ?thesis
    proof (cases i)
      case (Suc k)
      then have "unat (of_nat i + 1 :: u64) = Suc (Suc k)" using small_word [of i] 1(2) assms(4) by simp
      then have "1 < (of_nat i + 1 :: u64)" by (intro big(1)) simp
      then show ?thesis using 1(3) by (auto simp: bench_ring_def bench_link_def)
    qed (use 1 in simp)
  next
    case 2
    have "unat (of_nat (n + i) + 1 :: u64) = Suc (n + i)" using 2(1) assms(3,4) by (intro small_word) simp
    then have id: "1 < (of_nat (n + i) + 1 :: u64)" using assms(2) by (intro big(1)) simp
    have "2 \<le> chord_end n 1 (w mod of_nat n + 1)" for w
    proof (cases "w mod of_nat n + 1 = (1 :: u64)")
      case True
      have "unat ((1::u64) mod of_nat n + 1) = 2" using mod_word [of n 1] assms(2,3) by simp
      then show ?thesis using True big(2) by (simp add: chord_end_def)
    next
      case False
      have "unat (w mod of_nat n + 1 :: u64) = Suc (unat w mod n)" using mod_word [of n w] assms(2,3) by simp
      moreover from this False have "unat w mod n \<noteq> 0" by (metis One_nat_def unat_1 word_unat_eq_iff)
      ultimately show ?thesis using False by (auto simp: chord_end_def intro!: big(2))
    qed
    then show ?thesis using id 2(2) by (auto simp: bench_chord_def bench_link_def Let_def)
  qed
qed

lemma bench_first_edge:
  assumes "2 \<le> n" and "1 \<le> l" and "n < 2 ^ 32" and "l < 2 ^ 32"
  shows "\<exists>as. map_find (adjacency (bench_snapshot n l)) 1 = Some (\<lparr>adj_to = 2, adj_link = 1\<rparr> # as)"
proof -
  let ?edges = "out_edges (bench_links n l) 1" and ?first = "\<lparr>adj_to = 2, adj_link = 1\<rparr> :: Adj"
  note ring = bench_ring_0 [OF assms(1,3)]
  have "bench_ring n 0 \<in> set (bench_links n l)" using assms(1,2) by (force simp: bench_links_def)
  then have first: "?first \<in> set ?edges" by (force simp: out_edges_def ring bench_link_def image_iff)
  have edge: "a = ?first \<or> 1 < adj_link a \<and> 2 \<le> adj_to a" if "a \<in> set ?edges" for a
    using that bench_links_cases [OF _ assms(1,3,4)] ring by (fastforce simp: out_edges_def bench_link_def)
  obtain a as where sorted: "stable_sort adjLess ?edges = a # as" using first by (cases "stable_sort adjLess ?edges") auto
  have "a \<in> set ?edges" using sorted by (metis list.set_intros(1) set_stable_sort)
  moreover have "\<not> adjLess ?first a" using adj_order.head_minimal [OF _ sorted first] by simp
  ultimately have "a = ?first" using edge [of a] by (auto simp: adjLess_def split: if_splits)
  then show ?thesis using sorted first by (auto simp: find_adjacency bench_snapshot_def first_generations_def)
qed

lemma bench_direct:
  assumes "2 \<le> n" and "1 \<le> l" and "n < 2 ^ 32" and "l < 2 ^ 32"
  shows "\<lparr>cp_source = 1, cp_destination = 2, cp_hops = [direct_hop]\<rparr> \<in> set (enumerateCandidatePaths (bench_snapshot n l) 1 2 bench_bounds)"
proof -
  obtain as where "map_find (adjacency (bench_snapshot n l)) 1 = Some (\<lparr>adj_to = 2, adj_link = 1\<rparr> # as)"
    using bench_first_edge [OF assms] by blast
  moreover have "(4::nat) = Suc 3" by simp
  ultimately obtain rs where "routes (adjacency (bench_snapshot n l)) 2 4 [1] 1 = [direct_hop] # rs"
    by (simp only: routes.simps) (simp add: adj_hop_def direct_hop_def)
  then show ?thesis unfolding enumerate_take set_stable_sort
    by (simp add: all_candidates_def bench_bounds_def default_Bounds_def route_hits_def dfs_hit_def dfs_ctx_def)
qed

lemma bench_endpoints:
  assumes "2 \<le> n" and "n < 2 ^ 32" and "k \<in> {0, 1}"
  shows "map_find (endpointMap (bench_snapshot n l)) (of_nat k + 1) = Some (bench_endpoint k)"
proof -
  have "of_nat k + 1 \<in> ep_id ` set (sn_endpoints (bench_snapshot n l))"
    using assms(1,3) by (force simp: bench_snapshot_def bench_endpoint_def image_iff)
  then obtain e where e: "map_find (endpointMap (bench_snapshot n l)) (of_nat k + 1) = Some e"
    using endpointMap_None_iff by (metis not_None_eq)
  from endpointMap_SomeD [OF e] obtain i where i: "i < n" "e = bench_endpoint i" "of_nat i + 1 = (of_nat k + 1 :: u64)"
    by (auto simp: bench_snapshot_def bench_endpoint_def)
  have "Suc i = Suc k" using small_word [of i] small_word [of k] i(1,3) assms(2,3) by auto
  then show ?thesis using e i(2) by simp
qed

lemma bench_feasible:
  assumes "2 \<le> n" and "1 \<le> l" and "n < 2 ^ 32" and "l < 2 ^ 32"
  shows "path_feasible client_request (bench_snapshot n l) bench_bounds [direct_hop]"
proof -
  note ring = bench_ring_0 [OF assms(1,3)]
  have mem: "bench_ring n 0 \<in> set (bench_links n l)" using assms(1,2) by (force simp: bench_links_def)
  have "ln_id (bench_ring n 0) = 1" by (simp add: ring bench_link_def)
  with mem have "1 \<in> ln_id ` set (sn_links (bench_snapshot n l))" by (force simp: bench_snapshot_def)
  then obtain lk where lk: "map_find (linkMap (bench_snapshot n l)) 1 = Some lk" using linkMap_None_iff by (metis not_None_eq)
  from linkMap_SomeD [OF this] have "lk = bench_ring n 0"
    using bench_links_cases [OF _ assms(1,3,4), of lk] by (auto simp: bench_snapshot_def)
  moreover have "map_find (endpointMap (bench_snapshot n l)) 1 = Some (bench_endpoint 0)"
    "map_find (endpointMap (bench_snapshot n l)) 2 = Some (bench_endpoint 1)"
    using bench_endpoints [OF assms(1,3), of 0 l] bench_endpoints [OF assms(1,3), of 1 l] by simp_all
  ultimately have "hop_usable client_request (bench_snapshot n l) direct_hop"
    using lk by (simp add: hop_usable_def endpoint_usable_def link_usable_def direct_hop_def ring bench_link_def bench_endpoint_def bench_snapshot_def
        client_evidence_defs client_request_defs endpointFresh_def isNull_def supports_def reserved_on_def linkResource_def)
  then show ?thesis by (simp add: path_feasible_def bench_bounds_def default_Bounds_def isNull_def) (simp add: client_request_defs)
qed

section \<open>The runs\<close>

lemma planned_candidates:
  "planPointToPoint r s ws b dst ct = (Inr out, ct') \<Longrightarrow>
     length (po_candidates out) = length (enumerateCandidatePaths s (rq_source r) dst b)"
  by (auto simp: planPointToPoint_def Let_def split: if_splits prod.splits sum.splits)

lemma scale_succeeds:
  assumes "2 \<le> n" and "1 \<le> l" and "n < 2 ^ 32" and "l < 2 ^ 32" and "ct_planId ct \<noteq> 0"
  shows "\<exists>k ct'. runScale n l ct = (Inr (True, k, True), ct') \<and> 1 \<le> k \<and> k \<le> 64 \<and> ct_planId ct' = ct_planId ct + 1"
proof -
  let ?s = "bench_snapshot n l"
  have cand: "\<lparr>cp_source = 1, cp_destination = 2, cp_hops = [direct_hop]\<rparr> \<in> set (enumerateCandidatePaths ?s 1 2 bench_bounds)"
    by (rule bench_direct [OF assms(1-4)])
  then have feas: "destination_feasible client_request ?s bench_bounds (rq_source client_request) 2"
    using bench_feasible [OF assms(1-4)] by (force simp: destination_feasible_def client_request_fields(4))
  obtain out plan ct' where plan: "planPointToPoint client_request ?s [] bench_bounds 2 ct = (Inr out, ct')"
    "p2p_result client_request ?s [] bench_bounds 2 out plan"
    using planPointToPoint_feasible [OF feas] by blast
  then have res: "po_success out" "po_plan out = Some plan" by (simp_all add: p2p_result_def Let_def)
  have run: "planCommunication client_request ?s [] bench_bounds ct = (Inr out, ct')"
    using plan(1) client_valid(1) client_request_fields(1-3) by (subst planCommunication_p2p [where dst = 2]) auto
  have "parseStore (serializeStore (single_store 1 plan PlanState.PLAN_READY)) default_StoreState = Inr (single_store 1 plan PlanState.PLAN_READY)"
    using planned_verdict [OF run res(2) client_shape default_weights_moderate assms(5)]
    by (simp add: committed_state_def bench_bounds_def default_Bounds_def)
  then have "runScale n l ct = (Inr (True, length (po_candidates out), True), ct')"
    using run res by (simp add: runScale_def made_plan_def outcome_store_def)
  moreover have "length (po_candidates out) = length (enumerateCandidatePaths ?s 1 2 bench_bounds)"
    using planned_candidates [OF plan(1)] by (simp add: client_request_fields(4))
  moreover have "1 \<le> length (enumerateCandidatePaths ?s 1 2 bench_bounds)" using cand by (cases "enumerateCandidatePaths ?s 1 2 bench_bounds") auto
  moreover have "length (enumerateCandidatePaths ?s 1 2 bench_bounds) \<le> 64"
    using enumerate_length [of ?s 1 2 bench_bounds] by (simp add: bench_bounds_def default_Bounds_def)
  ultimately show ?thesis using planned_counter [OF plan(1) res(2)] by auto
qed

definition scale_passed :: "bool \<times> nat \<times> bool \<Rightarrow> bool" where
  "scale_passed res \<longleftrightarrow> (case res of (ok, k, loaded) \<Rightarrow> ok \<and> 1 \<le> k \<and> k \<le> 64 \<and> loaded)"

text \<open>C38: the benchmark times plans that succeed. At every scale from two endpoints and one link up to \<open>2 ^ 32\<close> of each,
  the plan from the first endpoint to the second succeeds over between 1 and 64 candidates and its store is
  read back; and so the program, with and without the large scale, reports two or three successful scales.\<close>

theorem benchmark_succeeds_at_every_scale:
  "(2 \<le> n \<and> 1 \<le> l \<and> n < 2 ^ 32 \<and> l < 2 ^ 32 \<and> ct_planId ct \<noteq> 0 \<longrightarrow> (\<exists>k ct'. runScale n l ct = (Inr (True, k, True), ct') \<and> 1 \<le> k \<and> k \<le> 64)) \<and>
   (\<exists>rs. bench_main argv initial_Counters = Inr rs \<and> list_all scale_passed rs \<and> 2 \<le> length rs \<and>
      (length rs = 3 \<longleftrightarrow> 1 < length argv \<and> argv ! 1 = ''big''))"
proof -
  obtain k1 ct1 where 1: "runScale 100 1000 initial_Counters = (Inr (True, k1, True), ct1)" "1 \<le> k1" "k1 \<le> 64" "ct_planId ct1 = 2"
    using scale_succeeds [of 100 1000 initial_Counters] by (auto simp: initial_Counters_def)
  obtain k2 ct2 where 2: "runScale 1000 10000 ct1 = (Inr (True, k2, True), ct2)" "1 \<le> k2" "k2 \<le> 64" "ct_planId ct2 = 3"
    using scale_succeeds [of 1000 10000 ct1] 1(4) by auto
  obtain k3 ct3 where 3: "runScale 10000 100000 ct2 = (Inr (True, k3, True), ct3)" "1 \<le> k3" "k3 \<le> 64"
    using scale_succeeds [of 10000 100000 ct2] 2(4) by auto
  have "\<exists>rs. bench_main argv initial_Counters = Inr rs \<and> list_all scale_passed rs \<and> 2 \<le> length rs \<and>
      (length rs = 3 \<longleftrightarrow> 1 < length argv \<and> argv ! 1 = ''big'')"
    using 1 2 3 by (auto simp: bench_main_def scale_passed_def split: list.split)
  then show ?thesis using scale_succeeds [of n l ct] by blast
qed

theorem benchmark_succeeds_at_every_scale_witness:
  "(\<exists>k ct'. runScale 2 1 initial_Counters = (Inr (True, k, True), ct') \<and> 1 \<le> k \<and> k \<le> 64) \<and>
   (\<exists>rs. bench_main [''bench'', ''big''] initial_Counters = Inr rs \<and> length rs = 3)"
  using benchmark_succeeds_at_every_scale [of 2 1 initial_Counters "[''bench'', ''big'']"] by (auto simp: initial_Counters_def)

end
