(* ===== verification/Multiprocess.thy ===== *)
theory Multiprocess
  imports Workers Stored_Plans Double_Evaluation Chosen_Route
begin

text \<open>
  The program of \<open>apps/proof_main.cpp\<close>: it starts a coordinator and two workers as processes of their own,
  submits requests as a client, makes the direct link congested, kills a worker, lets it return under
  another boot, restarts the coordinator on its store, and asserts what it is told at each step. The calls
  that start and end processes, that sleep and that remove a file are parameters over the state of the
  system, like those of the sockets.
\<close>

section \<open>Processes\<close>

record 'o Processes =
  ps_create :: "string \<Rightarrow> 'o \<Rightarrow> nat option \<times> 'o"
  ps_terminate :: "nat \<Rightarrow> 'o \<Rightarrow> 'o"
  ps_sleep :: "nat \<Rightarrow> 'o \<Rightarrow> 'o"
  ps_remove :: "string \<Rightarrow> 'o \<Rightarrow> 'o"

text \<open>A child that is valid is the identity of its process.\<close>

type_synonym Child = "nat option"

definition command_line :: "string \<Rightarrow> string \<Rightarrow> string" where
  "command_line exe args = [CHR 0x22] @ exe @ [CHR 0x22] @ '' '' @ args"

definition spawn :: "'o Processes \<Rightarrow> string \<Rightarrow> string \<Rightarrow> 'o \<Rightarrow> Child \<times> 'o" where
  "spawn ps exe args os = ps_create ps (command_line exe args) os"

definition killChild :: "'o Processes \<Rightarrow> Child \<Rightarrow> 'o \<Rightarrow> Child \<times> 'o" where
  "killChild ps c os = (case c of None \<Rightarrow> (None, os) | Some pid \<Rightarrow> (None, ps_terminate ps pid os))"

section \<open>The program\<close>

definition coordinator_args :: "u16 \<Rightarrow> string" where
  "coordinator_args port = '' '' @ nat_str (unat port) @ '' '' @ ''proof_store.bin''"

definition worker_args :: "u16 \<Rightarrow> string \<Rightarrow> string \<Rightarrow> string" where
  "worker_args port role boot = '' '' @ nat_str (unat port) @ '' '' @ role @ '' '' @ boot"

definition proof_congestion :: Congestion where
  "proof_congestion =
     default_Congestion\<lparr>cg_generation := 5, cg_load := double_lit 99 100, cg_penalty := double_lit (10 ^ 12) 1,
       cg_hardLimitExceeded := False, cg_provenance := Provenance.REPORTED\<rparr>"

text \<open>The plan and the flag after \<open>submitRequest\<close>, the flag being false before; and a flag after another call.\<close>

definition answered_plan :: "string + CommunicationPlan option \<Rightarrow> CommunicationPlan option" where
  "answered_plan r = (case r of Inl _ \<Rightarrow> None | Inr made \<Rightarrow> made)"

definition answered_flag :: "bool \<Rightarrow> string + bool \<Rightarrow> bool" where
  "answered_flag before r = (case r of Inl _ \<Rightarrow> before | Inr x \<Rightarrow> x)"

definition assert_stages :: "nat \<Rightarrow> CommunicationPlan option \<Rightarrow> bool list" where
  "assert_stages n made = (case made of None \<Rightarrow> [] | Some p \<Rightarrow> [length (pl_orderedStages p) = n])"

text \<open>\<open>if (feas) { ctrl.revalidate(plan.id, fresh, e); ASSERT(!fresh, ...); }\<close>\<close>

definition assert_stale ::
  "'o sender \<Rightarrow> 'o receiver \<Rightarrow> Client option \<Rightarrow> CommunicationPlan option \<Rightarrow> 'o \<Rightarrow> (bool list \<times> 'o) option" where
  "assert_stale put get c made os =
     (case made of
        None \<Rightarrow> Some ([], os)
      | Some p \<Rightarrow> do { (r, os1) \<leftarrow> client_revalidate put get c (pl_id p) os; Some ([\<not> answered_flag True r], os1) })"

text \<open>The first block: the outcomes of its assertions, and the workers that are left.\<close>

definition proof_first ::
  "'o Processes \<Rightarrow> 'o sender \<Rightarrow> 'o receiver \<Rightarrow> Client option \<Rightarrow> string \<Rightarrow> u16 \<Rightarrow> 'o \<Rightarrow>
     (bool list \<times> Child \<times> Child \<times> 'o) option" where
  "proof_first ps put get c workerExe port os0 =
     (let (wa, os1) = spawn ps workerExe (worker_args port ''A'' ''1000'') os0;
          (wb, os2) = spawn ps workerExe (worker_args port ''B'' ''2000'') os1;
          os3 = ps_sleep ps 300 os2
      in do {
           (r1, os4) \<leftarrow> client_submitRequest put get c (mkReq 1 100 200 4096) os3;
           let plan1 = answered_plan r1;
           (_, os5) \<leftarrow> client_save put get c os4;
           (_, os6) \<leftarrow> client_publishCongestion put get c 10 proof_congestion os5;
           (a1, os7) \<leftarrow> assert_stale put get c plan1 os6;
           (r2, os8) \<leftarrow> client_submitRequest put get c (mkReq 2 100 200 4096) os7;
           let plan2 = answered_plan r2;
           let os9 = ps_sleep ps 250 (snd (killChild ps wa os8));
           (a2, os10) \<leftarrow> assert_stale put get c plan2 os9;
           (r3, os11) \<leftarrow> client_submitRequest put get c (mkReq 3 100 200 4096) os10;
           let (wa2, os12) = spawn ps workerExe (worker_args port ''A'' ''3000'') os11;
           (r4, os13) \<leftarrow> client_submitRequest put get c (mkReq 4 100 200 4096) (ps_sleep ps 300 os12);
           (_, os14) \<leftarrow> client_save put get c os13;
           Some ([plan1 \<noteq> None] @ assert_stages 1 plan1 @ a1 @ [plan2 \<noteq> None] @ assert_stages 2 plan2 @ a2 @
                 [answered_plan r3 = None, answered_plan r4 \<noteq> None], wb, wa2, os14)
         })"

text \<open>The second block, with the restarted coordinator.\<close>

definition proof_second :: "'o sender \<Rightarrow> 'o receiver \<Rightarrow> Client option \<Rightarrow> 'o \<Rightarrow> (bool list \<times> 'o) option" where
  "proof_second put get c os0 =
     do {
       (r, os1) \<leftarrow> client_queryPlanState put get c 1 os0;
       let (qok, state) = (case r of Inl _ \<Rightarrow> (False, - 1) | Inr x \<Rightarrow> x);
       (rR, os2) \<leftarrow> client_submitRequest put get c (mkReq 99 100 200 4096) os1;
       (_, os3) \<leftarrow> client_shutdown put get c os2;
       Some ([qok, qok \<and> state = int (enum_index all_PlanState PlanState.REVALIDATION_REQUIRED), answered_plan rR = None], os3)
     }"

text \<open>
  The exit code with the outcomes of the assertions. The client of a block is destroyed at its end, which
  closes its connection. \<open>None\<close>: sending never ends.
\<close>

definition proof_main ::
  "'o Winsock \<Rightarrow> (SOCKET \<Rightarrow> 'o sender) \<Rightarrow> (SOCKET \<Rightarrow> 'o receiver) \<Rightarrow> 'o Processes \<Rightarrow> string list \<Rightarrow> 'o \<Rightarrow>
     ((int \<times> bool list) \<times> 'o) option" where
  "proof_main w put get ps argv os0 =
     (case argv of
        _ # coordExe # workerExe # _ \<Rightarrow>
          (let (port, os1) = freePort w os0
           in if port = 0 then Some ((2, []), os1)
              else
                let os2 = ps_remove ps ''proof_store.bin'' os1;
                    (coord, os3) = spawn ps coordExe (coordinator_args port) os2
                in if coord = None then Some ((1, []), os3)
                   else
                     let (ready, c, os4) = waitConnect w get (ps_sleep ps 50) port 60 None os3
                     in if \<not> ready then Some ((1, []), snd (client_close w c os4))
                        else do {
                          (log1, wb, wa2, os5) \<leftarrow> proof_first ps (put (client_sock c)) (get (client_sock c)) c workerExe port os4;
                          let os6 = snd (killChild ps coord (snd (client_close w c os5)));
                          let (coord2, os7) = spawn ps coordExe (coordinator_args port) os6;
                          if coord2 = None then Some ((1, log1), os7)
                          else
                            let (ready2, c2, os8) = waitConnect w get (ps_sleep ps 50) port 60 None os7
                            in if \<not> ready2 then Some ((1, log1), snd (client_close w c2 os8))
                               else do {
                                 (log2, os9) \<leftarrow> proof_second (put (client_sock c2)) (get (client_sock c2)) c2 os8;
                                 let os10 = snd (killChild ps wa2 (snd (killChild ps wb (snd (client_close w c2 os9)))));
                                 Some ((if list_all id (log1 @ log2) then 0 else 1, log1 @ log2), snd (killChild ps coord2 os10))
                               }
                        })
      | _ \<Rightarrow> Some ((2, []), os0))"

end
