(* ===== verification/Multiprocess_Plans.thy ===== *)
theory Multiprocess_Plans
  imports Multiprocess
begin

text \<open>
  The plans of \<open>apps/proof_main.cpp\<close> over the evidence of its two workers: the direct route while its link is
  free, the route through pinned memory once the link is congested, by the costs of the two.
\<close>

section \<open>The evidence of the workers\<close>

definition hops11 :: "Hop list" where
  "hops11 = [\<lparr>hop_link = 11, hop_from = 100, hop_to = 300\<rparr>, \<lparr>hop_link = 12, hop_from = 300, hop_to = 200\<rparr>]"

definition congested :: "Congestion option \<Rightarrow> Link list \<Rightarrow> Link list" where
  "congested g ls = (case g of None \<Rightarrow> ls | Some x \<Rightarrow> map (\<lambda>l. if ln_id l = 10 then l\<lparr>ln_congestion := x\<rparr> else l) ls)"

text \<open>Both workers have published, A under boot \<open>a\<close> and B under boot \<open>b\<close>, and the direct link is as congested as \<open>g\<close> says.\<close>

definition worker_evidence :: "Generation \<Rightarrow> Generation \<Rightarrow> Congestion option \<Rightarrow> EvidenceSnapshot \<Rightarrow> bool" where
  "worker_evidence a b g s \<longleftrightarrow> a \<noteq> 0 \<and> b \<noteq> 0 \<and>
     sn_endpoints s = worker_endpoints ''A'' a @ worker_endpoints ''B'' b \<and>
     sn_links s = congested g (worker_links ''A'' a @ worker_links ''B'' b) \<and>
     map_find (sn_workerBoots s) 1 = Some a \<and> map_find (sn_workerBoots s) 2 = Some b \<and> sn_reservations s = []"

lemmas proof_evidence_defs = worker_evidence_def worker_evidence_defs congested_def proof_congestion_def

definition proof_request :: "CommunicationRequestId \<Rightarrow> CommunicationRequest" where
  "proof_request i = wire_request (mkReq i 100 200 4096)"

lemmas proof_request_defs = proof_request_def mkReq_def wire_request_def default_CommunicationRequest_def

lemma proof_request_fields:
  "rq_shape (proof_request i) = RequestShape.POINT_TO_POINT" "\<not> rq_allowMulticast (proof_request i)"
  "rq_destinations (proof_request i) = [200]" "rq_source (proof_request i) = 100" "rq_payloadSize (proof_request i) = 4096"
  "rq_id (proof_request i) = i"
  by (simp_all add: proof_request_defs)

lemma proof_request_shape:
  "effectiveShape (proof_request i) \<noteq> RequestShape.MULTICAST" "effectiveShape (proof_request i) \<noteq> RequestShape.COLLECTIVE"
  by (simp_all add: effectiveShape_def proof_request_defs)

lemma proof_request_valid: "i \<noteq> 0 \<Longrightarrow> validate (proof_request i) = None"
  unfolding proof_request_def by (rule mkReq_valid) simp_all

lemma proof_enumeration:
  assumes "worker_evidence a b g s" and "g \<in> {None, Some proof_congestion}"
  shows "set (enumerateCandidatePaths s 100 200 coordinator_bounds) =
    {\<lparr>cp_source = 100, cp_destination = 200, cp_hops = [hop10]\<rparr>, \<lparr>cp_source = 100, cp_destination = 200, cp_hops = hops11\<rparr>}"
proof -
  have "map_find (adjacency s) 100 = Some [\<lparr>adj_to = 200, adj_link = 10\<rparr>, \<lparr>adj_to = 300, adj_link = 11\<rparr>]"
    "map_find (adjacency s) 300 = Some [\<lparr>adj_to = 200, adj_link = 12\<rparr>]"
    using assms by (auto simp: find_adjacency out_edges_def proof_evidence_defs adjLess_def)
  moreover have "(8::nat) = Suc (Suc 6)" by simp
  ultimately have "routes (adjacency s) 200 8 [100] 100 = [[hop10], hops11]"
    by (simp only: routes.simps) (simp add: adj_hop_def hop10_def hops11_def)
  then show ?thesis
    by (simp add: enumerate_take all_candidates_def coordinator_bounds_def default_Bounds_def route_hits_def dfs_hit_def dfs_ctx_def
        hops11_def insert_commute)
qed

lemma proof_usable:
  assumes "worker_evidence a b g s" and "g \<in> {None, Some proof_congestion}"
  shows "hop_usable (proof_request i) s hop10" "\<forall>h\<in>set hops11. hop_usable (proof_request i) s h"
    "relay_permitted (proof_request i) s 300"
  using assms
  by (auto simp: hop_usable_def endpoint_usable_def link_usable_def relay_permitted_def find_linkMap find_endpointMap hop10_def hops11_def
      proof_evidence_defs proof_request_defs endpointFresh_def isNull_def supports_def reserved_on_def)

lemma proof_path_feasible:
  assumes "worker_evidence a b g s" and "g \<in> {None, Some proof_congestion}"
  shows "path_feasible (proof_request i) s coordinator_bounds [hop10]" "path_feasible (proof_request i) s coordinator_bounds hops11"
proof -
  have "length hops11 = 2" "set (butlast hops11) = {\<lparr>hop_link = 11, hop_from = 100, hop_to = 300\<rparr>}" "hops11 \<noteq> []"
    by (simp_all add: hops11_def)
  then show "path_feasible (proof_request i) s coordinator_bounds [hop10]" "path_feasible (proof_request i) s coordinator_bounds hops11"
    using proof_usable [OF assms]
    by (simp_all add: path_feasible_def coordinator_bounds_def default_Bounds_def isNull_def)
      (simp_all add: proof_request_defs)
qed

section \<open>The costs\<close>

definition proof_acc :: "nat \<Rightarrow> nat \<Rightarrow> nat \<Rightarrow> nat \<Rightarrow> CostAcc" where
  "proof_acc lat transfer penalty headroom =
     \<lparr>ac_latNs = fp lat, ac_transferNs = fp transfer, ac_queueNs = fp penalty, ac_congPenNs = fp penalty, ac_numaLowNs = fp 0,
      ac_pcieNs = fp 0, ac_nicNs = fp 0, ac_storageNs = fp 0, ac_healthRiskNs = fp 0, ac_headroomNs = fp headroom,
      ac_worstProv = Provenance.MEASURED\<rparr>"

lemmas proof_cost_defs = cost_hop_def find_linkMap find_endpointMap cost_link_terms_def cost_locality_terms_def
  cost_evidence_terms_def init_acc_def Let_def hop10_def hops11_def proof_acc_def proof_evidence_defs

lemma direct_accumulators:
  assumes "worker_evidence a b g s"
  shows "g = None \<Longrightarrow> fold (cost_hop 4096 (linkMap s) (endpointMap s)) [hop10] init_acc =
      proof_acc 4652007308841189376 4698614873734862165 0 4698614871780175478"
    and "g = Some proof_congestion \<Longrightarrow> fold (cost_hop 4096 (linkMap s) (endpointMap s)) [hop10] init_acc =
      proof_acc 4652007308841189376 4698614873734862165 4786511204640096256 4698614871780175478"
  using assms by (simp_all add: proof_cost_defs double_eval)

lemma staged_accumulator:
  assumes "worker_evidence a b g s" and "g \<in> {None, Some proof_congestion}"
  shows "fold (cost_hop 4096 (linkMap s) (endpointMap s)) hops11 init_acc =
    proof_acc 4656510908468559872 4706050504369635328 0 4706050499971591016"
proof -
  have links: "map_find (linkMap s) 11 = Some ((wire_link (mkLk 11 100 300 Transport.PCIE 2000000))\<lparr>ln_workerBoot := b\<rparr>)"
    "map_find (linkMap s) 12 = Some ((wire_link (mkLk 12 300 200 Transport.PCIE 2000000))\<lparr>ln_workerBoot := b\<rparr>)"
    using assms by (auto simp: find_linkMap proof_evidence_defs)
  show ?thesis using assms(1)
    by (simp add: hops11_def cost_hop_def links) (simp add: proof_cost_defs double_eval)
qed

lemma proof_values:
  "value_total dzero (component_values 1 dzero dzero (fp 0) (proof_acc 4652007308841189376 4698614873734862165 0 4698614871780175478)) =
     fp 4707623147365770292"
  "value_total dzero (component_values 1 dzero dzero (fp 0)
     (proof_acc 4652007308841189376 4698614873734862165 4786511204640096256 4698614871780175478)) = fp 4791014826641186504"
  "value_total dzero (component_values 2 (dadd dzero (scaled_payload 4096 4)) (dadd dzero (scaled_payload 4096 3)) (fp 0)
     (proof_acc 4656510908468559872 4706050504369635328 0 4706050499971591016)) = fp 4715058776809650968"
  by (simp_all add: proof_acc_def component_values_def default_weight_fp double_eval)

lemma proof_staging:
  assumes "worker_evidence a b g s"
  shows "\<not> hasKind P emap [hop10]" "hasKind hostStagingKind (endpointMap s) hops11"
    "\<not> hasKind (\<lambda>k. k = EndpointKind.STORAGE) (endpointMap s) hops11"
  using assms by (simp_all add: hasKind_def hops11_def find_endpointMap proof_evidence_defs hostStagingKind_def)

lemma direct_total:
  assumes "worker_evidence a b g s"
  shows "g = None \<Longrightarrow>
      cs_total (evaluateCandidateCost (proof_request i) s (route_candidate (proof_request i) 200 [hop10]) []) = fp 4707623147365770292"
    and "g = Some proof_congestion \<Longrightarrow>
      cs_total (evaluateCandidateCost (proof_request i) s (route_candidate (proof_request i) 200 [hop10]) []) = fp 4791014826641186504"
proof -
  note acc = direct_accumulators [OF assms, unfolded fold_simps]
  show "cs_total (evaluateCandidateCost (proof_request i) s (route_candidate (proof_request i) 200 [hop10]) []) = fp 4707623147365770292"
    if g: "g = None"
    using proof_values(1)
    by (intro candidate_total [where acc = "proof_acc 4652007308841189376 4698614873734862165 0 4698614871780175478", OF _ refl refl])
      (simp_all add: route_candidate_def acc(1) [OF g] proof_staging(1) [OF assms] proof_request_fields(5) fp_finite inf_mag_numeral,
        simp_all add: proof_acc_def)
  show "cs_total (evaluateCandidateCost (proof_request i) s (route_candidate (proof_request i) 200 [hop10]) []) = fp 4791014826641186504"
    if g: "g = Some proof_congestion"
    using proof_values(2)
    by (intro candidate_total [where acc = "proof_acc 4652007308841189376 4698614873734862165 4786511204640096256 4698614871780175478",
          OF _ refl refl])
      (simp_all add: route_candidate_def acc(2) [OF g] proof_staging(1) [OF assms] proof_request_fields(5) fp_finite inf_mag_numeral,
        simp_all add: proof_acc_def)
qed

lemma staged_total:
  assumes "worker_evidence a b g s" and "g \<in> {None, Some proof_congestion}"
  shows "cs_total (evaluateCandidateCost (proof_request i) s (route_candidate (proof_request i) 200 hops11) []) = fp 4715058776809650968"
proof -
  have two: "length hops11 = 2" by (simp add: hops11_def)
  show ?thesis
    using proof_values(3)
    by (intro candidate_total [where acc = "proof_acc 4656510908468559872 4706050504369635328 0 4706050499971591016", OF _ refl refl])
      (simp_all add: route_candidate_def staged_accumulator [OF assms] proof_staging [OF assms(1)] two proof_request_fields(5) fp_finite inf_mag_numeral,
        simp_all add: proof_acc_def)
qed

section \<open>The routes\<close>

text \<open>The plan has one stage while the direct link is free and two once it is congested, and starts at endpoint 100.\<close>

lemma proof_route:
  assumes "worker_evidence a b g s" and "g \<in> {None, Some proof_congestion}" and "i \<noteq> 0"
  shows "\<exists>out plan ct'. planCommunication (proof_request i) s [] coordinator_bounds ct = (Inr out, ct') \<and> po_success out \<and>
    po_plan out = Some plan \<and> plan_bound s plan \<and> length (pl_orderedStages plan) = (if g = None then 1 else 2) \<and>
    (\<exists>st\<in>set (plan_stages plan). st_source st = 100)"
proof -
  let ?r = "proof_request i" and ?cands = "enumerateCandidatePaths s (rq_source (proof_request i)) 200 coordinator_bounds"
  define best other where "best = (if g = None then [hop10] else hops11)" and "other = (if g = None then hops11 else [hop10])"
  let ?best = "route_candidate ?r 200 best" and ?other = "route_candidate ?r 200 other"
  note feas = proof_path_feasible [OF assms(1,2), of i]
  have set: "set ?cands = {?best, ?other}"
    using proof_enumeration [OF assms(1,2)] by (auto simp: best_def other_def route_candidate_def proof_request_fields(4))
  have hops: "cp_hops ?best = best" "cp_hops ?other = other" by (simp_all add: route_candidate_def)
  have f: "path_feasible ?r s coordinator_bounds best" "path_feasible ?r s coordinator_bounds other"
    using feas by (simp_all add: best_def other_def)
  have "dlt (cs_total (evaluateCandidateCost ?r s ?best [])) (cs_total (evaluateCandidateCost ?r s ?other [])) \<and>
      totalValid (evaluateCandidateCost ?r s ?best []) \<and> totalValid (evaluateCandidateCost ?r s ?other [])"
    using assms(2) direct_total [OF assms(1), of i] staged_total [OF assms(1,2), of i]
    by (auto simp: best_def other_def finite_total inf_mag_numeral compare_fp)
  then have "candidate_tuple ?r s [] coordinator_bounds ?best < candidate_tuple ?r s [] coordinator_bounds ?other"
    using f by (intro cheaper_tuple) (simp_all add: hops)
  with set hops have "\<forall>c\<in>set ?cands. path_feasible ?r s coordinator_bounds (cp_hops c) \<longrightarrow>
      cp_hops c = best \<or> candidate_tuple ?r s [] coordinator_bounds ?best < candidate_tuple ?r s [] coordinator_bounds c"
    by auto
  moreover have "\<exists>c\<in>set ?cands. cp_hops c = best" using set hops(1) by auto
  ultimately obtain out plan ct' and p :: Path and ps where plan: "planCommunication ?r s [] coordinator_bounds ct = (Inr out, ct')" "po_success out"
    "po_plan out = Some plan" "plan_bound s plan" "pl_orderedStages plan = pa_stages p" "list_all2 (stage_of_hop s) best (pa_stages p)"
    "pl_candidatePaths plan = p # ps"
    using best_route_plan [OF proof_request_valid [OF assms(3)] proof_request_fields(1-3) f(1), of "[]" ct] by blast
  from list_all2_lengthD [OF plan(6)] have "length (pa_stages p) = (if g = None then 1 else 2)"
    by (simp add: best_def hops11_def split: if_splits)
  moreover have "\<exists>st\<in>set (pa_stages p). st_source st = 100"
    using plan(6) by (auto simp: best_def hops11_def hop10_def list_all2_Cons1 stage_of_hop_def split: if_splits)
  ultimately show ?thesis using plan(1-5,7) by (auto simp: plan_stages_def)
qed

end
