(* ===== verification/Multiprocess_Dialogue.thy ===== *)
theory Multiprocess_Dialogue
  imports Multiprocess_Plans
begin

text \<open>
  What the client of \<open>apps/proof_main.cpp\<close> and the coordinator tell each other, call by call: the answers to
  the requests, the refusals at revalidation, the store and its recovery.
\<close>

section \<open>Plans that can be sent and stored\<close>

definition plan_kept :: "CommunicationPlan \<Rightarrow> bool" where
  "plan_kept p \<longleftrightarrow> plan_result_ok p \<and> length (enc_result_plan p) \<le> 100000 \<and>
     (\<forall>x. record_ok \<lparr>sr_plan = p, sr_state = x\<rparr> \<and> length (write_record \<lparr>sr_plan = p, sr_state = x\<rparr>) \<le> 2 ^ 60 \<and>
        (committed_state x \<or> record_wf \<lparr>sr_plan = p, sr_state = x\<rparr>))"

lemma length_result_stage: "length (enc_result_stage g) = 32"
  by (simp add: enc_result_stage_def)

lemma result_bytes:
  assumes "routes_small n d p" and "bindings_small k p"
  shows "length (enc_result_plan p) \<le> n * (20 + 32 * d) + 32 * d + 16 * k + 52"
proof -
  have "length (w_all enc_result_stage ss) \<le> 32 * length ss" for ss by (rule length_w_all_le) (simp add: length_result_stage)
  then have stages: "length (w_all enc_result_stage ss) \<le> 32 * d" if "length ss \<le> d" for ss
    using that by (meson le_trans mult_le_mono2)
  then have "length (enc_result_path q) \<le> 20 + 32 * d" if "path_small d q" for q
    using that by (simp add: enc_result_path_def path_small_def)
  then have "length (w_all enc_result_path (pl_candidatePaths p)) \<le> (20 + 32 * d) * length (pl_candidatePaths p)"
    using assms(1) by (intro length_w_all_le) (simp add: routes_small_def list_all_iff)
  also have "\<dots> \<le> (20 + 32 * d) * n" using assms(1) by (intro mult_left_mono) (simp_all add: routes_small_def)
  finally have "length (w_all enc_result_path (pl_candidatePaths p)) \<le> n * (20 + 32 * d)" by (simp only: mult.commute)
  moreover have "length (w_all enc_result_pair (pl_endpointGenerations p)) \<le> 16 * length (pl_endpointGenerations p)"
    by (rule length_w_all_le) (simp add: enc_result_pair_def)
  ultimately show ?thesis
    using assms stages [of "pl_orderedStages p"] by (simp add: enc_result_plan_def routes_small_def bindings_small_def)
qed

lemma proof_plan_kept:
  assumes "planCommunication (proof_request i) s [] coordinator_bounds ct = (Inr out, ct')" and "po_plan out = Some p" and "ct_planId ct \<noteq> 0"
  shows "plan_kept p" and "pl_id p = ct_planId ct" and "ct_planId ct' = ct_planId ct + 1"
proof -
  have bound: "Suc (unat (bd_maxFallbacks coordinator_bounds)) * unat (bd_maxPathDepth coordinator_bounds) \<le> 2 ^ 19"
    by (simp add: coordinator_bounds_def default_Bounds_def)
  note small = planned_small [OF assms(1,2) proof_request_shape bound]
  have routes: "routes_small 9 8 p" "bindings_small 144 p"
    using small(1,2) by (simp_all add: coordinator_bounds_def default_Bounds_def)
  from result_bytes [OF routes] have "length (enc_result_plan p) \<le> 100000" by simp
  moreover have "plan_result_ok p"
    using routes unfolding plan_result_ok_def result_path.list_ok_def
    by (auto simp: routes_small_def bindings_small_def path_small_def kMaxCount_def list_all_iff)
  moreover have "record_ok \<lparr>sr_plan = p, sr_state = x\<rparr>" "length (write_record \<lparr>sr_plan = p, sr_state = x\<rparr>) \<le> 2 ^ 60" for x
    using planned_record [OF assms(1,2) proof_request_shape assms(3) bound] by simp_all
  moreover have "record_wf \<lparr>sr_plan = p, sr_state = x\<rparr>" if "\<not> committed_state x" for x
    using planned_plans_storable [OF assms(1,2) proof_request_shape, where st = x] that default_weights_moderate
    by (auto simp: validateStore_ok store_wf_def default_StoreState_def)
  ultimately show "plan_kept p" by (auto simp: plan_kept_def)
  show "pl_id p = ct_planId ct" by (rule small(6))
  have "\<exists>dst. planPointToPoint (proof_request i) s [] coordinator_bounds dst ct = (Inr out, ct')"
    using assms(1) proof_request_shape by (auto simp: planCommunication_def split: sum.splits list.splits)
  then show "ct_planId ct' = ct_planId ct + 1" using planned_counter assms(2) by blast
qed

section \<open>The coordinator in the course of the dialogue\<close>

text \<open>\<open>n\<close> plans have been made and the requests \<open>ids\<close> were submitted; nothing was cancelled, superseded or committed.\<close>

definition conversed :: "nat \<Rightarrow> CommunicationRequestId list \<Rightarrow> Coordinator \<Rightarrow> bool" where
  "conversed n ids st \<longleftrightarrow> plans_inv st \<and> co_weights st = [] \<and> co_bounds st = coordinator_bounds \<and> co_cancelled st = [] \<and>
     co_supersessions st = [] \<and> ct_planId (co_counters st) = of_nat (Suc n) \<and> n < 10 \<and> length (co_plans st) \<le> n \<and>
     (\<forall>i r. map_find (co_plans st) i = Some r \<longrightarrow> plan_kept (pr_plan r) \<and> \<not> committed_state (pr_state r)) \<and>
     co_requests st = map proof_request ids \<and> distinct ids \<and> length ids \<le> 100"

text \<open>What the dialogue does not touch.\<close>

definition backdrop :: "Coordinator \<Rightarrow> EvidenceSnapshot \<times> (WorkerId \<times> WorkerInfo) list \<times> (SOCKET \<times> WorkerId) list \<times> (WorkerId \<times> Generation) list" where
  "backdrop st = (co_snap st, co_workers st, co_socketToWorker st, co_fenced st)"

abbreviation submission :: "CommunicationRequestId \<Rightarrow> Message" where
  "submission i \<equiv> default_Message\<lparr>ms_type := SUBMIT_REQUEST, ms_request := mkReq i 100 200 4096\<rparr>"

lemma submission_handled:
  "handleMessage k (wire_message (submission i)) st =
     handle_submit k (default_Message\<lparr>ms_type := SUBMIT_REQUEST, ms_request := proof_request i\<rparr>) st"
  by (simp add: handleMessage_def wire_message_def default_Message_def proof_request_def)

lemma length_map_assign: "length (map_assign k v m) \<le> Suc (length m)"
  by (induction m) auto

lemma plan_number: "n < 10 \<Longrightarrow> (of_nat (Suc n) :: u64) \<noteq> 0"
  by (simp add: word_unat_eq_iff unat_of_nat del: of_nat_Suc)

lemma submit_planned:
  assumes "conversed n ids st" and "i \<noteq> 0" and "i \<notin> set ids" and "n < 9" and "length ids < 100"
    and "planCommunication (proof_request i) (co_snap st) [] coordinator_bounds (co_counters st) = (Inr out, ct')"
    and "po_success out" and "po_plan out = Some p"
  shows "pl_id p = of_nat (Suc n)" and "plan_kept p"
    and "\<exists>st'. (\<forall>k. handleMessage k (wire_message (submission i)) st = Inr (send_plan_result k True p, st')) \<and>
      conversed (Suc n) (ids @ [i]) st' \<and> backdrop st' = backdrop st \<and>
      co_plans st' = map_assign (of_nat (Suc n)) (plan_record (co_snap st) p) (co_plans st)"
proof -
  have c: "plans_inv st" "co_weights st = []" "co_bounds st = coordinator_bounds" "co_cancelled st = []" "co_supersessions st = []"
    "ct_planId (co_counters st) = of_nat (Suc n)" "n < 10" "length (co_plans st) \<le> n"
    "\<forall>i r. map_find (co_plans st) i = Some r \<longrightarrow> plan_kept (pr_plan r) \<and> \<not> committed_state (pr_state r)"
    "co_requests st = map proof_request ids" "distinct ids" "length ids \<le> 100"
    using assms(1) unfolding conversed_def by blast+
  have "ct_planId (co_counters st) \<noteq> 0" unfolding c(6) by (rule plan_number [OF c(7)])
  note kept = proof_plan_kept [OF assms(6,8) this, unfolded c(6)]
  show id: "pl_id p = of_nat (Suc n)" "plan_kept p" by (rule kept)+
  define st' where "st' = st\<lparr>co_requests := co_requests st @ [proof_request i], co_counters := ct',
      co_plans := map_assign (of_nat (Suc n)) (plan_record (co_snap st) p) (co_plans st),
      co_currentByRequest := map_assign i (of_nat (Suc n)) (co_currentByRequest st)\<rparr>"
  have "handleMessage k (wire_message (submission i)) st = Inr (send_plan_result k True p, st')" for k
    using assms(2,6-8) c(2-4) id(1)
    by (simp add: submission_handled handle_submit_def Let_def isNull_def st'_def proof_request_fields(6) del: of_nat_Suc)
  moreover have "conversed (Suc n) (ids @ [i]) st'"
  proof -
    have rec: "pr_plan (plan_record (co_snap st) p) = p" "pr_state (plan_record (co_snap st) p) = PlanState.PLAN_READY"
      by (simp_all add: plan_record_def Let_def)
    have "plans_inv st'"
      using c(1) id(1) by (auto simp: plans_inv_def st'_def map_find_assign map_ok_assign rec simp del: of_nat_Suc)
    moreover have "length (co_plans st') \<le> Suc n" using c(8) length_map_assign [of _ _ "co_plans st"] by (simp add: st'_def) (meson Suc_le_mono le_trans)
    moreover have "\<forall>j r. map_find (co_plans st') j = Some r \<longrightarrow> plan_kept (pr_plan r) \<and> \<not> committed_state (pr_state r)"
      using c(9) id(2) by (simp add: st'_def map_find_assign rec committed_state_def del: of_nat_Suc)
    moreover have "ct_planId ct' = of_nat (Suc (Suc n))" using kept(3) by simp
    ultimately show ?thesis using c assms(3-5) by (simp add: conversed_def) (simp add: st'_def)
  qed
  moreover have "backdrop st' = backdrop st" by (simp add: backdrop_def st'_def)
  moreover have "co_plans st' = map_assign (of_nat (Suc n)) (plan_record (co_snap st) p) (co_plans st)" by (simp add: st'_def)
  ultimately show "\<exists>st'. (\<forall>k. handleMessage k (wire_message (submission i)) st = Inr (send_plan_result k True p, st')) \<and>
      conversed (Suc n) (ids @ [i]) st' \<and> backdrop st' = backdrop st \<and>
      co_plans st' = map_assign (of_nat (Suc n)) (plan_record (co_snap st) p) (co_plans st)" by blast
qed

text \<open>A request that is not feasible makes no plan.\<close>

lemma submit_infeasible:
  assumes "co_cancelled st = []" and "co_weights st = []" and "co_bounds st = coordinator_bounds" and "i \<noteq> 0"
    and "\<not> destination_feasible (proof_request i) (co_snap st) coordinator_bounds 100 200"
  shows "\<exists>st'. (\<forall>k. handleMessage k (wire_message (submission i)) st = Inr (send_plan_result k False default_CommunicationPlan, st')) \<and>
    (\<forall>n ids. conversed n ids st \<and> i \<notin> set ids \<and> length ids < 100 \<longrightarrow> conversed n (ids @ [i]) st') \<and>
    backdrop st' = backdrop st \<and> co_plans st' = co_plans st"
proof -
  let ?st = "st\<lparr>co_requests := co_requests st @ [proof_request i]\<rparr>"
  have "\<not> destination_feasible (proof_request i) (co_snap st) coordinator_bounds (rq_source (proof_request i)) 200"
    using assms(5) by (simp add: proof_request_fields(4))
  from planPointToPoint_infeasible [OF this, of "[]" "co_counters st"]
  obtain out where out: "planPointToPoint (proof_request i) (co_snap st) [] coordinator_bounds 200 (co_counters st) = (Inr out, co_counters st)"
    "\<not> po_success out" by auto
  have "planCommunication (proof_request i) (co_snap st) [] coordinator_bounds (co_counters st) = (Inr out, co_counters st)"
    using out(1) by (subst planCommunication_p2p [OF proof_request_valid [OF assms(4)], where dst = 200]) (simp_all add: proof_request_fields)
  then have "handleMessage k (wire_message (submission i)) st = Inr (send_plan_result k False default_CommunicationPlan, ?st)" for k
    using assms(1-4) out(2) by (simp add: submission_handled handle_submit_def Let_def isNull_def proof_request_fields(6))
  moreover have "conversed n (ids @ [i]) ?st" if "conversed n ids st" "i \<notin> set ids" "length ids < 100" for n ids
    using that by (simp add: conversed_def plans_inv_def)
  ultimately show ?thesis by (intro exI [of _ ?st]) (simp add: backdrop_def)
qed

section \<open>The calls of the client\<close>

lemma submission_fits: "message_ok (submission i)" "length (encodeMessage (submission i)) + 25 \<le> kMaxFramePayload"
  by (simp_all add: message_ok_def request_ok_def set_ok_def str_ok_def kMaxCount_def encodeMessage_def encRequest_def kMaxFramePayload_def
      w_transports_def length_bytewise mkReq_def default_CommunicationRequest_def)

lemma told_plan:
  assumes "attached ok co put get k" and "ok s" and "cl_connected c"
    and "\<forall>k. handleMessage k (wire_message (submission i)) (co s) = Inr (send_plan_result k x p, st')" and "x \<Longrightarrow> plan_kept p"
  obtains s' where "client_submitRequest put get (Some c) (mkReq i 100 200 4096) s = Some (Inr (if x then Some (wire_plan p) else None), s')"
    and "co s' = st'" and "ok s'"
proof -
  let ?r = "(if x then default_Message\<lparr>ms_plan := p\<rparr> else default_Message)\<lparr>ms_type := PLAN_RESULT, ms_ok := x\<rparr>"
  let ?f = "\<lparr>fr_type = ms_type ?r, fr_payload = encodeMessage ?r\<rparr>"
  have sent: "send_plan_result k x p = [(k, ?f)]" by (simp add: send_plan_result_def send_message_def)
  have "receivable ?f" "message_ok ?r"
    using assms(5) by (auto simp: receivable_def encodeMessage_def kMaxFramePayload_def message_ok_def plan_kept_def)
  moreover from this obtain s' where s': "exchanged put get c (submission i) ?f s s'" "co s' = st'" "ok s'"
    using attached_exchange [OF assms(1-3) submission_fits] assms(4) sent by metis
  ultimately have "client_call put get (Some c) (submission i) s = Some (Inr (wire_message ?r), s')"
    using reply_read [OF s'(1)] by simp
  then have "client_submitRequest put get (Some c) (mkReq i 100 200 4096) s = Some (Inr (if x then Some (wire_plan p) else None), s')"
    by (simp add: client_submitRequest_def on_reply_def wire_message_def default_Message_def)
  then show thesis using that s'(2,3) by blast
qed

lemma wire_plan_fields: "pl_id (wire_plan p) = pl_id p" "length (pl_orderedStages (wire_plan p)) = length (pl_orderedStages p)"
  by (simp_all add: wire_plan_def default_CommunicationPlan_def)

lemma told_saved:
  assumes "attached ok co put get k" and "ok s" and "cl_connected c"
  obtains s' where "client_save put get (Some c) s = Some (Inr True, s')" and "co s' = saveStore (co s)" and "ok s'"
proof -
  let ?m = "default_Message\<lparr>ms_type := SAVE\<rparr>"
  have "message_ok ?m" "length (encodeMessage ?m) + 25 \<le> kMaxFramePayload"
    by (simp_all add: message_ok_def encodeMessage_def kMaxFramePayload_def)
  moreover have "handleMessage k (wire_message ?m) (co s) = Inr (send_result k True 0, saveStore (co s))"
    by (simp add: handleMessage_def handle_save_def)
  ultimately obtain s' where "client_call put get (Some c) ?m s =
      Some (Inr (default_Message\<lparr>ms_type := COMMIT_RESULT, ms_ok := True, ms_planId := 0\<rparr>), s')" "co s' = saveStore (co s)" "ok s'"
    using attached_result [OF assms] by metis
  then show thesis using that by (simp add: client_save_def on_reply_def)
qed

definition with_congestion :: "LinkId \<Rightarrow> Congestion \<Rightarrow> Coordinator \<Rightarrow> Coordinator" where
  "with_congestion l g st = st\<lparr>co_snap := (co_snap st)\<lparr>sn_congestionGeneration := gen_next (sn_congestionGeneration (co_snap st)),
     sn_links := map (\<lambda>x. if ln_id x = l then x\<lparr>ln_congestion := g\<rparr> else x) (sn_links (co_snap st))\<rparr>\<rparr>"

lemma told_congestion:
  assumes "attached ok co put get k" and "ok s" and "cl_connected c"
  obtains s' where "client_publishCongestion put get (Some c) l g s = Some (Inr True, s')" and "ok s'"
    and "co s' = with_congestion l g (co s)"
proof -
  let ?m = "default_Message\<lparr>ms_type := PUBLISH_CONGESTION, ms_linkId := l, ms_congestion := g\<rparr>"
  have "message_ok ?m" "length (encodeMessage ?m) + 25 \<le> kMaxFramePayload"
    by (simp_all add: message_ok_def encodeMessage_def enc_congestion_def kMaxFramePayload_def)
  moreover have "handleMessage k (wire_message ?m) (co s) = Inr (send_result k True l, with_congestion l g (co s))"
    by (simp add: handleMessage_def wire_message_def default_Message_def handle_publish_congestion_def isNull_def sendOk_def
        with_congestion_def)
  ultimately obtain s' where "client_call put get (Some c) ?m s =
      Some (Inr (default_Message\<lparr>ms_type := COMMIT_RESULT, ms_ok := True, ms_planId := l\<rparr>), s')" "co s' = with_congestion l g (co s)" "ok s'"
    using attached_result [OF assms] by metis
  then show thesis using that by (simp add: client_publishCongestion_def on_reply_def)
qed

lemma told_stale:
  assumes "attached ok co put get k" and "ok s" and "cl_connected c"
    and "map_find (co_plans (co s)) j = Some r" and "\<not> rv_ok (revalidatePlan (pr_plan r) (co_snap (co s)))"
  obtains s' where "client_revalidate put get (Some c) j s = Some (Inr False, s')" and "ok s'"
    and "co s' = set_plan_state j PlanState.REVALIDATION_REQUIRED (co s)"
proof -
  let ?m = "default_Message\<lparr>ms_type := REVALIDATE, ms_planId := j\<rparr>"
  have "message_ok ?m" "length (encodeMessage ?m) + 25 \<le> kMaxFramePayload"
    by (simp_all add: message_ok_def encodeMessage_def kMaxFramePayload_def)
  moreover have "handleMessage k (wire_message ?m) (co s) =
      Inr (send_result k False j, set_plan_state j PlanState.REVALIDATION_REQUIRED (co s))"
    using assms(4,5) by (simp add: handleMessage_def wire_message_def default_Message_def handle_revalidate_def)
  ultimately obtain s' where "client_call put get (Some c) ?m s =
      Some (Inr (default_Message\<lparr>ms_type := COMMIT_RESULT, ms_ok := False, ms_planId := j\<rparr>), s')"
    "co s' = set_plan_state j PlanState.REVALIDATION_REQUIRED (co s)" "ok s'"
    using attached_result [OF assms(1-3)] by metis
  then show thesis using that by (simp add: client_revalidate_def on_reply_def)
qed

lemma told_state:
  assumes "attached ok co put get k" and "ok s" and "cl_connected c" and "map_find (co_plans (co s)) j = Some r"
  obtains s' where "client_queryPlanState put get (Some c) j s = Some (Inr (True, int (enum_index all_PlanState (pr_state r))), s')"
    and "co s' = co s" and "ok s'"
proof -
  let ?m = "default_Message\<lparr>ms_type := QUERY_PLAN, ms_planId := j\<rparr>"
  have "message_ok ?m" "length (encodeMessage ?m) + 25 \<le> kMaxFramePayload"
    by (simp_all add: message_ok_def encodeMessage_def kMaxFramePayload_def)
  moreover have "handleMessage k (wire_message ?m) (co s) =
      Inr (send_result k True (of_nat (enum_index all_PlanState (pr_state r))), co s)"
    using assms(4) by (simp add: handleMessage_def wire_message_def default_Message_def handle_query_def)
  ultimately obtain s' where "client_call put get (Some c) ?m s = Some (Inr (default_Message\<lparr>ms_type := COMMIT_RESULT, ms_ok := True,
      ms_planId := of_nat (enum_index all_PlanState (pr_state r))\<rparr>), s')" "co s' = co s" "ok s'"
    using attached_result [OF assms(1-3)] by metis
  then show thesis using that by (simp add: client_queryPlanState_def on_reply_def state_ordinal_back)
qed

lemma told_shutdown:
  assumes "attached ok co put get k" and "ok s" and "cl_connected c"
  obtains s' where "client_shutdown put get (Some c) s = Some (Inr True, s')" and "ok s'"
proof -
  let ?m = "default_Message\<lparr>ms_type := SHUTDOWN\<rparr>"
  have "message_ok ?m" "length (encodeMessage ?m) + 25 \<le> kMaxFramePayload"
    by (simp_all add: message_ok_def encodeMessage_def kMaxFramePayload_def)
  moreover have "handleMessage k (wire_message ?m) (co s) = Inr (send_result k True 0, (co s)\<lparr>co_stopping := True\<rparr>)"
    by (simp add: handleMessage_def)
  ultimately obtain s' where "client_call put get (Some c) ?m s =
      Some (Inr (default_Message\<lparr>ms_type := COMMIT_RESULT, ms_ok := True, ms_planId := 0\<rparr>), s')" "ok s'"
    using attached_result [OF assms] by metis
  then show thesis using that by (simp add: client_shutdown_def on_reply_def)
qed

section \<open>The store\<close>

lemma conversed_set_state:
  assumes "conversed n ids st" and "map_find (co_plans st) j = Some r"
  shows "conversed n ids (set_plan_state j PlanState.REVALIDATION_REQUIRED st)"
    and "backdrop (set_plan_state j PlanState.REVALIDATION_REQUIRED st) = backdrop st"
    and "co_plans (set_plan_state j PlanState.REVALIDATION_REQUIRED st) = map_assign j (r\<lparr>pr_state := PlanState.REVALIDATION_REQUIRED\<rparr>) (co_plans st)"
proof -
  have "length (map_assign j v m) = length m" if "map_ok m" "map_find m j = Some u" for v u :: PlanRecord and m
    using that
  proof (induction m)
    case (Cons x m)
    then show ?case by (cases x) (auto simp: map_find_def map_ok_def split: if_splits dest!: map_of_SomeD)
  qed (simp add: map_find_def)
  then show "conversed n ids (set_plan_state j PlanState.REVALIDATION_REQUIRED st)"
    using assms by (auto simp: conversed_def plans_inv_def set_plan_state_def map_find_assign map_ok_assign committed_state_def)
  show "backdrop (set_plan_state j PlanState.REVALIDATION_REQUIRED st) = backdrop st"
    "co_plans (set_plan_state j PlanState.REVALIDATION_REQUIRED st) = map_assign j (r\<lparr>pr_state := PlanState.REVALIDATION_REQUIRED\<rparr>) (co_plans st)"
    using assms(2) by (simp_all add: set_plan_state_def backdrop_def)
qed

lemma conversed_storable:
  assumes "conversed n ids st"
  shows "storable (store_of st)" and "store_wf (store_of st)"
proof -
  have c: "plans_inv st" "co_supersessions st = []" "n < 10" "length (co_plans st) \<le> n"
    "\<forall>i r. map_find (co_plans st) i = Some r \<longrightarrow> plan_kept (pr_plan r) \<and> \<not> committed_state (pr_state r)"
    "co_requests st = map proof_request ids" "distinct ids" "length ids \<le> 100"
    using assms unfolding conversed_def by blast+
  have ok: "map_ok (co_plans st)" using c(1) by (simp add: plans_inv_def)
  have rec: "plan_kept (pr_plan r)" "\<not> committed_state (pr_state r)" "pl_id (pr_plan r) = i" if "(i, r) \<in> set (co_plans st)" for i r
    using that c(1,5) map_find_in_set [OF ok] by (auto simp: plans_inv_def)
  have "map (pl_id \<circ> sr_plan) (ss_plans (store_of st)) = map fst (co_plans st)"
    using rec(3) by (auto simp: store_of_def)
  moreover have "distinct (map fst (co_plans st))" using ok by (simp add: map_ok_def strict_sorted_iff)
  ultimately have dist: "distinct (map (pl_id \<circ> sr_plan) (ss_plans (store_of st)))" by simp
  have plans: "record_ok r \<and> record_wf r \<and> length (write_record r) \<le> 2 ^ 60" if "r \<in> set (ss_plans (store_of st))" for r
    using that rec by (fastforce simp: store_of_def plan_kept_def)
  then have "length (w_all write_record (ss_plans (store_of st))) \<le> 2 ^ 60 * length (ss_plans (store_of st))"
    by (intro length_w_all_le) blast
  moreover have few: "length (ss_plans (store_of st)) \<le> 9" using c(3,4) by (simp add: store_of_def)
  moreover have "length (w_all write_request (map proof_request ids)) \<le> 1000 * length (map proof_request ids)"
    by (rule length_w_all_le) (auto simp: write_request_def proof_request_defs)
  ultimately have "length (store_body (store_of st)) < 2 ^ 64"
    using c(8) by (simp add: store_body_def) (simp add: store_of_def c(2,6))
  then show "storable (store_of st)"
    using plans dist few c(8) by (simp add: storable_def kMaxCount_def) (simp add: store_of_def c(2,6) u64s_ok_def kMaxCount_def proof_request_fields)
  have "distinct (map rq_id (ss_requests (store_of st)))" using c(7) by (simp add: store_of_def c(6) comp_def proof_request_fields(6))
  with plans dist show "store_wf (store_of st)" by (simp add: store_wf_def)
qed

lemma conversed_restart:
  assumes "conversed n ids st" and "map_find (co_plans st) j = Some r"
  defines "st' \<equiv> start_coordinator [] coordinator_bounds (co_file (saveStore st))"
  shows "map_find (co_plans st') j =
      Some \<lparr>pr_plan = pr_plan r, pr_state = recovered_state (pr_state r), pr_worker = 0, pr_boot = 0\<rparr>"
    and "co_cancelled st' = []" and "co_weights st' = []" and "co_bounds st' = coordinator_bounds" and "sn_endpoints (co_snap st') = []"
proof -
  have inv: "plans_inv st" using assms(1) by (simp add: conversed_def)
  let ?rs = "recovered_records st"
  have st': "st' = (fold load_record ?rs (restarted [] coordinator_bounds st))
      \<lparr>co_supersessions := co_supersessions st, co_requests := map persisted_request (co_requests st)\<rparr>"
    unfolding st'_def using conversed_storable [OF assms(1)] by (rule restart_state)
  have "sorted_wrt (<) (map (pl_id \<circ> sr_plan) ?rs)"
    unfolding recovered_keys [OF inv] using inv by (simp add: plans_inv_def map_ok_def)
  then have "distinct (map (pl_id \<circ> sr_plan) ?rs)" by (simp only: strict_sorted_iff)
  then show "map_find (co_plans st') j =
      Some \<lparr>pr_plan = pr_plan r, pr_state = recovered_state (pr_state r), pr_worker = 0, pr_boot = 0\<rparr>"
    using load_records_plans [of ?rs "restarted [] coordinator_bounds st" j] assms(2)
    by (simp add: st' recovered_find [OF inv])
  have "co_weights (fold load_record rs x) = co_weights x \<and> co_bounds (fold load_record rs x) = co_bounds x" for rs x
    by (induction rs arbitrary: x) (simp_all add: load_record_def)
  then show "co_cancelled st' = []" "co_weights st' = []" "co_bounds st' = coordinator_bounds" "sn_endpoints (co_snap st') = []"
    using load_records_frame [of ?rs "restarted [] coordinator_bounds st"]
    by (simp_all add: st' restarted_def new_coordinator_def initial_snapshot_def default_EvidenceSnapshot_def)
qed

section \<open>The workers come and go\<close>

text \<open>Both workers serve, A through socket \<open>ka\<close>.\<close>

definition serves :: "SOCKET \<Rightarrow> Generation \<Rightarrow> Generation \<Rightarrow> Congestion option \<Rightarrow> Coordinator \<Rightarrow> bool" where
  "serves ka a b g st \<longleftrightarrow> worker_evidence a b g (co_snap st) \<and>
     sn_congestionGeneration (co_snap st) = (if g = None then 1 else 2) \<and> map_find (co_socketToWorker st) ka = Some 1 \<and> co_fenced st = [] \<and>
     (\<exists>w. map_find (co_workers st) 1 = Some w \<and> wi_boot w = a \<and> wi_endpoints w = [100] \<and> wi_links w = [10])"

text \<open>Worker A is gone.\<close>

definition bereft :: "Generation \<Rightarrow> Generation \<Rightarrow> Coordinator \<Rightarrow> bool" where
  "bereft a b st \<longleftrightarrow> sn_endpoints (co_snap st) = unready_endpoints [100] (worker_endpoints ''A'' a @ worker_endpoints ''B'' b) \<and>
     sn_links (co_snap st) = worker_links ''B'' b \<and> map_find (sn_workerBoots (co_snap st)) 2 = Some b \<and>
     sn_reservations (co_snap st) = [] \<and> co_fenced st = [(1, a)]"

lemma on_backdrop:
  assumes "backdrop st' = backdrop st"
  shows "serves ka a b g st' \<longleftrightarrow> serves ka a b g st" "bereft a b st' \<longleftrightarrow> bereft a b st" "co_snap st' = co_snap st"
  using assms by (simp_all add: backdrop_def serves_def bereft_def)

text \<open>What happens to connections does not touch the plans.\<close>

lemma session_conversed [simp]:
  "conversed n ids (session_result k w boot name es ls st) = conversed n ids st" "co_plans (session_result k w boot name es ls st) = co_plans st"
  by (simp_all add: conversed_def plans_inv_def session_result_def)

lemma accept_conversed [simp]:
  "conversed n ids (snd (accept_connection k st)) = conversed n ids st" "co_plans (snd (accept_connection k st)) = co_plans st"
  "backdrop (snd (accept_connection k st)) = backdrop st"
  by (simp_all add: conversed_def plans_inv_def accept_connection_def backdrop_def)

lemma disconnect_conversed [simp]:
  "conversed n ids (disconnect k st) = conversed n ids st" "co_plans (disconnect k st) = co_plans st"
  by (simp_all add: conversed_def plans_inv_def disconnect_defs fenceWorker_def Let_def split: option.split)

lemma congestion_conversed [simp]:
  "conversed n ids (with_congestion l g st) = conversed n ids st" "co_plans (with_congestion l g st) = co_plans st"
  by (simp_all add: conversed_def plans_inv_def with_congestion_def)

lemma save_conversed [simp]:
  "conversed n ids (saveStore st) = conversed n ids st" "co_plans (saveStore st) = co_plans st" "backdrop (saveStore st) = backdrop st"
  by (simp_all add: conversed_def plans_inv_def saveStore_def backdrop_def)

lemma fresh_conversed: "conversed 0 [] (start_coordinator [] coordinator_bounds None)"
  by (simp add: conversed_def plans_inv_def start_empty new_coordinator_def initial_Counters_def map_ok_def map_find_def)

lemma sessions_serve:
  assumes "backdrop st = backdrop (start_coordinator [] coordinator_bounds None)" and "a \<noteq> 0" and "b \<noteq> 0" and "ka \<noteq> kb"
  shows "serves ka a b None (session_result kb 2 b ''B'' (worker_endpoints ''B'' b) (worker_links ''B'' b)
    (snd (accept_connection kb (session_result ka 1 a ''A'' (worker_endpoints ''A'' a) (worker_links ''A'' a) st))))"
proof -
  have st: "co_snap st = initial_snapshot" "co_workers st = []" "co_socketToWorker st = []" "co_fenced st = []"
    using assms(1) by (simp_all add: backdrop_def start_empty new_coordinator_def)
  have "map_find (map_assign kb 2 (map_assign ka 1 [])) ka = Some (1 :: WorkerId)" using assms(4) by (subst map_find_assign, subst map_find_assign) simp
  moreover have "co_socketToWorker (session_result kb 2 b ''B'' es ls (snd (accept_connection kb (session_result ka 1 a ''A'' es' ls' st)))) =
      map_assign kb 2 (map_assign ka 1 [])" for es ls es' ls'
    by (simp add: session_result_def accept_connection_def st(3))
  ultimately have "map_find (co_socketToWorker (session_result kb 2 b ''B'' es ls
      (snd (accept_connection kb (session_result ka 1 a ''A'' es' ls' st))))) ka = Some 1" for es ls es' ls'
    by (simp only:)
  then show ?thesis
    unfolding serves_def using assms(2,3)
    by (simp add: worker_evidence_def congested_def session_result_def accept_connection_def st initial_snapshot_def
        default_EvidenceSnapshot_def publishEndpoint_def publishLink_def worker_evidence_defs gen_next_def)
      (simp add: map_find_def)
qed

lemma congestion_serves:
  assumes "serves ka a b None st"
  shows "serves ka a b (Some g) (with_congestion 10 g st)"
    and "plan_bound (co_snap st) p \<Longrightarrow> \<not> rv_ok (revalidatePlan p (co_snap (with_congestion 10 g st)))"
  using assms by (simp_all add: serves_def worker_evidence_def congested_def with_congestion_def gen_next_def)
    (simp add: revalidatePlan_iff plan_current_def plan_bound_def isNull_def)

lemma loss_bereaves:
  assumes "serves ka a b g st" and "g = None \<or> g = Some proof_congestion"
  shows "bereft a b (disconnect ka st)" and "\<exists>g\<in>set (plan_stages p). st_source g = 100 \<Longrightarrow> \<not> rv_ok (revalidatePlan p (co_snap (disconnect ka st)))"
proof -
  obtain w where w: "map_find (co_workers st) 1 = Some w" "wi_boot w = a" "wi_endpoints w = [100]" "wi_links w = [10]"
    using assms(1) by (auto simp: serves_def)
  have lost: "disconnect ka st = end_connection ka ((fenceWorker 1 st)\<lparr>co_socketToWorker := map_erase ka (co_socketToWorker st)\<rparr>)"
    using assms(1) by (simp add: disconnect_def fence_connection_def serves_def)
  have "filter (\<lambda>l. ln_id l \<notin> {10}) (congested g (worker_links ''A'' a @ worker_links ''B'' b)) = worker_links ''B'' b"
    using assms(2) by (auto simp: congested_def worker_evidence_defs)
  then show bereft: "bereft a b (disconnect ka st)"
    using assms(1) by (simp add: bereft_def lost end_connection_def fenceWorker_def w Let_def serves_def worker_evidence_def map_find_erase gen_next_def)
  have "\<not> endpoint_live (co_snap (disconnect ka st)) 100"
    using bereft by (auto simp: endpoint_live_def bereft_def find_endpointMap unready_endpoints_def worker_evidence_defs)
  then show "\<not> rv_ok (revalidatePlan p (co_snap (disconnect ka st)))" if "\<exists>g\<in>set (plan_stages p). st_source g = 100"
    using that unfolding revalidatePlan_iff plan_current_def stage_live_def by metis
qed

lemma bereft_infeasible: "bereft a b st \<Longrightarrow> \<not> destination_feasible r (co_snap st) bnd 100 dst"
  by (rule dead_source_infeasible) (auto simp: bereft_def find_endpointMap unready_endpoints_def worker_evidence_defs)

lemma return_serves:
  assumes "bereft a b st"
  shows "both_published a' b (co_snap (session_result k 1 a' ''A'' (worker_endpoints ''A'' a') (worker_links ''A'' a') st))"
  using assms by (simp add: bereft_def both_published_def session_result_def unready_endpoints_def worker_evidence_defs)
    (simp add: publishEndpoint_def publishLink_def map_find_assign)

end
