(* ===== verification/Process_System.thy ===== *)
theory Process_System
  imports Multiprocess
begin

text \<open>
  The operating system under \<open>apps/proof_main.cpp\<close>: what the program relies on of processes, connections and
  sleeping, as laws over the observable state of the system, and a system of byte queues and pending
  turns that satisfies them.
\<close>

section \<open>A system for the processes\<close>

text \<open>The arguments of a command line without quotes.\<close>

fun split_words :: "string \<Rightarrow> string \<Rightarrow> string list" where
  "split_words cur [] = (if cur = [] then [] else [cur])"
| "split_words cur (c # cs) =
     (if c = CHR '' '' then (if cur = [] then split_words [] cs else cur # split_words [] cs) else split_words (cur @ [c]) cs)"

text \<open>
  The system as the program sees it. \<open>Down\<close>: no coordinator runs, and this is its store file. \<open>Starting\<close>: the process
  of the coordinator exists but does not listen yet, for so many more naps. \<open>Running\<close>: it listens; what
  waits for its turn (a process that has been created, the loss of a connection), the sockets of the
  worker processes, and all connections. Of any other state nothing is said.
\<close>

datatype Turn = Runs nat "string list" | Lost SOCKET

datatype Machine = Down "bytes option" | Starting nat nat "bytes option" | Running nat "Turn list" "nat \<rightharpoonup> SOCKET" "SOCKET set" | Otherwise

definition connects ::
  "('o \<Rightarrow> Machine) \<Rightarrow> ('o \<Rightarrow> Coordinator) \<Rightarrow> 'o Winsock \<Rightarrow> (SOCKET \<Rightarrow> 'o receiver) \<Rightarrow> u16 \<Rightarrow> 'o \<Rightarrow> Coordinator \<Rightarrow>
     nat \<Rightarrow> Turn list \<Rightarrow> (nat \<rightharpoonup> SOCKET) \<Rightarrow> SOCKET set \<Rightarrow> bool" where
  "connects mode co w get port os st q ts owned socks \<longleftrightarrow>
     (\<exists>k e os'. client_open w get ''127.0.0.1'' port [] None os = (True, e, Some \<lparr>cl_sock = k, cl_connected = True\<rparr>, os') \<and>
        k \<notin> socks \<and> k \<noteq> INVALID_SOCKET \<and> mode os' = Running q ts owned (insert k socks) \<and> co os' = snd (accept_connection k st))"

text \<open>Connections: to a coordinator that listens they succeed, up to eight of them, and they carry its messages; a closed one is noticed in its turn.\<close>

definition connection_laws ::
  "('o \<Rightarrow> Machine) \<Rightarrow> ('o \<Rightarrow> Coordinator) \<Rightarrow> 'o Winsock \<Rightarrow> (SOCKET \<Rightarrow> 'o sender) \<Rightarrow> (SOCKET \<Rightarrow> 'o receiver) \<Rightarrow> u16 \<Rightarrow> bool" where
  "connection_laws mode co w put get port \<longleftrightarrow> port \<noteq> 0 \<and>
     (\<forall>os f. mode os = Down f \<longrightarrow> (\<exists>os'. freePort w os = (port, os') \<and> mode os' = Down f)) \<and>
     (\<forall>os q n f. mode os = Starting q (Suc n) f \<longrightarrow>
        (\<exists>e c os'. client_open w get ''127.0.0.1'' port [] None os = (False, e, c, os') \<and> client_idle c \<and> mode os' = Starting q (Suc n) f)) \<and>
     (\<forall>os q f. mode os = Starting q 0 f \<longrightarrow>
        connects mode co w get port os (start_coordinator [] coordinator_bounds f) q [] Map.empty {}) \<and>
     (\<forall>os q ts owned socks. mode os = Running q ts owned socks \<and> card socks < 8 \<longrightarrow> connects mode co w get port os (co os) q ts owned socks) \<and>
     (\<forall>q ts owned socks k. k \<in> socks \<longrightarrow> attached (\<lambda>os. mode os = Running q ts owned socks) co (put k) (get k) k) \<and>
     (\<forall>os q ts owned socks k. mode os = Running q ts owned socks \<and> k \<in> socks \<longrightarrow>
        mode (os_closesocket w k os) = Running q (ts @ [Lost k]) owned (socks - {k}) \<and> co (os_closesocket w k os) = co os)"

text \<open>Processes: the connection of one that is ended is lost; the store file outlives the coordinator; they are created as they are meant to.\<close>

definition ending_laws :: "('o \<Rightarrow> Machine) \<Rightarrow> ('o \<Rightarrow> Coordinator) \<Rightarrow> 'o Processes \<Rightarrow> bool" where
  "ending_laws mode co ps \<longleftrightarrow>
     (\<forall>os q ts owned socks pid k. mode os = Running q ts owned socks \<and> pid \<noteq> q \<and> owned pid = Some k \<longrightarrow>
        mode (ps_terminate ps pid os) = Running q (ts @ [Lost k]) (owned(pid := None)) (socks - {k}) \<and> co (ps_terminate ps pid os) = co os) \<and>
     (\<forall>os q ts owned socks. mode os = Running q ts owned socks \<longrightarrow> mode (ps_terminate ps q os) = Down (co_file (co os)))"

definition process_laws ::
  "('o \<Rightarrow> Machine) \<Rightarrow> ('o \<Rightarrow> Coordinator) \<Rightarrow> 'o Processes \<Rightarrow> string \<Rightarrow> string \<Rightarrow> u16 \<Rightarrow> bool" where
  "process_laws mode co ps coordExe workerExe port \<longleftrightarrow>
     (\<forall>os f. mode os = Down f \<longrightarrow> mode (ps_remove ps ''proof_store.bin'' os) = Down None) \<and>
     (\<forall>os f args. mode os = Down f \<and> split_words [] args = [nat_str (unat port), ''proof_store.bin''] \<longrightarrow>
        (\<exists>q n os'. ps_create ps (command_line coordExe args) os = (Some q, os') \<and> n < 60 \<and> mode os' = Starting q n f)) \<and>
     (\<forall>os q ts owned socks args. mode os = Running q ts owned socks \<longrightarrow>
        (\<exists>pid os'. ps_create ps (command_line workerExe args) os = (Some pid, os') \<and> pid \<noteq> q \<and> owned pid = None \<and> (\<forall>argv. Runs pid argv \<notin> set ts) \<and>
           mode os' = Running q (ts @ [Runs pid (workerExe # split_words [] args)]) owned socks \<and> co os' = co os)) \<and>
     ending_laws mode co ps"

text \<open>While the program sleeps the others have their turns, in order: losses of connections, and worker processes, which run up to their own sleep.\<close>

definition nap_laws :: "('o \<Rightarrow> Machine) \<Rightarrow> ('o \<Rightarrow> Coordinator) \<Rightarrow> 'o Processes \<Rightarrow> bool" where
  "nap_laws mode co ps \<longleftrightarrow>
     (\<forall>os q n f t. mode os = Starting q (Suc n) f \<and> 50 \<le> t \<longrightarrow> mode (ps_sleep ps t os) = Starting q n f) \<and>
     (\<forall>os q owned socks t. mode os = Running q [] owned socks \<longrightarrow>
        mode (ps_sleep ps t os) = Running q [] owned socks \<and> co (ps_sleep ps t os) = co os) \<and>
     (\<forall>os q k ts owned socks t. mode os = Running q (Lost k # ts) owned socks \<and> 250 \<le> t \<longrightarrow>
        (\<exists>os'. ps_sleep ps t os = ps_sleep ps t os' \<and> mode os' = Running q ts owned socks \<and> co os' = disconnect k (co os)))"

definition turn_laws ::
  "('o \<Rightarrow> Machine) \<Rightarrow> ('o \<Rightarrow> Coordinator) \<Rightarrow> 'o Winsock \<Rightarrow> (SOCKET \<Rightarrow> 'o sender) \<Rightarrow> (SOCKET \<Rightarrow> 'o receiver) \<Rightarrow> 'o Processes \<Rightarrow> u16 \<Rightarrow> bool" where
  "turn_laws mode co w put get ps port \<longleftrightarrow>
     nap_laws mode co ps \<and>
     (\<forall>os q pid argv ts owned socks t. mode os = Running q (Runs pid argv # ts) owned socks \<and> 250 \<le> t \<longrightarrow>
        (\<exists>os0. mode os0 = Running q ts owned socks \<and> co os0 = co os \<and>
           (\<forall>e c os1 os2 socks'. client_open w get ''127.0.0.1'' port [] None os0 = (True, e, Some c, os1) \<and>
              worker_main w put get argv os0 = Some (None, os2) \<and> mode os2 = Running q ts owned socks' \<longrightarrow>
              (\<exists>os'. ps_sleep ps t os = ps_sleep ps t os' \<and> mode os' = Running q ts (owned(pid \<mapsto> cl_sock c)) socks' \<and> co os' = co os2))))"

lemma split_plain: "CHR '' '' \<notin> set x \<Longrightarrow> split_words cur (x @ cs) = split_words (cur @ x) cs"
  by (induction x arbitrary: cur) auto

lemma nat_str_plain: "CHR '' '' \<notin> set (nat_str n)"
  using nat_str_digits [of n] by (auto simp: all_digits_def)

lemma program_arguments:
  "split_words [] (coordinator_args port) = [nat_str (unat port), ''proof_store.bin'']"
  "split_words [] (worker_args port ''A'' ''1000'') = [nat_str (unat port), ''A'', ''1000'']"
  "split_words [] (worker_args port ''A'' ''3000'') = [nat_str (unat port), ''A'', ''3000'']"
  "split_words [] (worker_args port ''B'' ''2000'') = [nat_str (unat port), ''B'', ''2000'']"
  using nat_str_nonempty [of "unat port"]
  by (simp_all add: coordinator_args_def worker_args_def split_plain nat_str_plain)

lemma port_argument: "of_int (atoi (nat_str (unat port))) = (port :: u16)"
proof -
  let ?d = "\<lambda>c. 48 \<le> (of_char c :: nat) \<and> (of_char c :: nat) \<le> 57"
  have digits: "\<forall>c\<in>set (nat_str (unat port)). ?d c" and number: "digits_value 0 (nat_str (unat port)) = unat port"
    using nat_str_digits [of "unat port"] by (simp_all add: all_digits_def)
  obtain c cs where c: "nat_str (unat port) = c # cs" using nat_str_nonempty [of "unat port"] by (cases "nat_str (unat port)") auto
  have "\<not> space_char c" "c \<noteq> CHR ''-''" "c \<noteq> CHR ''+''" using digits by (auto simp: c space_char_def)
  moreover have "takeWhile ?d (nat_str (unat port)) = nat_str (unat port)" using digits by (simp add: takeWhile_eq_all_conv)
  ultimately have "decimal_prefix (nat_str (unat port)) = (False, unat port)"
    using number by (simp add: decimal_prefix_def Let_def c)
  then show ?thesis by (simp add: atoi_def)
qed

lemma boot_arguments: "strtoull ''1000'' = 1000" "strtoull ''2000'' = 2000" "strtoull ''3000'' = 3000"
  by (simp_all add: strtoull_def decimal_prefix_def space_char_def)

lemma laws_connect:
  assumes "connection_laws mode co w put get port"
  shows "port \<noteq> 0"
    and "mode os = Down f \<Longrightarrow> \<exists>os'. freePort w os = (port, os') \<and> mode os' = Down f"
    and "mode os = Starting q (Suc n) f \<Longrightarrow>
      \<exists>e c os'. client_open w get ''127.0.0.1'' port [] None os = (False, e, c, os') \<and> client_idle c \<and> mode os' = Starting q (Suc n) f"
    and "mode os = Starting q 0 f \<Longrightarrow> connects mode co w get port os (start_coordinator [] coordinator_bounds f) q [] Map.empty {}"
    and "mode os = Running q ts owned socks \<Longrightarrow> card socks < 8 \<Longrightarrow> connects mode co w get port os (co os) q ts owned socks"
    and "k \<in> socks \<Longrightarrow> attached (\<lambda>os. mode os = Running q ts owned socks) co (put k) (get k) k"
    and "mode os = Running q ts owned socks \<Longrightarrow> k \<in> socks \<Longrightarrow>
      mode (os_closesocket w k os) = Running q (ts @ [Lost k]) owned (socks - {k}) \<and> co (os_closesocket w k os) = co os"
  using assms unfolding connection_laws_def by (elim conjE; simp)+

lemma laws_process:
  assumes "process_laws mode co ps coordExe workerExe port"
  shows "mode os = Down f \<Longrightarrow> mode (ps_remove ps ''proof_store.bin'' os) = Down None"
    and "mode os = Down f \<Longrightarrow> split_words [] args = [nat_str (unat port), ''proof_store.bin''] \<Longrightarrow>
      \<exists>q n os'. ps_create ps (command_line coordExe args) os = (Some q, os') \<and> n < 60 \<and> mode os' = Starting q n f"
    and "mode os = Running q ts owned socks \<Longrightarrow>
      \<exists>pid os'. ps_create ps (command_line workerExe args) os = (Some pid, os') \<and> pid \<noteq> q \<and> owned pid = None \<and> (\<forall>argv. Runs pid argv \<notin> set ts) \<and>
        mode os' = Running q (ts @ [Runs pid (workerExe # split_words [] args)]) owned socks \<and> co os' = co os"
    and "mode os = Running q ts owned socks \<Longrightarrow> pid \<noteq> q \<Longrightarrow> owned pid = Some k \<Longrightarrow>
      mode (ps_terminate ps pid os) = Running q (ts @ [Lost k]) (owned(pid := None)) (socks - {k}) \<and> co (ps_terminate ps pid os) = co os"
    and "mode os = Running q ts owned socks \<Longrightarrow> mode (ps_terminate ps q os) = Down (co_file (co os))"
  using assms unfolding process_laws_def ending_laws_def by (elim conjE; simp)+

lemma laws_turn:
  assumes "turn_laws mode co w put get ps port"
  shows "mode os = Starting q (Suc n) f \<Longrightarrow> 50 \<le> t \<Longrightarrow> mode (ps_sleep ps t os) = Starting q n f"
    and "mode os = Running q [] owned socks \<Longrightarrow> mode (ps_sleep ps t os) = Running q [] owned socks \<and> co (ps_sleep ps t os) = co os"
    and "mode os = Running q (Lost k # ts) owned socks \<Longrightarrow> 250 \<le> t \<Longrightarrow>
      \<exists>os'. ps_sleep ps t os = ps_sleep ps t os' \<and> mode os' = Running q ts owned socks \<and> co os' = disconnect k (co os)"
    and "mode os = Running q (Runs pid argv # ts) owned socks \<Longrightarrow> 250 \<le> t \<Longrightarrow>
      \<exists>os0. mode os0 = Running q ts owned socks \<and> co os0 = co os \<and>
        (\<forall>e c os1 os2 socks'. client_open w get ''127.0.0.1'' port [] None os0 = (True, e, Some c, os1) \<and>
           worker_main w put get argv os0 = Some (None, os2) \<and> mode os2 = Running q ts owned socks' \<longrightarrow>
           (\<exists>os'. ps_sleep ps t os = ps_sleep ps t os' \<and> mode os' = Running q ts (owned(pid \<mapsto> cl_sock c)) socks' \<and> co os' = co os2))"
  using assms unfolding turn_laws_def nap_laws_def by (elim conjE; simp)+

lemma laws_nap:
  assumes "nap_laws mode co ps"
  shows "mode os = Running q [] owned socks \<Longrightarrow> mode (ps_sleep ps t os) = Running q [] owned socks \<and> co (ps_sleep ps t os) = co os"
    and "mode os = Running q (Lost k # ts) owned socks \<Longrightarrow> 250 \<le> t \<Longrightarrow>
      \<exists>os'. ps_sleep ps t os = ps_sleep ps t os' \<and> mode os' = Running q ts owned socks \<and> co os' = disconnect k (co os)"
  using assms unfolding nap_laws_def by (elim conjE; simp)+

lemma laws_parts:
  "process_laws mode co ps coordExe workerExe port \<Longrightarrow> ending_laws mode co ps"
  "turn_laws mode co w put get ps port \<Longrightarrow> nap_laws mode co ps"
  unfolding process_laws_def turn_laws_def by (elim conjE; assumption)+

text \<open>A worker process is ended, and the loss of its connection is noticed.\<close>

lemma worker_leaves:
  assumes "ending_laws mode co ps" and "nap_laws mode co ps" and "mode os = Running q [] owned socks" and "pid \<noteq> q" and "owned pid = Some k"
    and "250 \<le> t"
  shows "mode (ps_sleep ps t (snd (killChild ps (Some pid) os))) = Running q [] (owned(pid := None)) (socks - {k})"
    and "co (ps_sleep ps t (snd (killChild ps (Some pid) os))) = disconnect k (co os)"
proof -
  let ?os = "ps_terminate ps pid os"
  have dead: "mode ?os = Running q [Lost k] (owned(pid := None)) (socks - {k})" "co ?os = co os"
    using assms(1,3-5) by (simp_all add: ending_laws_def del: fun_upd_apply)
  obtain os' where os': "ps_sleep ps t ?os = ps_sleep ps t os'" "mode os' = Running q [] (owned(pid := None)) (socks - {k})"
    "co os' = disconnect k (co os)"
    using laws_nap(2) [OF assms(2) dead(1) assms(6)] dead(2) by (auto simp del: fun_upd_apply)
  with laws_nap(1) [OF assms(2) os'(2)]
  show "mode (ps_sleep ps t (snd (killChild ps (Some pid) os))) = Running q [] (owned(pid := None)) (socks - {k})"
    "co (ps_sleep ps t (snd (killChild ps (Some pid) os))) = disconnect k (co os)"
    by (simp_all add: killChild_def del: fun_upd_apply)
qed

section \<open>A system of queues\<close>

record Host =
  hs_mode :: Machine
  hs_net :: Network
  hs_pids :: nat

definition numbered :: "nat \<Rightarrow> Machine \<Rightarrow> bool" where
  "numbered n m \<longleftrightarrow>
     (case m of
        Starting q _ _ \<Rightarrow> q < n
      | Running q ts owned _ \<Rightarrow> q < n \<and> (\<forall>p. owned p \<noteq> None \<longrightarrow> p < n) \<and> (\<forall>p argv. Runs p argv \<in> set ts \<longrightarrow> p < n)
      | _ \<Rightarrow> True)"

definition host_mode :: "Host \<Rightarrow> Machine" where
  "host_mode h =
     (if numbered (hs_pids h) (hs_mode h) \<and> ((\<exists>q ts owned socks. hs_mode h = Running q ts owned socks) \<longrightarrow> net_quiet (hs_net h))
      then hs_mode h else Otherwise)"

definition host_co :: "Host \<Rightarrow> Coordinator" where
  "host_co h = nw_co (hs_net h)"

definition host_send :: "SOCKET \<Rightarrow> Host sender" where
  "host_send k b h = (case net_send k b (hs_net h) of (r, n) \<Rightarrow> (r, h\<lparr>hs_net := n\<rparr>))"

definition host_recv :: "SOCKET \<Rightarrow> Host receiver" where
  "host_recv k m h = (case net_recv k m (hs_net h) of (r, n) \<Rightarrow> (r, h\<lparr>hs_net := n\<rparr>))"

lemma host_readExact:
  "readExact (host_recv k) m h = (case readExact (net_recv k) m (hs_net h) of (r, n) \<Rightarrow> (r, h\<lparr>hs_net := n\<rparr>))"
proof (induction m arbitrary: h rule: less_induct)
  case (less m)
  show ?case
  proof (cases "m = 0")
    case True
    then show ?thesis by (simp add: readExact.simps [of _ 0])
  next
    case False
    obtain r n where r: "net_recv k m (hs_net h) = (r, n)" by fastforce
    show ?thesis
    proof (cases "r = None \<or> r = Some []")
      case True
      with r False show ?thesis by (auto simp: readExact.simps [of _ m] host_recv_def)
    next
      case nonempty: False
      then obtain c where c: "r = Some c" "c \<noteq> []" by auto
      with False have "m - length c < m" by simp
      from less.IH [OF this, of "h\<lparr>hs_net := n\<rparr>"] r c False show ?thesis
        by (simp add: readExact.simps [of _ m] host_recv_def split: prod.splits option.splits)
    qed
  qed
qed

lemma host_recvFrame:
  "recvFrame (host_recv k) h = (case recvFrame (net_recv k) (hs_net h) of (r, n) \<Rightarrow> (r, h\<lparr>hs_net := n\<rparr>))"
  by (simp add: recvFrame_def host_readExact Let_def split: prod.splits option.splits)

lemma host_writeAll:
  "writeAll (host_send k) b h = (case writeAll (net_send k) b (hs_net h) of None \<Rightarrow> None | Some (r, n) \<Rightarrow> Some (r, h\<lparr>hs_net := n\<rparr>))"
  by (cases "b = []") (simp_all add: writeAll.simps [of _ b] writeAll.simps [of _ "[]"] host_send_def net_send_def)

lemma host_sendFrame:
  "sendFrame (host_send k) f h = (case sendFrame (net_send k) f (hs_net h) of None \<Rightarrow> None | Some (r, n) \<Rightarrow> Some (r, h\<lparr>hs_net := n\<rparr>))"
  by (simp add: sendFrame_def host_writeAll split: sum.split option.split prod.split bool.split)

lemma host_attached: "attached (\<lambda>h. host_mode h = Running q ts owned socks) host_co (host_send k) (host_recv k) k"
  unfolding attached_def
proof (intro allI impI, elim conjE)
  fix c :: Client and m h rf st'
  assume a: "host_mode h = Running q ts owned socks" "cl_connected c" "message_ok m" "length (encodeMessage m) + 25 \<le> kMaxFramePayload"
    "receive_frame k \<lparr>fr_type = ms_type m, fr_payload = encodeMessage m\<rparr> (host_co h) = Inr ([(k, rf)], st')" "receivable rf"
  have m: "hs_mode h = Running q ts owned socks" "net_quiet (hs_net h)" "numbered (hs_pids h) (Running q ts owned socks)"
    using a(1) by (auto simp: host_mode_def split: if_splits)
  obtain n where n: "exchanged (net_send k) (net_recv k) c m rf (hs_net h) n" "nw_co n = st'" "net_quiet n"
    using net_attached [of k, unfolded attached_def] a(2-6) m(2) unfolding host_co_def by blast
  then have "exchanged (host_send k) (host_recv k) c m rf h (h\<lparr>hs_net := n\<rparr>)"
    by (auto simp: exchanged_def host_sendFrame host_recvFrame)
  moreover have "host_mode (h\<lparr>hs_net := n\<rparr>) = Running q ts owned socks" using m n(3) by (simp add: host_mode_def)
  ultimately show "\<exists>h'. exchanged (host_send k) (host_recv k) c m rf h h' \<and> host_co h' = st' \<and> host_mode h' = Running q ts owned socks"
    using n(2) by (intro exI [of _ "h\<lparr>hs_net := n\<rparr>"]) (simp add: host_co_def)
qed

definition fresh_socket :: "SOCKET set \<Rightarrow> SOCKET" where
  "fresh_socket socks = (case List.find (\<lambda>k. k \<notin> socks) [1, 2, 3, 4, 5, 6, 7, 8] of None \<Rightarrow> INVALID_SOCKET | Some k \<Rightarrow> k)"

text \<open>The coordinator accepts the connection and greets the client.\<close>

definition host_greet ::
  "SOCKET \<Rightarrow> Coordinator \<Rightarrow> nat \<Rightarrow> Turn list \<Rightarrow> (nat \<rightharpoonup> SOCKET) \<Rightarrow> SOCKET set \<Rightarrow> Host \<Rightarrow> Host" where
  "host_greet k st q ts owned socks h =
     h\<lparr>hs_mode := Running q ts owned (insert k socks),
       hs_net := \<lparr>nw_co = snd (accept_connection k st), nw_in = net_deliver (fst (accept_connection k st)) (\<lambda>_. []), nw_out = (\<lambda>_. [])\<rparr>\<rparr>"

definition host_connect :: "SOCKET \<Rightarrow> Host \<Rightarrow> bool \<times> Host" where
  "host_connect k h =
     (case hs_mode h of
        Starting q n f \<Rightarrow> if n = 0 then (True, host_greet k (start_coordinator [] coordinator_bounds f) q [] Map.empty {} h) else (False, h)
      | Running q ts owned socks \<Rightarrow> (True, host_greet k (host_co h) q ts owned socks h)
      | _ \<Rightarrow> (False, h))"

definition host_close :: "SOCKET \<Rightarrow> Host \<Rightarrow> Host" where
  "host_close k h =
     (case hs_mode h of
        Running q ts owned socks \<Rightarrow> h\<lparr>hs_mode := Running q (ts @ [Lost k]) owned (socks - {k})\<rparr>
      | _ \<Rightarrow> h)"

definition host_socket :: "Host \<Rightarrow> SOCKET" where
  "host_socket h = (case hs_mode h of Running q ts owned socks \<Rightarrow> fresh_socket socks | _ \<Rightarrow> 1)"

definition host_winsock :: "Host Winsock" where
  "host_winsock =
     \<lparr>os_startup = Pair True, os_cleanup = id,
      os_getaddrinfo = (\<lambda>_ _ h. (Some [\<lparr>ai_family = 2, ai_socktype = 1, ai_protocol = 6, ai_addr = []\<rparr>], h)),
      os_socket = (\<lambda>_ _ _ h. (host_socket h, h)), os_connect = (\<lambda>k _ h. host_connect k h),
      os_reuse = (\<lambda>_. id), os_bind = (\<lambda>_ _ h. (True, h)), os_listen = (\<lambda>_ _ h. (True, h)),
      os_accept = (\<lambda>_ h. (INVALID_SOCKET, h)),
      os_getsockname = (\<lambda>_ _. Some \<lparr>sin_family = 2, sin_addr = htonl INADDR_LOOPBACK, sin_port = htons 4242\<rparr>),
      os_closesocket = host_close, os_error = (\<lambda>_. ''refused'')\<rparr>"

lemma fresh_socket: "card socks < 8 \<Longrightarrow> fresh_socket socks \<notin> socks \<and> fresh_socket socks \<noteq> INVALID_SOCKET"
proof -
  assume few: "card socks < 8"
  have "\<not> {1, 2, 3, 4, 5, 6, 7, 8 :: SOCKET} \<subseteq> socks"
  proof
    assume "{1, 2, 3, 4, 5, 6, 7, 8} \<subseteq> socks"
    then have "card {1, 2, 3, 4, 5, 6, 7, 8 :: SOCKET} \<le> card socks" by (intro card_mono) simp_all
    with few show False by simp
  qed
  then show ?thesis by (auto simp: fresh_socket_def INVALID_SOCKET_def)
qed

lemma host_running:
  "host_mode h = Running q ts owned socks \<longleftrightarrow>
     hs_mode h = Running q ts owned socks \<and> numbered (hs_pids h) (Running q ts owned socks) \<and> net_quiet (hs_net h)"
  by (auto simp: host_mode_def)

lemma host_starting: "host_mode h = Starting q n f \<longleftrightarrow> hs_mode h = Starting q n f \<and> q < hs_pids h"
  by (auto simp: host_mode_def numbered_def)

lemma host_down: "host_mode h = Down f \<longleftrightarrow> hs_mode h = Down f"
  by (auto simp: host_mode_def numbered_def)

lemma host_greeted:
  assumes "numbered (hs_pids h) (Running q ts owned socks)"
  shows "\<exists>f h'. recvFrame (host_recv k) (host_greet k st q ts owned socks h) = (Inr f, h') \<and>
    host_mode h' = Running q ts owned (insert k socks) \<and> host_co h' = snd (accept_connection k st)"
proof -
  let ?m = "default_Message\<lparr>ms_type := HELLO, ms_epoch := co_epoch st\<rparr>"
  let ?f = "\<lparr>fr_type = HELLO, fr_payload = encodeMessage ?m\<rparr>"
  let ?n = "hs_net (host_greet k st q ts owned socks h)"
  have f: "receivable ?f" by (simp add: receivable_def encodeMessage_def kMaxFramePayload_def)
  then have "nw_in ?n k = stream_frame ?f @ []"
    by (simp add: host_greet_def accept_connection_def send_message_def net_deliver_def net_frame_stream receivable_def)
  from net_recvFrame [OF f this] have "recvFrame (host_recv k) (host_greet k st q ts owned socks h) =
      (Inr ?f, (host_greet k st q ts owned socks h)\<lparr>hs_net := ?n\<lparr>nw_in := (nw_in ?n)(k := [])\<rparr>\<rparr>)"
    by (simp add: host_recvFrame)
  moreover have "host_mode ((host_greet k st q ts owned socks h)\<lparr>hs_net := ?n\<lparr>nw_in := (nw_in ?n)(k := [])\<rparr>\<rparr>) = Running q ts owned (insert k socks)"
    using assms by (simp add: host_running)
      (simp add: host_greet_def numbered_def net_quiet_def accept_connection_def send_message_def net_deliver_def)
  moreover have "host_co ((host_greet k st q ts owned socks h)\<lparr>hs_net := ?n\<lparr>nw_in := (nw_in ?n)(k := [])\<rparr>\<rparr>) = snd (accept_connection k st)"
    by (simp add: host_co_def host_greet_def)
  ultimately show ?thesis by blast
qed

lemma host_opens:
  assumes "host_socket h = k" and "k \<noteq> INVALID_SOCKET" and "host_connect k h = (True, host_greet k st q ts owned socks h)"
    and "numbered (hs_pids h) (Running q ts owned socks)" and "k \<notin> socks"
  shows "connects host_mode host_co host_winsock host_recv port h st q ts owned socks"
proof -
  obtain f h' where f: "recvFrame (host_recv k) (host_greet k st q ts owned socks h) = (Inr f, h')"
    "host_mode h' = Running q ts owned (insert k socks)" "host_co h' = snd (accept_connection k st)"
    using host_greeted [OF assms(4)] by blast
  have "client_open host_winsock host_recv ''127.0.0.1'' port [] None h = (True, [], Some \<lparr>cl_sock = k, cl_connected = True\<rparr>, h')"
    using assms(1-3) f(1) by (simp add: client_open_def libraryInit_def connectTo_def host_winsock_def)
  with f(2,3) assms(2,5) show ?thesis unfolding connects_def by blast
qed

lemma host_connection_laws: "connection_laws host_mode host_co host_winsock host_send host_recv 4242"
  unfolding connection_laws_def
proof (intro conjI allI impI)
  show "(4242 :: u16) \<noteq> 0" by simp
  show "\<exists>os'. freePort host_winsock os = (4242, os') \<and> host_mode os' = Down f" if "host_mode os = Down f" for os f
    using that by (simp add: freePort_def host_winsock_def host_down host_socket_def host_close_def INVALID_SOCKET_def htons_twice)
  show "\<exists>e c os'. client_open host_winsock host_recv ''127.0.0.1'' 4242 [] None os = (False, e, c, os') \<and> client_idle c \<and>
      host_mode os' = Starting q (Suc n) f" if "host_mode os = Starting q (Suc n) f" for os q n f
    using that by (simp add: client_open_def libraryInit_def connectTo_def host_winsock_def host_starting host_socket_def host_connect_def
        host_close_def client_idle_def INVALID_SOCKET_def)
  show "connects host_mode host_co host_winsock host_recv 4242 os (start_coordinator [] coordinator_bounds f) q [] Map.empty {}"
    if "host_mode os = Starting q 0 f" for os q f
    using that by (intro host_opens [of os 1]) (simp_all add: host_starting host_socket_def host_connect_def numbered_def INVALID_SOCKET_def)
  show "connects host_mode host_co host_winsock host_recv 4242 os (host_co os) q ts owned socks"
    if "host_mode os = Running q ts owned socks \<and> card socks < 8" for os q ts owned socks
    using that fresh_socket [of socks]
    by (intro host_opens [of os "fresh_socket socks"]) (simp_all add: host_running host_socket_def host_connect_def)
  show "attached (\<lambda>os. host_mode os = Running q ts owned socks) host_co (host_send k) (host_recv k) k" for q ts owned socks k
    by (rule host_attached)
  show "host_mode (os_closesocket host_winsock k os) = Running q (ts @ [Lost k]) owned (socks - {k})"
    "host_co (os_closesocket host_winsock k os) = host_co os"
    if "host_mode os = Running q ts owned socks \<and> k \<in> socks" for os q ts owned socks k
    using that by (auto simp: host_winsock_def host_running host_close_def numbered_def host_co_def)
qed

text \<open>A command line as \<open>spawn\<close> makes it, back in its parts.\<close>

definition command_argv :: "string \<Rightarrow> string list" where
  "command_argv cmd = takeWhile (\<lambda>c. c \<noteq> CHR 0x22) (tl cmd) # split_words [] (tl (dropWhile (\<lambda>c. c \<noteq> CHR 0x22) (tl cmd)))"

definition host_create :: "string \<Rightarrow> Host \<Rightarrow> nat option \<times> Host" where
  "host_create cmd h =
     (case hs_mode h of
        Down f \<Rightarrow> (Some (hs_pids h), h\<lparr>hs_mode := Starting (hs_pids h) 2 f, hs_pids := Suc (hs_pids h)\<rparr>)
      | Running q ts owned socks \<Rightarrow>
          (Some (hs_pids h), h\<lparr>hs_mode := Running q (ts @ [Runs (hs_pids h) (command_argv cmd)]) owned socks, hs_pids := Suc (hs_pids h)\<rparr>)
      | _ \<Rightarrow> (None, h))"

definition host_terminate :: "nat \<Rightarrow> Host \<Rightarrow> Host" where
  "host_terminate pid h =
     (case hs_mode h of
        Running q ts owned socks \<Rightarrow>
          if pid = q then h\<lparr>hs_mode := Down (co_file (host_co h))\<rparr>
          else (case owned pid of
                  None \<Rightarrow> h
                | Some k \<Rightarrow> h\<lparr>hs_mode := Running q (ts @ [Lost k]) (owned(pid := None)) (socks - {k})\<rparr>)
      | _ \<Rightarrow> h)"

definition host_remove :: "Host \<Rightarrow> Host" where
  "host_remove h = (case hs_mode h of Down f \<Rightarrow> h\<lparr>hs_mode := Down None\<rparr> | _ \<Rightarrow> h)"

text \<open>The turn of a worker process that gets as far as its own sleep leaves it with its socket.\<close>

definition host_settle :: "nat \<Rightarrow> SOCKET \<Rightarrow> Host \<Rightarrow> Host" where
  "host_settle pid k h =
     (case hs_mode h of
        Running q ts owned socks \<Rightarrow> h\<lparr>hs_mode := Running q ts (owned(pid \<mapsto> k)) socks, hs_pids := max (hs_pids h) (Suc pid)\<rparr>
      | _ \<Rightarrow> h)"

definition host_turn :: "Host \<Rightarrow> Host" where
  "host_turn h =
     (case hs_mode h of
        Running q (Lost k # ts) owned socks \<Rightarrow>
          h\<lparr>hs_mode := Running q ts owned socks, hs_net := (hs_net h)\<lparr>nw_co := disconnect k (host_co h)\<rparr>\<rparr>
      | Running q (Runs pid argv # ts) owned socks \<Rightarrow>
          let h0 = h\<lparr>hs_mode := Running q ts owned socks\<rparr> in
          (case worker_main host_winsock host_send host_recv argv h0 of
             None \<Rightarrow> h0
           | Some (Some _, h2) \<Rightarrow> h2
           | Some (None, h2) \<Rightarrow>
               (case client_open host_winsock host_recv ''127.0.0.1'' 4242 [] None h0 of
                  (_, _, c, _) \<Rightarrow> host_settle pid (client_sock c) h2))
      | _ \<Rightarrow> h)"

definition host_sleep :: "Host \<Rightarrow> Host" where
  "host_sleep h =
     (case hs_mode h of
        Starting q n f \<Rightarrow> h\<lparr>hs_mode := Starting q (n - 1) f\<rparr>
      | Running q ts owned socks \<Rightarrow> (host_turn ^^ length ts) h
      | _ \<Rightarrow> h)"

definition host_processes :: "Host Processes" where
  "host_processes = \<lparr>ps_create = host_create, ps_terminate = host_terminate, ps_sleep = (\<lambda>_. host_sleep), ps_remove = (\<lambda>_. host_remove)\<rparr>"

lemma command_argv_line: "CHR 0x22 \<notin> set exe \<Longrightarrow> command_argv (command_line exe args) = exe # split_words [] args"
  by (simp add: command_argv_def command_line_def takeWhile_append2 dropWhile_append2) (auto simp: takeWhile_append dropWhile_append)

lemma host_process_laws:
  assumes "CHR 0x22 \<notin> set workerExe"
  shows "process_laws host_mode host_co host_processes coordExe workerExe 4242"
  unfolding process_laws_def ending_laws_def
proof (intro conjI allI impI)
  show "host_mode (ps_remove host_processes ''proof_store.bin'' os) = Down None" if "host_mode os = Down f" for os f
    using that by (simp add: host_processes_def host_down host_remove_def)
  show "\<exists>q n os'. ps_create host_processes (command_line coordExe args) os = (Some q, os') \<and> n < 60 \<and> host_mode os' = Starting q n f"
    if "host_mode os = Down f \<and> split_words [] args = [nat_str (unat (4242 :: u16)), ''proof_store.bin'']" for os f args
    using that by (intro exI [of _ "hs_pids os"] exI [of _ 2]) (simp add: host_processes_def host_down host_starting host_create_def)
  show "\<exists>pid os'. ps_create host_processes (command_line workerExe args) os = (Some pid, os') \<and> pid \<noteq> q \<and> owned pid = None \<and>
      (\<forall>argv. Runs pid argv \<notin> set ts) \<and>
      host_mode os' = Running q (ts @ [Runs pid (workerExe # split_words [] args)]) owned socks \<and> host_co os' = host_co os"
    if "host_mode os = Running q ts owned socks" for os q ts owned socks args
  proof -
    have m: "hs_mode os = Running q ts owned socks" "numbered (hs_pids os) (Running q ts owned socks)" "net_quiet (hs_net os)"
      using that by (simp_all add: host_running)
    then have "hs_pids os \<noteq> q" "owned (hs_pids os) = None" "\<forall>argv. Runs (hs_pids os) argv \<notin> set ts"
      by (auto simp: numbered_def)
    moreover have "numbered (Suc (hs_pids os)) (Running q (ts @ [Runs (hs_pids os) x]) owned socks)" for x
      using m(2) by (auto simp: numbered_def less_Suc_eq)
    ultimately show ?thesis using m(1,3)
      by (intro exI [of _ "hs_pids os"])
        (simp add: host_processes_def host_running host_create_def command_argv_line [OF assms] host_co_def)
  qed
  show "host_mode (ps_terminate host_processes pid os) = Running q (ts @ [Lost k]) (owned(pid := None)) (socks - {k})"
    "host_co (ps_terminate host_processes pid os) = host_co os"
    if "host_mode os = Running q ts owned socks \<and> pid \<noteq> q \<and> owned pid = Some k" for os q ts owned socks pid k
    using that by (auto simp: host_processes_def host_running host_terminate_def numbered_def host_co_def)
  show "host_mode (ps_terminate host_processes q os) = Down (co_file (host_co os))" if "host_mode os = Running q ts owned socks" for os q ts owned socks
    using that by (simp add: host_processes_def host_running host_down host_terminate_def)
qed

lemma host_turn_laws: "turn_laws host_mode host_co host_winsock host_send host_recv host_processes 4242"
  unfolding turn_laws_def nap_laws_def
proof (intro conjI allI impI)
  have sleep: "ps_sleep host_processes t h = ps_sleep host_processes t (host_turn h)"
    if "hs_mode h = Running q (x # ts) owned socks" "hs_mode (host_turn h) = Running q' ts owned' socks'" for h t q x ts owned socks q' owned' socks'
    using that by (simp add: host_processes_def host_sleep_def funpow_Suc_right del: funpow.simps)
  show "host_mode (ps_sleep host_processes t os) = Starting q n f" if "host_mode os = Starting q (Suc n) f \<and> 50 \<le> t" for os q n f t
    using that by (simp add: host_processes_def host_starting host_sleep_def)
  show "host_mode (ps_sleep host_processes t os) = Running q [] owned socks" "host_co (ps_sleep host_processes t os) = host_co os"
    if "host_mode os = Running q [] owned socks" for os q owned socks t
    using that by (simp_all add: host_processes_def host_running host_sleep_def)
  show "\<exists>os'. ps_sleep host_processes t os = ps_sleep host_processes t os' \<and> host_mode os' = Running q ts owned socks \<and>
      host_co os' = disconnect k (host_co os)" if "host_mode os = Running q (Lost k # ts) owned socks \<and> 250 \<le> t" for os q k ts owned socks t
  proof -
    have m: "hs_mode os = Running q (Lost k # ts) owned socks" "numbered (hs_pids os) (Running q (Lost k # ts) owned socks)" "net_quiet (hs_net os)"
      using that by (simp_all add: host_running)
    then show ?thesis
      by (intro exI [of _ "host_turn os"])
        (auto simp: sleep [OF m(1), of q owned socks] host_turn_def host_running numbered_def net_quiet_def host_co_def)
  qed
  show "\<exists>os0. host_mode os0 = Running q ts owned socks \<and> host_co os0 = host_co os \<and>
      (\<forall>e c os1 os2 socks'. client_open host_winsock host_recv ''127.0.0.1'' 4242 [] None os0 = (True, e, Some c, os1) \<and>
         worker_main host_winsock host_send host_recv argv os0 = Some (None, os2) \<and> host_mode os2 = Running q ts owned socks' \<longrightarrow>
         (\<exists>os'. ps_sleep host_processes t os = ps_sleep host_processes t os' \<and> host_mode os' = Running q ts (owned(pid \<mapsto> cl_sock c)) socks' \<and>
            host_co os' = host_co os2))"
    if "host_mode os = Running q (Runs pid argv # ts) owned socks \<and> 250 \<le> t" for os q pid argv ts owned socks t
  proof -
    have m: "hs_mode os = Running q (Runs pid argv # ts) owned socks" "numbered (hs_pids os) (Running q (Runs pid argv # ts) owned socks)"
      "net_quiet (hs_net os)" using that by (simp_all add: host_running)
    let ?h0 = "os\<lparr>hs_mode := Running q ts owned socks\<rparr>"
    have "\<exists>os'. ps_sleep host_processes t os = ps_sleep host_processes t os' \<and> host_mode os' = Running q ts (owned(pid \<mapsto> cl_sock c)) socks' \<and>
        host_co os' = host_co os2"
      if a: "client_open host_winsock host_recv ''127.0.0.1'' 4242 [] None ?h0 = (True, e, Some c, os1)"
        "worker_main host_winsock host_send host_recv argv ?h0 = Some (None, os2)" "host_mode os2 = Running q ts owned socks'" for e c os1 os2 socks'
    proof -
      have turn: "host_turn os = host_settle pid (cl_sock c) os2" using m(1) a(1,2) by (simp add: host_turn_def client_sock_def)
      have mode: "hs_mode (host_turn os) = Running q ts (owned(pid \<mapsto> cl_sock c)) socks'"
        using a(3) by (simp add: turn host_settle_def host_running del: fun_upd_apply)
      moreover have "host_mode (host_turn os) = Running q ts (owned(pid \<mapsto> cl_sock c)) socks'" "host_co (host_turn os) = host_co os2"
        using a(3) mode by (auto simp: turn host_settle_def host_running host_co_def numbered_def less_max_iff_disj simp del: fun_upd_apply)
          (auto simp: numbered_def less_max_iff_disj)
      ultimately show ?thesis using sleep [OF m(1) mode] by blast
    qed
    moreover have "host_mode ?h0 = Running q ts owned socks" "host_co ?h0 = host_co os"
      using m by (auto simp: host_running numbered_def host_co_def)
    ultimately show ?thesis by blast
  qed
qed

end
