(* ===== verification/Multiprocess_Theorems.thy ===== *)
theory Multiprocess_Theorems
  imports Multiprocess_Dialogue Process_System
begin

text \<open>
  The run of \<open>apps/proof_main.cpp\<close>: what its assertions come to on a system that starts and ends processes and
  carries their connections, and one such system.
\<close>

section \<open>The dialogue in scenes\<close>

text \<open>The plan that has to be revalidated.\<close>

definition plan1_stale :: "Coordinator \<Rightarrow> bool" where
  "plan1_stale st \<longleftrightarrow> (\<exists>r. map_find (co_plans st) 1 = Some r \<and> pr_state r = PlanState.REVALIDATION_REQUIRED)"

text \<open>The direct plan, its store, the congestion, and the staged plan.\<close>

lemma scene_congestion:
  assumes att: "attached ok co put get k" "cl_connected c"
    and "ok s" and "conversed 0 [] (co s)" and "serves ka a b None (co s)"
  shows "\<exists>p1 p2 s1 s2 s3 s4 s5. client_submitRequest put get (Some c) (mkReq 1 100 200 4096) s = Some (Inr (Some p1), s1) \<and>
    client_save put get (Some c) s1 = Some (Inr True, s2) \<and>
    client_publishCongestion put get (Some c) 10 proof_congestion s2 = Some (Inr True, s3) \<and>
    client_revalidate put get (Some c) (pl_id p1) s3 = Some (Inr False, s4) \<and>
    client_submitRequest put get (Some c) (mkReq 2 100 200 4096) s4 = Some (Inr (Some p2), s5) \<and>
    length (pl_orderedStages p1) = 1 \<and> length (pl_orderedStages p2) = 2 \<and> pl_id p2 = 2 \<and>
    ok s5 \<and> conversed 2 [1, 2] (co s5) \<and> serves ka a b (Some proof_congestion) (co s5) \<and>
    plan1_stale (co s5) \<and>
    (\<exists>r. map_find (co_plans (co s5)) 2 = Some r \<and> (\<exists>g\<in>set (plan_stages (pr_plan r)). st_source g = 100))"
proof -
  have rec: "pr_plan (plan_record x p) = p" for x p by (simp add: plan_record_def Let_def)
  have evidence: "worker_evidence a b g (co_snap st)" if "serves ka a b g st" for g st using that by (simp add: serves_def)
  obtain out p ct where p: "planCommunication (proof_request 1) (co_snap (co s)) [] coordinator_bounds (co_counters (co s)) = (Inr out, ct)"
    "po_success out" "po_plan out = Some p" "plan_bound (co_snap (co s)) p" "length (pl_orderedStages p) = 1"
    using proof_route [OF evidence [OF assms(5)], of 1 "co_counters (co s)"] by auto
  note p1 = submit_planned [OF assms(4) _ _ _ _ p(1-3)]
  obtain st1 where st1: "\<forall>k. handleMessage k (wire_message (submission 1)) (co s) = Inr (send_plan_result k True p, st1)"
    "conversed 1 [1] st1" "backdrop st1 = backdrop (co s)" "co_plans st1 = map_assign 1 (plan_record (co_snap (co s)) p) (co_plans (co s))"
    using p1(3) by auto
  have kept: "pl_id p = 1" "plan_kept p" using p1(1,2) by simp_all
  obtain s1 where s1: "client_submitRequest put get (Some c) (mkReq 1 100 200 4096) s = Some (Inr (Some (wire_plan p)), s1)" "co s1 = st1" "ok s1"
    using told_plan [OF att(1) assms(3) att(2) st1(1) kept(2)] by auto
  obtain s2 where s2: "client_save put get (Some c) s1 = Some (Inr True, s2)" "co s2 = saveStore st1" "ok s2"
    using told_saved [OF att(1) s1(3) att(2)] s1(2) by auto
  obtain s3 where s3: "client_publishCongestion put get (Some c) 10 proof_congestion s2 = Some (Inr True, s3)" "ok s3"
    "co s3 = with_congestion 10 proof_congestion (saveStore st1)"
    using told_congestion [OF att(1) s2(3) att(2), unfolded s2(2)] .
  have bd: "backdrop (saveStore st1) = backdrop (co s)" by (simp add: st1(3))
  have same: "serves ka a b None (saveStore st1)" "plan_bound (co_snap (saveStore st1)) p"
    unfolding on_backdrop [OF bd] by (rule assms(5), rule p(4))
  note news = congestion_serves [OF same(1), where g = proof_congestion, folded s3(3)]
  have find3: "map_find (co_plans (co s3)) 1 = Some (plan_record (co_snap (co s)) p)" by (simp add: s3(3) st1(4) map_find_assign)
  obtain s4 where s4: "client_revalidate put get (Some c) 1 s3 = Some (Inr False, s4)" "ok s4"
    "co s4 = set_plan_state 1 PlanState.REVALIDATION_REQUIRED (co s3)"
    using told_stale [OF att(1) s3(2) att(2) find3] news(2) [OF same(2)] rec by auto
  have "conversed 1 [1] (co s3)" using st1(2) by (simp add: s3(3))
  note c4 = conversed_set_state [OF this find3, folded s4(3)]
  have ev4: "serves ka a b (Some proof_congestion) (co s4)" unfolding on_backdrop [OF c4(2)] by (rule news(1))
  obtain out2 p2 ct2 where p2: "planCommunication (proof_request 2) (co_snap (co s4)) [] coordinator_bounds (co_counters (co s4)) = (Inr out2, ct2)"
    "po_success out2" "po_plan out2 = Some p2" "length (pl_orderedStages p2) = 2" "\<exists>g\<in>set (plan_stages p2). st_source g = 100"
    using proof_route [OF evidence [OF ev4], of 2 "co_counters (co s4)"] by auto
  note q2 = submit_planned [OF c4(1) _ _ _ _ p2(1-3)]
  obtain st5 where st5: "\<forall>k. handleMessage k (wire_message (submission 2)) (co s4) = Inr (send_plan_result k True p2, st5)"
    "conversed 2 [1, 2] st5" "backdrop st5 = backdrop (co s4)" "co_plans st5 = map_assign 2 (plan_record (co_snap (co s4)) p2) (co_plans (co s4))"
    using q2(3) by (auto simp: numeral_2_eq_2)
  have kept2: "pl_id p2 = 2" "plan_kept p2" using q2(1,2) by simp_all
  obtain s5 where s5: "client_submitRequest put get (Some c) (mkReq 2 100 200 4096) s4 = Some (Inr (Some (wire_plan p2)), s5)" "co s5 = st5" "ok s5"
    using told_plan [OF att(1) s4(2) att(2) st5(1) kept2(2)] by auto
  have "serves ka a b (Some proof_congestion) (co s5)" unfolding s5(2) on_backdrop [OF st5(3)] by (rule ev4)
  moreover have "plan1_stale (co s5)"
    by (simp add: plan1_stale_def s5(2) st5(4) c4(3) map_find_assign)
  moreover have "\<exists>r. map_find (co_plans (co s5)) 2 = Some r \<and> (\<exists>g\<in>set (plan_stages (pr_plan r)). st_source g = 100)"
    using p2(5) by (simp add: s5(2) st5(4) map_find_assign rec)
  moreover have "client_revalidate put get (Some c) (pl_id (wire_plan p)) s3 = Some (Inr False, s4)" using s4(1) by (simp add: wire_plan_fields kept(1))
  moreover have "length (pl_orderedStages (wire_plan p)) = 1" "length (pl_orderedStages (wire_plan p2)) = 2" "pl_id (wire_plan p2) = 2"
    by (simp_all add: wire_plan_fields p(5) p2(4) kept2(1))
  moreover have "conversed 2 [1, 2] (co s5)" using st5(2) by (simp only: s5(2))
  ultimately show ?thesis using s1(1) s2(1) s3(1) s5(1,3) by blast
qed

lemma plan1_stale_assign: "plan1_stale st \<Longrightarrow> co_plans st' = map_assign j r (co_plans st) \<Longrightarrow> j \<noteq> 1 \<Longrightarrow> plan1_stale st'"
  by (simp add: plan1_stale_def map_find_assign)

text \<open>Worker A is gone: its plan is refused and there is no other.\<close>

lemma scene_loss:
  assumes att: "attached ok co put get k" "cl_connected c"
    and "ok s" and "conversed 2 [1, 2] (co s)" and "bereft a b (co s)" and "plan1_stale (co s)"
    and "map_find (co_plans (co s)) 2 = Some r" and "\<not> rv_ok (revalidatePlan (pr_plan r) (co_snap (co s)))"
  shows "\<exists>s1 s2. client_revalidate put get (Some c) 2 s = Some (Inr False, s1) \<and>
    client_submitRequest put get (Some c) (mkReq 3 100 200 4096) s1 = Some (Inr None, s2) \<and>
    ok s2 \<and> conversed 2 [1, 2, 3] (co s2) \<and> bereft a b (co s2) \<and> plan1_stale (co s2)"
proof -
  obtain s1 where s1: "client_revalidate put get (Some c) 2 s = Some (Inr False, s1)" "ok s1"
    "co s1 = set_plan_state 2 PlanState.REVALIDATION_REQUIRED (co s)"
    using told_stale [OF att(1) assms(3) att(2) assms(7,8)] .
  note c1 = conversed_set_state [OF assms(4,7), folded s1(3)]
  have bereft1: "bereft a b (co s1)" unfolding on_backdrop [OF c1(2)] by (rule assms(5))
  have frame: "co_cancelled (co s1) = []" "co_weights (co s1) = []" "co_bounds (co s1) = coordinator_bounds"
    using c1(1) by (simp_all add: conversed_def)
  obtain st2 where st2: "\<forall>k. handleMessage k (wire_message (submission 3)) (co s1) = Inr (send_plan_result k False default_CommunicationPlan, st2)"
    "conversed 2 ([1, 2] @ [3]) st2" "backdrop st2 = backdrop (co s1)" "co_plans st2 = co_plans (co s1)"
    using submit_infeasible [OF frame, of 3] bereft_infeasible [OF bereft1] c1(1) by fastforce
  obtain s2 where s2: "client_submitRequest put get (Some c) (mkReq 3 100 200 4096) s1 = Some (Inr None, s2)" "co s2 = st2" "ok s2"
    using told_plan [OF att(1) s1(2) att(2) st2(1)] by auto
  have "bereft a b (co s2)" unfolding s2(2) on_backdrop [OF st2(3)] by (rule bereft1)
  moreover have "plan1_stale (co s2)"
    by (rule plan1_stale_assign [OF assms(6), of _ 2]) (simp_all add: s2(2) st2(4) c1(3))
  ultimately show ?thesis using s1(1) s2(1,3) st2(2) by (auto simp: s2(2))
qed

text \<open>Worker A is back under another boot.\<close>

lemma scene_return:
  assumes att: "attached ok co put get k" "cl_connected c"
    and "ok s" and "conversed 2 [1, 2, 3] (co s)" and "both_published a b (co_snap (co s))" and "a \<noteq> 0" and "b \<noteq> 0" and "plan1_stale (co s)"
  shows "\<exists>p s1 s2 st. client_submitRequest put get (Some c) (mkReq 4 100 200 4096) s = Some (Inr (Some p), s1) \<and>
    client_save put get (Some c) s1 = Some (Inr True, s2) \<and> ok s2 \<and> co s2 = saveStore st \<and> conversed 3 [1, 2, 3, 4] st \<and> plan1_stale st"
proof -
  have feas: "destination_feasible (proof_request 4) (co_snap (co s)) coordinator_bounds (rq_source (proof_request 4)) 200"
    using both_published_feasible [OF assms(5-7)] by (simp add: proof_request_def proof_request_fields(4) mkReq_wire)
  obtain out p ct where "planPointToPoint (proof_request 4) (co_snap (co s)) [] coordinator_bounds 200 (co_counters (co s)) = (Inr out, ct)"
    "po_success out" "po_plan out = Some p"
    using planPointToPoint_feasible [OF feas, of "[]" "co_counters (co s)"] by (auto simp: p2p_result_def Let_def)
  moreover have "planCommunication (proof_request 4) (co_snap (co s)) [] coordinator_bounds (co_counters (co s)) =
      planPointToPoint (proof_request 4) (co_snap (co s)) [] coordinator_bounds 200 (co_counters (co s))"
    by (rule planCommunication_p2p [OF proof_request_valid]) (simp_all add: proof_request_fields)
  ultimately have p: "planCommunication (proof_request 4) (co_snap (co s)) [] coordinator_bounds (co_counters (co s)) = (Inr out, ct)"
    "po_success out" "po_plan out = Some p" by simp_all
  note made = submit_planned [OF assms(4) _ _ _ _ p]
  obtain st1 where st1: "\<forall>k. handleMessage k (wire_message (submission 4)) (co s) = Inr (send_plan_result k True p, st1)"
    "conversed (Suc 2) ([1, 2, 3] @ [4]) st1" "co_plans st1 = map_assign 3 (plan_record (co_snap (co s)) p) (co_plans (co s))"
    using made(3) by auto
  have "plan_kept p" using made(2) by simp
  then obtain s1 where s1: "client_submitRequest put get (Some c) (mkReq 4 100 200 4096) s = Some (Inr (Some (wire_plan p)), s1)" "co s1 = st1" "ok s1"
    using told_plan [OF att(1) assms(3) att(2) st1(1)] by auto
  obtain s2 where s2: "client_save put get (Some c) s1 = Some (Inr True, s2)" "co s2 = saveStore st1" "ok s2"
    using told_saved [OF att(1) s1(3) att(2), unfolded s1(2)] .
  have "conversed 3 [1, 2, 3, 4] st1" using st1(2) by (simp add: eval_nat_numeral)
  moreover have "plan1_stale st1" by (rule plan1_stale_assign [OF assms(8) st1(3)]) simp
  ultimately show ?thesis using s1(1) s2 by blast
qed

text \<open>The coordinator has been restarted on its store.\<close>

lemma scene_restart:
  assumes att: "attached ok co put get k" "cl_connected c"
    and "ok s" and "conversed n ids st" and "plan1_stale st"
    and "co s = snd (accept_connection k' (start_coordinator [] coordinator_bounds (co_file (saveStore st))))"
  shows "\<exists>s'. proof_second put get (Some c) s = Some ([True, True, True], s')"
proof -
  obtain r where r: "map_find (co_plans st) 1 = Some r" "pr_state r = PlanState.REVALIDATION_REQUIRED"
    using assms(5) by (auto simp: plan1_stale_def)
  note again = conversed_restart [OF assms(4) r(1)]
  have "recovered_state (pr_state r) = PlanState.REVALIDATION_REQUIRED" by (simp add: r(2) recovered_state_def)
  moreover have "map_find (co_plans (co s)) 1 = Some \<lparr>pr_plan = pr_plan r, pr_state = recovered_state (pr_state r), pr_worker = 0, pr_boot = 0\<rparr>"
    by (simp add: assms(6) again(1))
  ultimately obtain s1 where s1: "client_queryPlanState put get (Some c) 1 s =
      Some (Inr (True, int (enum_index all_PlanState PlanState.REVALIDATION_REQUIRED)), s1)" "co s1 = co s" "ok s1"
    using told_state [OF att(1) assms(3) att(2)] by (metis PlanRecord.select_convs(2))
  have frame: "co_cancelled (co s1) = []" "co_weights (co s1) = []" "co_bounds (co s1) = coordinator_bounds" "sn_endpoints (co_snap (co s1)) = []"
    unfolding s1(2) assms(6) by (simp_all add: accept_connection_def again(2-5))
  have "map_find (endpointMap (co_snap (co s1))) 100 = None" by (simp add: find_endpointMap frame(4))
  then have "\<not> destination_feasible (proof_request 99) (co_snap (co s1)) coordinator_bounds 100 200" by (intro dead_source_infeasible) simp
  from submit_infeasible [OF frame(1-3) _ this] obtain st2 where
    st2: "\<forall>k. handleMessage k (wire_message (submission 99)) (co s1) = Inr (send_plan_result k False default_CommunicationPlan, st2)" by auto
  obtain s2 where s2: "client_submitRequest put get (Some c) (mkReq 99 100 200 4096) s1 = Some (Inr None, s2)" "ok s2"
    using told_plan [OF att(1) s1(3) att(2) st2] by auto
  obtain s3 where "client_shutdown put get (Some c) s2 = Some (Inr True, s3)" using told_shutdown [OF att(1) s2(2) att(2)] .
  with s1(1) s2(1) show ?thesis by (simp add: proof_second_def answered_plan_def)
qed

section \<open>The run\<close>

text \<open>The client connects as soon as the coordinator listens.\<close>

lemma open_regardless: "client_open w get host port err c os = client_open w get host port err None os"
  by (simp add: client_open_def)

lemma coordinator_awaited:
  assumes "connection_laws mode co w put get port" and "turn_laws mode co w put get ps port"
    and "mode os = Starting q n f" and "n < tries"
  shows "\<exists>k os'. waitConnect w get (ps_sleep ps 50) port tries c os = (True, Some \<lparr>cl_sock = k, cl_connected = True\<rparr>, os') \<and>
    k \<noteq> INVALID_SOCKET \<and> mode os' = Running q [] Map.empty {k} \<and> co os' = snd (accept_connection k (start_coordinator [] coordinator_bounds f))"
  using assms(3,4)
proof (induction n arbitrary: os c tries)
  case 0
  then obtain m where "tries = Suc m" by (cases tries) auto
  with laws_connect(4) [OF assms(1) 0(1)] show ?case by (auto simp: connects_def open_regardless [where c = c])
next
  case (Suc n)
  then obtain m where m: "tries = Suc m" "n < m" by (cases tries) auto
  obtain e c' os' where o': "client_open w get ''127.0.0.1'' port [] None os = (False, e, c', os')" "client_idle c'" "mode os' = Starting q (Suc n) f"
    using laws_connect(3) [OF assms(1) Suc.prems(1)] by blast
  with Suc.IH [OF laws_turn(1) [OF assms(2) o'(3), of 50] m(2)] show ?case
    by (simp add: m(1) open_regardless [where c = c] client_close_idle)
qed

text \<open>A worker process whose session gets through has its connection at the end of its turn.\<close>

lemma worker_turn:
  assumes "connection_laws mode co w put get port" and "turn_laws mode co w put get ps port"
    and "mode os = Running q (Runs pid [exe, nat_str (unat port), role, boot] # ts) owned socks" and "card socks < 8" and "250 \<le> t"
    and "\<forall>k s. mode s = Running q ts owned (insert k socks) \<and> co s = snd (accept_connection k (co os)) \<longrightarrow>
      (\<exists>s'. worker_session (put k) (get k) (Some \<lparr>cl_sock = k, cl_connected = True\<rparr>) role (strtoull boot) s = Some (None, s') \<and>
        mode s' = Running q ts owned (insert k socks) \<and> co s' = F k)"
  shows "\<exists>k os'. ps_sleep ps t os = ps_sleep ps t os' \<and> k \<notin> socks \<and> mode os' = Running q ts (owned(pid \<mapsto> k)) (insert k socks) \<and> co os' = F k"
proof -
  obtain os0 where os0: "mode os0 = Running q ts owned socks" "co os0 = co os"
    "\<forall>e c os1 os2 socks'. client_open w get ''127.0.0.1'' port [] None os0 = (True, e, Some c, os1) \<and>
       worker_main w put get [exe, nat_str (unat port), role, boot] os0 = Some (None, os2) \<and> mode os2 = Running q ts owned socks' \<longrightarrow>
       (\<exists>os'. ps_sleep ps t os = ps_sleep ps t os' \<and> mode os' = Running q ts (owned(pid \<mapsto> cl_sock c)) socks' \<and> co os' = co os2)"
    using laws_turn(4) [OF assms(2,3,5)] by blast
  obtain k e os1 where k: "client_open w get ''127.0.0.1'' port [] None os0 = (True, e, Some \<lparr>cl_sock = k, cl_connected = True\<rparr>, os1)"
    "k \<notin> socks" "mode os1 = Running q ts owned (insert k socks)" "co os1 = snd (accept_connection k (co os))"
    using laws_connect(5) [OF assms(1) os0(1) assms(4)] by (auto simp: connects_def os0(2))
  obtain os2 where os2: "worker_session (put k) (get k) (Some \<lparr>cl_sock = k, cl_connected = True\<rparr>) role (strtoull boot) os1 = Some (None, os2)"
    "mode os2 = Running q ts owned (insert k socks)" "co os2 = F k"
    using assms(6) k(3,4) by blast
  have "worker_main w put get [exe, nat_str (unat port), role, boot] os0 = Some (None, os2)"
    using k(1) os2(1) by (simp add: worker_main_def port_argument client_sock_def)
  with os0(3) k(1) os2(2) obtain os' where "ps_sleep ps t os = ps_sleep ps t os'"
    "mode os' = Running q ts (owned(pid \<mapsto> k)) (insert k socks)" "co os' = co os2" by fastforce
  with k(2) os2(3) show ?thesis by auto
qed

lemma accept_fenced [simp]: "co_fenced (snd (accept_connection k st)) = co_fenced st"
  by (simp add: accept_connection_def)

lemma turn_of_A:
  assumes "connection_laws mode co w put get port" and "turn_laws mode co w put get ps port"
    and "mode os = Running q (Runs pid [exe, nat_str (unat port), ''A'', boot] # ts) owned socks" and "card socks < 8" and "250 \<le> t"
    and "strtoull boot = a" and "a \<noteq> 0" and "(1, a) \<notin> set (co_fenced (co os))"
  shows "\<exists>k os'. ps_sleep ps t os = ps_sleep ps t os' \<and> k \<notin> socks \<and> mode os' = Running q ts (owned(pid \<mapsto> k)) (insert k socks) \<and>
    co os' = session_result k 1 a ''A'' (worker_endpoints ''A'' a) (worker_links ''A'' a) (snd (accept_connection k (co os)))"
proof (rule worker_turn [OF assms(1-5)], intro allI impI, elim conjE)
  fix k s assume s: "mode s = Running q ts owned (insert k socks)" "co s = snd (accept_connection k (co os))"
  have "(1, a) \<notin> set (co_fenced (co s))" using assms(8) by (simp add: s(2))
  note fenced = this
  have att: "attached (\<lambda>os. mode os = Running q ts owned (insert k socks)) co (put k) (get k) k"
    by (rule laws_connect(6) [OF assms(1)]) simp
  have con: "cl_connected \<lparr>cl_sock = k, cl_connected = True\<rparr>" by simp
  obtain s' where "worker_session (put k) (get k) (Some \<lparr>cl_sock = k, cl_connected = True\<rparr>) ''A'' a s = Some (None, s')"
    "mode s' = Running q ts owned (insert k socks)"
    "co s' = session_result k 1 a ''A'' (worker_endpoints ''A'' a) (worker_links ''A'' a) (co s)"
    using session_of_A [OF att s(1) con assms(7) fenced] .
  then show "\<exists>s'. worker_session (put k) (get k) (Some \<lparr>cl_sock = k, cl_connected = True\<rparr>) ''A'' (strtoull boot) s = Some (None, s') \<and>
      mode s' = Running q ts owned (insert k socks) \<and>
      co s' = session_result k 1 a ''A'' (worker_endpoints ''A'' a) (worker_links ''A'' a) (snd (accept_connection k (co os)))"
    unfolding assms(6) s(2) by blast
qed

lemma turn_of_B:
  assumes "connection_laws mode co w put get port" and "turn_laws mode co w put get ps port"
    and "mode os = Running q (Runs pid [exe, nat_str (unat port), ''B'', boot] # ts) owned socks" and "card socks < 8" and "250 \<le> t"
    and "strtoull boot = b" and "b \<noteq> 0" and "(2, b) \<notin> set (co_fenced (co os))"
  shows "\<exists>k os'. ps_sleep ps t os = ps_sleep ps t os' \<and> k \<notin> socks \<and> mode os' = Running q ts (owned(pid \<mapsto> k)) (insert k socks) \<and>
    co os' = session_result k 2 b ''B'' (worker_endpoints ''B'' b) (worker_links ''B'' b) (snd (accept_connection k (co os)))"
proof (rule worker_turn [OF assms(1-5)], intro allI impI, elim conjE)
  fix k s assume s: "mode s = Running q ts owned (insert k socks)" "co s = snd (accept_connection k (co os))"
  have "(2, b) \<notin> set (co_fenced (co s))" using assms(8) by (simp add: s(2))
  note fenced = this
  have att: "attached (\<lambda>os. mode os = Running q ts owned (insert k socks)) co (put k) (get k) k"
    by (rule laws_connect(6) [OF assms(1)]) simp
  have con: "cl_connected \<lparr>cl_sock = k, cl_connected = True\<rparr>" by simp
  obtain s' where "worker_session (put k) (get k) (Some \<lparr>cl_sock = k, cl_connected = True\<rparr>) ''B'' b s = Some (None, s')"
    "mode s' = Running q ts owned (insert k socks)"
    "co s' = session_result k 2 b ''B'' (worker_endpoints ''B'' b) (worker_links ''B'' b) (co s)"
    by (rule session_of_B [OF att s(1) con assms(7) fenced, of "''B''"]) simp_all
  then show "\<exists>s'. worker_session (put k) (get k) (Some \<lparr>cl_sock = k, cl_connected = True\<rparr>) ''B'' (strtoull boot) s = Some (None, s') \<and>
      mode s' = Running q ts owned (insert k socks) \<and>
      co s' = session_result k 2 b ''B'' (worker_endpoints ''B'' b) (worker_links ''B'' b) (snd (accept_connection k (co os)))"
    unfolding assms(6) s(2) by blast
qed

text \<open>The two workers arrive.\<close>

lemma workers_arrive:
  assumes laws: "connection_laws mode co w put get port" "process_laws mode co ps coordExe workerExe port" "turn_laws mode co w put get ps port"
    and "mode os = Running q [] Map.empty {k}" and "backdrop (co os) = backdrop (start_coordinator [] coordinator_bounds None)"
    and "conversed 0 [] (co os)"
  shows "\<exists>pa pb ka kb os1 os2. spawn ps workerExe (worker_args port ''A'' ''1000'') os = (Some pa, os1) \<and>
    spawn ps workerExe (worker_args port ''B'' ''2000'') os1 = (Some pb, os2) \<and> pa \<noteq> pb \<and> distinct [k, ka, kb] \<and>
    mode (ps_sleep ps 300 os2) = Running q [] [pa \<mapsto> ka, pb \<mapsto> kb] {kb, ka, k} \<and>
    conversed 0 [] (co (ps_sleep ps 300 os2)) \<and> serves ka 1000 2000 None (co (ps_sleep ps 300 os2)) \<and> pa \<noteq> q"
proof -
  let ?A = "[workerExe, nat_str (unat port), ''A'', ''1000'']" and ?B = "[workerExe, nat_str (unat port), ''B'', ''2000'']"
  have fenced: "co_fenced (co os) = []" using assms(5) by (simp add: backdrop_def start_empty new_coordinator_def)
  obtain pa os1 where pa: "spawn ps workerExe (worker_args port ''A'' ''1000'') os = (Some pa, os1)"
    "mode os1 = Running q [Runs pa ?A] Map.empty {k}" "co os1 = co os" "pa \<noteq> q"
    using laws_process(3) [OF laws(2) assms(4), of "worker_args port ''A'' ''1000''"] by (auto simp: spawn_def program_arguments)
  obtain pb os2 where pb: "spawn ps workerExe (worker_args port ''B'' ''2000'') os1 = (Some pb, os2)" "pa \<noteq> pb"
    "mode os2 = Running q [Runs pa ?A, Runs pb ?B] Map.empty {k}" "co os2 = co os"
    using laws_process(3) [OF laws(2) pa(2), of "worker_args port ''B'' ''2000''"] by (auto simp: spawn_def program_arguments pa(3))
  obtain ka os3 where a: "ps_sleep ps 300 os2 = ps_sleep ps 300 os3" "ka \<noteq> k" "mode os3 = Running q [Runs pb ?B] [pa \<mapsto> ka] {ka, k}"
    "co os3 = session_result ka 1 1000 ''A'' (worker_endpoints ''A'' 1000) (worker_links ''A'' 1000) (snd (accept_connection ka (co os)))"
    using turn_of_A [OF laws(1,3) pb(3) _ _ boot_arguments(1), of 300] by (auto simp: pb(4) fenced)
  have "co_fenced (co os3) = []" by (simp add: a(4) session_result_def fenced)
  then obtain kb os4 where b: "ps_sleep ps 300 os3 = ps_sleep ps 300 os4" "kb \<notin> {ka, k}" "mode os4 = Running q [] [pa \<mapsto> ka, pb \<mapsto> kb] {kb, ka, k}"
    "co os4 = session_result kb 2 2000 ''B'' (worker_endpoints ''B'' 2000) (worker_links ''B'' 2000) (snd (accept_connection kb (co os3)))"
    using turn_of_B [OF laws(1,3) a(3) _ _ boot_arguments(2), of 300] a(2) by (auto simp del: fun_upd_apply simp: insert_commute)
  note rest = laws_turn(2) [OF laws(3) b(3), of 300, folded b(1) a(1)]
  have "backdrop (snd (accept_connection ka (co os))) = backdrop (start_coordinator [] coordinator_bounds None)" by (simp add: assms(5))
  from sessions_serve [OF this, of 1000 2000 ka kb] b(2) have "serves ka 1000 2000 None (co os4)" by (auto simp: b(4) a(4))
  moreover have "conversed 0 [] (co os4)" using assms(6) by (simp add: b(4) a(4))
  moreover have "distinct [k, ka, kb]" using a(2) b(2) by auto
  ultimately show ?thesis using pa(1,4) pb(1,2) rest
    by (intro exI [of _ pa] exI [of _ pb] exI [of _ ka] exI [of _ kb] exI [of _ os1] exI [of _ os2]) (simp del: fun_upd_apply)
qed

lemma worker_returns:
  assumes laws: "connection_laws mode co w put get port" "process_laws mode co ps coordExe workerExe port" "turn_laws mode co w put get ps port"
    and "mode os = Running q [] owned socks" and "bereft 1000 b (co os)" and "card socks < 8"
  shows "\<exists>pid k os1. spawn ps workerExe (worker_args port ''A'' ''3000'') os = (Some pid, os1) \<and>
    mode (ps_sleep ps 300 os1) = Running q [] (owned(pid \<mapsto> k)) (insert k socks) \<and>
    co (ps_sleep ps 300 os1) = session_result k 1 3000 ''A'' (worker_endpoints ''A'' 3000) (worker_links ''A'' 3000) (snd (accept_connection k (co os)))"
proof -
  obtain pid os1 where pid: "spawn ps workerExe (worker_args port ''A'' ''3000'') os = (Some pid, os1)"
    "mode os1 = Running q [Runs pid [workerExe, nat_str (unat port), ''A'', ''3000'']] owned socks" "co os1 = co os"
    using laws_process(3) [OF laws(2) assms(4), of "worker_args port ''A'' ''3000''"] by (auto simp: spawn_def program_arguments)
  have "(1, 3000) \<notin> set (co_fenced (co os1))" using assms(5) by (simp add: bereft_def pid(3))
  then obtain k os2 where os2: "ps_sleep ps 300 os1 = ps_sleep ps 300 os2" "mode os2 = Running q [] (owned(pid \<mapsto> k)) (insert k socks)"
    "co os2 = session_result k 1 3000 ''A'' (worker_endpoints ''A'' 3000) (worker_links ''A'' 3000) (snd (accept_connection k (co os)))"
    using turn_of_A [OF laws(1,3) pid(2) assms(6) _ boot_arguments(3), of 300] by (auto simp: pid(3) simp del: fun_upd_apply)
  with laws_turn(2) [OF laws(3) os2(2), of 300] pid(1) show ?thesis by (metis)
qed

text \<open>The first block: every assertion holds, and the store is what the coordinator knows at its end.\<close>

lemma first_block:
  assumes laws: "connection_laws mode co w put get port" "process_laws mode co ps coordExe workerExe port" "turn_laws mode co w put get ps port"
    and "mode os = Running q [] Map.empty {k}" and "backdrop (co os) = backdrop (start_coordinator [] coordinator_bounds None)"
    and "conversed 0 [] (co os)"
  shows "\<exists>wb wa2 os' owned socks st. proof_first ps (put k) (get k) (Some \<lparr>cl_sock = k, cl_connected = True\<rparr>) workerExe port os =
      Some (replicate 8 True, wb, wa2, os') \<and> mode os' = Running q [] owned socks \<and> k \<in> socks \<and> co os' = saveStore st \<and>
    conversed 3 [1, 2, 3, 4] st \<and> plan1_stale st"
proof -
  let ?c = "\<lparr>cl_sock = k, cl_connected = True\<rparr>"
  have con: "cl_connected ?c" by simp
  have att: "attached (\<lambda>os. mode os = Running q [] owned socks) co (put k) (get k) k" if "k \<in> socks" for owned socks
    using laws_connect(6) [OF laws(1) that] .
  obtain pa pb ka kb os1 os2 where arrive: "spawn ps workerExe (worker_args port ''A'' ''1000'') os = (Some pa, os1)"
    "spawn ps workerExe (worker_args port ''B'' ''2000'') os1 = (Some pb, os2)" "pa \<noteq> pb" "distinct [k, ka, kb]"
    "mode (ps_sleep ps 300 os2) = Running q [] [pa \<mapsto> ka, pb \<mapsto> kb] {kb, ka, k}"
    "conversed 0 [] (co (ps_sleep ps 300 os2))" "serves ka 1000 2000 None (co (ps_sleep ps 300 os2))" "pa \<noteq> q"
    using workers_arrive [OF assms] by blast
  have in1: "k \<in> {kb, ka, k}" by simp
  obtain p1 p2 s1 s2 s3 s4 s5 where one: "client_submitRequest (put k) (get k) (Some ?c) (mkReq 1 100 200 4096) (ps_sleep ps 300 os2) = Some (Inr (Some p1), s1)"
    "client_save (put k) (get k) (Some ?c) s1 = Some (Inr True, s2)"
    "client_publishCongestion (put k) (get k) (Some ?c) 10 proof_congestion s2 = Some (Inr True, s3)"
    "client_revalidate (put k) (get k) (Some ?c) (pl_id p1) s3 = Some (Inr False, s4)"
    "client_submitRequest (put k) (get k) (Some ?c) (mkReq 2 100 200 4096) s4 = Some (Inr (Some p2), s5)"
    "length (pl_orderedStages p1) = 1" "length (pl_orderedStages p2) = 2" "pl_id p2 = 2"
    "mode s5 = Running q [] [pa \<mapsto> ka, pb \<mapsto> kb] {kb, ka, k}" "conversed 2 [1, 2] (co s5)"
    "serves ka 1000 2000 (Some proof_congestion) (co s5)" "plan1_stale (co s5)"
    "\<exists>r. map_find (co_plans (co s5)) 2 = Some r \<and> (\<exists>g\<in>set (plan_stages (pr_plan r)). st_source g = 100)"
    using scene_congestion [OF att [OF in1] con arrive(5-7)] by blast
  define s6 where "s6 = ps_sleep ps 250 (snd (killChild ps (Some pa) s5))"
  have owner: "([pa \<mapsto> ka, pb \<mapsto> kb] :: nat \<rightharpoonup> SOCKET) pa = Some ka" using arrive(3) by simp
  note left = worker_leaves [OF laws_parts(1) [OF laws(2)] laws_parts(2) [OF laws(3)] one(9) arrive(8) owner order.refl, folded s6_def]
  obtain r where r: "map_find (co_plans (co s5)) 2 = Some r" "\<exists>g\<in>set (plan_stages (pr_plan r)). st_source g = 100" using one(13) by blast
  have in2: "k \<in> {kb, ka, k} - {ka}" using arrive(4) by simp
  have s6: "conversed 2 [1, 2] (co s6)" "bereft 1000 2000 (co s6)" "plan1_stale (co s6)" "map_find (co_plans (co s6)) 2 = Some r"
    "\<not> rv_ok (revalidatePlan (pr_plan r) (co_snap (co s6)))"
    using one(10,12) loss_bereaves [OF one(11)] r by (simp_all add: left(2) plan1_stale_def)
  obtain s7 s8 where two: "client_revalidate (put k) (get k) (Some ?c) 2 s6 = Some (Inr False, s7)"
    "client_submitRequest (put k) (get k) (Some ?c) (mkReq 3 100 200 4096) s7 = Some (Inr None, s8)"
    "mode s8 = Running q [] ([pa \<mapsto> ka, pb \<mapsto> kb](pa := None)) ({kb, ka, k} - {ka})" "conversed 2 [1, 2, 3] (co s8)" "bereft 1000 2000 (co s8)" "plan1_stale (co s8)"
    using scene_loss [OF att [OF in2] con left(1) s6] by blast
  have few: "card ({kb, ka, k} - {ka}) < 8" using arrive(4) by (auto simp: insert_Diff_if card_insert_if)
  obtain pid k3 s9 where ret: "spawn ps workerExe (worker_args port ''A'' ''3000'') s8 = (Some pid, s9)"
    "mode (ps_sleep ps 300 s9) = Running q [] ([pa \<mapsto> ka, pb \<mapsto> kb](pa := None, pid \<mapsto> k3)) (insert k3 ({kb, ka, k} - {ka}))"
    "co (ps_sleep ps 300 s9) = session_result k3 1 3000 ''A'' (worker_endpoints ''A'' 3000) (worker_links ''A'' 3000) (snd (accept_connection k3 (co s8)))"
    using worker_returns [OF laws two(3,5) few] by blast
  have in3: "k \<in> insert k3 ({kb, ka, k} - {ka})" using in2 by simp
  have "bereft 1000 2000 (snd (accept_connection k3 (co s8)))" using two(5) on_backdrop(2) [OF accept_conversed(3)] by blast
  then have pub: "both_published 3000 2000 (co_snap (co (ps_sleep ps 300 s9)))" unfolding ret(3) by (rule return_serves)
  have s9: "conversed 2 [1, 2, 3] (co (ps_sleep ps 300 s9))" "plan1_stale (co (ps_sleep ps 300 s9))"
    using two(4,6) by (simp_all add: ret(3) plan1_stale_def)
  have boots: "(3000 :: Generation) \<noteq> 0" "(2000 :: Generation) \<noteq> 0" by simp_all
  obtain p4 s10 s11 st where three: "client_submitRequest (put k) (get k) (Some ?c) (mkReq 4 100 200 4096) (ps_sleep ps 300 s9) = Some (Inr (Some p4), s10)"
    "client_save (put k) (get k) (Some ?c) s10 = Some (Inr True, s11)"
    "mode s11 = Running q [] ([pa \<mapsto> ka, pb \<mapsto> kb](pa := None, pid \<mapsto> k3)) (insert k3 ({kb, ka, k} - {ka}))"
    "co s11 = saveStore st" "conversed 3 [1, 2, 3, 4] st" "plan1_stale st"
    using scene_return [OF att [OF in3] con ret(2) s9(1) pub boots s9(2)] by blast
  have "replicate 8 True = [True, True, True, True, True, True, True, True]" by (simp add: eval_nat_numeral)
  then have "proof_first ps (put k) (get k) (Some ?c) workerExe port os = Some (replicate 8 True, Some pb, Some pid, s11)"
    using one(4,6-8) two(1)
    by (simp add: proof_first_def arrive(1,2) one(1-3,5) two(2) ret(1) three(1,2) assert_stale_def assert_stages_def answered_plan_def answered_flag_def
        Let_def flip: s6_def)
  with three(3-6) in3 show ?thesis by blast
qed

lemma client_closed:
  assumes "connection_laws mode co w put get port" and "mode os = Running q ts owned socks" and "k \<in> socks" and "k \<noteq> INVALID_SOCKET"
  shows "mode (snd (client_close w (Some \<lparr>cl_sock = k, cl_connected = True\<rparr>) os)) = Running q (ts @ [Lost k]) owned (socks - {k})"
    and "co (snd (client_close w (Some \<lparr>cl_sock = k, cl_connected = True\<rparr>) os)) = co os"
  using laws_connect(7) [OF assms(1-3)] assms(4) by (simp_all add: client_close_def closeSock_def)

text \<open>A coordinator that has been created is reached by the client.\<close>

lemma coordinator_created:
  assumes laws: "connection_laws mode co w put get port" "process_laws mode co ps coordExe workerExe port" "turn_laws mode co w put get ps port"
    and "mode os = Down f"
  shows "\<exists>q k os1 os'. spawn ps coordExe (coordinator_args port) os = (Some q, os1) \<and>
    waitConnect w get (ps_sleep ps 50) port 60 None os1 = (True, Some \<lparr>cl_sock = k, cl_connected = True\<rparr>, os') \<and> k \<noteq> INVALID_SOCKET \<and>
    mode os' = Running q [] Map.empty {k} \<and> co os' = snd (accept_connection k (start_coordinator [] coordinator_bounds f))"
proof -
  obtain q n os1 where q: "ps_create ps (command_line coordExe (coordinator_args port)) os = (Some q, os1)" "n < 60" "mode os1 = Starting q n f"
    using laws_process(2) [OF laws(2), OF assms(4) program_arguments(1)] by blast
  with coordinator_awaited [OF laws(1,3) q(3,2)] show ?thesis unfolding spawn_def by blast
qed


definition quiet_host :: Host where
  "quiet_host =
     \<lparr>hs_mode = Down (Some [1, 2, 3]),
      hs_net = \<lparr>nw_co = new_coordinator [] default_Bounds None, nw_in = (\<lambda>_. []), nw_out = (\<lambda>_. [])\<rparr>, hs_pids = 0\<rparr>"


end
