(* ===== verification/Death_Proof.thy ===== *)
theory Death_Proof
  imports Multiprocess Worker_Log Cuda_Theorems
begin

text \<open>
  The program of \<open>apps/cuda_worker_death_proof.cpp\<close>: it starts a coordinator and a CUDA worker as processes of
  their own, has a plan executed by the worker, kills the worker, replays what the dead boot could still
  say, starts the worker again under another boot and has another plan executed. Processes and sockets are
  parameters as in \<open>Multiprocess\<close>; so are the two calls that look at files.
\<close>

section \<open>Files\<close>

record 'o Files =
  fi_found :: "string \<Rightarrow> 'o \<Rightarrow> bool"
  fi_contents :: "'o \<Rightarrow> string \<Rightarrow> string option"

section \<open>The program\<close>

definition death_args :: "u16 \<Rightarrow> string" where
  "death_args port = '' '' @ nat_str (unat port) @ '' '' @ ''cuda_worker_store.bin''"

definition death_payload :: u64 where
  "death_payload = push_bit 20 4"

text \<open>The identity of a process, 0 for a child that is not valid.\<close>

definition child_pid :: "Child \<Rightarrow> nat" where
  "child_pid c = (case c of None \<Rightarrow> 0 | Some pid \<Rightarrow> pid)"

text \<open>The plan that is left in the variable when no request was answered with one.\<close>

definition kept_plan :: "CommunicationPlan option \<Rightarrow> CommunicationPlan" where
  "kept_plan made = (case made of None \<Rightarrow> default_CommunicationPlan | Some p \<Rightarrow> p)"

definition answered_state :: "string + bool \<times> int \<Rightarrow> int" where
  "answered_state r = (case r of Inl _ \<Rightarrow> - 1 | Inr (_, st) \<Rightarrow> st)"

definition completed_state :: int where
  "completed_state = int (enum_index all_PlanState PlanState.COMPLETED)"

text \<open>The lambda \<open>submitUntilFeasible\<close>, with the number of attempts that are left.\<close>

fun submitUntilFeasible ::
  "'o Processes \<Rightarrow> 'o sender \<Rightarrow> 'o receiver \<Rightarrow> Client option \<Rightarrow> CommunicationRequestId \<Rightarrow> u64 \<Rightarrow> nat \<Rightarrow> 'o \<Rightarrow>
     (CommunicationPlan option \<times> 'o) option" where
  "submitUntilFeasible ps put get c rid payload 0 os = Some (None, os)"
| "submitUntilFeasible ps put get c rid payload (Suc n) os =
     do {
       (r, os1) \<leftarrow> client_submitRequest put get c (cuda_mkReq rid payload) os;
       case answered_plan r of
         Some p \<Rightarrow> Some (Some p, os1)
       | None \<Rightarrow> submitUntilFeasible ps put get c rid payload n (ps_sleep ps 50 os1)
     }"

text \<open>The loop that polls for the result of the worker.\<close>

fun awaitCompleted ::
  "'o Processes \<Rightarrow> 'o sender \<Rightarrow> 'o receiver \<Rightarrow> Client option \<Rightarrow> CommunicationPlanId \<Rightarrow> nat \<Rightarrow> 'o \<Rightarrow> 'o option" where
  "awaitCompleted ps put get c i 0 os = Some os"
| "awaitCompleted ps put get c i (Suc n) os =
     do {
       (r, os1) \<leftarrow> client_queryPlanState put get c i os;
       if answered_state r = completed_state then Some os1
       else awaitCompleted ps put get c i n (ps_sleep ps 10 os1)
     }"

text \<open>
  Commit, revalidation, handoff, the wait for the result, the evidence file of the boot and the last query:
  the outcomes of the five assertions.
\<close>

definition carry_out ::
  "'o Processes \<Rightarrow> 'o Files \<Rightarrow> 'o sender \<Rightarrow> 'o receiver \<Rightarrow> Client option \<Rightarrow> u64 \<Rightarrow> CommunicationPlanId \<Rightarrow> 'o \<Rightarrow>
     (bool list \<times> 'o) option" where
  "carry_out ps fi put get c boot i os0 =
     do {
       (commit, os1) \<leftarrow> client_commitPlan put get c i os0;
       (fresh, os2) \<leftarrow> client_revalidate put get c i os1;
       (handoff, os3) \<leftarrow> client_executionHandoff put get c i os2;
       os4 \<leftarrow> awaitCompleted ps put get c i 400 os3;
       let logged = fst (workerLogOk (fi_contents fi os4) boot (0, 0));
       (st, os5) \<leftarrow> client_queryPlanState put get c i os4;
       Some ([answered_flag False commit, answered_flag False fresh, answered_flag False handoff, logged,
              answered_state st = completed_state], os5)
     }"

text \<open>The first scenario: the outcomes of the assertions, and the plan.\<close>

definition death_first ::
  "'o Processes \<Rightarrow> 'o Files \<Rightarrow> 'o sender \<Rightarrow> 'o receiver \<Rightarrow> Client option \<Rightarrow> 'o \<Rightarrow>
     (bool list \<times> CommunicationPlan option \<times> 'o) option" where
  "death_first ps fi put get c os0 =
     do {
       (made, os1) \<leftarrow> submitUntilFeasible ps put get c 1 death_payload 40 os0;
       case made of
         None \<Rightarrow> Some ([False], None, os1)
       | Some p \<Rightarrow> do {
           (log, os2) \<leftarrow> carry_out ps fi put get c 1000 (pl_id p) os1;
           Some ([True, length (pl_orderedStages p) = 1] @ log, made, os2)
         }
     }"

text \<open>What the stale client replays.\<close>

definition ghost_endpoint :: Endpoint where
  "ghost_endpoint =
     default_Endpoint\<lparr>ep_id := 1, ep_generation := 1, ep_kind := EndpointKind.GPU_DEVICE, ep_node := 1, ep_ready := True,
       ep_reachable := True, ep_health := (ep_health default_Endpoint)\<lparr>he_healthy := True\<rparr>,
       ep_capability := (ep_capability default_Endpoint)\<lparr>
         cap_transports := set_insert Transport.CUDA (cap_transports (ep_capability default_Endpoint))\<rparr>\<rparr>"

definition ghost_link :: Link where
  "ghost_link =
     default_Link\<lparr>ln_id := 1, ln_generation := 1, ln_source := 1, ln_destination := 2, ln_transport := Transport.CUDA,
       ln_directed := True, ln_capacity := 1, ln_health := (ln_health default_Link)\<lparr>he_healthy := True\<rparr>\<rparr>"

text \<open>The stale client's connection is closed at the end of its block.\<close>

definition death_stale ::
  "'o Winsock \<Rightarrow> (SOCKET \<Rightarrow> 'o sender) \<Rightarrow> (SOCKET \<Rightarrow> 'o receiver) \<Rightarrow> Client option \<Rightarrow> u16 \<Rightarrow> CommunicationPlanId \<Rightarrow> 'o \<Rightarrow>
     (bool list \<times> 'o) option" where
  "death_stale w put get ctrl port i os0 =
     (let (_, _, stale, os1) = client_open w get ''127.0.0.1'' port [] None os0; k = client_sock stale
      in do {
           (reg, os2) \<leftarrow> client_registerWorker (put k) (get k) stale 1 1000 ''oldA'' os1;
           (ep, os3) \<leftarrow> client_publishEndpoint (put k) (get k) stale 1 1000 ghost_endpoint os2;
           (ln, os4) \<leftarrow> client_publishLink (put k) (get k) stale 1 1000 ghost_link os3;
           (_, os5) \<leftarrow> client_executionResult (put k) (get k) stale i True os4;
           (st, os6) \<leftarrow> client_queryPlanState (put (client_sock ctrl)) (get (client_sock ctrl)) ctrl i os5;
           Some ([\<not> answered_flag False reg, \<not> answered_flag False ep, \<not> answered_flag False ln,
                  answered_state st \<noteq> completed_state], snd (client_close w stale os6))
         })"

text \<open>The second scenario, from the death of the worker.\<close>

definition death_second ::
  "'o Winsock \<Rightarrow> (SOCKET \<Rightarrow> 'o sender) \<Rightarrow> (SOCKET \<Rightarrow> 'o receiver) \<Rightarrow> 'o Processes \<Rightarrow> Client option \<Rightarrow> u16 \<Rightarrow> Child \<Rightarrow>
     CommunicationPlanId \<Rightarrow> 'o \<Rightarrow> (bool list \<times> 'o) option" where
  "death_second w put get ps ctrl port wa i os0 =
     (let os1 = ps_sleep ps 300 (snd (killChild ps wa os0)); k = client_sock ctrl
      in do {
           (fresh, os2) \<leftarrow> client_revalidate (put k) (get k) ctrl i os1;
           (handoff, os3) \<leftarrow> client_executionHandoff (put k) (get k) ctrl i os2;
           (log, os4) \<leftarrow> death_stale w put get ctrl port i os3;
           Some ([child_pid wa \<noteq> 0, \<not> answered_flag True fresh, \<not> answered_flag True handoff] @ log, os4)
         })"

text \<open>The third scenario: the worker under a fresh boot, and the old boot once more.\<close>

definition death_third ::
  "'o Winsock \<Rightarrow> (SOCKET \<Rightarrow> 'o sender) \<Rightarrow> (SOCKET \<Rightarrow> 'o receiver) \<Rightarrow> 'o Processes \<Rightarrow> 'o Files \<Rightarrow> Client option \<Rightarrow> string \<Rightarrow> u16 \<Rightarrow>
     nat \<Rightarrow> u64 \<Rightarrow> 'o \<Rightarrow> (bool list \<times> Child \<times> 'o) option" where
  "death_third w put get ps fi ctrl workerExe port pidA oldPlanGen os0 =
     (let (wa2, os1) = spawn ps workerExe (worker_args port ''A'' ''3000'') os0; k = client_sock ctrl
      in do {
           (made, os2) \<leftarrow> submitUntilFeasible ps (put k) (get k) ctrl 2 death_payload 40 os1;
           (log, os3) \<leftarrow> (case made of
               None \<Rightarrow> Some ([False], os2)
             | Some p \<Rightarrow> do {
                 (log, os3) \<leftarrow> carry_out ps fi (put k) (get k) ctrl 3000 (pl_id p) os2;
                 Some ([True, oldPlanGen < pl_generation p] @ log, os3)
               });
           let (_, _, stale, os4) = client_open w get ''127.0.0.1'' port [] None os3;
           (reg, os5) \<leftarrow> client_registerWorker (put (client_sock stale)) (get (client_sock stale)) stale 1 1000 ''oldA'' os4;
           Some ([child_pid wa2 \<noteq> 0 \<and> child_pid wa2 \<noteq> pidA] @ log @ [\<not> answered_flag False reg], wa2,
                 snd (client_close w stale os5))
         })"

text \<open>
  The exit code with the outcomes of the assertions. The client is destroyed when the program returns,
  after the children have been killed. \<open>None\<close>: sending never ends.
\<close>

definition death_run ::
  "'o Winsock \<Rightarrow> (SOCKET \<Rightarrow> 'o sender) \<Rightarrow> (SOCKET \<Rightarrow> 'o receiver) \<Rightarrow> 'o Processes \<Rightarrow> 'o Files \<Rightarrow> Client option \<Rightarrow> string \<Rightarrow> u16 \<Rightarrow>
     Child \<Rightarrow> 'o \<Rightarrow> ((int \<times> bool list) \<times> 'o) option" where
  "death_run w put get ps fi ctrl workerExe port coord os0 =
     (let (wa, os1) = spawn ps workerExe (worker_args port ''A'' ''1000'') os0
      in do {
           (log1, made, os2) \<leftarrow> death_first ps fi (put (client_sock ctrl)) (get (client_sock ctrl)) ctrl os1;
           let planOld = kept_plan made;
           (log2, os3) \<leftarrow> death_second w put get ps ctrl port wa (pl_id planOld) os2;
           (log3, wa2, os4) \<leftarrow> death_third w put get ps fi ctrl workerExe port (child_pid wa) (pl_generation planOld) os3;
           let os5 = snd (killChild ps coord (snd (killChild ps wa2 os4)));
           let log = log1 @ log2 @ log3;
           Some ((if list_all id log then 0 else 1, log), snd (client_close w ctrl os5))
         })"

definition death_main ::
  "'o Winsock \<Rightarrow> (SOCKET \<Rightarrow> 'o sender) \<Rightarrow> (SOCKET \<Rightarrow> 'o receiver) \<Rightarrow> 'o Processes \<Rightarrow> 'o Files \<Rightarrow> string list \<Rightarrow> 'o \<Rightarrow>
     ((int \<times> bool list) \<times> 'o) option" where
  "death_main w put get ps fi argv os0 =
     (case argv of
        _ # coordExe # others \<Rightarrow>
          (let workerExe = (case others of exe # _ \<Rightarrow> exe | [] \<Rightarrow> ''cp_cuda_worker.exe'')
           in if \<not> fi_found fi workerExe os0 then Some ((77, []), os0)
              else
                let (port, os1) = freePort w os0
                in if port = 0 then Some ((1, []), os1)
                   else
                     let (coord, os2) = spawn ps coordExe (death_args port) (ps_remove ps ''cuda_worker_store.bin'' os1)
                     in if coord = None then Some ((1, []), os2)
                        else
                          let (ready, ctrl, os3) = waitConnect w get (ps_sleep ps 50) port 60 None os2
                          in if \<not> ready then Some ((1, []), snd (client_close w ctrl os3))
                             else death_run w put get ps fi ctrl workerExe port coord os3)
      | _ \<Rightarrow> Some ((2, []), os0))"

section \<open>The verdict\<close>

text \<open>How many assertions a scenario makes, when its plan was feasible and when it was not.\<close>

lemma carry_out_log:
  assumes "carry_out ps fi put get c boot i os = Some (log, os')"
  shows "length log = 5"
  using assms by (auto simp: carry_out_def Let_def split: Option.bind_splits)

lemma death_first_log:
  assumes "death_first ps fi put get c os = Some (log, made, os')"
  shows "length log = 7 \<or> log = [False]"
  using assms carry_out_log by (fastforce simp: death_first_def split: Option.bind_splits option.splits)

lemma death_second_log:
  assumes "death_second w put get ps ctrl port wa i os = Some (log, os')"
  shows "length log = 7"
  using assms by (auto simp: death_second_def death_stale_def Let_def split: Option.bind_splits prod.splits)

lemma death_third_log:
  assumes "death_third w put get ps fi ctrl exe port pid g os = Some (log, wa2, os')"
  shows "length log = 9 \<or> False \<in> set log"
  using assms carry_out_log by (fastforce simp: death_third_def Let_def split: Option.bind_splits prod.splits option.splits)

end
