(* ===== verification/Death_Theorems.thy ===== *)
theory Death_Theorems
  imports Multiprocess_Theorems Death_Proof
begin

text \<open>
  What the verdict of \<open>apps/cuda_worker_death_proof.cpp\<close> means, and that its second scenario passes: after the
  death of the worker neither its plan nor its boot is good for anything.
\<close>

section \<open>Calls that are refused\<close>

text \<open>A boot of worker 1 that can neither register nor publish.\<close>

definition powerless :: "Generation \<Rightarrow> Coordinator \<Rightarrow> bool" where
  "powerless a st \<longleftrightarrow> a \<noteq> 0 \<and> (1, a) \<in> set (co_fenced st) \<and> (\<forall>w. map_find (co_workers st) 1 = Some w \<longrightarrow> \<not> wi_alive w \<or> wi_boot w \<noteq> a)"

lemma powerless_publisher: "powerless a st \<Longrightarrow> ms_worker m = 1 \<Longrightarrow> ms_boot m = a \<Longrightarrow> publisher m st = None"
  by (auto simp: powerless_def publisher_def split: option.split)

lemma powerless_frame [simp]:
  "powerless a (set_plan_state j x st) = powerless a st" "powerless a (snd (accept_connection k st)) = powerless a st"
  by (simp_all add: powerless_def accept_connection_def)

lemma lost_powerless:
  assumes "cuda_served st a kw"
  shows "powerless a (disconnect kw st)"
proof -
  obtain w where w: "map_find (co_workers st) 1 = Some w" "wi_boot w = a" and find: "map_find (co_socketToWorker st) kw = Some 1"
    and "a \<noteq> 0" using assms by (auto simp: cuda_served_def)
  have "disconnect kw st = end_connection kw ((fenceWorker 1 st)\<lparr>co_socketToWorker := map_erase kw (co_socketToWorker st)\<rparr>)"
    by (simp add: disconnect_def fence_connection_def find)
  then show ?thesis
    using cuda_lost(1) [OF assms] \<open>a \<noteq> 0\<close> by (simp add: powerless_def) (simp add: end_connection_def fenceWorker_def w Let_def map_find_assign)
qed

lemma ghosts_fit:
  "message_ok (default_Message\<lparr>ms_type := PUBLISH_ENDPOINT, ms_worker := 1, ms_boot := a, ms_endpoint := ghost_endpoint\<rparr>)"
  "length (encodeMessage (default_Message\<lparr>ms_type := PUBLISH_ENDPOINT, ms_worker := 1, ms_boot := a, ms_endpoint := ghost_endpoint\<rparr>)) + 25 \<le> kMaxFramePayload"
  "message_ok (default_Message\<lparr>ms_type := PUBLISH_LINK, ms_worker := 1, ms_boot := a, ms_link := ghost_link\<rparr>)"
  "length (encodeMessage (default_Message\<lparr>ms_type := PUBLISH_LINK, ms_worker := 1, ms_boot := a, ms_link := ghost_link\<rparr>)) + 25 \<le> kMaxFramePayload"
  by (simp_all add: message_ok_def endpoint_ok_def encodeMessage_def encEndpoint_def encLink_def enc_congestion_def enc_capacity_def w_transports_def
      length_bytewise ghost_endpoint_def ghost_link_def default_Endpoint_def default_Capability_def default_TopologyLocation_def default_Link_def str_ok_def kMaxCount_def
      kMaxFramePayload_def set_ok_def)

lemma told_error:
  assumes "attached ok co put get k" and "ok s" and "cl_connected c" and "message_ok m" and "length (encodeMessage m) + 25 \<le> kMaxFramePayload"
    and "handleMessage k (wire_message m) (co s) = Inr (sendError k e, co s)" and "length e \<le> 1000"
  shows "\<exists>s'. on_reply f (client_call put get (Some c) m s) = Some (Inl e, s') \<and> co s' = co s \<and> ok s'"
  by (rule attached_error [OF assms]) (auto simp: on_reply_def)

lemma told_refusals:
  assumes "attached ok co put get k" and "ok s" and "cl_connected c" and "powerless a (co s)"
  shows "\<exists>s'. client_registerWorker put get (Some c) 1 a ''oldA'' s = Some (Inl ''fenced boot authority'', s') \<and> co s' = co s \<and> ok s'"
    and "\<exists>s'. client_publishEndpoint put get (Some c) 1 a ghost_endpoint s = Some (Inl ''stale publisher authority'', s') \<and> co s' = co s \<and> ok s'"
    and "\<exists>s'. client_publishLink put get (Some c) 1 a ghost_link s = Some (Inl ''stale publisher authority'', s') \<and> co s' = co s \<and> ok s'"
proof -
  note plain = handleMessage_def wire_message_def default_Message_def
  have none: "publisher m (co s) = None" if "ms_worker m = 1" "ms_boot m = a" for m
    using powerless_publisher [OF assms(4) that] .
  show "\<exists>s'. client_registerWorker put get (Some c) 1 a ''oldA'' s = Some (Inl ''fenced boot authority'', s') \<and> co s' = co s \<and> ok s'"
    unfolding client_registerWorker_def
  proof (rule told_error [OF assms(1-3)])
    show "handleMessage k (wire_message (default_Message\<lparr>ms_type := REGISTER, ms_worker := 1, ms_boot := a, ms_name := ''oldA''\<rparr>)) (co s) =
        Inr (sendError k ''fenced boot authority'', co s)"
      using assms(4) by (simp add: plain handle_register_def isNull_def powerless_def)
  qed (simp_all add: message_ok_def str_ok_def kMaxCount_def encodeMessage_def kMaxFramePayload_def)
  show "\<exists>s'. client_publishEndpoint put get (Some c) 1 a ghost_endpoint s = Some (Inl ''stale publisher authority'', s') \<and> co s' = co s \<and> ok s'"
    unfolding client_publishEndpoint_def
    by (rule told_error [OF assms(1-3) ghosts_fit(1,2)]) (simp_all add: plain handle_publish_endpoint_def none)
  show "\<exists>s'. client_publishLink put get (Some c) 1 a ghost_link s = Some (Inl ''stale publisher authority'', s') \<and> co s' = co s \<and> ok s'"
    unfolding client_publishLink_def
    by (rule told_error [OF assms(1-3) ghosts_fit(3,4)]) (simp_all add: plain handle_publish_link_def none)
qed

lemma told_no_handoff:
  assumes "attached ok co put get k" and "ok s" and "cl_connected c"
    and "map_find (co_plans (co s)) j = Some r" and "\<not> rv_ok (revalidatePlan (pr_plan r) (co_snap (co s)))"
  obtains s' where "client_executionHandoff put get (Some c) j s = Some (Inr False, s')" and "ok s'"
    and "co s' = set_plan_state j PlanState.REVALIDATION_REQUIRED (co s)"
proof -
  let ?m = "default_Message\<lparr>ms_type := EXECUTION_HANDOFF, ms_planId := j\<rparr>"
  have "message_ok ?m" "length (encodeMessage ?m) + 25 \<le> kMaxFramePayload"
    by (simp_all add: message_ok_def encodeMessage_def kMaxFramePayload_def)
  moreover have "handleMessage k (wire_message ?m) (co s) =
      Inr (send_result k False j, set_plan_state j PlanState.REVALIDATION_REQUIRED (co s))"
    using assms(4,5) by (simp add: handleMessage_def wire_message_def default_Message_def handle_handoff_def)
  ultimately show thesis
    by (rule attached_result [OF assms(1-3)]) (rule that, simp_all add: client_executionHandoff_def on_reply_def)
qed

text \<open>A result for a plan that is not being executed changes nothing.\<close>

lemma told_stale_result:
  assumes "attached ok co put get k" and "ok s" and "cl_connected c"
    and "map_find (co_plans (co s)) j = Some r" and "pr_state r = PlanState.REVALIDATION_REQUIRED"
  obtains s' where "client_executionResult put get (Some c) j x s = Some (Inr False, s')" and "co s' = co s" and "ok s'"
proof -
  let ?m = "default_Message\<lparr>ms_type := EXECUTION_RESULT, ms_planId := j, ms_ok := x\<rparr>"
  have "message_ok ?m" "length (encodeMessage ?m) + 25 \<le> kMaxFramePayload"
    by (simp_all add: message_ok_def encodeMessage_def kMaxFramePayload_def)
  moreover have "send_stale_result k j = send_result k False j"
    by (simp add: send_stale_result_def send_result_def send_message_def encodeMessage_def)
  then have "handleMessage k (wire_message ?m) (co s) = Inr (send_result k False j, co s)"
    using assms(4,5) by (simp add: handleMessage_def wire_message_def default_Message_def handle_execution_result_def)
  ultimately show thesis
    by (rule attached_result [OF assms(1-3)]) (rule that, simp_all add: client_executionResult_def on_reply_def)
qed

section \<open>The second scenario\<close>

lemma stale_client_turned_away:
  assumes "connection_laws mode co w put get port" and "mode os = Running q ts owned socks" and "kc \<in> socks" and "card socks < 8"
    and "powerless 1000 (co os)" and "map_find (co_plans (co os)) j = Some r" and "pr_state r = PlanState.REVALIDATION_REQUIRED"
  shows "\<exists>k os'. death_stale w put get (Some \<lparr>cl_sock = kc, cl_connected = True\<rparr>) port j os = Some ([True, True, True, True], os') \<and>
    mode os' = Running q (ts @ [Lost k]) owned socks \<and> co os' = snd (accept_connection k (co os))"
proof -
  let ?c = "\<lambda>k. \<lparr>cl_sock = k, cl_connected = True\<rparr>"
  have con: "cl_connected (?c k)" for k by simp
  obtain k e os1 where k: "client_open w get ''127.0.0.1'' port [] None os = (True, e, Some (?c k), os1)" "k \<notin> socks" "k \<noteq> INVALID_SOCKET"
    "mode os1 = Running q ts owned (insert k socks)" "co os1 = snd (accept_connection k (co os))"
    using laws_connect(5) [OF assms(1,2,4)] unfolding connects_def by blast
  let ?ok = "\<lambda>os. mode os = Running q ts owned (insert k socks)"
  have att: "attached ?ok co (put k) (get k) k" "attached ?ok co (put kc) (get kc) kc"
    using assms(3) by (auto intro: laws_connect(6) [OF assms(1)])
  have st: "powerless 1000 (co os1)" "map_find (co_plans (co os1)) j = Some r" using assms(5,6) by (simp_all add: k(5))
  obtain os2 where reg: "client_registerWorker (put k) (get k) (Some (?c k)) 1 1000 ''oldA'' os1 = Some (Inl ''fenced boot authority'', os2)"
    "co os2 = co os1" "?ok os2" using told_refusals(1) [OF att(1), OF k(4) con st(1)] by blast
  obtain os3 where ep: "client_publishEndpoint (put k) (get k) (Some (?c k)) 1 1000 ghost_endpoint os2 = Some (Inl ''stale publisher authority'', os3)"
    "co os3 = co os1" "?ok os3" using told_refusals(2) [OF att(1), OF reg(3) con] st(1) by (auto simp: reg(2))
  obtain os4 where ln: "client_publishLink (put k) (get k) (Some (?c k)) 1 1000 ghost_link os3 = Some (Inl ''stale publisher authority'', os4)"
    "co os4 = co os1" "?ok os4" using told_refusals(3) [OF att(1), OF ep(3) con] st(1) by (auto simp: ep(2))
  obtain os5 where res: "client_executionResult (put k) (get k) (Some (?c k)) j True os4 = Some (Inr False, os5)" "co os5 = co os1" "?ok os5"
    using told_stale_result [OF att(1), OF ln(3) con _ assms(7), of j] st(2) by (auto simp: ln(2))
  obtain os6 where qry: "client_queryPlanState (put kc) (get kc) (Some (?c kc)) j os5 =
      Some (Inr (True, int (enum_index all_PlanState PlanState.REVALIDATION_REQUIRED)), os6)" "co os6 = co os1" "?ok os6"
    using told_state [OF att(2), OF res(3) con, of j r] st(2) by (auto simp: res(2) assms(7))
  have "int (enum_index all_PlanState PlanState.REVALIDATION_REQUIRED) \<noteq> completed_state"
    by (simp add: completed_state_def all_PlanState_def)
  then have "death_stale w put get (Some (?c kc)) port j os = Some ([True, True, True, True], snd (client_close w (Some (?c k)) os6))"
    by (simp add: death_stale_def k(1) client_sock_def reg(1) ep(1) ln(1) res(1) qry(1) answered_flag_def answered_state_def)
  moreover note client_closed [OF assms(1) qry(3) insertI1 k(3)]
  ultimately show ?thesis using k(2,5) qry(2) by auto
qed

text \<open>C21: the second scenario of \<open>apps/cuda_worker_death_proof.cpp\<close> passes. When the CUDA worker, registered under boot 1000,
  is killed by the program, and the system notices the loss of its connection while the program sleeps,
  then all seven assertions of the scenario hold, whatever the state of the plan was (completed or
  not): revalidation and handoff of the plan are refused, a client that returns under the old boot can neither
  register nor publish an endpoint or a link, and a result it reports does not complete the plan.
  Afterwards the plan is to be revalidated and the old boot still fenced.\<close>

theorem death_second_passes:
  assumes "connection_laws mode co w put get port" and "ending_laws mode co ps" and "nap_laws mode co ps"
    and "mode os = Running q [] owned socks" and "card socks < 8" and "owned pid = Some kw" and "pid \<noteq> q" and "pid \<noteq> 0"
    and "kc \<in> socks" and "kc \<noteq> kw" and "cuda_served (co os) 1000 kw"
    and "map_find (co_plans (co os)) j = Some r" and "g \<in> set (plan_stages (pr_plan r))" and "st_source g = 1"
  shows "\<exists>k os'. death_second w put get ps (Some \<lparr>cl_sock = kc, cl_connected = True\<rparr>) port (Some pid) j os = Some (replicate 7 True, os') \<and>
    mode os' = Running q [Lost k] (owned(pid := None)) (socks - {kw}) \<and> planState j (co os') = PlanState.REVALIDATION_REQUIRED \<and>
    (1, 1000) \<in> set (co_fenced (co os'))"
proof -
  let ?c = "\<lparr>cl_sock = kc, cl_connected = True\<rparr>" and ?x = "PlanState.REVALIDATION_REQUIRED"
  have con: "cl_connected ?c" by simp
  define os1 where "os1 = ps_sleep ps 300 (snd (killChild ps (Some pid) os))"
  have "250 \<le> (300 :: nat)" by simp
  note left = worker_leaves [OF assms(2,3,4,7,6) this, folded os1_def]
  note lost = cuda_lost [OF assms(11), folded left(2)]
  have find: "map_find (co_plans (co os1)) j = Some r" using assms(12) by (simp add: lost(3))
  have "\<not> stage_live (co_snap (co os1)) g" using assms(14) lost(5) by (simp add: stage_live_def)
  then have stale: "\<not> rv_ok (revalidatePlan (pr_plan r) (co_snap (co os1)))"
    unfolding revalidatePlan_iff plan_current_def using assms(13) by blast
  have kc: "kc \<in> socks - {kw}" using assms(9,10) by simp
  note att = laws_connect(6) [OF assms(1) kc, of q "[]" "owned(pid := None)"]
  obtain os2 where rev: "client_revalidate (put kc) (get kc) (Some ?c) j os1 = Some (Inr False, os2)"
    "mode os2 = Running q [] (owned(pid := None)) (socks - {kw})" "co os2 = set_plan_state j ?x (co os1)"
    by (rule told_stale [OF att left(1) con find stale])
  have find2: "map_find (co_plans (co os2)) j = Some (r\<lparr>pr_state := ?x\<rparr>)" using find_set_state [OF find] by (simp add: rev(3))
  have stale2: "\<not> rv_ok (revalidatePlan (pr_plan (r\<lparr>pr_state := ?x\<rparr>)) (co_snap (co os2)))" using stale by (simp add: rev(3))
  obtain os3 where hand: "client_executionHandoff (put kc) (get kc) (Some ?c) j os2 = Some (Inr False, os3)"
    "mode os3 = Running q [] (owned(pid := None)) (socks - {kw})" "co os3 = set_plan_state j ?x (co os2)"
    by (rule told_no_handoff [OF att rev(2) con find2 stale2])
  have find3: "map_find (co_plans (co os3)) j = Some (r\<lparr>pr_state := ?x\<rparr>)" using find_set_state [OF find2] by (simp add: hand(3))
  have "powerless 1000 (co os3)" using lost_powerless [OF assms(11)] by (simp add: hand(3) rev(3) left(2))
  moreover have "card (socks - {kw}) < 8" using assms(5) card_Diff1_le [of socks kw] by simp
  ultimately obtain k os4 where turned: "death_stale w put get (Some ?c) port j os3 = Some ([True, True, True, True], os4)"
    "mode os4 = Running q [Lost k] (owned(pid := None)) (socks - {kw})" "co os4 = snd (accept_connection k (co os3))"
    using stale_client_turned_away [OF assms(1) hand(2) kc _ _ find3] by (auto simp del: fun_upd_apply)
  have "replicate 7 True = [True, True, True, True, True, True, True]" by (simp add: eval_nat_numeral)
  then have "death_second w put get ps (Some ?c) port (Some pid) j os = Some (replicate 7 True, os4)"
    using assms(8) by (simp add: death_second_def client_sock_def rev(1) hand(1) turned(1) answered_flag_def child_pid_def Let_def flip: os1_def)
  moreover have "planState j (co os4) = ?x" using find3 by (simp add: turned(3) planState_def accept_connection_def)
  moreover have "(1, 1000) \<in> set (co_fenced (co os4))" using lost(1) by (simp add: turned(3) hand(3) rev(3))
  ultimately show ?thesis using turned(2) by blast
qed

text \<open>A system with a coordinator, its client on socket 2 and the worker, process 1, on socket 7.\<close>

definition worker_host :: "Coordinator \<Rightarrow> Host" where
  "worker_host st = \<lparr>hs_mode = Running 0 [] [1 \<mapsto> 7] {2, 7}, hs_net = \<lparr>nw_co = st, nw_in = (\<lambda>_. []), nw_out = (\<lambda>_. [])\<rparr>, hs_pids = 2\<rparr>"

theorem death_second_passes_witness:
  "\<exists>st j h. cuda_served st 1000 7 \<and>
     death_second host_winsock host_send host_recv host_processes (Some \<lparr>cl_sock = 2, cl_connected = True\<rparr>) 4242 (Some 1) j (worker_host st) =
       Some (replicate 7 True, h)"
proof -
  obtain p r st where p: "(\<exists>g\<in>set (plan_stages p). st_source g = 1)" "deliverable st (pl_id p) r 7" "pr_plan r = p" "cuda_served st 1000 7"
    using cuda_submitted [OF sample_cuda_served, of 1 4194304] by auto
  then obtain g where g: "g \<in> set (plan_stages (pr_plan r))" "st_source g = 1" by auto
  have host: "host_mode (worker_host st) = Running 0 [] [1 \<mapsto> 7] {2, 7}" "host_co (worker_host st) = st"
    by (simp_all add: worker_host_def host_running numbered_def net_quiet_def host_co_def)
  have find: "map_find (co_plans (host_co (worker_host st))) (pl_id p) = Some r" using p(2) by (simp add: deliverable_def host(2))
  have served: "cuda_served (host_co (worker_host st)) 1000 7" using p(4) by (simp add: host(2))
  have "CHR 0x22 \<notin> set ''worker''" by simp
  from death_second_passes [OF host_connection_laws laws_parts(1) [OF host_process_laws [OF this]] laws_parts(2) [OF host_turn_laws]
      host(1) _ _ _ _ _ _ served find g, of 1 2] p(4)
  show ?thesis by fastforce
qed

section \<open>The verdict\<close>

text \<open>
  The program returns 0 exactly when it has made all its 23 assertions and all of them held; 77 only before anything was
  started, when there is no executable of the worker.
\<close>

lemma death_verdict:
  assumes "death_main w put get ps fi argv os = Some ((code, log), os')"
  shows "code = 0 \<longleftrightarrow> log = replicate 23 True" and "code \<in> {0, 1, 2, 77}" and "code \<in> {2, 77} \<Longrightarrow> os' = os \<and> log = []"
proof -
  have run: "(code = 0 \<longleftrightarrow> log = replicate 23 True) \<and> code \<in> {0, 1}"
    if ran: "death_run w put get ps fi ctrl exe port coord os0 = Some ((code, log), os')" for ctrl exe port coord os0
  proof -
    obtain log1 log2 log3 and made :: "CommunicationPlan option" and a b c d e f g h l m n y where
      parts: "death_first ps fi a b c d = Some (log1, made, e)" "death_second w put get ps ctrl port f g e = Some (log2, h)"
      "death_third w put get ps fi ctrl exe port l m h = Some (log3, n, y)"
      and res: "code = (if list_all id (log1 @ log2 @ log3) then 0 else 1)" "log = log1 @ log2 @ log3"
      using ran by (auto simp: death_run_def Let_def split: Option.bind_splits prod.splits)
    have "length log = 23 \<or> False \<in> set log"
      using death_first_log [OF parts(1)] death_second_log [OF parts(2)] death_third_log [OF parts(3)] by (auto simp: res(2))
    moreover have "list_all id log \<longleftrightarrow> False \<notin> set log" by (simp add: list_all_iff) (metis (full_types))
    moreover have "log = replicate 23 True \<longleftrightarrow> length log = 23 \<and> False \<notin> set log"
      by (metis (full_types) in_set_replicate length_replicate replicate_eqI)
    ultimately show ?thesis using res by auto
  qed
  have "(\<exists>ctrl exe port coord os0. death_run w put get ps fi ctrl exe port coord os0 = Some ((code, log), os')) \<or>
      code \<in> {1, 2, 77} \<and> log = [] \<and> (code \<in> {2, 77} \<longrightarrow> os' = os)"
    using assms by (auto simp: death_main_def Let_def split: list.splits prod.splits if_splits)
  with run show "code = 0 \<longleftrightarrow> log = replicate 23 True" "code \<in> {0, 1, 2, 77}" "code \<in> {2, 77} \<Longrightarrow> os' = os \<and> log = []"
    by fastforce+
qed

end
