(* ===== verification/Spec2Isabelle.thy ===== *)
theory Spec2Isabelle
  imports Planning_Theorems Coordinator_Theorems Coordinator_Client Evidence_Theorems Cuda_Theorems Worker_Log Plan_Gated Benchmark Death_Theorems
begin

text \<open>
  A verification development for the Communication Planner, a C++20 library and coordinator that plans
  communication between endpoints over published links, commits the resources of a plan with a
  broker, and tracks its execution.

  \<^bold>\<open>The program and its parts.\<close> Workers publish endpoints, links, capacities and congestion to a
  coordinator (\<open>src/coordinator.cpp\<close>), which keeps them in an evidence snapshot. A submitted request is
  planned against the snapshot (\<open>src/planner.cpp\<close>, \<open>src/multicast.cpp\<close>, \<open>src/collective.cpp\<close>): candidate
  routes are enumerated depth first within bounds, filtered by hard constraints
  (\<open>src/feasibility.cpp\<close>), priced (\<open>src/cost.cpp\<close>) and ranked (\<open>src/ranking.cpp\<close>), and the best route and
  its fallbacks are bound to the generations of the evidence used. A plan is committed with a resource
  broker (\<open>adapters/broker.hpp\<close>), revalidated against newer evidence (\<open>src/revalidation.cpp\<close>), handed to
  the worker that owns the source, and moves through the states of \<open>src/lifecycle.cpp\<close>. The coordinator
  saves its plans in a checksummed file (\<open>src/persistence.cpp\<close>) and speaks a framed protocol
  (\<open>src/protocol.cpp\<close>) over TCP (\<open>src/transport/tcp.hpp\<close>) with its clients. The worker processes
  (\<open>apps/worker_main.cpp\<close>, \<open>cuda/cuda_worker_main.cu\<close>) are such clients: they publish the evidence, and the
  CUDA worker executes the plans it is ordered to.

  \<^bold>\<open>Theories and sources.\<close>
  \<^item> \<open>Prelude\<close>: ordered maps and sets (\<open>std::map\<close>, \<open>std::set\<close>) as sorted lists behind the locale
    \<open>ordered_map\<close>, stable sorting behind \<open>strict_weak_order\<close>, enumerations behind \<open>enumeration\<close>.
  \<^item> \<open>Doubles\<close>: binary64 values as bit patterns with their comparisons, and rounding to nearest even.
  \<^item> \<open>Core_Types\<close>, \<open>Data_Model\<close>: \<open>core/\<close> and \<open>model/\<close>, \<open>planner/snapshot.hpp\<close>, \<open>planner/limits.hpp\<close>.
    Identities and generations are 64-bit words; structures are records with the fields of the source.
  \<^item> \<open>Feasibility_Filter\<close>, \<open>Cost_Model\<close>, \<open>Ranking\<close>, \<open>Path_Enumeration\<close>, \<open>Plan_Building\<close>, \<open>Multicast\<close>,
    \<open>Collective\<close>, \<open>Planner\<close>, \<open>Revalidation\<close>: the source files of those names. Exceptions are values of
    \<open>cp_exception\<close> on the left of a sum; the process-wide counters are passed explicitly.
  \<^item> \<open>Sample_Evidence\<close>, \<open>Planning_Theorems\<close>: a concrete network, and the theorems about planning.
  \<^item> \<open>Lifecycle\<close>, \<open>Broker\<close>: the transition table and its runs; the broker behind the locale
    \<open>resource_broker\<close>.
  \<^item> \<open>Byte_Codec\<close>: little-endian writers and readers shared by the two formats, behind the locales
    \<open>codec\<close>, \<open>exact_codec\<close> and \<open>reader_codec\<close>, and the FNV-1a checksum.
  \<^item> \<open>Store_Format\<close>, \<open>Persistence\<close>: \<open>serializeStore\<close>, \<open>parseStore\<close> with every error code, \<open>validateStore\<close>,
    \<open>conservativeRecovery\<close>.
  \<^item> \<open>Protocol\<close>: messages and frames. \<open>Stream_Transport\<close>: the loops over \<open>recv\<close> and \<open>send\<close> and the framing.
  \<^item> \<open>Coordinator\<close>: the server's state as the record \<open>Coordinator\<close>, one function per message handler, the
    commit in its three critical sections, connections, start from a store.
    \<open>Coordinator_Invariants\<close>: the step relation \<open>coordinator_step\<close> with commits in flight, reachability,
    invariants, and the locale \<open>authority_registry\<close>. \<open>Coordinator_Theorems\<close>: what follows from them.
  \<^item> \<open>Coordinator_Client\<close>: the client's exchange of a request and its reply, and its methods.
  \<^item> \<open>Cost_Bounds\<close>: how far exponents grow in the sums of \<open>Cost_Model\<close>. \<open>Planned_Stores\<close>, \<open>Stored_Plans\<close>: the
    planner and the stores together. \<open>Chosen_Route\<close>: which route a plan takes, by the costs of the routes.
    \<open>Double_Evaluation\<close>: the costs of concrete routes, evaluated to the last bit.
  \<^item> \<open>Evidence_Invariants\<close>, \<open>Evidence_Theorems\<close>: what the snapshot of a reachable coordinator is like, and what
    becomes of plans when the evidence changes.
  \<^item> \<open>Sockets\<close>: \<open>connectTo\<close>, \<open>Listener\<close>, the start of the server, the connection of the client, \<open>waitConnect\<close> and
    \<open>freePort\<close>, over a record \<open>Winsock\<close> of the system calls. \<open>Network\<close>: the promise of a
    connection to a coordinator (\<open>attached\<close>), and a network of byte queues that keeps it.
  \<^item> \<open>Workers\<close>: \<open>apps/worker_main.cpp\<close> and \<open>apps/coordinator_main.cpp\<close>. \<open>Cuda_Worker\<close>: \<open>cuda/cuda_worker_main.cu\<close>
    with the kernel thread by thread, over a record \<open>Cuda\<close> of the calls of the runtime; \<open>device_works\<close> says what
    these calls do on a device with memory enough. \<open>Cuda_Theorems\<close>: the CUDA worker and the coordinator
    together, from submission to the result. \<open>Worker_Log\<close>: the evidence file of the worker and
    its reader. \<open>Plan_Gated\<close>: \<open>cuda/cuda_plan_gated_proof.cu\<close> as a whole.
  \<^item> \<open>Inspector\<close>: \<open>tools/cp_inspect.cpp\<close>. \<open>Example_Programs\<close>: \<open>examples/basic.cpp\<close> and \<open>downstream/main.cpp\<close>.
    \<open>Benchmark\<close>: \<open>benchmarks/bench.cpp\<close>, without its clock.
  \<^item> \<open>Multiprocess\<close>: \<open>apps/proof_main.cpp\<close> as a whole, over a record \<open>Processes\<close> of the calls that create and end
    processes, sleep and remove a file. \<open>Process_System\<close>: what the program relies on of these calls and of the
    connections, and a system that provides it. \<open>Multiprocess_Plans\<close>: the plans it is answered with.
    \<open>Multiprocess_Dialogue\<close>: its exchanges with the coordinator. \<open>Multiprocess_Theorems\<close>: the run.
  \<^item> \<open>Death_Proof\<close>: \<open>apps/cuda_worker_death_proof.cpp\<close> as a whole, with the two calls that look at files as
    parameters. \<open>Death_Theorems\<close>: its second scenario on such a system, and what its exit code means.

  \<^bold>\<open>What the theorems show.\<close>
  \<^item> Planning: a successful plan executes a feasible candidate that no other beats; while the candidate
    bound is not reached, planning succeeds exactly when some simple route satisfies every hard
    constraint; enumeration, filter, ranking, multicast and collective planning are characterised
    exactly, and so are the exceptions; the order of publication does not matter; a fresh plan
    revalidates, and revalidation succeeds exactly for plans whose bound evidence is current; costs are
    never negative or NaN, and finite for all weights up to \<open>2 ^ 900\<close>.
  \<^item> State and resources: settled plans stay settled, runs between revalidations are bounded, broker
    acquisition is all or nothing and is undone by release.
  \<^item> Evidence: the snapshot of a reachable coordinator is well-formed; what was published under a fenced
    boot is useless for good; news about a link invalidate the plans made before.
  \<^item> Formats: stores and messages survive a round trip; truncation and damage to one byte are detected;
    what is accepted is intact and well-formed; validation is characterised exactly; recovery leaves no
    plan executable; a plan the planner makes is read back from a store as it was, but for committed
    plans without staging; the inspector tells intact stores from damaged ones. Frames cross a stream however the system calls split the bytes.
  \<^item> Coordinator: the invariant holds in every reachable state; fenced boots and cancelled requests are
    dead forever, also against commits in flight; registration refines an abstract registry of
    authorities; an undisturbed commit is exact; a restart recovers conservatively; every message is
    answered; and the client reports what happened.
  \<^item> Processes: sockets are accounted for on every path; the sessions of workers make requests feasible,
    their loss makes them infeasible, and only a new boot brings them back; a request over the evidence
    of a CUDA worker is carried out from submission to the result of the execution; what the worker
    reports of the device is true, in the message and in its evidence file; the plan-gated proof
    passes on a device that works, and the multi-process proof on a system that runs its processes; on such
    a system the death of the CUDA worker has the consequences that the worker death proof asserts.
  \<^item> Programs: the example and the downstream program print what they announce, costs included; the
    benchmark plans successfully at every scale.

  \<^bold>\<open>Concurrency.\<close> Handlers run under one mutex and are single steps. A commit releases the mutex while it
    asks the broker, so it is three steps, and any number of commits may be between their steps while
    other messages, connections and losses of connections happen. The broker's operations are taken as
    atomic, which the code does not ensure. A thread handles its messages in order; the step relation
    allows more interleavings than that.

  \<^bold>\<open>Bounds and termination.\<close> Every definition is total but \<open>writeAll\<close>, which is a partial function because
    a \<open>send\<close> that takes nothing is repeated for ever, what calls it, and the loop of the CUDA worker, which
    may serve for ever; that \<open>writeAll\<close> ends on a stream that makes progress is proved. The depth-first
    search ends by the depth bound and the adjacency lists, reading by the bytes still missing. No fuel
    is used. Format limits (\<open>kMaxCount\<close>, \<open>kMaxFramePayload\<close>) are those of the source and appear as hypotheses
    of the round trips.

  \<^bold>\<open>Parameters.\<close> The system calls of the sockets and the calls of the CUDA runtime are arguments. What is
    relied on of them is stated as \<open>socket_laws\<close>, \<open>attached\<close> and \<open>device_works\<close>, and for processes as
    \<open>connection_laws\<close>, \<open>process_laws\<close> with \<open>ending_laws\<close>, and \<open>turn_laws\<close> with \<open>nap_laws\<close>, each with an instance.

  \<^bold>\<open>Not modelled.\<close> Tests, the clock of the benchmark, console output other than that of the examples and the
    inspector, thread start and join, and failures to write the store file. Of the worker death proof the
    program is modelled; that its first and third scenario pass is shown for the coordinator and the
    worker together, not for a system of processes that interleaves them with the program.
\<close>

end
